(* ===== verification/Prelude.thy ===== *)
theory Prelude
  imports Main "HOL-Library.Multiset" "HOL-Library.Sublist" "HOL-Library.List_Lexorder" "HOL-Library.Char_ord"
begin

text \<open>
  Shared vocabulary of the development: the types every component uses (Go string maps, results
  of fallible calls), the proof-hint collections, and the generic list lemmas that the component
  theories rely on.
\<close>

text \<open>A Go \<open>map[string]string\<close>.  A nil map and an empty one are the same value here: the
  code only ranges over them, looks keys up and takes their length.\<close>
type_synonym smap = "string \<rightharpoonup> string"

text \<open>The Go convention \<open>(value, error)\<close>: the left side is the error.\<close>
type_synonym 'a result = "string + 'a"

abbreviation Ok :: "'a \<Rightarrow> 'a result" where "Ok x \<equiv> Inr x"

abbreviation Err :: "string \<Rightarrow> 'a result" where "Err e \<equiv> Inl e"

text \<open>What an external call does: it works, it fails without effect, or its effect happens and the
  acknowledgement is lost.\<close>
datatype fault = Works | Fails | LostAck

named_theorems store_simps \<open>effect of the store operations on the fields of the world\<close>
named_theorems link_simps \<open>fields that a row update leaves alone\<close>

lemma sum_case_Inl_iff: "(case r of Inl e \<Rightarrow> True | Inr x \<Rightarrow> False) = (\<exists>e. r = Inl e)"
  by (cases r) auto

text \<open>The first index of an element satisfying a predicate: the \<open>for i, x := range xs\<close> search with
  a \<open>break\<close>; \<open>None\<close> is the code's index -1.\<close>
fun find_index :: "('a \<Rightarrow> bool) \<Rightarrow> 'a list \<Rightarrow> nat option" where
  "find_index P [] = None"
| "find_index P (x # xs) = (if P x then Some 0 else map_option Suc (find_index P xs))"

lemma find_index_None: "find_index P xs = None \<longleftrightarrow> (\<forall>x \<in> set xs. \<not> P x)"
  by (induction xs) auto

lemma find_index_Some:
  "find_index P xs = Some i \<Longrightarrow> i < length xs \<and> P (xs ! i) \<and> (\<forall>j < i. \<not> P (xs ! j))"
proof (induction xs arbitrary: i)
  case (Cons x xs)
  show ?case
  proof (cases "P x")
    case False
    then obtain k where "find_index P xs = Some k" "i = Suc k"
      using Cons.prems by auto
    with Cons.IH[of k] False show ?thesis
      by (auto simp: less_Suc_eq_0_disj nth_Cons split: nat.splits)
  qed (use Cons.prems in auto)
qed simp

lemma find_index_nth_distinct:
  "distinct (map f xs) \<Longrightarrow> i < length xs \<Longrightarrow> find_index (\<lambda>x. f x = f (xs ! i)) xs = Some i"
proof (induction xs arbitrary: i)
  case (Cons x xs)
  show ?case
  proof (cases i)
    case (Suc k)
    with Cons.prems have "f x \<noteq> f (xs ! k)" by auto
    with Cons Suc show ?thesis by auto
  qed simp
qed simp

text \<open>Updating the one element with a given key is a list update at its position.\<close>
lemma map_if_key_update:
  assumes "distinct (map key xs)" "i < length xs"
  shows "map (\<lambda>x. if key x = key (xs ! i) then f x else x) xs = xs[i := f (xs ! i)]"
proof (rule nth_equalityI)
  fix j assume j: "j < length (map (\<lambda>x. if key x = key (xs ! i) then f x else x) xs)"
  then have "key (xs ! j) = key (xs ! i) \<longleftrightarrow> j = i"
    using assms nth_eq_iff_index_eq[OF assms(1), of j i] by simp
  then show "map (\<lambda>x. if key x = key (xs ! i) then f x else x) xs ! j = xs[i := f (xs ! i)] ! j"
    using j assms by (auto simp: nth_list_update)
qed simp

lemma list_split_at:
  "i < length xs \<Longrightarrow> xs = take i xs @ xs ! i # drop (Suc i) xs"
  by (rule id_take_nth_drop)

lemma filter_map_commute:
  "(\<And>x. P (f x) = P x) \<Longrightarrow> filter P (map f xs) = map f (filter P xs)"
  by (induction xs) auto

lemma mem_take_nth: "x \<in> set (take i xs) \<Longrightarrow> \<exists>j < i. j < length xs \<and> x = xs ! j"
  by (auto simp: in_set_conv_nth)

lemma mem_drop_nth: "x \<in> set (drop i xs) \<Longrightarrow> \<exists>j \<ge> i. j < length xs \<and> x = xs ! j"
  by (auto simp: in_set_conv_nth) (metis add.commute le_add1 less_diff_conv)

text \<open>Assigning through the pointer \<open>xs[len(xs)-1]\<close>.\<close>
definition mapLast :: "('a \<Rightarrow> 'a) \<Rightarrow> 'a list \<Rightarrow> 'a list" where
  "mapLast f xs = (if xs = [] then [] else butlast xs @ [f (last xs)])"

lemma mapLast_Nil [simp]: "mapLast f xs = [] \<longleftrightarrow> xs = []"
  by (simp add: mapLast_def)

lemma last_mapLast: "xs \<noteq> [] \<Longrightarrow> last (mapLast f xs) = f (last xs)"
  by (simp add: mapLast_def)

end
