(* ===== verification/Trax_Types.thy ===== *)
theory Trax_Types
  imports Prelude
begin

text \<open>
  The data model of \<open>pkg/trax/const.go\<close> and \<open>pkg/trax/types.go\<close>: the life-cycle enumerations with
  their wire strings, and the records for clusters, templates, saga and step instances, execution
  logs and annexes.  Times are milliseconds in an unbounded \<open>int\<close>.
\<close>

section \<open>Enumerations (const.go)\<close>

datatype SagaStateEnum =
    SagaStateEnum_Unknown
  | SagaStateEnum_Running
  | SagaStateEnum_Committed
  | SagaStateEnum_Compensated
  | SagaStateEnum_Blocked
  | SagaStateEnum_InvalidState
  | SagaStateEnum_CompensationRequested
  | SagaStateEnum_Paused
  | SagaStateEnum_Cancelled

fun sagaStateString :: "SagaStateEnum \<Rightarrow> string" where
  "sagaStateString SagaStateEnum_Unknown = ''UNKNOWN''"
| "sagaStateString SagaStateEnum_Running = ''SAGA_STATE_ENUM_RUNNING''"
| "sagaStateString SagaStateEnum_Committed = ''SAGA_STATE_ENUM_COMMITTED''"
| "sagaStateString SagaStateEnum_Compensated = ''SAGA_STATE_ENUM_COMPENSATED''"
| "sagaStateString SagaStateEnum_Blocked = ''SAGA_STATE_ENUM_BLOCKED''"
| "sagaStateString SagaStateEnum_InvalidState = ''SAGA_STATE_ENUM_INVALID_STATE''"
| "sagaStateString SagaStateEnum_CompensationRequested = ''SAGA_STATE_ENUM_COMPENSATION_REQUESTED''"
| "sagaStateString SagaStateEnum_Paused = ''SAGA_STATE_ENUM_PAUSED''"
| "sagaStateString SagaStateEnum_Cancelled = ''SAGA_STATE_ENUM_CANCELLED''"

datatype SagaStepStateEnum =
    SagaStepStateEnum_Unknown
  | SagaStepStateEnum_ExecutionPending
  | SagaStepStateEnum_ExecutionCandidate
  | SagaStepStateEnum_ExecutionRunning
  | SagaStepStateEnum_ExecutionSucceeded
  | SagaStepStateEnum_ExecutionDone
  | SagaStepStateEnum_ExecutionFailed
  | SagaStepStateEnum_ExecutionBlocked
  | SagaStepStateEnum_ExecutionAborted
  | SagaStepStateEnum_CompensationPending
  | SagaStepStateEnum_CompensationCandidate
  | SagaStepStateEnum_CompensationRunning
  | SagaStepStateEnum_CompensationSucceeded
  | SagaStepStateEnum_CompensationDone
  | SagaStepStateEnum_CompensationFailed
  | SagaStepStateEnum_CompensationBlocked

fun sagaStepStateString :: "SagaStepStateEnum \<Rightarrow> string" where
  "sagaStepStateString SagaStepStateEnum_Unknown = ''UNKNOWN''"
| "sagaStepStateString SagaStepStateEnum_ExecutionPending = ''SAGA_STEP_STATE_ENUM_EXECUTION_PENDING''"
| "sagaStepStateString SagaStepStateEnum_ExecutionCandidate = ''SAGA_STEP_STATE_ENUM_EXECUTION_CANDIDATE''"
| "sagaStepStateString SagaStepStateEnum_ExecutionRunning = ''SAGA_STEP_STATE_ENUM_EXECUTION_RUNNING''"
| "sagaStepStateString SagaStepStateEnum_ExecutionSucceeded = ''SAGA_STEP_STATE_ENUM_EXECUTION_SUCCEEDED''"
| "sagaStepStateString SagaStepStateEnum_ExecutionDone = ''SAGA_STEP_STATE_ENUM_EXECUTION_DONE''"
| "sagaStepStateString SagaStepStateEnum_ExecutionFailed = ''SAGA_STEP_STATE_ENUM_EXECUTION_FAILED''"
| "sagaStepStateString SagaStepStateEnum_ExecutionBlocked = ''SAGA_STEP_STATE_ENUM_EXECUTION_BLOCKED''"
| "sagaStepStateString SagaStepStateEnum_ExecutionAborted = ''SAGA_STEP_STATE_ENUM_EXECUTION_ABORTED''"
| "sagaStepStateString SagaStepStateEnum_CompensationPending = ''SAGA_STEP_STATE_ENUM_COMPENSATION_PENDING''"
| "sagaStepStateString SagaStepStateEnum_CompensationCandidate = ''SAGA_STEP_STATE_ENUM_COMPENSATION_CANDIDATE''"
| "sagaStepStateString SagaStepStateEnum_CompensationRunning = ''SAGA_STEP_STATE_ENUM_COMPENSATION_RUNNING''"
| "sagaStepStateString SagaStepStateEnum_CompensationSucceeded = ''SAGA_STEP_STATE_ENUM_COMPENSATION_SUCCEEDED''"
| "sagaStepStateString SagaStepStateEnum_CompensationDone = ''SAGA_STEP_STATE_ENUM_COMPENSATION_DONE''"
| "sagaStepStateString SagaStepStateEnum_CompensationFailed = ''SAGA_STEP_STATE_ENUM_COMPENSATION_FAILED''"
| "sagaStepStateString SagaStepStateEnum_CompensationBlocked = ''SAGA_STEP_STATE_ENUM_COMPENSATION_BLOCKED''"

text \<open>The status of an execution result comes off the wire, so it can be any string: the last
  constructor holds the strings that are none of the constants.\<close>
datatype ExecutionResultStatusEnum =
    ExecutionResultStatusEnum_Unknown
  | ExecutionResultStatusEnum_Success
  | ExecutionResultStatusEnum_InExecution
  | ExecutionResultStatusEnum_Failed
  | ExecutionResultStatusEnum_Retry
  | ExecutionResultStatusEnum_Error
  | ExecutionResultStatusEnum_Other string

fun executionResultStatusString :: "ExecutionResultStatusEnum \<Rightarrow> string" where
  "executionResultStatusString ExecutionResultStatusEnum_Unknown = ''UNKNOWN''"
| "executionResultStatusString ExecutionResultStatusEnum_Success = ''EXECUTION_RESULT_STATUS_ENUM_SUCCESS''"
| "executionResultStatusString ExecutionResultStatusEnum_InExecution = ''EXECUTION_RESULT_STATUS_ENUM_IN_EXECUTION''"
| "executionResultStatusString ExecutionResultStatusEnum_Failed = ''EXECUTION_RESULT_STATUS_ENUM_FAILED''"
| "executionResultStatusString ExecutionResultStatusEnum_Retry = ''EXECUTION_RESULT_STATUS_ENUM_RETRY''"
| "executionResultStatusString ExecutionResultStatusEnum_Error = ''EXECUTION_RESULT_STATUS_ENUM_ERROR''"
| "executionResultStatusString (ExecutionResultStatusEnum_Other s) = s"

section \<open>Records (types.go)\<close>

record Cluster =
  Cl_Id :: string
  Cl_DisplayName :: string
  Cl_Description :: string
  Cl_Labels :: smap
  Cl_Tags :: "string list"
  Cl_Metadata :: smap

record SagaTemplate =
  St_TemplateId :: string
  St_DisplayName :: string
  St_Description :: string
  St_Labels :: smap
  St_Tags :: "string list"
  St_Metadata :: smap
  St_SagaStepTemplateIds :: "string list"

record SagaStepTemplate =
  Sst_TemplateId :: string
  Sst_SagaTemplateId :: string
  Sst_DisplayName :: string
  Sst_Description :: string
  Sst_Labels :: smap
  Sst_Tags :: "string list"
  Sst_Metadata :: smap

record SagaInstance =
  Si_InstanceId :: string
  Si_ClusterId :: string
  Si_ZoneId :: string
  Si_TraceId :: string
  Si_ExecutionId :: string
  Si_SagaSubmitterId :: string
  Si_Origin :: string
  Si_OriginIdempotencyKey :: string
  Si_Labels :: smap
  Si_Tags :: "string list"
  Si_Metadata :: smap
  Si_State :: SagaStateEnum
  Si_SagaTemplateId :: string
  Si_Input :: smap
  Si_SagaInstanceIds :: "string list"
  Si_ParentSagaInstanceId :: string
  Si_ParentSagaStepInstanceId :: string
  Si_RootSagaInstanceId :: string
  Si_SagaDepth :: int
  Si_CompensationReason :: string
  Si_AnnexIids :: "string list"
  Si_CreatedAt :: int
  Si_UpdatedAt :: int

record SagaAnnex =
  An_Iid :: string
  An_ClusterId :: string
  An_SagaInstanceId :: string
  An_ContentType :: string
  An_ContentLength :: int
  An_Notes :: string
  An_ContentData :: string
  An_CreatedAt :: int
  An_UpdatedAt :: int

record SagaStepExecutionLog =
  NextExecutionTs :: int
  ExecutionRequestSentTs :: int
  ExecutionTimeoutTs :: int
  ExecutionResultReceivedTs :: int
  LogConclusionTs :: int
  ExecutionResult :: smap
  ExecutionError :: string
  IsCompensation :: bool
  Log_Metadata :: smap

record SagaStepInstance =
  Ss_InstanceId :: string
  Ss_ClusterId :: string
  Ss_ZoneId :: string
  Ss_SagaInstanceId :: string
  Ss_TraceId :: string
  Ss_ExecutionId :: string
  Ss_Labels :: smap
  Ss_Tags :: "string list"
  Ss_Metadata :: smap
  Ss_Affinity :: string
  Ss_State :: SagaStepStateEnum
  Ss_Result :: smap
  Ss_CompensationResult :: smap
  Ss_SagaTemplateId :: string
  Ss_SagaStepTemplateId :: string
  Ss_PreviousSagaStepInstanceId :: string
  Ss_NextSagaStepInstanceId :: string
  Ss_ExecutionHistory :: "SagaStepExecutionLog list"
  Ss_CreatedAt :: int
  Ss_UpdatedAt :: int

section \<open>The wire strings identify the states\<close>

lemma sagaStateString_inj: "sagaStateString a = sagaStateString b \<longleftrightarrow> a = b"
  by (cases a; cases b) simp_all

lemma sagaStepStateString_inj: "sagaStepStateString a = sagaStepStateString b \<longleftrightarrow> a = b"
  by (cases a; cases b) simp_all

text \<open>The zero values of the two instance records.\<close>
definition zeroSagaInstance :: SagaInstance where
  "zeroSagaInstance =
     \<lparr>Si_InstanceId = '''', Si_ClusterId = '''', Si_ZoneId = '''', Si_TraceId = '''', Si_ExecutionId = '''',
      Si_SagaSubmitterId = '''', Si_Origin = '''', Si_OriginIdempotencyKey = '''', Si_Labels = Map.empty,
      Si_Tags = [], Si_Metadata = Map.empty, Si_State = SagaStateEnum_Unknown, Si_SagaTemplateId = '''',
      Si_Input = Map.empty, Si_SagaInstanceIds = [], Si_ParentSagaInstanceId = '''',
      Si_ParentSagaStepInstanceId = '''', Si_RootSagaInstanceId = '''', Si_SagaDepth = 0,
      Si_CompensationReason = '''', Si_AnnexIids = [], Si_CreatedAt = 0, Si_UpdatedAt = 0\<rparr>"

definition zeroStepInstance :: SagaStepInstance where
  "zeroStepInstance =
     \<lparr>Ss_InstanceId = '''', Ss_ClusterId = '''', Ss_ZoneId = '''', Ss_SagaInstanceId = '''', Ss_TraceId = '''',
      Ss_ExecutionId = '''', Ss_Labels = Map.empty, Ss_Tags = [], Ss_Metadata = Map.empty, Ss_Affinity = '''',
      Ss_State = SagaStepStateEnum_Unknown, Ss_Result = Map.empty, Ss_CompensationResult = Map.empty,
      Ss_SagaTemplateId = '''', Ss_SagaStepTemplateId = '''', Ss_PreviousSagaStepInstanceId = '''',
      Ss_NextSagaStepInstanceId = '''', Ss_ExecutionHistory = [], Ss_CreatedAt = 0, Ss_UpdatedAt = 0\<rparr>"

end
