(* ===== verification/Trax_Naming.thy ===== *)
theory Trax_Naming
  imports Trax_Types
begin

text \<open>
  The names of \<open>pkg/trax/common.go\<close>: idempotency keys, the topic exchange, routing and binding keys
  and queue names, with AMQP topic matching for the two binding patterns the code uses, and the
  case-masked table names of \<open>store_psql.go\<close>.
\<close>

section \<open>Keys and queue names (common.go)\<close>

definition getSagaIdempotencyKey :: "string \<Rightarrow> string \<Rightarrow> string \<Rightarrow> string \<Rightarrow> string" where
  "getSagaIdempotencyKey clusterId zoneId sagaTemplateId sagaInstanceId =
     ''sidk:'' @ clusterId @ ''.'' @ zoneId @ ''.'' @ sagaTemplateId @ ''.'' @ sagaInstanceId"

definition getSagaStepIdempotencyKey ::
    "string \<Rightarrow> string \<Rightarrow> string \<Rightarrow> string \<Rightarrow> string \<Rightarrow> string" where
  "getSagaStepIdempotencyKey clusterId zoneId sagaTemplateId sagaStepTemplateId sagaInstanceId =
     ''ssidk:'' @ clusterId @ ''.'' @ zoneId @ ''.'' @ sagaTemplateId @ ''.'' @
     sagaStepTemplateId @ ''.'' @ sagaInstanceId"

definition SagaInstance_SagaIdempotencyKey :: "SagaInstance \<Rightarrow> string" where
  "SagaInstance_SagaIdempotencyKey si =
     getSagaIdempotencyKey (Si_ClusterId si) (Si_ZoneId si) (Si_SagaTemplateId si) (Si_InstanceId si)"

definition SagaStepInstance_SagaIdempotencyKey :: "SagaStepInstance \<Rightarrow> string" where
  "SagaStepInstance_SagaIdempotencyKey ssi =
     getSagaStepIdempotencyKey (Ss_ClusterId ssi) (Ss_ZoneId ssi) (Ss_SagaTemplateId ssi)
       (Ss_SagaStepTemplateId ssi) (Ss_InstanceId ssi)"

definition getStepTopicExchangeName :: "string \<Rightarrow> string" where
  "getStepTopicExchangeName clusterId = ''x_'' @ clusterId @ ''_trax_saga_steps''"

definition getStepRequestRoutingKey :: "string \<Rightarrow> string \<Rightarrow> string \<Rightarrow> string \<Rightarrow> string" where
  "getStepRequestRoutingKey clusterId affinityGroup sagaTemplateId sagaStepTemplateId =
     clusterId @ ''.'' @ affinityGroup @ ''.'' @ sagaTemplateId @ ''.'' @ sagaStepTemplateId @ ''.request''"

definition getStepResponseRoutingKey :: "string \<Rightarrow> string \<Rightarrow> string \<Rightarrow> string \<Rightarrow> string" where
  "getStepResponseRoutingKey clusterId affinityGroup sagaTemplateId sagaStepTemplateId =
     clusterId @ ''.'' @ affinityGroup @ ''.'' @ sagaTemplateId @ ''.'' @ sagaStepTemplateId @ ''.response''"

definition getExecutorInboxBindingKey :: "string \<Rightarrow> string \<Rightarrow> string \<Rightarrow> string" where
  "getExecutorInboxBindingKey clusterId sagaTemplateId sagaStepTemplateId =
     clusterId @ ''.*.'' @ sagaTemplateId @ ''.'' @ sagaStepTemplateId @ ''.request''"

definition getCoordinatorResultsBindingKey :: "string \<Rightarrow> string \<Rightarrow> string" where
  "getCoordinatorResultsBindingKey clusterId affinityGroup =
     clusterId @ ''.'' @ affinityGroup @ ''.*.*.response''"

definition getExecutorInboxQueueName :: "string \<Rightarrow> string \<Rightarrow> string \<Rightarrow> string" where
  "getExecutorInboxQueueName clusterId sagaTemplateId sagaStepTemplateId =
     ''q_'' @ clusterId @ ''_trax_executor_'' @ sagaTemplateId @ ''_'' @ sagaStepTemplateId @ ''_inbox''"

definition getCoordinatorResultsQueueName :: "string \<Rightarrow> string \<Rightarrow> string" where
  "getCoordinatorResultsQueueName clusterId affinityGroup =
     ''q_'' @ clusterId @ ''_trax_coordinator_'' @ affinityGroup @ ''_results''"

text \<open>Nodes: a key names an exchange on the publishing side and a queue on the consuming side
  (\<open>GetExchangeNameByKey\<close> and \<open>GetQueueNameByKey\<close> of \<open>pkg/mq/common/helpers.go\<close>).\<close>
definition GetPublishNodeName :: "string \<Rightarrow> string" where
  "GetPublishNodeName key = ''x_'' @ key"

definition GetSubscribeNodeName :: "string \<Rightarrow> string" where
  "GetSubscribeNodeName key = ''q_'' @ key"

definition sagaSubmitterInboxKey :: "string \<Rightarrow> string \<Rightarrow> string" where
  "sagaSubmitterInboxKey clusterId sagaSubmitterId =
     clusterId @ ''_traxcoord_saga_submitter_'' @ sagaSubmitterId @ ''_inbox''"

definition sagaSubmitterOutboxKey :: "string \<Rightarrow> string \<Rightarrow> string" where
  "sagaSubmitterOutboxKey clusterId sagaSubmitterId =
     clusterId @ ''_traxcoord_saga_submitter_'' @ sagaSubmitterId @ ''_outbox''"

definition controlBusKey :: "string \<Rightarrow> string" where
  "controlBusKey clusterId = clusterId @ ''_trax_coordinators_control_bus''"

definition controlInboxKey :: "string \<Rightarrow> string \<Rightarrow> string" where
  "controlInboxKey clusterId affinityGroup =
     clusterId @ ''_trax_coordinator_'' @ affinityGroup @ ''_control_inbox''"

definition eventBusKey :: "string \<Rightarrow> string" where
  "eventBusKey clusterId = clusterId @ ''_trax_event_bus''"

definition getSagaSubmitterInboxNodeNames :: "string \<Rightarrow> string \<Rightarrow> string \<times> string" where
  "getSagaSubmitterInboxNodeNames clusterId sagaSubmitterId =
     (GetPublishNodeName (sagaSubmitterInboxKey clusterId sagaSubmitterId),
      GetSubscribeNodeName (sagaSubmitterInboxKey clusterId sagaSubmitterId))"

definition getSagaSubmitterOutboxNodeNames :: "string \<Rightarrow> string \<Rightarrow> string \<times> string" where
  "getSagaSubmitterOutboxNodeNames clusterId sagaSubmitterId =
     (GetPublishNodeName (sagaSubmitterOutboxKey clusterId sagaSubmitterId),
      GetSubscribeNodeName (sagaSubmitterOutboxKey clusterId sagaSubmitterId))"

definition getControlBusPublishNodeName :: "string \<Rightarrow> string" where
  "getControlBusPublishNodeName clusterId = GetPublishNodeName (controlBusKey clusterId)"

definition getControlSubscribeNodeNameByAffinity :: "string \<Rightarrow> string \<Rightarrow> string" where
  "getControlSubscribeNodeNameByAffinity clusterId affinityGroup =
     GetSubscribeNodeName (controlInboxKey clusterId affinityGroup)"

definition getEventBusNodeNames :: "string \<Rightarrow> string \<times> string" where
  "getEventBusNodeNames clusterId =
     (GetPublishNodeName (eventBusKey clusterId), GetSubscribeNodeName (eventBusKey clusterId))"

section \<open>Topic matching\<close>

text \<open>How the AMQP broker routes: keys are split at dots and \<open>*\<close> matches exactly one word (the
  code's patterns never use \<open>#\<close>).\<close>

fun splitDots :: "string \<Rightarrow> string list" where
  "splitDots [] = [[]]"
| "splitDots (c # cs) =
     (if c = CHR ''.'' then [] # splitDots cs
      else (case splitDots cs of [] \<Rightarrow> [[c]] | w # ws \<Rightarrow> (c # w) # ws))"

definition topicMatches :: "string \<Rightarrow> string \<Rightarrow> bool" where
  "topicMatches pattern key =
     list_all2 (\<lambda>p w. p = ''*'' \<or> p = w) (splitDots pattern) (splitDots key)"

lemma splitDots_not_Nil [simp]: "splitDots s \<noteq> []"
  by (induction s) (auto split: list.splits)

lemma splitDots_nodot: "CHR ''.'' \<notin> set s \<Longrightarrow> splitDots s = [s]"
  by (induction s) auto

lemma splitDots_append_dot:
  "CHR ''.'' \<notin> set s \<Longrightarrow> splitDots (s @ CHR ''.'' # t) = s # splitDots t"
  by (induction s) auto

abbreviation dotfree :: "string \<Rightarrow> bool" where
  "dotfree s \<equiv> CHR ''.'' \<notin> set s"

lemmas routing_key_defs =
  getStepRequestRoutingKey_def getStepResponseRoutingKey_def getExecutorInboxBindingKey_def
  getCoordinatorResultsBindingKey_def

lemma split_request_key:
  "\<lbrakk> dotfree c; dotfree a; dotfree t; dotfree s \<rbrakk> \<Longrightarrow>
   splitDots (getStepRequestRoutingKey c a t s) = [c, a, t, s, ''request'']"
  by (simp add: getStepRequestRoutingKey_def splitDots_append_dot splitDots_nodot)

lemma split_response_key:
  "\<lbrakk> dotfree c; dotfree a; dotfree t; dotfree s \<rbrakk> \<Longrightarrow>
   splitDots (getStepResponseRoutingKey c a t s) = [c, a, t, s, ''response'']"
  by (simp add: getStepResponseRoutingKey_def splitDots_append_dot splitDots_nodot)

lemma split_inbox_binding:
  "\<lbrakk> dotfree c; dotfree t; dotfree s \<rbrakk> \<Longrightarrow>
   splitDots (getExecutorInboxBindingKey c t s) = [c, ''*'', t, s, ''request'']"
proof -
  assume a: "dotfree c" "dotfree t" "dotfree s"
  have "getExecutorInboxBindingKey c t s = c @ CHR ''.'' # ''*'' @ CHR ''.'' # t @ CHR ''.'' # s @ CHR ''.'' # ''request''"
    by (simp add: getExecutorInboxBindingKey_def)
  then show ?thesis
    using a by (simp only: splitDots_append_dot) (simp add: splitDots_append_dot splitDots_nodot)
qed

lemma split_results_binding:
  "\<lbrakk> dotfree c; dotfree a \<rbrakk> \<Longrightarrow>
   splitDots (getCoordinatorResultsBindingKey c a) = [c, a, ''*'', ''*'', ''response'']"
  by (simp add: getCoordinatorResultsBindingKey_def splitDots_append_dot splitDots_nodot)

lemmas split_routing_keys = split_request_key split_response_key split_inbox_binding split_results_binding

section \<open>Case-masked table names (store\_psql.go)\<close>

definition isUpperAscii :: "char \<Rightarrow> bool" where
  "isUpperAscii c = (65 \<le> (of_char c :: nat) \<and> (of_char c :: nat) \<le> 90)"

definition toLowerAscii :: "char \<Rightarrow> char" where
  "toLowerAscii c = (if isUpperAscii c then char_of ((of_char c :: nat) + 32) else c)"

text \<open>ASCII cluster ids: \<open>unicode.IsUpper\<close> and \<open>unicode.ToLower\<close> on the code points below 128.\<close>
definition transformStringWithCaseMask :: "string \<Rightarrow> string" where
  "transformStringWithCaseMask s =
     map toLowerAscii s @ ''_'' @ map (\<lambda>c. if isUpperAscii c then CHR ''u'' else CHR ''l'') s"

definition getSagaInstancesTableName :: "string \<Rightarrow> string" where
  "getSagaInstancesTableName clusterId =
     ''trax.'' @ transformStringWithCaseMask clusterId @ ''_saga_instances''"

definition getSagaStepInstancesTableName :: "string \<Rightarrow> string" where
  "getSagaStepInstancesTableName clusterId =
     ''trax.'' @ transformStringWithCaseMask clusterId @ ''_saga_step_instances''"

definition getSagaAnnexesTableName :: "string \<Rightarrow> string" where
  "getSagaAnnexesTableName clusterId =
     ''trax.'' @ transformStringWithCaseMask clusterId @ ''_saga_annexes''"

text \<open>The inverse: the mask is exactly as long as the name, so the separator is in the middle.\<close>
definition unmaskChar :: "char \<Rightarrow> char \<Rightarrow> char" where
  "unmaskChar c m = (if m = CHR ''u'' then char_of ((of_char c :: nat) - 32) else c)"

definition untransform :: "string \<Rightarrow> string" where
  "untransform t =
     (let n = (length t - 1) div 2 in map2 unmaskChar (take n t) (drop (Suc n) t))"

lemma toLower_of_char: "isUpperAscii c \<Longrightarrow> (of_char (toLowerAscii c) :: nat) = of_char c + 32"
  by (simp add: toLowerAscii_def isUpperAscii_def)

lemma unmask_toLower:
  "unmaskChar (toLowerAscii c) (if isUpperAscii c then CHR ''u'' else CHR ''l'') = c"
proof (cases "isUpperAscii c")
  case True
  then show ?thesis by (simp add: unmaskChar_def toLower_of_char)
next
  case False
  then show ?thesis by (simp add: unmaskChar_def toLowerAscii_def)
qed

lemma map2_unmask_mask:
  "map2 unmaskChar (map toLowerAscii s) (map (\<lambda>c. if isUpperAscii c then CHR ''u'' else CHR ''l'') s) = s"
proof (induction s)
  case (Cons c s)
  then show ?case using unmask_toLower[of c] by simp
qed simp

lemma untransform_transform: "untransform (transformStringWithCaseMask s) = s"
proof -
  have "(length (transformStringWithCaseMask s) - 1) div 2 = length s"
    by (simp add: transformStringWithCaseMask_def)
  then show ?thesis
    using map2_unmask_mask[of s]
    by (simp add: untransform_def transformStringWithCaseMask_def Let_def)
qed


end
