(* ===== verification/Trax_Messages.thy ===== *)
theory Trax_Messages
  imports Trax_Naming
begin

text \<open>
  The wire messages of \<open>pkg/trax/messages.go\<close> and the payload types of \<open>mq.go\<close>.  A payload's data is
  the typed body rather than its JSON text: \<open>encoding/json\<close> reads back what it wrote, and the code
  never looks at the text.  Random identifiers and the clock are arguments of the builders.
\<close>

section \<open>Payload bodies\<close>

record SagaSubmissionRequestPayload =
  Sr_SagaSubmitterId :: string
  Sr_SagaTemplateId :: string
  Sr_SagaInstanceId :: string
  Sr_ZoneId :: string
  Sr_SagaInput :: smap
  Sr_ParentSagaInstanceId :: string
  Sr_ParentSagaStepInstanceId :: string
  Sr_RootSagaInstanceId :: string
  Sr_SagaDepth :: int

text \<open>The execution request and the compensation request have the same fields.\<close>
record SagaStepRequestPayload =
  Rq_SagaSubmitterId :: string
  Rq_SagaInstanceId :: string
  Rq_SagaStepInstanceId :: string
  Rq_ZoneId :: string
  Rq_CoordinatorAffinity :: string
  Rq_Input :: smap
  Rq_Extra :: smap
  Rq_Metadata :: smap
  Rq_RootSagaInstanceId :: string
  Rq_SagaDepth :: int

record SagaStepExecutionResultPayload =
  Er_SagaSubmitterId :: string
  Er_SagaInstanceId :: string
  Er_SagaStepInstanceId :: string
  Er_ZoneId :: string
  Er_Status :: ExecutionResultStatusEnum
  Er_ExecutionResult :: smap

datatype Payload =
    MkPayload (P_Metadata: string) (P_Type: string) (P_ContentType: string) (P_Encoding: string)
              (P_Data: PayloadBody)
and PayloadBody =
    RawBody string
  | FollowSagaSubmitterBody string
  | SagaSubmissionRequestBody SagaSubmissionRequestPayload
  | SagaSubmissionFailureBody string Payload "string list" string
  | SagaSubmissionSuccessBody string Payload string
  | SagaStepExecutionRequestBody SagaStepRequestPayload
  | SagaStepCompensationRequestBody SagaStepRequestPayload
  | SagaStepExecutionResultBody SagaStepExecutionResultPayload

definition SagaPayloadType_FollowSagaSubmitter :: string where
  "SagaPayloadType_FollowSagaSubmitter = ''FOLLOW_SAGA_SUBMITTER''"
definition SagaPayloadType_SagaSubmissionRequest :: string where
  "SagaPayloadType_SagaSubmissionRequest = ''SAGA_SUBMISSION_REQUEST''"
definition SagaPayloadType_SagaSubmissionFailure :: string where
  "SagaPayloadType_SagaSubmissionFailure = ''SAGA_SUBMISSION_FAILURE''"
definition SagaPayloadType_SagaSubmissionSuccess :: string where
  "SagaPayloadType_SagaSubmissionSuccess = ''SAGA_SUBMISSION_SUCCESS''"
definition SagaPayloadType_SagaStepExecutionResult :: string where
  "SagaPayloadType_SagaStepExecutionResult = ''SAGA_STEP_EXECUTION_RESULT''"
definition SagaPayloadType_SagaStepExecutionRequest :: string where
  "SagaPayloadType_SagaStepExecutionRequest = ''SAGA_STEP_EXECUTION_REQUEST''"
definition SagaPayloadType_SagaStepCompensationRequest :: string where
  "SagaPayloadType_SagaStepCompensationRequest = ''SAGA_STEP_COMPENSATION_REQUEST''"

text \<open>\<open>NewPayloadBuilder().Type(t).Json(body).Build()\<close>\<close>
definition jsonPayload :: "string \<Rightarrow> PayloadBody \<Rightarrow> Payload" where
  "jsonPayload t body = MkPayload '''' t ''application/json'' ''utf-8'' body"

section \<open>Messages\<close>

record SessionParams =
  Sp_SessionId :: string
  Sp_AuthProvider :: string
  Sp_TokenType :: string
  Sp_Token :: string
  Sp_Identity :: string

definition anonymousSession :: SessionParams where
  "anonymousSession = \<lparr>Sp_SessionId = ''none'', Sp_AuthProvider = ''none'', Sp_TokenType = ''none'',
     Sp_Token = ''none'', Sp_Identity = ''none''\<rparr>"

definition emptySession :: SessionParams where
  "emptySession = \<lparr>Sp_SessionId = '''', Sp_AuthProvider = '''', Sp_TokenType = '''',
     Sp_Token = '''', Sp_Identity = ''''\<rparr>"

record TraxMessage =
  Tm_Type :: string
  Tm_Version :: string
  Tm_MessageId :: string
  Tm_RefMessageId :: string
  Tm_ExecutionId :: string
  Tm_RefExecutionId :: string
  Tm_TraceId :: string
  Tm_ClusterId :: string
  Tm_Timestamp :: int
  Tm_Metadata :: smap
  Tm_Tags :: "string list"
  Tm_Origin :: string
  Tm_OriginIdempotencyKey :: string
  Tm_Issuer :: string
  Tm_Submitter :: string
  Tm_SubmitterAffinityGroup :: string
  Tm_Referrer :: string
  Tm_Session :: SessionParams
  Tm_Payloads :: "Payload list"

definition NewTraxMessageBuilder :: "string \<Rightarrow> string \<Rightarrow> string \<Rightarrow> int \<Rightarrow> TraxMessage" where
  "NewTraxMessageBuilder messageId traceId executionId ts =
     \<lparr>Tm_Type = ''trax.TraxMessage'', Tm_Version = ''v1.0.0'', Tm_MessageId = messageId,
      Tm_RefMessageId = '''', Tm_ExecutionId = executionId, Tm_RefExecutionId = '''', Tm_TraceId = traceId,
      Tm_ClusterId = '''', Tm_Timestamp = ts, Tm_Metadata = Map.empty, Tm_Tags = [], Tm_Origin = '''',
      Tm_OriginIdempotencyKey = '''', Tm_Issuer = '''', Tm_Submitter = '''', Tm_SubmitterAffinityGroup = '''',
      Tm_Referrer = '''', Tm_Session = emptySession, Tm_Payloads = []\<rparr>"

definition AddPayload :: "Payload \<Rightarrow> TraxMessage \<Rightarrow> TraxMessage" where
  "AddPayload p m = m\<lparr>Tm_Payloads := Tm_Payloads m @ [p]\<rparr>"

definition AnonymousSession :: "TraxMessage \<Rightarrow> TraxMessage" where
  "AnonymousSession m = m\<lparr>Tm_Session := anonymousSession\<rparr>"

definition NewReplyMessage :: "TraxMessage \<Rightarrow> string \<Rightarrow> string \<Rightarrow> int \<Rightarrow> TraxMessage" where
  "NewReplyMessage original messageId executionId ts =
     (NewTraxMessageBuilder messageId '''' executionId ts)
       \<lparr>Tm_RefMessageId := Tm_MessageId original, Tm_TraceId := Tm_TraceId original,
        Tm_RefExecutionId := Tm_ExecutionId original\<rparr>"

text \<open>A message handed to the broker: a topic publish has a routing key, a node publish an empty one.\<close>
record published =
  pub_exchange :: string
  pub_routingKey :: string
  pub_message :: TraxMessage

definition step_request_of :: "TraxMessage \<Rightarrow> SagaStepRequestPayload option" where
  "step_request_of m =
     (case Tm_Payloads m of
        [p] \<Rightarrow> (case P_Data p of
                  SagaStepExecutionRequestBody r \<Rightarrow> Some r
                | SagaStepCompensationRequestBody r \<Rightarrow> Some r
                | _ \<Rightarrow> None)
      | _ \<Rightarrow> None)"

end
