(* ===== verification/Common_Random.thy ===== *)
theory Common_Random
  imports Prelude
begin

text \<open>
  \<open>pkg/common/random.go\<close>: random identifiers.  The reader \<open>crypto/rand\<close> is outside the program: a
  script of numbers stands for it, each reduced to the range the code asks for, and a script that is
  too short reads as zeros.
\<close>

definition draw :: "nat list \<Rightarrow> nat \<Rightarrow> nat \<Rightarrow> nat" where
  "draw script i bound = (if i < length script then script ! i mod bound else 0)"

definition alphanumericAlphabet :: string where
  "alphanumericAlphabet = ''abcdefghijklmnopqrstuvwxyzABCDEFGHIJKLMNOPQRSTUVWXYZ0123456789''"

definition SecureRandomString :: "nat \<Rightarrow> nat list \<Rightarrow> string" where
  "SecureRandomString n script = map (\<lambda>i. alphanumericAlphabet ! draw script i 62) [0..<n]"

definition alphanumericNoSimilarAlphabet :: string where
  "alphanumericNoSimilarAlphabet = ''23456789ABCDEFGHJKLMNPQRSTUVWXYZabcdefghjkmnpqrstuvwxyz''"

definition SecureRandomStringNoSimilar :: "nat \<Rightarrow> nat list \<Rightarrow> string" where
  "SecureRandomStringNoSimilar n script =
     map (\<lambda>i. alphanumericNoSimilarAlphabet ! draw script i (length alphanumericNoSimilarAlphabet)) [0..<n]"

definition SecureRandomId :: "nat list \<Rightarrow> string" where
  "SecureRandomId script =
     concat (map (\<lambda>i. ''123456789'' ! draw script i 9 # (if i = 2 \<or> i = 5 then ''-'' else [])) [0..<9])"

definition isAlnum :: "char \<Rightarrow> bool" where
  "isAlnum r = ((CHR ''a'' \<le> r \<and> r \<le> CHR ''z'') \<or> (CHR ''A'' \<le> r \<and> r \<le> CHR ''Z'') \<or>
     (CHR ''0'' \<le> r \<and> r \<le> CHR ''9''))"

definition sanitizeIidPrefix :: "string \<Rightarrow> string" where
  "sanitizeIidPrefix pfx = filter isAlnum pfx"

definition GenerateTaggedIid :: "string \<Rightarrow> string \<Rightarrow> nat list \<Rightarrow> string" where
  "GenerateTaggedIid category pfx script =
     (let tag = sanitizeIidPrefix pfx
      in if tag = '''' then category @ ''_'' @ SecureRandomId script
         else category @ ''_'' @ tag @ ''_'' @ SecureRandomId script)"

definition GenerateAccountIid :: "string \<Rightarrow> nat list \<Rightarrow> string" where
  "GenerateAccountIid pfx = GenerateTaggedIid ''acc'' pfx"

definition GenerateLegalStructureIid :: "string \<Rightarrow> nat list \<Rightarrow> string" where
  "GenerateLegalStructureIid pfx = GenerateTaggedIid ''legstr'' pfx"

definition GenerateLegalMechanismIid :: "string \<Rightarrow> nat list \<Rightarrow> string" where
  "GenerateLegalMechanismIid pfx = GenerateTaggedIid ''legmech'' pfx"

definition GenerateLegalMechanismDeploymentIid :: "string \<Rightarrow> nat list \<Rightarrow> string" where
  "GenerateLegalMechanismDeploymentIid pfx = GenerateTaggedIid ''legmechdep'' pfx"

section \<open>Shape of the identifiers\<close>

lemma draw_less: "0 < b \<Longrightarrow> draw s i b < b"
  by (simp add: draw_def)

lemma alphabet_alnum: "i < 62 \<Longrightarrow> isAlnum (alphanumericAlphabet ! i)"
proof -
  have "list_all isAlnum alphanumericAlphabet" "length alphanumericAlphabet = 62"
    by (code_simp, code_simp)
  then show "i < 62 \<Longrightarrow> isAlnum (alphanumericAlphabet ! i)" by (simp add: list_all_length)
qed

lemma noSimilar_alnum: "i < 55 \<Longrightarrow> isAlnum (alphanumericNoSimilarAlphabet ! i) \<and>
    alphanumericNoSimilarAlphabet ! i \<notin> set ''0Oo1lIi''"
proof -
  have "list_all (\<lambda>c. isAlnum c \<and> c \<notin> set ''0Oo1lIi'') alphanumericNoSimilarAlphabet"
    "length alphanumericNoSimilarAlphabet = 55"
    by (code_simp, code_simp)
  then show "i < 55 \<Longrightarrow> ?thesis" by (simp add: list_all_length)
qed

lemma length_SecureRandomString [simp]: "length (SecureRandomString n script) = n"
  by (simp add: SecureRandomString_def)

lemma SecureRandomString_alnum: "c \<in> set (SecureRandomString n script) \<Longrightarrow> isAlnum c"
  by (auto simp: SecureRandomString_def intro!: alphabet_alnum draw_less)

lemma alnum_not_dot: "isAlnum c \<Longrightarrow> c \<noteq> CHR ''.''"
  by (auto simp: isAlnum_def less_eq_char_def)

lemma length_NoSimilar: "length alphanumericNoSimilarAlphabet = 55"
  by code_simp

text \<open>whatever the random source yields, an identifier has the asked length and only letters and
  digits, and the copy-paste variant has none of the look-alike characters.\<close>
theorem random_strings_shape:
  "length (SecureRandomString n script) = n \<and> list_all isAlnum (SecureRandomString n script) \<and>
   length (SecureRandomStringNoSimilar n script) = n \<and>
   list_all (\<lambda>c. isAlnum c \<and> c \<notin> set ''0Oo1lIi'') (SecureRandomStringNoSimilar n script)"
proof -
  have "list_all (\<lambda>c. isAlnum c \<and> c \<notin> set ''0Oo1lIi'') (SecureRandomStringNoSimilar n script)"
    unfolding SecureRandomStringNoSimilar_def list_all_length length_map nth_map length_NoSimilar
    using noSimilar_alnum[OF draw_less] by simp
  then show ?thesis
    using SecureRandomString_alnum by (auto simp: list_all_iff SecureRandomStringNoSimilar_def)
qed

end
