(* ===== verification/Store_Psql.thy ===== *)
theory Store_Psql
  imports Trax_Messages Common_Random
begin

text \<open>
  The PostgreSQL store (\<open>pkg/trax/store_psql.go\<close>): rows in tables, per-goroutine transactions, and
  the saga and step operations.  A world is what one goroutine sees: the rows, the snapshot its open
  transaction would return to, and scripts for what lies outside the program -- which calls fail,
  what the clock reads, which random strings are drawn -- with what it has sent to the broker and the
  goroutines it has started (cluster, saga, step).  Scripts make every operation executable
  while the theorems quantify over them, so each holds for every pattern of failures.
\<close>

section \<open>Rows and worlds\<close>

text \<open>Marshalling a row to JSON columns and scanning it back is the identity, so a row is the record
  itself; the table of a cluster (its name is injective in the cluster id) is the rows with that
  cluster id.\<close>
record db =
  db_sagas :: "SagaInstance list"
  db_steps :: "SagaStepInstance list"
  db_templates :: "SagaTemplate list"
  db_stepTemplates :: "SagaStepTemplate list"
  db_clusters :: "Cluster list"
  db_annexes :: "SagaAnnex list"
  db_notify :: "(string \<times> string) list"

record world =
  w_db :: db
  w_tx :: "db option"
  w_aborted :: bool
  w_faults :: "fault list"
  w_clock :: "int list"
  w_now :: int
  w_rand :: "nat list list"
  w_dbtime :: int
  w_outbox :: "published list"
  w_spawned :: "(string \<times> string \<times> string) list"

definition next_fault :: "world \<Rightarrow> fault \<times> world" where
  "next_fault w = (case w_faults w of [] \<Rightarrow> (Works, w) | f # fs \<Rightarrow> (f, w\<lparr>w_faults := fs\<rparr>))"

text \<open>\<open>time.Now().UnixMilli()\<close>: the next reading of the script, or the last one again.\<close>
definition time_now :: "world \<Rightarrow> int \<times> world" where
  "time_now w = (case w_clock w of [] \<Rightarrow> (w_now w, w)
                 | t # ts \<Rightarrow> (t, w\<lparr>w_clock := ts, w_now := t\<rparr>))"

text \<open>\<open>common.SecureRandomString(32)\<close>.\<close>
definition random_string :: "world \<Rightarrow> string \<times> world" where
  "random_string w = (case w_rand w of [] \<Rightarrow> (SecureRandomString 32 [], w)
     | r # rs \<Rightarrow> (SecureRandomString 32 r, w\<lparr>w_rand := rs\<rparr>))"

definition sql_error :: string where "sql_error = ''sql: connection error''"
definition aborted_error :: string where
  "aborted_error = ''pq: current transaction is aborted, commands ignored until end of transaction block''"

text \<open>A statement through \<open>getExecutor()\<close>: on the goroutine's transaction when it has one, else on
  the pool.  Inside a transaction a failed statement aborts it and every later statement fails;
  outside, a lost acknowledgement leaves the effect behind.\<close>
definition db_exec :: "(db \<Rightarrow> db) \<Rightarrow> world \<Rightarrow> unit result \<times> world" where
  "db_exec upd w =
     (if w_tx w \<noteq> None \<and> w_aborted w then (Err aborted_error, w)
      else (case next_fault w of
          (Works, w1) \<Rightarrow> (Ok (), w1\<lparr>w_db := upd (w_db w1)\<rparr>)
        | (f, w1) \<Rightarrow> if w_tx w \<noteq> None then (Err sql_error, w1\<lparr>w_aborted := True\<rparr>)
                     else if f = LostAck then (Err sql_error, w1\<lparr>w_db := upd (w_db w1)\<rparr>)
                     else (Err sql_error, w1)))"

definition db_query :: "(db \<Rightarrow> 'a) \<Rightarrow> world \<Rightarrow> 'a result \<times> world" where
  "db_query q w =
     (if w_tx w \<noteq> None \<and> w_aborted w then (Err aborted_error, w)
      else (case next_fault w of
          (Works, w1) \<Rightarrow> (Ok (q (w_db w1)), w1)
        | (f, w1) \<Rightarrow> if w_tx w \<noteq> None then (Err sql_error, w1\<lparr>w_aborted := True\<rparr>)
                     else (Err sql_error, w1)))"

text \<open>An insert is checked against the table's constraints (primary key, foreign keys): a row that
  violates them is refused like any failed statement.\<close>
definition db_insert :: "(db \<Rightarrow> bool) \<Rightarrow> (db \<Rightarrow> db) \<Rightarrow> world \<Rightarrow> unit result \<times> world" where
  "db_insert allowed upd w =
     (if allowed (w_db w) then db_exec upd w
      else if w_tx w \<noteq> None then (Err ''pq: constraint violation'', w\<lparr>w_aborted := True\<rparr>)
      else (Err ''pq: constraint violation'', w))"

text \<open>Publishing to the broker is outside any transaction: what is sent stays sent.\<close>
definition mq_publish :: "string \<Rightarrow> string \<Rightarrow> TraxMessage \<Rightarrow> world \<Rightarrow> unit result \<times> world" where
  "mq_publish exchange routingKey msg w =
     (let sent = (\<lambda>v. v\<lparr>w_outbox := w_outbox v @
            [\<lparr>pub_exchange = exchange, pub_routingKey = routingKey, pub_message = msg\<rparr>]\<rparr>)
      in case next_fault w of
           (Works, w1) \<Rightarrow> (Ok (), sent w1)
         | (LostAck, w1) \<Rightarrow> (Err ''failed to publish'', sent w1)
         | (Fails, w1) \<Rightarrow> (Err ''failed to publish'', w1))"

section \<open>Transactions\<close>

definition BeginTransaction :: "world \<Rightarrow> unit result \<times> world" where
  "BeginTransaction w =
     (case w_tx w of
        Some _ \<Rightarrow> (Err ''goroutine already has an active transaction'', w)
      | None \<Rightarrow> (case next_fault w of
          (Works, w1) \<Rightarrow> (case next_fault w1 of
              (Works, w2) \<Rightarrow> (Ok (), w2\<lparr>w_tx := Some (w_db w2), w_aborted := False\<rparr>)
            | (_, w2) \<Rightarrow> (Err ''failed to begin transaction'', w2))
        | (_, w1) \<Rightarrow> (Err ''database connection unhealthy before transaction'', w1)))"

text \<open>The transaction is forgotten whatever \<open>Commit\<close> says.  Committing an aborted transaction rolls it
  back and reports an error; a lost acknowledgement reports an error after the commit happened.\<close>
definition CommitTransaction :: "world \<Rightarrow> unit result \<times> world" where
  "CommitTransaction w =
     (case w_tx w of
        None \<Rightarrow> (Err ''no active transaction for goroutine'', w)
      | Some snap \<Rightarrow>
          (if w_aborted w then (Err ''failed to commit transaction'', w\<lparr>w_db := snap, w_tx := None\<rparr>)
           else (case next_fault w of
               (Works, w1) \<Rightarrow> (Ok (), w1\<lparr>w_tx := None\<rparr>)
             | (LostAck, w1) \<Rightarrow> (Err ''failed to commit transaction'', w1\<lparr>w_tx := None\<rparr>)
             | (Fails, w1) \<Rightarrow> (Err ''failed to commit transaction'', w1\<lparr>w_db := snap, w_tx := None\<rparr>))))"

text \<open>A rollback that reports an error has still ended the transaction: the server discards it with
  the connection.\<close>
definition RollbackTransaction :: "world \<Rightarrow> unit result \<times> world" where
  "RollbackTransaction w =
     (case w_tx w of
        None \<Rightarrow> (Err ''no active transaction for goroutine'', w)
      | Some snap \<Rightarrow> (case next_fault w of
            (Works, w1) \<Rightarrow> (Ok (), w1\<lparr>w_db := snap, w_tx := None\<rparr>)
          | (_, w1) \<Rightarrow> (Err ''failed to rollback transaction'', w1\<lparr>w_db := snap, w_tx := None\<rparr>)))"

section \<open>Row updates\<close>

definition update_saga_rows ::
    "string \<Rightarrow> string \<Rightarrow> (SagaInstance \<Rightarrow> SagaInstance) \<Rightarrow> db \<Rightarrow> db" where
  "update_saga_rows clusterId iid f d =
     d\<lparr>db_sagas := map (\<lambda>r. if Si_ClusterId r = clusterId \<and> Si_InstanceId r = iid then f r else r) (db_sagas d)\<rparr>"

definition update_step_rows ::
    "string \<Rightarrow> string \<Rightarrow> (SagaStepInstance \<Rightarrow> SagaStepInstance) \<Rightarrow> db \<Rightarrow> db" where
  "update_step_rows clusterId iid f d =
     d\<lparr>db_steps := map (\<lambda>r. if Ss_ClusterId r = clusterId \<and> Ss_InstanceId r = iid then f r else r) (db_steps d)\<rparr>"

definition find_saga :: "string \<Rightarrow> string \<Rightarrow> db \<Rightarrow> SagaInstance option" where
  "find_saga clusterId iid d = find (\<lambda>r. Si_ClusterId r = clusterId \<and> Si_InstanceId r = iid) (db_sagas d)"

definition find_step :: "string \<Rightarrow> string \<Rightarrow> db \<Rightarrow> SagaStepInstance option" where
  "find_step clusterId iid d = find (\<lambda>r. Ss_ClusterId r = clusterId \<and> Ss_InstanceId r = iid) (db_steps d)"

definition saga_steps :: "string \<Rightarrow> string \<Rightarrow> db \<Rightarrow> SagaStepInstance list" where
  "saga_steps clusterId sagaId d =
     filter (\<lambda>r. Ss_ClusterId r = clusterId \<and> Ss_SagaInstanceId r = sagaId) (db_steps d)"

section \<open>Saga instances\<close>

definition ErrSagaInstanceNotFound :: string where
  "ErrSagaInstanceNotFound = ''saga instance not found''"

definition ErrSagaStepInstanceNotFound :: string where
  "ErrSagaStepInstanceNotFound = ''saga step instance not found''"

definition SaveSagaInstanceIdempotently :: "SagaInstance \<Rightarrow> world \<Rightarrow> bool result \<times> world" where
  "SaveSagaInstanceIdempotently saga w =
     (case db_query (\<lambda>d. \<exists>r \<in> set (db_sagas d). Si_ClusterId r = Si_ClusterId saga \<and>
              SagaInstance_SagaIdempotencyKey r = SagaInstance_SagaIdempotencyKey saga) w of
        (Inl e, w1) \<Rightarrow> (Err (''failed to check saga instance existence: '' @ e), w1)
      | (Inr True, w1) \<Rightarrow> (Ok False, w1)
      | (Inr False, w1) \<Rightarrow>
          (case db_insert (\<lambda>d. find_saga (Si_ClusterId saga) (Si_InstanceId saga) d = None \<and>
                    Si_SagaTemplateId saga \<in> St_TemplateId ` set (db_templates d))
                  (\<lambda>d. d\<lparr>db_sagas := db_sagas d @
                    [saga\<lparr>Si_CreatedAt := w_dbtime w1, Si_UpdatedAt := w_dbtime w1\<rparr>]\<rparr>) w1 of
             (Inl e, w2) \<Rightarrow> (Err (''failed to insert saga instance: '' @ e), w2)
           | (Inr _, w2) \<Rightarrow> (Ok True, w2)))"

text \<open>The caller's object gets the new state too; the row also takes the object's compensation
  reason.\<close>
definition UpdateSagaState :: "SagaInstance \<Rightarrow> SagaStateEnum \<Rightarrow> world \<Rightarrow> SagaInstance result \<times> world" where
  "UpdateSagaState saga state w =
     (case db_exec (update_saga_rows (Si_ClusterId saga) (Si_InstanceId saga)
              (\<lambda>r. r\<lparr>Si_State := state, Si_CompensationReason := Si_CompensationReason saga,
                     Si_UpdatedAt := w_dbtime w\<rparr>)) w of
        (Inl e, w1) \<Rightarrow> (Err (''failed to update saga state: '' @ e), w1)
      | (Inr _, w1) \<Rightarrow> (Ok (saga\<lparr>Si_State := state\<rparr>), w1))"

definition GetSagaInstance :: "string \<Rightarrow> string \<Rightarrow> world \<Rightarrow> SagaInstance result \<times> world" where
  "GetSagaInstance clusterId iid w =
     (case db_query (find_saga clusterId iid) w of
        (Inl e, w1) \<Rightarrow> (Err (''failed to scan saga instance: '' @ e), w1)
      | (Inr None, w1) \<Rightarrow> (Err ErrSagaInstanceNotFound, w1)
      | (Inr (Some r), w1) \<Rightarrow> (Ok r, w1))"

definition GetChildSagaInstances :: "string \<Rightarrow> string \<Rightarrow> world \<Rightarrow> SagaInstance list result \<times> world" where
  "GetChildSagaInstances clusterId parentId w =
     (case db_query (\<lambda>d. sort_key Si_CreatedAt (filter (\<lambda>r. Si_ClusterId r = clusterId \<and>
              Si_ParentSagaInstanceId r = parentId \<and> parentId \<noteq> '''') (db_sagas d))) w of
        (Inl e, w1) \<Rightarrow> (Err (''failed to query child saga instances: '' @ e), w1)
      | (Inr rs, w1) \<Rightarrow> (Ok rs, w1))"

definition GetSagaHierarchy :: "string \<Rightarrow> string \<Rightarrow> world \<Rightarrow> SagaInstance list result \<times> world" where
  "GetSagaHierarchy clusterId rootId w =
     (case db_query (\<lambda>d. sort_key Si_SagaDepth (sort_key Si_CreatedAt (filter (\<lambda>r. Si_ClusterId r = clusterId \<and>
              Si_RootSagaInstanceId r = rootId \<and> rootId \<noteq> '''') (db_sagas d)))) w of
        (Inl e, w1) \<Rightarrow> (Err (''failed to query saga hierarchy: '' @ e), w1)
      | (Inr rs, w1) \<Rightarrow> (Ok rs, w1))"

text \<open>Two conditional single-statement updates: the WHERE clause carries the state guard, and zero
  affected rows is an error.\<close>
definition TriggerSagaCompensation :: "string \<Rightarrow> string \<Rightarrow> world \<Rightarrow> unit result \<times> world" where
  "TriggerSagaCompensation clusterId iid w =
     (let affected = (\<lambda>d. \<exists>r \<in> set (db_sagas d). Si_ClusterId r = clusterId \<and> Si_InstanceId r = iid
                          \<and> Si_State r = SagaStateEnum_Committed) (w_db w)
      in case db_exec (update_saga_rows clusterId iid
               (\<lambda>r. if Si_State r = SagaStateEnum_Committed
                    then r\<lparr>Si_State := SagaStateEnum_CompensationRequested, Si_UpdatedAt := w_dbtime w\<rparr>
                    else r)) w of
           (Inl e, w1) \<Rightarrow> (Err (''failed to trigger saga compensation: '' @ e), w1)
         | (Inr _, w1) \<Rightarrow>
             if affected then (Ok (), w1)
             else (Err (''saga instance '' @ iid @ '' is not in COMMITTED state, cannot trigger compensation''), w1))"

definition ForceMarkSagaCompensated :: "string \<Rightarrow> string \<Rightarrow> string \<Rightarrow> world \<Rightarrow> unit result \<times> world" where
  "ForceMarkSagaCompensated clusterId iid reason w =
     (if reason = '''' then (Err ''reason is required for force-mark compensated'', w)
      else let affected = (\<lambda>d. \<exists>r \<in> set (db_sagas d). Si_ClusterId r = clusterId \<and> Si_InstanceId r = iid
                               \<and> Si_State r = SagaStateEnum_Blocked) (w_db w)
           in case db_exec (update_saga_rows clusterId iid
                    (\<lambda>r. if Si_State r = SagaStateEnum_Blocked
                         then r\<lparr>Si_State := SagaStateEnum_Compensated,
                                Si_CompensationReason := ''[FORCE-MARKED] '' @ reason,
                                Si_UpdatedAt := w_dbtime w\<rparr>
                         else r)) w of
                (Inl e, w1) \<Rightarrow> (Err (''failed to force-mark saga compensated: '' @ e), w1)
              | (Inr _, w1) \<Rightarrow>
                  if affected then (Ok (), w1)
                  else (Err (''saga instance '' @ iid @ '' is not in BLOCKED state, cannot force-mark compensated''), w1))"

section \<open>Step instances\<close>

text \<open>\<open>pg_notify('trax_saga_events', ...)\<close>: an error is only logged, but inside a transaction it has
  aborted the transaction all the same.\<close>
definition step_event_payload :: "SagaStepInstance \<Rightarrow> SagaStepStateEnum \<Rightarrow> string" where
  "step_event_payload s state =
     ''{\"cluster_id\":\"'' @ Ss_ClusterId s @ ''\",\"saga_instance_id\":\"'' @ Ss_SagaInstanceId s @
     ''\",\"step_instance_id\":\"'' @ Ss_InstanceId s @ ''\",\"state\":\"'' @ sagaStepStateString state @ ''\"}''"

definition notify_step_event :: "SagaStepInstance \<Rightarrow> SagaStepStateEnum \<Rightarrow> world \<Rightarrow> world" where
  "notify_step_event s state w =
     (if state = SagaStepStateEnum_ExecutionCandidate \<or> state = SagaStepStateEnum_CompensationCandidate
      then snd (db_exec (\<lambda>d. d\<lparr>db_notify := db_notify d @ [(''trax_saga_events'', step_event_payload s state)]\<rparr>) w)
      else w)"

definition SaveSagaStepInstanceIdempotently :: "SagaStepInstance \<Rightarrow> world \<Rightarrow> bool result \<times> world" where
  "SaveSagaStepInstanceIdempotently s w =
     (case db_query (\<lambda>d. \<exists>r \<in> set (db_steps d). Ss_ClusterId r = Ss_ClusterId s \<and>
              SagaStepInstance_SagaIdempotencyKey r = SagaStepInstance_SagaIdempotencyKey s) w of
        (Inl e, w1) \<Rightarrow> (Err (''failed to check saga step instance existence: '' @ e), w1)
      | (Inr True, w1) \<Rightarrow> (Ok False, w1)
      | (Inr False, w1) \<Rightarrow>
          (case db_insert (\<lambda>d. find_step (Ss_ClusterId s) (Ss_InstanceId s) d = None \<and>
                    find_saga (Ss_ClusterId s) (Ss_SagaInstanceId s) d \<noteq> None \<and>
                    Ss_SagaTemplateId s \<in> St_TemplateId ` set (db_templates d) \<and>
                    Ss_SagaStepTemplateId s \<in> Sst_TemplateId ` set (db_stepTemplates d))
                  (\<lambda>d. d\<lparr>db_steps := db_steps d @
                    [s\<lparr>Ss_CreatedAt := w_dbtime w1, Ss_UpdatedAt := w_dbtime w1\<rparr>]\<rparr>) w1 of
             (Inl e, w2) \<Rightarrow> (Err (''failed to insert saga step instance: '' @ e), w2)
           | (Inr _, w2) \<Rightarrow> (Ok True, notify_step_event s (Ss_State s) w2)))"

definition UpdateSagaStepState ::
    "SagaStepInstance \<Rightarrow> SagaStepStateEnum \<Rightarrow> world \<Rightarrow> SagaStepInstance result \<times> world" where
  "UpdateSagaStepState s state w =
     (case db_exec (update_step_rows (Ss_ClusterId s) (Ss_InstanceId s)
              (\<lambda>r. r\<lparr>Ss_State := state, Ss_UpdatedAt := w_dbtime w\<rparr>)) w of
        (Inl e, w1) \<Rightarrow> (Err (''failed to update saga step state: '' @ e), w1)
      | (Inr _, w1) \<Rightarrow> (Ok (s\<lparr>Ss_State := state\<rparr>), notify_step_event s state w1))"

definition UpdateSagaStepResult :: "SagaStepInstance \<Rightarrow> world \<Rightarrow> unit result \<times> world" where
  "UpdateSagaStepResult s w =
     db_exec (update_step_rows (Ss_ClusterId s) (Ss_InstanceId s)
       (\<lambda>r. r\<lparr>Ss_Result := Ss_Result s, Ss_UpdatedAt := w_dbtime w\<rparr>)) w"

definition UpdateSagaStepCompensationResult :: "SagaStepInstance \<Rightarrow> world \<Rightarrow> unit result \<times> world" where
  "UpdateSagaStepCompensationResult s w =
     db_exec (update_step_rows (Ss_ClusterId s) (Ss_InstanceId s)
       (\<lambda>r. r\<lparr>Ss_CompensationResult := Ss_CompensationResult s, Ss_UpdatedAt := w_dbtime w\<rparr>)) w"

definition UpdateSagaStepInstanceExecutionHistory :: "SagaStepInstance \<Rightarrow> world \<Rightarrow> unit result \<times> world" where
  "UpdateSagaStepInstanceExecutionHistory s w =
     db_exec (update_step_rows (Ss_ClusterId s) (Ss_InstanceId s)
       (\<lambda>r. r\<lparr>Ss_ExecutionId := Ss_ExecutionId s, Ss_ExecutionHistory := Ss_ExecutionHistory s,
              Ss_UpdatedAt := w_dbtime w\<rparr>)) w"

definition GetSagaStepInstance :: "string \<Rightarrow> string \<Rightarrow> world \<Rightarrow> SagaStepInstance result \<times> world" where
  "GetSagaStepInstance clusterId iid w =
     (case db_query (find_step clusterId iid) w of
        (Inl e, w1) \<Rightarrow> (Err (''failed to scan saga step instance: '' @ e), w1)
      | (Inr None, w1) \<Rightarrow> (Err ErrSagaStepInstanceNotFound, w1)
      | (Inr (Some r), w1) \<Rightarrow> (Ok r, w1))"

definition ListSagaStepInstancesBySagaInstanceId ::
    "string \<Rightarrow> string \<Rightarrow> world \<Rightarrow> SagaStepInstance list result \<times> world" where
  "ListSagaStepInstancesBySagaInstanceId clusterId sagaId w =
     (case db_query (saga_steps clusterId sagaId) w of
        (Inl e, w1) \<Rightarrow> (Err (''failed to query saga step instances: '' @ e), w1)
      | (Inr rs, w1) \<Rightarrow> (Ok rs, w1))"

end
