(* ===== verification/Handler_Monad.thy ===== *)
theory Handler_Monad
  imports Store_Psql
begin

text \<open>
  The shape of the coordinator's handlers.  A handler works on a saga object, a step object (both are
  Go pointers that calls update in place) and the world, and leaves through a \<open>return\<close>: with the work
  committed, or uncommitted so that the deferred rollback runs (and, when the handler asked for it,
  the saga is marked invalid in a fresh transaction), or through a panic.  Sequencing with early
  returns is \<open>hbind\<close>; a small Hoare logic with separate post-conditions for falling through and for
  leaving carries the proofs.
\<close>

datatype 'e exit = Return 'e | Abandon bool 'e | Died string

record hstate =
  h_saga :: SagaInstance
  h_step :: SagaStepInstance
  h_w :: world

type_synonym ('e, 'a) handler = "hstate \<Rightarrow> ('e exit + 'a) \<times> hstate"

definition hreturn :: "'a \<Rightarrow> ('e, 'a) handler" where
  "hreturn x s = (Inr x, s)"

definition hexit :: "'e exit \<Rightarrow> ('e, 'a) handler" where
  "hexit e s = (Inl e, s)"

definition hbind :: "('e, 'a) handler \<Rightarrow> ('a \<Rightarrow> ('e, 'b) handler) \<Rightarrow> ('e, 'b) handler" where
  "hbind m k s = (case m s of (Inl e, s1) \<Rightarrow> (Inl e, s1) | (Inr x, s1) \<Rightarrow> k x s1)"

text \<open>\<open>if cond { return e }\<close>\<close>
definition hguard :: "bool \<Rightarrow> 'e exit \<Rightarrow> ('e, unit) handler" where
  "hguard ok e = (if ok then hreturn () else hexit e)"

text \<open>A store call with \<open>if err != nil { return ... }\<close>: the exit may depend on the error.\<close>
definition hcall :: "(world \<Rightarrow> 'a result \<times> world) \<Rightarrow> (string \<Rightarrow> 'e exit) \<Rightarrow> ('e, 'a) handler" where
  "hcall op onErr s =
     (case op (h_w s) of
        (Inl e, w1) \<Rightarrow> (Inl (onErr e), s\<lparr>h_w := w1\<rparr>)
      | (Inr x, w1) \<Rightarrow> (Inr x, s\<lparr>h_w := w1\<rparr>))"

text \<open>A call whose error is ignored or only logged.\<close>
definition htry :: "(world \<Rightarrow> 'a result \<times> world) \<Rightarrow> ('e, 'a result) handler" where
  "htry op s = (case op (h_w s) of (r, w1) \<Rightarrow> (Inr r, s\<lparr>h_w := w1\<rparr>))"

definition hget :: "(hstate \<Rightarrow> 'a) \<Rightarrow> ('e, 'a) handler" where
  "hget f s = (Inr (f s), s)"

definition hmodify :: "(hstate \<Rightarrow> hstate) \<Rightarrow> ('e, unit) handler" where
  "hmodify f s = (Inr (), f s)"

definition hworld :: "(world \<Rightarrow> 'a \<times> world) \<Rightarrow> ('e, 'a) handler" where
  "hworld f s = (case f (h_w s) of (x, w1) \<Rightarrow> (Inr x, s\<lparr>h_w := w1\<rparr>))"

fun hforeach :: "('a \<Rightarrow> ('e, unit) handler) \<Rightarrow> 'a list \<Rightarrow> ('e, unit) handler" where
  "hforeach f [] = hreturn ()"
| "hforeach f (x # xs) = hbind (f x) (\<lambda>_. hforeach f xs)"

lemmas handler_defs =
  hreturn_def hexit_def hbind_def hguard_def hcall_def htry_def hget_def hmodify_def hworld_def

section \<open>A Hoare logic with early exits\<close>

definition hvalid ::
    "(hstate \<Rightarrow> bool) \<Rightarrow> ('e, 'a) handler \<Rightarrow> ('a \<Rightarrow> hstate \<Rightarrow> bool) \<Rightarrow> ('e exit \<Rightarrow> hstate \<Rightarrow> bool) \<Rightarrow> bool" where
  "hvalid P m Q E = (\<forall>s. P s \<longrightarrow>
     (case m s of (Inl e, s1) \<Rightarrow> E e s1 | (Inr x, s1) \<Rightarrow> Q x s1))"

lemma hvalidI:
  "(\<And>s. P s \<Longrightarrow> case m s of (Inl e, s1) \<Rightarrow> E e s1 | (Inr x, s1) \<Rightarrow> Q x s1) \<Longrightarrow> hvalid P m Q E"
  by (simp add: hvalid_def)

lemma hvalidD_exit: "\<lbrakk> hvalid P m Q E; P s; m s = (Inl e, s1) \<rbrakk> \<Longrightarrow> E e s1"
  by (force simp: hvalid_def)

lemma hvalidD_val: "\<lbrakk> hvalid P m Q E; P s; m s = (Inr x, s1) \<rbrakk> \<Longrightarrow> Q x s1"
  by (force simp: hvalid_def)

lemma hvalid_weaken:
  "\<lbrakk> hvalid P' m Q' E'; \<And>s. P s \<Longrightarrow> P' s; \<And>x s. Q' x s \<Longrightarrow> Q x s; \<And>e s. E' e s \<Longrightarrow> E e s \<rbrakk>
   \<Longrightarrow> hvalid P m Q E"
  by (fastforce simp: hvalid_def split: sum.splits prod.splits)

lemma hvalid_pre: "\<lbrakk> hvalid P' m Q E; \<And>s. P s \<Longrightarrow> P' s \<rbrakk> \<Longrightarrow> hvalid P m Q E"
  by (rule hvalid_weaken)

lemma hvalid_return [intro]: "hvalid (Q x) (hreturn x) Q E"
  by (simp add: hvalid_def hreturn_def)

lemma hvalid_exit [intro]: "hvalid (E e) (hexit e) Q E"
  by (simp add: hvalid_def hexit_def)

lemma hvalid_bind:
  assumes "\<And>x. hvalid (B x) (k x) Q E" and "hvalid P m B E"
  shows "hvalid P (hbind m k) Q E"
  unfolding hvalid_def
proof (intro allI impI)
  fix s assume "P s"
  show "case hbind m k s of (Inl e, s1) \<Rightarrow> E e s1 | (Inr x, s1) \<Rightarrow> Q x s1"
  proof (cases "m s")
    case (Pair r s1)
    show ?thesis
    proof (cases r)
      case (Inl e)
      then show ?thesis using hvalidD_exit[OF assms(2) \<open>P s\<close>] Pair by (simp add: hbind_def)
    next
      case (Inr x)
      with assms(2) \<open>P s\<close> Pair have "B x s1" by (auto dest: hvalidD_val)
      then show ?thesis using assms(1)[of x] Pair Inr by (simp add: hbind_def hvalid_def)
    qed
  qed
qed

lemma hvalid_guard: "hvalid (\<lambda>s. if ok then Q () s else E e s) (hguard ok e) Q E"
  by (simp add: hvalid_def hguard_def hreturn_def hexit_def)

lemma hvalid_get: "hvalid (\<lambda>s. Q (f s) s) (hget f) Q E"
  by (simp add: hvalid_def hget_def)

lemma hvalid_modify: "hvalid (\<lambda>s. Q () (f s)) (hmodify f) Q E"
  by (simp add: hvalid_def hmodify_def)

lemma hvalid_call:
  "hvalid (\<lambda>s. case op (h_w s) of (Inl e, w1) \<Rightarrow> E (onErr e) (s\<lparr>h_w := w1\<rparr>)
                               | (Inr x, w1) \<Rightarrow> Q x (s\<lparr>h_w := w1\<rparr>)) (hcall op onErr) Q E"
  by (auto simp: hvalid_def hcall_def split: sum.splits prod.splits)

lemma hvalid_try:
  "hvalid (\<lambda>s. case op (h_w s) of (r, w1) \<Rightarrow> Q r (s\<lparr>h_w := w1\<rparr>)) (htry op) Q E"
  by (auto simp: hvalid_def htry_def split: prod.splits)

lemma hvalid_world:
  "hvalid (\<lambda>s. case f (h_w s) of (r, w1) \<Rightarrow> Q r (s\<lparr>h_w := w1\<rparr>)) (hworld f) Q E"
  by (auto simp: hvalid_def hworld_def split: prod.splits)

text \<open>The loop rule: the invariant speaks about the elements still to come.\<close>
lemma hvalid_foreach:
  assumes "\<And>x xs. hvalid (I (x # xs)) (f x) (\<lambda>_. I xs) E"
  shows "hvalid (I xs) (hforeach f xs) (\<lambda>_. I []) E"
proof (induction xs)
  case Nil
  show ?case by (simp add: hvalid_def hreturn_def)
next
  case (Cons x xs)
  show ?case
    by (simp, rule hvalid_bind[where B = "\<lambda>_. I xs"]) (auto intro: Cons assms)
qed

lemma hvalid_and:
  "\<lbrakk> hvalid P m Q E; hvalid P' m Q' E' \<rbrakk> \<Longrightarrow>
   hvalid (\<lambda>s. P s \<and> P' s) m (\<lambda>x s. Q x s \<and> Q' x s) (\<lambda>e s. E e s \<and> E' e s)"
  by (fastforce simp: hvalid_def split: sum.splits prod.splits)

text \<open>Facts about the world that a handler keeps whichever way it leaves.\<close>

definition hkeeps :: "(hstate \<Rightarrow> bool) \<Rightarrow> ('e, 'a) handler \<Rightarrow> bool" where
  "hkeeps P m = (\<forall>s. P s \<longrightarrow> P (snd (m s)))"

named_theorems keeps_intros \<open>handlers that keep a property of the world\<close>

lemma hkeeps_bind [keeps_intros]:
  "\<lbrakk> hkeeps P m; \<And>x. hkeeps P (k x) \<rbrakk> \<Longrightarrow> hkeeps P (hbind m k)"
  unfolding hkeeps_def hbind_def by (fastforce split: sum.splits prod.splits)

lemma hkeeps_return [keeps_intros]: "hkeeps P (hreturn x)"
  by (simp add: hkeeps_def hreturn_def)

lemma hkeeps_exit [keeps_intros]: "hkeeps P (hexit e)"
  by (simp add: hkeeps_def hexit_def)

lemma hkeeps_guard [keeps_intros]: "hkeeps P (hguard c e)"
  by (simp add: hkeeps_def hguard_def hreturn_def hexit_def)

lemma hkeeps_get [keeps_intros]: "hkeeps P (hget f)"
  by (simp add: hkeeps_def hget_def)

lemma hkeeps_if [keeps_intros]: "\<lbrakk> hkeeps P m; hkeeps P n \<rbrakk> \<Longrightarrow> hkeeps P (if c then m else n)"
  by simp

lemma hkeeps_case_option [keeps_intros]:
  "\<lbrakk> hkeeps P m; \<And>x. hkeeps P (k x) \<rbrakk> \<Longrightarrow> hkeeps P (case v of None \<Rightarrow> m | Some x \<Rightarrow> k x)"
  by (cases v) auto

lemma hkeeps_case_sum [keeps_intros]:
  "\<lbrakk> \<And>e. hkeeps P (m e); \<And>x. hkeeps P (k x) \<rbrakk> \<Longrightarrow> hkeeps P (case v of Inl e \<Rightarrow> m e | Inr x \<Rightarrow> k x)"
  by (cases v) auto

lemma hkeeps_let [keeps_intros]: "(\<And>x. hkeeps P (k x)) \<Longrightarrow> hkeeps P (let x = v in k x)"
  by simp

lemma hkeeps_foreach [keeps_intros]: "(\<And>x. hkeeps P (f x)) \<Longrightarrow> hkeeps P (hforeach f xs)"
  by (induction xs) (auto intro: keeps_intros)

end
