(* ===== verification/Step_Order.thy ===== *)
theory Step_Order
  imports Trax_Types
begin

text \<open>
  \<open>OrderSagaStepsInSequence\<close> and \<open>getPreviousStepsInOrder\<close> (\<open>coordinator.go\<close>): rebuilding the execution
  order of a saga's steps from their next pointers.  The Go loop has no bound, and on a cyclic chain
  it never returns; the model walks with fuel and returns \<open>None\<close> for that.  The fuel
  \<open>length allSteps + 1\<close> is enough exactly when the loop terminates (\<open>order_fuel_sufficient\<close>).
\<close>

fun stepMapOf :: "SagaStepInstance list \<Rightarrow> string \<rightharpoonup> SagaStepInstance" where
  "stepMapOf [] = Map.empty"
| "stepMapOf (s # ss) = (\<lambda>k. case stepMapOf ss k of Some x \<Rightarrow> Some x
                              | None \<Rightarrow> if k = Ss_InstanceId s then Some s else None)"

fun walkChain :: "nat \<Rightarrow> (string \<rightharpoonup> SagaStepInstance) \<Rightarrow> SagaStepInstance \<Rightarrow> SagaStepInstance list option" where
  "walkChain 0 stepMap currentStep = None"
| "walkChain (Suc n) stepMap currentStep =
     (let nextStepId = Ss_NextSagaStepInstanceId currentStep
      in if nextStepId = '''' then Some [currentStep]
         else (case stepMap nextStepId of
                 None \<Rightarrow> Some [currentStep]
               | Some nextStep \<Rightarrow> map_option (Cons currentStep) (walkChain n stepMap nextStep)))"

definition orderWithFuel :: "nat \<Rightarrow> SagaStepInstance list \<Rightarrow> SagaStepInstance list option" where
  "orderWithFuel n allSteps =
     (if allSteps = [] then Some []
      else (case find (\<lambda>s. Ss_PreviousSagaStepInstanceId s = '''') allSteps of
              None \<Rightarrow> Some allSteps
            | Some firstStep \<Rightarrow> walkChain n (stepMapOf allSteps) firstStep))"

definition OrderSagaStepsInSequence :: "SagaStepInstance list \<Rightarrow> SagaStepInstance list option" where
  "OrderSagaStepsInSequence allSteps = orderWithFuel (Suc (length allSteps)) allSteps"

definition getPreviousStepsInOrder ::
    "SagaStepInstance list \<Rightarrow> SagaStepInstance \<Rightarrow> SagaStepInstance list option" where
  "getPreviousStepsInOrder allSteps currentStep =
     map_option (takeWhile (\<lambda>s. Ss_InstanceId s \<noteq> Ss_InstanceId currentStep))
       (OrderSagaStepsInSequence allSteps)"

section \<open>Termination\<close>

lemma walk_Suc_iff:
  "walkChain (Suc n) m c = Some r \<longleftrightarrow>
     (Ss_NextSagaStepInstanceId c = '''' \<or> m (Ss_NextSagaStepInstanceId c) = None) \<and> r = [c] \<or>
     (\<exists>x r'. Ss_NextSagaStepInstanceId c \<noteq> '''' \<and> m (Ss_NextSagaStepInstanceId c) = Some x \<and>
        walkChain n m x = Some r' \<and> r = c # r')"
  by (cases "m (Ss_NextSagaStepInstanceId c)") (auto simp: Let_def)

lemma walk_more_fuel:
  "walkChain n m c = Some r \<Longrightarrow> r \<noteq> [] \<and> hd r = c \<and> length r \<le> n \<and> (\<forall>k \<ge> length r. walkChain k m c = Some r)"
proof (induction n arbitrary: c r)
  case (Suc n)
  let ?nx = "Ss_NextSagaStepInstanceId c"
  show ?case
  proof (cases "?nx = '''' \<or> m ?nx = None")
    case True
    have "walkChain k m c = Some [c]" if "1 \<le> k" for k
      using that True by (cases k) (auto simp: Let_def)
    moreover have "r = [c]" using True Suc.prems by (auto simp: walk_Suc_iff simp del: walkChain.simps)
    ultimately show ?thesis by simp
  next
    case False
    then obtain x where x: "?nx \<noteq> ''''" "m ?nx = Some x" by auto
    with Suc.prems obtain r' where r: "walkChain n m x = Some r'" "r = c # r'" by (auto simp: Let_def)
    from Suc.IH[OF r(1)] have IH: "length r' \<le> n" "\<forall>k \<ge> length r'. walkChain k m x = Some r'" by auto
    have "walkChain k m c = Some r" if "length r \<le> k" for k
      using that x r(2) IH(2) by (cases k) (auto simp: Let_def)
    with r IH(1) show ?thesis by simp
  qed
qed simp

lemma walk_suffix:
  "walkChain n m c = Some r \<Longrightarrow> i < length r \<Longrightarrow> walkChain n m (r ! i) = Some (drop i r)"
proof (induction i arbitrary: c r n)
  case 0
  then show ?case using walk_more_fuel[OF 0(1)] by (auto simp: hd_conv_nth)
next
  case (Suc i)
  obtain k where k: "n = Suc k" using Suc.prems by (cases n) auto
  with Suc.prems obtain x r' where r: "r = c # r'" "n = Suc k" "walkChain k m x = Some r'"
    by (auto simp: walk_Suc_iff simp del: walkChain.simps)
  from Suc.IH[OF r(3)] Suc.prems(2) r(1) have "walkChain k m (r' ! i) = Some (drop i r')" by simp
  then have "walkChain (Suc k) m (r' ! i) = Some (drop i r')"
    using walk_more_fuel le_Suc_eq by blast
  with r show ?case by simp
qed

lemma walk_distinct:
  assumes "walkChain n m c = Some r"
  shows "distinct r"
  unfolding distinct_conv_nth
proof (intro allI impI)
  fix i j assume ij: "i < length r" "j < length r" "i \<noteq> j"
  show "r ! i \<noteq> r ! j"
  proof
    assume "r ! i = r ! j"
    with walk_suffix[OF assms] ij have "drop i r = drop j r" by (metis option.inject)
    then have "length (drop i r) = length (drop j r)" by simp
    with ij show False by simp
  qed
qed

lemma stepMapOf_in: "stepMapOf ss k = Some x \<Longrightarrow> x \<in> set ss \<and> Ss_InstanceId x = k"
  by (induction ss) (auto split: option.splits if_splits)

lemma walk_set:
  "walkChain n (stepMapOf ss) c = Some r \<Longrightarrow> c \<in> set ss \<Longrightarrow> set r \<subseteq> set ss"
proof (induction n arbitrary: c r)
  case (Suc n)
  from Suc.prems(1) consider "r = [c]"
    | x r' where "stepMapOf ss (Ss_NextSagaStepInstanceId c) = Some x"
        "walkChain n (stepMapOf ss) x = Some r'" "r = c # r'"
    by (auto simp: walk_Suc_iff simp del: walkChain.simps)
  then show ?case
  proof cases
    case 2
    with Suc.IH[OF 2(2)] Suc.prems(2) show ?thesis by (auto dest: stepMapOf_in)
  qed (use Suc.prems in auto)
qed simp

lemma orderWithFuel_length:
  assumes "orderWithFuel n ss = Some r"
  shows "length r \<le> length ss \<and> set r \<subseteq> set ss"
proof (cases "ss = [] \<or> find (\<lambda>s. Ss_PreviousSagaStepInstanceId s = '''') ss = None")
  case True
  with assms have "r = ss" by (auto simp: orderWithFuel_def split: if_splits)
  then show ?thesis by simp
next
  case False
  then obtain f where f: "find (\<lambda>s. Ss_PreviousSagaStepInstanceId s = '''') ss = Some f" by auto
  with False assms have w: "walkChain n (stepMapOf ss) f = Some r" by (simp add: orderWithFuel_def)
  from f have "f \<in> set ss" by (auto simp: find_Some_iff)
  with w have "set r \<subseteq> set ss" by (rule walk_set)
  moreover have "length r \<le> length ss"
    using card_mono[OF finite_set \<open>set r \<subseteq> set ss\<close>] card_length[of ss] distinct_card[OF walk_distinct[OF w]]
    by linarith
  ultimately show ?thesis by simp
qed

text \<open>the fuel never cuts a terminating run short: whatever bound lets the Go loop finish, the
  model's bound gives the same sequence, so \<open>None\<close> means that the loop runs forever.\<close>
theorem order_fuel_sufficient:
  "(OrderSagaStepsInSequence ss = Some r) = (\<exists>n. orderWithFuel n ss = Some r)"
proof
  assume "\<exists>n. orderWithFuel n ss = Some r"
  then obtain n where n: "orderWithFuel n ss = Some r" ..
  show "OrderSagaStepsInSequence ss = Some r"
  proof (cases "ss = [] \<or> find (\<lambda>s. Ss_PreviousSagaStepInstanceId s = '''') ss = None")
    case True
    with n show ?thesis by (auto simp: orderWithFuel_def OrderSagaStepsInSequence_def split: if_splits)
  next
    case False
    then obtain f where f: "find (\<lambda>s. Ss_PreviousSagaStepInstanceId s = '''') ss = Some f" by auto
    with False n have w: "walkChain n (stepMapOf ss) f = Some r" by (simp add: orderWithFuel_def)
    have "length r \<le> Suc (length ss)" using orderWithFuel_length[OF n] by simp
    with w have "walkChain (Suc (length ss)) (stepMapOf ss) f = Some r" using walk_more_fuel by blast
    with False f show ?thesis by (simp add: orderWithFuel_def OrderSagaStepsInSequence_def)
  qed
qed (auto simp: OrderSagaStepsInSequence_def)

section \<open>Well-formed chains\<close>

text \<open>The links a submission creates: the given list in order, first step without a predecessor, last
  without a successor.\<close>
definition is_chain :: "SagaStepInstance list \<Rightarrow> bool" where
  "is_chain ss = (distinct (map Ss_InstanceId ss) \<and> (\<forall>s \<in> set ss. Ss_InstanceId s \<noteq> '''') \<and>
     (\<forall>i < length ss.
        Ss_PreviousSagaStepInstanceId (ss ! i) = (if i = 0 then '''' else Ss_InstanceId (ss ! (i - 1))) \<and>
        Ss_NextSagaStepInstanceId (ss ! i) = (if Suc i < length ss then Ss_InstanceId (ss ! Suc i) else '''')))"

lemma stepMapOf_distinct:
  "distinct (map Ss_InstanceId ss) \<Longrightarrow> s \<in> set ss \<Longrightarrow> stepMapOf ss (Ss_InstanceId s) = Some s"
proof (induction ss)
  case (Cons a ss)
  show ?case
  proof (cases "s = a")
    case True
    have "stepMapOf ss (Ss_InstanceId a) = None"
    proof (rule ccontr)
      assume "stepMapOf ss (Ss_InstanceId a) \<noteq> None"
      then obtain y where "stepMapOf ss (Ss_InstanceId a) = Some y" by auto
      from stepMapOf_in[OF this] Cons.prems(1) show False by (metis distinct.simps(2) image_eqI list.simps(9) set_map)
    qed
    with True show ?thesis by simp
  qed (use Cons in auto)
qed simp

lemma walk_is_chain:
  assumes "is_chain ss" "\<And>s. s \<in> set ss \<Longrightarrow> m (Ss_InstanceId s) = Some s"
  shows "i < length ss \<Longrightarrow> length ss \<le> n + i \<Longrightarrow> walkChain n m (ss ! i) = Some (drop i ss)"
proof (induction n arbitrary: i)
  case (Suc n)
  have lk: "Ss_NextSagaStepInstanceId (ss ! i) = (if Suc i < length ss then Ss_InstanceId (ss ! Suc i) else '''')"
    using assms(1) Suc.prems(1) by (simp add: is_chain_def)
  show ?case
  proof (cases "Suc i < length ss")
    case True
    then have "ss ! Suc i \<in> set ss" by simp
    then have "m (Ss_InstanceId (ss ! Suc i)) = Some (ss ! Suc i)" "Ss_InstanceId (ss ! Suc i) \<noteq> ''''"
      using assms by (auto simp: is_chain_def)
    moreover have "walkChain n m (ss ! Suc i) = Some (drop (Suc i) ss)" using Suc True by simp
    ultimately show ?thesis
      using lk True Suc.prems(1) by (simp add: Let_def Cons_nth_drop_Suc)
  next
    case False
    with Suc.prems have "drop i ss = [ss ! i]" by (metis Cons_nth_drop_Suc Suc_lessI drop_all le_refl)
    with lk False show ?thesis by (simp add: Let_def)
  qed
qed simp

lemma distinct_mapD: "distinct (map f xs) \<Longrightarrow> distinct xs"
  by (simp add: distinct_map)

lemma find_first_of_chain:
  assumes "is_chain ss" "mset rows = mset ss" "ss \<noteq> []"
  shows "find (\<lambda>s. Ss_PreviousSagaStepInstanceId s = '''') rows = Some (ss ! 0)"
proof -
  have uniq: "\<forall>s \<in> set rows. (Ss_PreviousSagaStepInstanceId s = '''') = (s = ss ! 0)"
  proof
    fix s assume "s \<in> set rows"
    then obtain i where i: "i < length ss" "s = ss ! i" using mset_eq_setD[OF assms(2)] by (auto simp: in_set_conv_nth)
    show "(Ss_PreviousSagaStepInstanceId s = '''') = (s = ss ! 0)"
    proof (cases i)
      case 0 then show ?thesis using i assms(1,3) by (simp add: is_chain_def)
    next
      case (Suc k)
      then have "Ss_InstanceId (ss ! k) \<noteq> ''''" using i assms(1) by (simp add: is_chain_def)
      moreover have "ss ! i \<noteq> ss ! 0"
        using i Suc assms(1,3) nth_eq_iff_index_eq[OF distinct_mapD, of Ss_InstanceId ss i 0]
        by (auto simp: is_chain_def)
      ultimately show ?thesis using i Suc assms(1) by (simp add: is_chain_def)
    qed
  qed
  have mem: "ss ! 0 \<in> set rows" using assms mset_eq_setD[OF assms(2)] by simp
  have "\<forall>s \<in> set xs. (Ss_PreviousSagaStepInstanceId s = '''') = (s = a) \<Longrightarrow> a \<in> set xs \<Longrightarrow>
        find (\<lambda>s. Ss_PreviousSagaStepInstanceId s = '''') xs = Some a" for xs :: "SagaStepInstance list" and a
    by (induction xs) auto
  with uniq mem show ?thesis by blast
qed

lemma order_chain:
  "is_chain ss \<Longrightarrow> mset rows = mset ss \<Longrightarrow> OrderSagaStepsInSequence rows = Some ss"
proof (cases "ss = []")
  case False
  assume ch: "is_chain ss" and ms: "mset rows = mset ss"
  have d: "distinct (map Ss_InstanceId rows)"
    using ch ms by (metis is_chain_def mset_eq_imp_distinct_iff mset_map)
  have m: "s \<in> set ss \<Longrightarrow> stepMapOf rows (Ss_InstanceId s) = Some s" for s
    using stepMapOf_distinct[OF d] mset_eq_setD[OF ms] by simp
  have "walkChain (Suc (length rows)) (stepMapOf rows) (ss ! 0) = Some (drop 0 ss)"
    using walk_is_chain[OF ch m, of 0 "Suc (length rows)"] False mset_eq_length[OF ms] by simp
  moreover have "rows \<noteq> []" using False ms by auto
  ultimately show ?thesis
    using find_first_of_chain[OF ch ms False] by (simp add: OrderSagaStepsInSequence_def orderWithFuel_def)
qed (simp add: OrderSagaStepsInSequence_def orderWithFuel_def)

text \<open>C16: on the steps of one saga, listed by the database in any order, the walk returns exactly
  the submitted sequence.\<close>
theorem order_of_chain:
  "is_chain ss \<Longrightarrow> mset rows = mset ss \<Longrightarrow> OrderSagaStepsInSequence rows = Some ss"
  by (rule order_chain)

lemma order_of_chain_witness:
  "OrderSagaStepsInSequence
     [zeroStepInstance\<lparr>Ss_InstanceId := ''b'', Ss_PreviousSagaStepInstanceId := ''a''\<rparr>,
      zeroStepInstance\<lparr>Ss_InstanceId := ''a'', Ss_NextSagaStepInstanceId := ''b''\<rparr>] =
   Some [zeroStepInstance\<lparr>Ss_InstanceId := ''a'', Ss_NextSagaStepInstanceId := ''b''\<rparr>,
      zeroStepInstance\<lparr>Ss_InstanceId := ''b'', Ss_PreviousSagaStepInstanceId := ''a''\<rparr>]"
  by (rule order_of_chain) (auto simp: is_chain_def zeroStepInstance_def less_Suc_eq nth_Cons')

section \<open>Row updates that leave the links alone\<close>

definition link_preserving :: "(SagaStepInstance \<Rightarrow> SagaStepInstance) \<Rightarrow> bool" where
  "link_preserving f = (\<forall>s. Ss_InstanceId (f s) = Ss_InstanceId s \<and>
     Ss_PreviousSagaStepInstanceId (f s) = Ss_PreviousSagaStepInstanceId s \<and>
     Ss_NextSagaStepInstanceId (f s) = Ss_NextSagaStepInstanceId s)"

lemma stepMapOf_map: "link_preserving f \<Longrightarrow> stepMapOf (map f ss) k = map_option f (stepMapOf ss k)"
  by (induction ss) (auto simp: link_preserving_def split: option.splits)

lemma walk_map:
  "link_preserving f \<Longrightarrow>
   walkChain n (stepMapOf (map f ss)) (f c) = map_option (map f) (walkChain n (stepMapOf ss) c)"
proof (induction n arbitrary: c)
  case (Suc n)
  have nx: "Ss_NextSagaStepInstanceId (f c) = Ss_NextSagaStepInstanceId c"
    using Suc.prems by (simp add: link_preserving_def)
  show ?case
  proof (cases "stepMapOf ss (Ss_NextSagaStepInstanceId c)")
    case None
    then show ?thesis using nx stepMapOf_map[OF Suc.prems] by (simp add: Let_def)
  next
    case (Some x)
    have "map_option (Cons (f c)) (map_option (map f) z) = map_option (map f) (map_option (Cons c) z)" for z
      by (cases z) auto
    with Some show ?thesis using nx stepMapOf_map[OF Suc.prems] Suc.IH[OF Suc.prems]
      by (simp add: Let_def)
  qed
qed simp

lemma find_map_prev:
  "link_preserving f \<Longrightarrow> find (\<lambda>s. Ss_PreviousSagaStepInstanceId s = '''') (map f ss) =
     map_option f (find (\<lambda>s. Ss_PreviousSagaStepInstanceId s = '''') ss)"
  by (induction ss) (auto simp: link_preserving_def)

lemma order_map:
  assumes "link_preserving f"
  shows "OrderSagaStepsInSequence (map f ss) = map_option (map f) (OrderSagaStepsInSequence ss)"
  using assms
  by (auto simp: OrderSagaStepsInSequence_def orderWithFuel_def find_map_prev walk_map
      simp del: walkChain.simps split: option.splits)

lemma order_set: "OrderSagaStepsInSequence ss = Some r \<Longrightarrow> set r \<subseteq> set ss"
  using orderWithFuel_length by (auto simp: OrderSagaStepsInSequence_def)

lemma order_length: "OrderSagaStepsInSequence ss = Some r \<Longrightarrow> length r \<le> length ss"
  using orderWithFuel_length by (auto simp: OrderSagaStepsInSequence_def)

lemma order_Nil [simp]: "OrderSagaStepsInSequence [] = Some []"
  by (simp add: OrderSagaStepsInSequence_def orderWithFuel_def)

end
