(* ===== verification/Coordinator_Transit.thy ===== *)
theory Coordinator_Transit
  imports Handler_Monad Step_Order
begin

text \<open>
  State transitions as the coordinator makes them (\<open>transitSagaToState\<close>, \<open>transitSagaStepToState\<close> and
  \<open>extractCompensationReason\<close> in \<open>coordinator.go\<close>): write the new state, read the row back, panic when
  the row does not show it.
\<close>

datatype outcome = TOk | TErr string | TPanic string

text \<open>The fresh saga row is only checked; the caller's object keeps what \<open>UpdateSagaState\<close> set.\<close>
definition transitSagaToState ::
    "SagaInstance \<Rightarrow> SagaStateEnum \<Rightarrow> world \<Rightarrow> outcome \<times> SagaInstance \<times> world" where
  "transitSagaToState saga targetState w =
     (case UpdateSagaState saga targetState w of
        (Inl e, w1) \<Rightarrow> (TErr (''[SAGA-TRANSITION] FAILED: '' @ e), saga, w1)
      | (Inr saga1, w1) \<Rightarrow>
          (case GetSagaInstance (Si_ClusterId saga1) (Si_InstanceId saga1) w1 of
             (Inl e, w2) \<Rightarrow> (TErr (''[SAGA-TRANSITION] failed to verify: '' @ e), saga1, w2)
           | (Inr fresh, w2) \<Rightarrow>
               if Si_State fresh \<noteq> targetState
               then (TPanic (''the saga instance must be in '' @ sagaStateString targetState @ '' state''), saga1, w2)
               else (TOk, saga1, w2)))"

text \<open>On success the step object is overwritten with the fresh row.\<close>
definition transitSagaStepToState ::
    "SagaInstance \<Rightarrow> SagaStepInstance \<Rightarrow> SagaStepStateEnum \<Rightarrow> world \<Rightarrow> outcome \<times> SagaStepInstance \<times> world" where
  "transitSagaStepToState saga step targetState w =
     (case UpdateSagaStepState step targetState w of
        (Inl e, w1) \<Rightarrow> (TErr (''[STEP-TRANSITION] FAILED: '' @ e), step, w1)
      | (Inr step1, w1) \<Rightarrow>
          (case GetSagaStepInstance (Si_ClusterId saga) (Ss_InstanceId step1) w1 of
             (Inl e, w2) \<Rightarrow> (TErr (''[STEP-TRANSITION] failed to verify: '' @ e), step1, w2)
           | (Inr fresh, w2) \<Rightarrow>
               if Ss_State fresh \<noteq> targetState
               then (TPanic (''the saga step instance must be in '' @ sagaStepStateString targetState @ '' state''), step1, w2)
               else (TOk, fresh, w2)))"

text \<open>The first execution log (not compensation) with an error message gives the reason.\<close>
fun failureMessage :: "SagaStepExecutionLog list \<Rightarrow> string option" where
  "failureMessage [] = None"
| "failureMessage (log # logs) =
     (if IsCompensation log then failureMessage logs
      else if ExecutionError log \<noteq> '''' then Some (ExecutionError log)
      else (case ExecutionResult log ''error'' of
              Some errMsg \<Rightarrow> if errMsg \<noteq> '''' then Some errMsg else failureMessage logs
            | None \<Rightarrow> failureMessage logs))"

definition quoted :: "string \<Rightarrow> string" where
  "quoted x = [CHR 0x27] @ x @ [CHR 0x27]"

definition extractCompensationReason :: "SagaStepInstance \<Rightarrow> string" where
  "extractCompensationReason failedStep =
     ''step '' @ quoted (Ss_SagaStepTemplateId failedStep) @ '' failed: '' @
     (case failureMessage (Ss_ExecutionHistory failedStep) of Some m \<Rightarrow> m | None \<Rightarrow> ''unknown error'')"

section \<open>Transitions inside handlers\<close>

definition hTransitStep ::
    "SagaStepStateEnum \<Rightarrow> 'e exit \<Rightarrow> ('e, unit) handler" where
  "hTransitStep target onErr s =
     (case transitSagaStepToState (h_saga s) (h_step s) target (h_w s) of
        (TOk, st, w1) \<Rightarrow> (Inr (), s\<lparr>h_step := st, h_w := w1\<rparr>)
      | (TErr e, st, w1) \<Rightarrow> (Inl onErr, s\<lparr>h_step := st, h_w := w1\<rparr>)
      | (TPanic m, st, w1) \<Rightarrow> (Inl (Died m), s\<lparr>h_step := st, h_w := w1\<rparr>))"

text \<open>The same on another step's object; the updated object is returned.\<close>
definition hTransitOther ::
    "SagaStepInstance \<Rightarrow> SagaStepStateEnum \<Rightarrow> 'e exit \<Rightarrow> ('e, SagaStepInstance) handler" where
  "hTransitOther other target onErr s =
     (case transitSagaStepToState (h_saga s) other target (h_w s) of
        (TOk, st, w1) \<Rightarrow> (Inr st, s\<lparr>h_w := w1\<rparr>)
      | (TErr e, st, w1) \<Rightarrow> (Inl onErr, s\<lparr>h_w := w1\<rparr>)
      | (TPanic m, st, w1) \<Rightarrow> (Inl (Died m), s\<lparr>h_w := w1\<rparr>))"

definition hTransitSaga :: "SagaStateEnum \<Rightarrow> 'e exit \<Rightarrow> ('e, unit) handler" where
  "hTransitSaga target onErr s =
     (case transitSagaToState (h_saga s) target (h_w s) of
        (TOk, sg, w1) \<Rightarrow> (Inr (), s\<lparr>h_saga := sg, h_w := w1\<rparr>)
      | (TErr e, sg, w1) \<Rightarrow> (Inl onErr, s\<lparr>h_saga := sg, h_w := w1\<rparr>)
      | (TPanic m, sg, w1) \<Rightarrow> (Inl (Died m), s\<lparr>h_saga := sg, h_w := w1\<rparr>))"

text \<open>\<open>c.transitSagaToInvalidState(ctx, saga); return ...\<close>: the error is dropped.\<close>
definition hInvalidateAndReturn :: "'e \<Rightarrow> ('e, 'a) handler" where
  "hInvalidateAndReturn r =
     hbind (hTransitSaga SagaStateEnum_InvalidState (Return r)) (\<lambda>_. hexit (Return r))"

text \<open>The deferred function of the transactional handlers.\<close>
definition deferredRollback :: "bool \<Rightarrow> hstate \<Rightarrow> string option \<times> hstate" where
  "deferredRollback mustInvalidate s =
     (let s1 = s\<lparr>h_w := snd (RollbackTransaction (h_w s))\<rparr>
      in if \<not> mustInvalidate then (None, s1)
         else (case BeginTransaction (h_w s1) of
             (Inl e, w2) \<Rightarrow> (None, s1\<lparr>h_w := w2\<rparr>)
           | (Inr _, w2) \<Rightarrow>
               (case transitSagaToState (h_saga s1) SagaStateEnum_InvalidState w2 of
                  (TPanic m, sg, w3) \<Rightarrow> (Some m, s1\<lparr>h_saga := sg, h_w := w3\<rparr>)
                | (TErr e, sg, w3) \<Rightarrow> (None, s1\<lparr>h_saga := sg, h_w := snd (RollbackTransaction w3)\<rparr>)
                | (TOk, sg, w3) \<Rightarrow>
                    (case CommitTransaction w3 of
                       (Inr _, w4) \<Rightarrow> (None, s1\<lparr>h_saga := sg, h_w := w4\<rparr>)
                     | (Inl e, w4) \<Rightarrow> (None, s1\<lparr>h_saga := sg, h_w := snd (RollbackTransaction w4)\<rparr>)))))"

definition withDeferredRollback :: "('e, 'a) handler \<Rightarrow> ('e, 'a) handler" where
  "withDeferredRollback body s =
     (case body s of
        (Inl (Abandon mustInvalidate r), s1) \<Rightarrow>
          (case deferredRollback mustInvalidate s1 of
             (None, s2) \<Rightarrow> (Inl (Return r), s2)
           | (Some m, s2) \<Rightarrow> (Inl (Died m), s2))
      | (Inl (Died m), s1) \<Rightarrow> (Inl (Died m), snd (deferredRollback False s1))
      | (r, s1) \<Rightarrow> (r, s1))"

text \<open>\<open>if err != nil { rollback; return }\<close> of the two handlers without a deferred rollback.\<close>
definition hcallRollback :: "(world \<Rightarrow> 'a result \<times> world) \<Rightarrow> 'e \<Rightarrow> ('e, 'a) handler" where
  "hcallRollback op r s =
     (case op (h_w s) of
        (Inl e, w1) \<Rightarrow> (Inl (Return r), s\<lparr>h_w := snd (RollbackTransaction w1)\<rparr>)
      | (Inr x, w1) \<Rightarrow> (Inr x, s\<lparr>h_w := w1\<rparr>))"

definition hTransitStepRollback :: "SagaStepStateEnum \<Rightarrow> 'e \<Rightarrow> ('e, unit) handler" where
  "hTransitStepRollback target r s =
     (case transitSagaStepToState (h_saga s) (h_step s) target (h_w s) of
        (TOk, st, w1) \<Rightarrow> (Inr (), s\<lparr>h_step := st, h_w := w1\<rparr>)
      | (TErr e, st, w1) \<Rightarrow> (Inl (Return r), s\<lparr>h_step := st, h_w := snd (RollbackTransaction w1)\<rparr>)
      | (TPanic m, st, w1) \<Rightarrow> (Inl (Died m), s\<lparr>h_step := st, h_w := w1\<rparr>))"

text \<open>Ordering the steps; a chain the walk does not leave hangs the goroutine.\<close>
definition hOrder :: "SagaStepInstance list \<Rightarrow> ('e, SagaStepInstance list) handler" where
  "hOrder allSteps =
     (case OrderSagaStepsInSequence allSteps of
        None \<Rightarrow> hexit (Died ''OrderSagaStepsInSequence does not return'')
      | Some r \<Rightarrow> hreturn r)"

definition hListSteps :: "'e exit \<Rightarrow> ('e, SagaStepInstance list) handler" where
  "hListSteps onErr =
     hbind (hget h_saga) (\<lambda>saga.
       hcall (ListSagaStepInstancesBySagaInstanceId (Si_ClusterId saga) (Si_InstanceId saga)) (\<lambda>_. onErr))"

definition indexOfStep :: "SagaStepInstance \<Rightarrow> SagaStepInstance list \<Rightarrow> nat option" where
  "indexOfStep step ordered = find_index (\<lambda>x. Ss_InstanceId x = Ss_InstanceId step) ordered"

end
