(* ===== verification/Coordinator_Steps.thy ===== *)
theory Coordinator_Steps
  imports Coordinator_Transit
begin

text \<open>
  \<open>processSagaStep\<close> (\<open>coordinator.go\<close>), one definition per case of its switch.  The result says whether
  the caller must call again at once; \<open>Died\<close> is a panic or a loop that never ends.
\<close>

record coordinator =
  co_affinityGroup :: string
  co_executionTimeoutMs :: int
  co_subComponent :: string

definition newExecutionLog :: "int \<Rightarrow> bool \<Rightarrow> SagaStepExecutionLog" where
  "newExecutionLog now isComp =
     \<lparr>NextExecutionTs = now, ExecutionRequestSentTs = 0, ExecutionTimeoutTs = 0,
      ExecutionResultReceivedTs = 0, LogConclusionTs = 0, ExecutionResult = Map.empty,
      ExecutionError = '''', IsCompensation = isComp, Log_Metadata = Map.empty\<rparr>"

section \<open>EXECUTION\_CANDIDATE\<close>

definition handleExecutionCandidate :: "(bool, unit) handler" where
  "handleExecutionCandidate =
     hbind (hget h_step) (\<lambda>step.
     if Ss_ExecutionHistory step \<noteq> [] then
       hbind (hTransitStep SagaStepStateEnum_ExecutionBlocked (Return False)) (\<lambda>_. hexit (Return False))
     else
     hbind (hListSteps (Return False)) (\<lambda>allSteps.
     hbind (hOrder allSteps) (\<lambda>orderedSteps.
     (case indexOfStep step orderedSteps of
        None \<Rightarrow> hInvalidateAndReturn False
      | Some i \<Rightarrow>
          if 0 < i \<and> Ss_State (orderedSteps ! (i - 1)) \<noteq> SagaStepStateEnum_ExecutionDone
          then hInvalidateAndReturn False
          else if Suc i < length orderedSteps \<and>
                  Ss_State (orderedSteps ! Suc i) \<noteq> SagaStepStateEnum_ExecutionPending
          then hInvalidateAndReturn False
          else
          hbind (hworld random_string) (\<lambda>executionId.
          hbind (hworld time_now) (\<lambda>now.
          hbind (hmodify (\<lambda>s. s\<lparr>h_step := (h_step s)\<lparr>Ss_ExecutionId := executionId,
                                    Ss_ExecutionHistory := [newExecutionLog now False]\<rparr>\<rparr>)) (\<lambda>_.
          hbind (hcall BeginTransaction (\<lambda>_. Return False)) (\<lambda>_.
          hbind (hget h_step) (\<lambda>step1.
          hbind (hcallRollback (UpdateSagaStepInstanceExecutionHistory step1) False) (\<lambda>_.
          hbind (hTransitStepRollback SagaStepStateEnum_ExecutionRunning False) (\<lambda>_.
          hbind (hget h_step) (\<lambda>step2.
          hbind (hcallRollback (UpdateSagaStepInstanceExecutionHistory step2) False) (\<lambda>_.
          hbind (hcallRollback CommitTransaction False) (\<lambda>_.
          hexit (Return True)))))))))))))))"

section \<open>EXECUTION\_RUNNING\<close>

text \<open>The three time conditions both running states use.\<close>
definition awaitingResult :: "int \<Rightarrow> SagaStepExecutionLog \<Rightarrow> bool" where
  "awaitingResult nowTs l =
     (nowTs \<ge> NextExecutionTs l \<and>
      (ExecutionRequestSentTs l > 0 \<and> nowTs \<ge> ExecutionRequestSentTs l) \<and>
      (ExecutionTimeoutTs l > 0 \<and> nowTs \<le> ExecutionTimeoutTs l))"

definition requestTimedOut :: "int \<Rightarrow> SagaStepExecutionLog \<Rightarrow> bool" where
  "requestTimedOut nowTs l =
     (nowTs \<ge> NextExecutionTs l \<and>
      (ExecutionRequestSentTs l > 0 \<and> nowTs \<ge> ExecutionRequestSentTs l) \<and>
      (ExecutionTimeoutTs l > 0 \<and> nowTs > ExecutionTimeoutTs l))"

definition readyToSend :: "int \<Rightarrow> SagaStepExecutionLog \<Rightarrow> bool" where
  "readyToSend nowTs l =
     (nowTs \<ge> NextExecutionTs l \<and> ExecutionRequestSentTs l = 0 \<and> ExecutionTimeoutTs l = 0)"

definition handleTimeout :: "int \<Rightarrow> SagaStepStateEnum \<Rightarrow> (bool, unit) handler" where
  "handleTimeout nowTs failedState =
     hbind (hcall BeginTransaction (\<lambda>_. Return False)) (\<lambda>_.
     withDeferredRollback (
       hbind (hmodify (\<lambda>s. s\<lparr>h_step := (h_step s)\<lparr>Ss_ExecutionHistory :=
                 mapLast (\<lambda>l. l\<lparr>LogConclusionTs := nowTs\<rparr>) (Ss_ExecutionHistory (h_step s))\<rparr>\<rparr>)) (\<lambda>_.
       hbind (hget h_step) (\<lambda>step.
       hbind (hcall (UpdateSagaStepInstanceExecutionHistory step) (\<lambda>_. Abandon False False)) (\<lambda>_.
       hbind (hTransitStep failedState (Abandon False False)) (\<lambda>_.
       hbind (hcall CommitTransaction (\<lambda>_. Abandon False False)) (\<lambda>_.
       hexit (Return True))))))))"

text \<open>The forward input: the saga's input overridden by the results of the previous steps, in order;
  a previous step that is not DONE gives \<open>None\<close>.\<close>
fun collectPreviousResults :: "SagaStepInstance list \<Rightarrow> smap \<Rightarrow> smap option" where
  "collectPreviousResults [] input = Some input"
| "collectPreviousResults (p # ps) input =
     (if Ss_State p = SagaStepStateEnum_ExecutionDone
      then collectPreviousResults ps (input ++ Ss_Result p) else None)"

definition stepRequest ::
    "coordinator \<Rightarrow> SagaInstance \<Rightarrow> SagaStepInstance \<Rightarrow> smap \<Rightarrow> SagaStepRequestPayload" where
  "stepRequest co saga step input =
     \<lparr>Rq_SagaSubmitterId = Si_SagaSubmitterId saga, Rq_SagaInstanceId = Si_InstanceId saga,
      Rq_SagaStepInstanceId = Ss_InstanceId step, Rq_ZoneId = Si_ZoneId saga,
      Rq_CoordinatorAffinity = co_affinityGroup co, Rq_Input = input, Rq_Extra = Map.empty,
      Rq_Metadata = Ss_Metadata step, Rq_RootSagaInstanceId = Si_RootSagaInstanceId saga,
      Rq_SagaDepth = Si_SagaDepth saga\<rparr>"

text \<open>\<open>NewTraxMessageBuilder()\<close> draws three identifiers and a timestamp; the request then overrides the
  trace and execution ids.\<close>
definition hStepRequestMessage ::
    "coordinator \<Rightarrow> string \<Rightarrow> PayloadBody \<Rightarrow> ('e, TraxMessage) handler" where
  "hStepRequestMessage co ptype body =
     hbind (hget h_saga) (\<lambda>saga.
     hbind (hget h_step) (\<lambda>step.
     hbind (hworld random_string) (\<lambda>mid.
     hbind (hworld random_string) (\<lambda>tid.
     hbind (hworld random_string) (\<lambda>eid.
     hbind (hworld time_now) (\<lambda>ts.
     hreturn (AddPayload (jsonPayload ptype body) (AnonymousSession
       ((NewTraxMessageBuilder mid tid eid ts)
          \<lparr>Tm_ClusterId := Si_ClusterId saga, Tm_TraceId := Si_TraceId saga,
           Tm_ExecutionId := Ss_ExecutionId step, Tm_Origin := Si_Origin saga,
           Tm_OriginIdempotencyKey := Si_OriginIdempotencyKey saga,
           Tm_Issuer := co_subComponent co\<rparr>)))))))))"

definition requestRoutingKey :: "coordinator \<Rightarrow> SagaInstance \<Rightarrow> SagaStepInstance \<Rightarrow> string" where
  "requestRoutingKey co saga step =
     getStepRequestRoutingKey (Si_ClusterId saga) (co_affinityGroup co)
       (Si_SagaTemplateId saga) (Ss_SagaStepTemplateId step)"

text \<open>Publish, then stamp the last log entry with the sent and timeout times, persist and commit.\<close>
definition hPublishAndStamp :: "coordinator \<Rightarrow> TraxMessage \<Rightarrow> (bool, unit) handler" where
  "hPublishAndStamp co msg =
     hbind (hget h_saga) (\<lambda>saga.
     hbind (hget h_step) (\<lambda>step.
     hbind (hcall (mq_publish (getStepTopicExchangeName (Si_ClusterId saga)) (requestRoutingKey co saga step) msg)
              (\<lambda>_. Abandon False False)) (\<lambda>_.
     hbind (hworld time_now) (\<lambda>nowTs.
     hbind (hmodify (\<lambda>s. s\<lparr>h_step := (h_step s)\<lparr>Ss_ExecutionHistory :=
               mapLast (\<lambda>l. l\<lparr>ExecutionRequestSentTs := nowTs,
                              ExecutionTimeoutTs := nowTs + co_executionTimeoutMs co\<rparr>)
                 (Ss_ExecutionHistory (h_step s))\<rparr>\<rparr>)) (\<lambda>_.
     hbind (hget h_step) (\<lambda>step1.
     hbind (hcall (UpdateSagaStepInstanceExecutionHistory step1) (\<lambda>_. Abandon False False)) (\<lambda>_.
     hbind (hcall CommitTransaction (\<lambda>_. Abandon False False)) (\<lambda>_.
     hexit (Return False)))))))))"

definition sendExecutionRequest :: "coordinator \<Rightarrow> (bool, unit) handler" where
  "sendExecutionRequest co =
     hbind (hcall BeginTransaction (\<lambda>_. Return False)) (\<lambda>_.
     withDeferredRollback (
       hbind (hget h_saga) (\<lambda>saga.
       hbind (hget h_step) (\<lambda>step.
       hbind (hListSteps (Abandon False False)) (\<lambda>allSteps.
       (case getPreviousStepsInOrder allSteps step of
          None \<Rightarrow> hexit (Died ''OrderSagaStepsInSequence does not return'')
        | Some previousSteps \<Rightarrow>
            (case collectPreviousResults previousSteps (Si_Input saga) of
               None \<Rightarrow> hexit (Abandon True False)
             | Some sagaStepInput \<Rightarrow>
                 hbind (hStepRequestMessage co SagaPayloadType_SagaStepExecutionRequest
                          (SagaStepExecutionRequestBody (stepRequest co saga step sagaStepInput))) (\<lambda>msg.
                 hPublishAndStamp co msg))))))))"

definition handleExecutionRunning :: "coordinator \<Rightarrow> (bool, unit) handler" where
  "handleExecutionRunning co =
     hbind (hget h_step) (\<lambda>step.
     if Ss_ExecutionHistory step = [] then
       hbind (hTransitStep SagaStepStateEnum_ExecutionBlocked (Return False)) (\<lambda>_. hexit (Return False))
     else
     hbind (hworld time_now) (\<lambda>nowTs.
     let lastExecutionLog = last (Ss_ExecutionHistory step) in
     if awaitingResult nowTs lastExecutionLog then
       (if ExecutionResultReceivedTs lastExecutionLog = 0 then hexit (Return False)
        else if nowTs \<ge> ExecutionResultReceivedTs lastExecutionLog
        then hexit (Died ''CRITICAL: this state should never be reached because the step must have been processed when the result was received'')
        else hexit (Return False))
     else if requestTimedOut nowTs lastExecutionLog then
       handleTimeout nowTs SagaStepStateEnum_ExecutionFailed
     else if readyToSend nowTs lastExecutionLog then sendExecutionRequest co
     else hexit (Return False)))"

section \<open>EXECUTION\_SUCCEEDED\<close>

definition executionSucceededBody :: "(bool, unit) handler" where
  "executionSucceededBody =
     hbind (hget h_step) (\<lambda>step.
     hbind (hListSteps (Abandon False False)) (\<lambda>allSteps.
     hbind (hOrder allSteps) (\<lambda>orderedSteps.
     (case indexOfStep step orderedSteps of
        None \<Rightarrow> hexit (Abandon True False)
      | Some i \<Rightarrow>
          hbind (hTransitStep SagaStepStateEnum_ExecutionDone (Abandon False False)) (\<lambda>_.
          hbind (if Suc i < length orderedSteps then
                   (if Ss_State (orderedSteps ! Suc i) \<noteq> SagaStepStateEnum_ExecutionPending
                    then hexit (Abandon True False)
                    else hbind (hTransitOther (orderedSteps ! Suc i)
                                  SagaStepStateEnum_ExecutionCandidate (Abandon False False)) (\<lambda>_. hreturn ()))
                 else hreturn ()) (\<lambda>_.
          hbind (if Suc i = length orderedSteps then
                   (if \<exists>j < length orderedSteps. j \<noteq> i \<and>
                         Ss_State (orderedSteps ! j) \<noteq> SagaStepStateEnum_ExecutionDone
                    then hexit (Abandon True False)
                    else hbind (hget h_step) (\<lambda>step1.
                      if Ss_State step1 \<noteq> SagaStepStateEnum_ExecutionDone then hexit (Abandon True False)
                      else hTransitSaga SagaStateEnum_Committed (Abandon False False)))
                 else hreturn ()) (\<lambda>_.
          hbind (hcall CommitTransaction (\<lambda>_. Abandon False False)) (\<lambda>_.
          hexit (Return False)))))))))"

definition handleExecutionSucceeded :: "(bool, unit) handler" where
  "handleExecutionSucceeded =
     hbind (hcall BeginTransaction (\<lambda>_. Return False)) (\<lambda>_. withDeferredRollback executionSucceededBody)"

section \<open>EXECUTION\_FAILED\<close>

definition abortNextStep :: "SagaStepInstance \<Rightarrow> (bool, unit) handler" where
  "abortNextStep nextStep =
     (if Ss_State nextStep = SagaStepStateEnum_ExecutionAborted then hreturn ()
      else if Ss_State nextStep \<noteq> SagaStepStateEnum_ExecutionPending then hreturn ()
      else hbind (hTransitOther nextStep SagaStepStateEnum_ExecutionAborted (Abandon False False))
             (\<lambda>_. hreturn ()))"

definition pendPreviousStep :: "SagaStepInstance \<Rightarrow> (bool, unit) handler" where
  "pendPreviousStep prevStep =
     (if Ss_State prevStep \<noteq> SagaStepStateEnum_ExecutionDone then hexit (Abandon True False)
      else hbind (hTransitOther prevStep SagaStepStateEnum_CompensationPending (Abandon False False))
             (\<lambda>_. hreturn ()))"

definition executionFailedBody :: "(bool, unit) handler" where
  "executionFailedBody =
     hbind (hget h_step) (\<lambda>step.
     hbind (hListSteps (Abandon False False)) (\<lambda>allSteps.
     hbind (hOrder allSteps) (\<lambda>orderedSteps.
     (case indexOfStep step orderedSteps of
        None \<Rightarrow> hexit (Abandon True False)
      | Some i \<Rightarrow>
          hbind (hmodify (\<lambda>s. s\<lparr>h_saga := (h_saga s)\<lparr>Si_CompensationReason := extractCompensationReason step\<rparr>\<rparr>)) (\<lambda>_.
          hbind (hget h_saga) (\<lambda>saga.
          hbind (hcall (UpdateSagaState saga (Si_State saga)) (\<lambda>_. Abandon False False)) (\<lambda>_.
          hbind (hforeach abortNextStep (drop (Suc i) orderedSteps)) (\<lambda>_.
          hbind (hforeach pendPreviousStep (take i orderedSteps)) (\<lambda>_.
          hbind (hTransitStep SagaStepStateEnum_CompensationCandidate (Abandon False False)) (\<lambda>_.
          hbind (hcall CommitTransaction (\<lambda>_. Abandon False False)) (\<lambda>_.
          hexit (Return True))))))))))))"

definition handleExecutionFailed :: "(bool, unit) handler" where
  "handleExecutionFailed =
     hbind (hcall BeginTransaction (\<lambda>_. Return False)) (\<lambda>_. withDeferredRollback executionFailedBody)"

section \<open>COMPENSATION\_CANDIDATE\<close>

text \<open>Child sagas this step spawned: a committed one is asked to compensate; any child that is not
  compensated yet makes the step wait.\<close>
fun scanChildSagas :: "string \<Rightarrow> SagaInstance list \<Rightarrow> ('e, bool) handler" where
  "scanChildSagas stepId [] = hreturn False"
| "scanChildSagas stepId (child # children) =
     (if Si_ParentSagaStepInstanceId child \<noteq> stepId then scanChildSagas stepId children
      else (case Si_State child of
          SagaStateEnum_Committed \<Rightarrow>
            hbind (htry (TriggerSagaCompensation (Si_ClusterId child) (Si_InstanceId child))) (\<lambda>_.
            hbind (scanChildSagas stepId children) (\<lambda>_. hreturn True))
        | SagaStateEnum_Compensated \<Rightarrow> scanChildSagas stepId children
        | _ \<Rightarrow> hbind (scanChildSagas stepId children) (\<lambda>_. hreturn True)))"

definition settledAfter :: "SagaStepInstance \<Rightarrow> bool" where
  "settledAfter s = (Ss_State s = SagaStepStateEnum_ExecutionAborted \<or> Ss_State s = SagaStepStateEnum_CompensationDone)"

definition handleCompensationCandidate :: "(bool, unit) handler" where
  "handleCompensationCandidate =
     hbind (hget h_step) (\<lambda>step.
     hbind (hget h_saga) (\<lambda>saga.
     hbind (hListSteps (Return False)) (\<lambda>allSteps.
     hbind (hOrder allSteps) (\<lambda>orderedSteps.
     (case indexOfStep step orderedSteps of
        None \<Rightarrow> hInvalidateAndReturn False
      | Some i \<Rightarrow>
          if 0 < i \<and> Ss_State (orderedSteps ! (i - 1)) \<noteq> SagaStepStateEnum_CompensationPending
          then hInvalidateAndReturn False
          else if \<not> list_all settledAfter (drop (Suc i) orderedSteps) then hInvalidateAndReturn False
          else
          hbind (hcall (GetChildSagaInstances (Si_ClusterId saga) (Si_InstanceId saga)) (\<lambda>_. Return False)) (\<lambda>childSagas.
          hbind (scanChildSagas (Ss_InstanceId step) childSagas) (\<lambda>hasUncompensatedChildren.
          if hasUncompensatedChildren then hexit (Return False)
          else
          hbind (hworld time_now) (\<lambda>now.
          let newExecutionHistory = Ss_ExecutionHistory step @ [newExecutionLog now True] in
          hbind (hcall BeginTransaction (\<lambda>_. Return False)) (\<lambda>_.
          hbind (hTransitStepRollback SagaStepStateEnum_CompensationRunning False) (\<lambda>_.
          hbind (hmodify (\<lambda>s. s\<lparr>h_step := (h_step s)\<lparr>Ss_ExecutionHistory := newExecutionHistory\<rparr>\<rparr>)) (\<lambda>_.
          hbind (hget h_step) (\<lambda>step1.
          hbind (hcallRollback (UpdateSagaStepInstanceExecutionHistory step1) False) (\<lambda>_.
          hbind (hcall CommitTransaction (\<lambda>_. Return False)) (\<lambda>_.
          hexit (Return True)))))))))))))))"

section \<open>COMPENSATION\_RUNNING\<close>

text \<open>The compensation input: the saga's input, the forward results up to and including this step,
  then the compensation results of the later steps that are compensated.\<close>
definition compensationInput :: "SagaInstance \<Rightarrow> SagaStepInstance list \<Rightarrow> SagaStepInstance \<Rightarrow> smap" where
  "compensationInput saga orderedSteps step =
     (case indexOfStep step orderedSteps of
        None \<Rightarrow> foldl (\<lambda>m s. m ++ Ss_Result s) (Si_Input saga) orderedSteps
      | Some i \<Rightarrow>
          foldl (\<lambda>m s. if Ss_State s = SagaStepStateEnum_CompensationDone then m ++ Ss_CompensationResult s else m)
            (foldl (\<lambda>m s. m ++ Ss_Result s) (Si_Input saga) (take (Suc i) orderedSteps))
            (drop (Suc i) orderedSteps))"

definition sendCompensationRequest :: "coordinator \<Rightarrow> (bool, unit) handler" where
  "sendCompensationRequest co =
     hbind (hcall BeginTransaction (\<lambda>_. Return False)) (\<lambda>_.
     withDeferredRollback (
       hbind (hget h_saga) (\<lambda>saga.
       hbind (hget h_step) (\<lambda>step.
       hbind (htry (ListSagaStepInstancesBySagaInstanceId (Si_ClusterId saga) (Si_InstanceId saga))) (\<lambda>r.
       hbind (case r of
                Inl _ \<Rightarrow> hreturn (Si_Input saga)
              | Inr allSteps \<Rightarrow> hbind (hOrder allSteps) (\<lambda>orderedSteps.
                   hreturn (compensationInput saga orderedSteps step))) (\<lambda>input.
       hbind (hStepRequestMessage co SagaPayloadType_SagaStepCompensationRequest
                (SagaStepCompensationRequestBody (stepRequest co saga step input))) (\<lambda>msg.
       hPublishAndStamp co msg)))))))"

definition handleCompensationRunning :: "coordinator \<Rightarrow> (bool, unit) handler" where
  "handleCompensationRunning co =
     hbind (hget h_step) (\<lambda>step.
     if Ss_ExecutionHistory step = [] then hInvalidateAndReturn False
     else
     hbind (hworld time_now) (\<lambda>nowTs.
     let lastExecutionLog = last (Ss_ExecutionHistory step) in
     if \<not> IsCompensation lastExecutionLog then hInvalidateAndReturn False
     else if awaitingResult nowTs lastExecutionLog then
       (if ExecutionResultReceivedTs lastExecutionLog = 0 then hexit (Return False)
        else if nowTs \<ge> ExecutionResultReceivedTs lastExecutionLog
        then hexit (Died ''CRITICAL: this state should never be reached because the step must have been processed when the result was received'')
        else hexit (Return False))
     else if requestTimedOut nowTs lastExecutionLog then
       handleTimeout nowTs SagaStepStateEnum_CompensationFailed
     else if readyToSend nowTs lastExecutionLog then sendCompensationRequest co
     else hexit (Return False)))"

section \<open>COMPENSATION\_SUCCEEDED\<close>

text \<open>The final check: compensated steps, then aborted ones.\<close>
fun compensatedPattern :: "bool \<Rightarrow> SagaStepStateEnum list \<Rightarrow> bool" where
  "compensatedPattern seenAborted [] = True"
| "compensatedPattern seenAborted (st # sts) =
     (if st = SagaStepStateEnum_ExecutionAborted then compensatedPattern True sts
      else if st = SagaStepStateEnum_CompensationDone then (\<not> seenAborted \<and> compensatedPattern seenAborted sts)
      else False)"

definition compensationSucceededBody :: "(bool, unit) handler" where
  "compensationSucceededBody =
     hbind (hget h_step) (\<lambda>step.
     hbind (hListSteps (Abandon False False)) (\<lambda>allSteps.
     hbind (hOrder allSteps) (\<lambda>orderedSteps.
     (case indexOfStep step orderedSteps of
        None \<Rightarrow> hexit (Abandon True False)
      | Some i \<Rightarrow>
          hbind (if 0 < i then
                   (if Ss_State (orderedSteps ! (i - 1)) \<noteq> SagaStepStateEnum_CompensationPending
                    then hexit (Abandon True False)
                    else hbind (hTransitOther (orderedSteps ! (i - 1))
                                  SagaStepStateEnum_CompensationCandidate (Abandon False False)) (\<lambda>_. hreturn ()))
                 else hreturn ()) (\<lambda>_.
          hbind (hTransitStep SagaStepStateEnum_CompensationDone (Abandon False False)) (\<lambda>_.
          hbind (hget h_step) (\<lambda>step1.
          hbind (if i = 0 then
                   (if Ss_State step1 \<noteq> SagaStepStateEnum_CompensationDone then hexit (Abandon True False)
                    else if \<not> compensatedPattern False (map Ss_State (orderedSteps[i := step1]))
                    then hexit (Abandon True False)
                    else hTransitSaga SagaStateEnum_Compensated (Abandon False False))
                 else hreturn ()) (\<lambda>_.
          hbind (hcall CommitTransaction (\<lambda>_. Abandon False False)) (\<lambda>_.
          hexit (Return True))))))))))"

definition handleCompensationSucceeded :: "(bool, unit) handler" where
  "handleCompensationSucceeded =
     hbind (hcall BeginTransaction (\<lambda>_. Return False)) (\<lambda>_. withDeferredRollback compensationSucceededBody)"

section \<open>COMPENSATION\_FAILED\<close>

definition handleCompensationFailed :: "(bool, unit) handler" where
  "handleCompensationFailed =
     hbind (hcall BeginTransaction (\<lambda>_. Return False)) (\<lambda>_.
     withDeferredRollback (
       hbind (hTransitStep SagaStepStateEnum_CompensationBlocked (Abandon False False)) (\<lambda>_.
       hbind (hTransitSaga SagaStateEnum_Blocked (Abandon False False)) (\<lambda>_.
       hbind (hcall CommitTransaction (\<lambda>_. Abandon False False)) (\<lambda>_.
       hexit (Return False))))))"

section \<open>The switch\<close>

definition processSagaStep :: "coordinator \<Rightarrow> (bool, unit) handler" where
  "processSagaStep co =
     hbind (hget h_step) (\<lambda>step.
     (case Ss_State step of
        SagaStepStateEnum_ExecutionCandidate \<Rightarrow> handleExecutionCandidate
      | SagaStepStateEnum_ExecutionRunning \<Rightarrow> handleExecutionRunning co
      | SagaStepStateEnum_ExecutionSucceeded \<Rightarrow> handleExecutionSucceeded
      | SagaStepStateEnum_ExecutionFailed \<Rightarrow> handleExecutionFailed
      | SagaStepStateEnum_CompensationCandidate \<Rightarrow> handleCompensationCandidate
      | SagaStepStateEnum_CompensationRunning \<Rightarrow> handleCompensationRunning co
      | SagaStepStateEnum_CompensationSucceeded \<Rightarrow> handleCompensationSucceeded
      | SagaStepStateEnum_CompensationFailed \<Rightarrow> handleCompensationFailed
      | SagaStepStateEnum_ExecutionDone \<Rightarrow> hexit (Return False)
      | SagaStepStateEnum_CompensationDone \<Rightarrow> hexit (Return False)
      | _ \<Rightarrow> hInvalidateAndReturn False))"

end
