(* ===== verification/Coordinator_Results.thy ===== *)
theory Coordinator_Results
  imports Coordinator_Transit
begin

text \<open>
  \<open>processSagaStepExecutionResult\<close> (\<open>coordinator.go\<close>): what the coordinator does with an executor's
  result, and the consumer callback of \<open>Start\<close> that hands it over.  The returned value is the Go
  \<open>error\<close>: \<open>None\<close> acknowledges the message, \<open>Some\<close> has it redelivered.
\<close>

text \<open>\<open>select { case <-ctx.Done(): return ...; default: }\<close>: the script says whether the context is done.\<close>
definition context_done :: "world \<Rightarrow> unit result \<times> world" where
  "context_done w = (case next_fault w of
      (Works, w1) \<Rightarrow> (Ok (), w1)
    | (_, w1) \<Rightarrow> (Err ''saga processing cancelled'', w1))"

text \<open>Results for these states are late or duplicate.\<close>
definition lateResultState :: "SagaStepStateEnum \<Rightarrow> bool" where
  "lateResultState st = (st \<in> {SagaStepStateEnum_ExecutionSucceeded, SagaStepStateEnum_ExecutionDone,
     SagaStepStateEnum_ExecutionFailed, SagaStepStateEnum_ExecutionAborted, SagaStepStateEnum_ExecutionBlocked,
     SagaStepStateEnum_CompensationPending, SagaStepStateEnum_CompensationCandidate,
     SagaStepStateEnum_CompensationSucceeded, SagaStepStateEnum_CompensationDone,
     SagaStepStateEnum_CompensationFailed})"

definition isCompensationResult :: "SagaStepInstance \<Rightarrow> bool" where
  "isCompensationResult step =
     (Ss_ExecutionHistory step \<noteq> [] \<and> IsCompensation (last (Ss_ExecutionHistory step)))"

definition storeResult :: "SagaStepExecutionResultPayload \<Rightarrow> (string option, unit) handler" where
  "storeResult er =
     hbind (hget h_step) (\<lambda>step.
     if isCompensationResult step then
       hbind (hmodify (\<lambda>s. s\<lparr>h_step := step\<lparr>Ss_CompensationResult := Er_ExecutionResult er\<rparr>\<rparr>)) (\<lambda>_.
       hbind (hget h_step) (\<lambda>step1.
       hcall (UpdateSagaStepCompensationResult step1)
         (\<lambda>e. Abandon False (Some (''failed to update saga step compensation result: '' @ e)))))
     else
       hbind (hmodify (\<lambda>s. s\<lparr>h_step := step\<lparr>Ss_Result := Er_ExecutionResult er\<rparr>\<rparr>)) (\<lambda>_.
       hbind (hget h_step) (\<lambda>step1.
       hcall (UpdateSagaStepResult step1)
         (\<lambda>e. Abandon False (Some (''failed to update saga step result: '' @ e))))))"

text \<open>The state a result leads to; \<open>None\<close> for \<open>IN_EXECUTION\<close>.\<close>
definition resultTarget :: "bool \<Rightarrow> ExecutionResultStatusEnum \<Rightarrow> SagaStepStateEnum option" where
  "resultTarget isComp status =
     (case status of
        ExecutionResultStatusEnum_Success \<Rightarrow>
          Some (if isComp then SagaStepStateEnum_CompensationSucceeded else SagaStepStateEnum_ExecutionSucceeded)
      | ExecutionResultStatusEnum_InExecution \<Rightarrow> None
      | _ \<Rightarrow>
          Some (if isComp then SagaStepStateEnum_CompensationFailed else SagaStepStateEnum_ExecutionFailed))"

text \<open>\<open>go c.processStepWithMutex(...)\<close>\<close>
definition hSpawnProcessing :: "SagaStepExecutionResultPayload \<Rightarrow> ('e, unit) handler" where
  "hSpawnProcessing er = hmodify (\<lambda>s. s\<lparr>h_w := (h_w s)\<lparr>w_spawned := w_spawned (h_w s) @
     [(Si_ClusterId (h_saga s), Er_SagaInstanceId er, Er_SagaStepInstanceId er)]\<rparr>\<rparr>)"

definition applyResult :: "SagaStepExecutionResultPayload \<Rightarrow> (string option, unit) handler" where
  "applyResult er =
     hbind (hget h_step) (\<lambda>step.
     (case resultTarget (IsCompensation (last (Ss_ExecutionHistory step))) (Er_Status er) of
        None \<Rightarrow> hreturn ()
      | Some target \<Rightarrow>
          hbind (hTransitStep target (Abandon False (Some
                   (''failed to transition to '' @ sagaStepStateString target @ '' state'')))) (\<lambda>_.
          hSpawnProcessing er)))"

definition hNotCancelled :: "(string option, unit) handler" where
  "hNotCancelled = hcall context_done (\<lambda>e. Abandon False (Some e))"

text \<open>Everything after the step row is read.\<close>
definition executionResultOnStep ::
    "string \<Rightarrow> SagaStepExecutionResultPayload \<Rightarrow> SagaStepInstance \<Rightarrow> (string option, unit) handler" where
  "executionResultOnStep clusterId er step =
     hbind (hmodify (\<lambda>s. s\<lparr>h_step := step\<rparr>)) (\<lambda>_.
     hbind hNotCancelled (\<lambda>_.
     if lateResultState (Ss_State step) then
       hbind (hcall CommitTransaction (\<lambda>e. Abandon False (Some (''failed to commit transaction: '' @ e)))) (\<lambda>_.
       hexit (Return None))
     else
     hbind (hcall (GetSagaInstance clusterId (Er_SagaInstanceId er))
              (\<lambda>e. Abandon False (if e = ErrSagaInstanceNotFound then None
                                  else Some (''failed to get saga instance: '' @ e)))) (\<lambda>saga.
     hbind (hmodify (\<lambda>s. s\<lparr>h_saga := saga\<rparr>)) (\<lambda>_.
     hbind hNotCancelled (\<lambda>_.
     hbind (storeResult er) (\<lambda>_.
     if Ss_ExecutionHistory step = [] then
       hexit (Abandon True (Some ''CRITICAL: saga step has no execution history but received execution result''))
     else
     hbind (hworld time_now) (\<lambda>nowTs.
     hbind (hmodify (\<lambda>s. s\<lparr>h_step := (h_step s)\<lparr>Ss_ExecutionHistory :=
               mapLast (\<lambda>l. l\<lparr>ExecutionResultReceivedTs := nowTs, ExecutionResult := Er_ExecutionResult er,
                              LogConclusionTs := nowTs\<rparr>) (Ss_ExecutionHistory (h_step s))\<rparr>\<rparr>)) (\<lambda>_.
     hbind (hget h_step) (\<lambda>step2.
     hbind (hcall (UpdateSagaStepInstanceExecutionHistory step2)
              (\<lambda>e. Abandon False (Some (''failed to update saga step execution history: '' @ e)))) (\<lambda>_.
     hbind hNotCancelled (\<lambda>_.
     hbind (applyResult er) (\<lambda>_.
     hbind hNotCancelled (\<lambda>_.
     hbind (hcall CommitTransaction (\<lambda>e. Abandon False (Some (''failed to commit transaction: '' @ e)))) (\<lambda>_.
     hexit (Return None)))))))))))))))"

text \<open>Everything after the deferred function is registered.\<close>
definition executionResultBody ::
    "string \<Rightarrow> SagaStepExecutionResultPayload \<Rightarrow> (string option, unit) handler" where
  "executionResultBody clusterId er =
     hbind (hcall (GetSagaStepInstance clusterId (Er_SagaStepInstanceId er))
              (\<lambda>e. Abandon False (if e = ErrSagaStepInstanceNotFound then None
                                  else Some (''failed to get saga step instance: '' @ e))))
       (executionResultOnStep clusterId er)"

text \<open>The first cancellation check stands before the deferred function: it returns with the
  transaction still registered for the goroutine.\<close>
definition processSagaStepExecutionResult ::
    "string \<Rightarrow> SagaStepExecutionResultPayload \<Rightarrow> (string option, unit) handler" where
  "processSagaStepExecutionResult clusterId er =
     hbind (hcall BeginTransaction (\<lambda>e. Return (Some (''failed to begin transaction: '' @ e)))) (\<lambda>_.
     hbind (hcall context_done (\<lambda>e. Return (Some e))) (\<lambda>_.
     withDeferredRollback (executionResultBody clusterId er)))"

section \<open>The consumer callback\<close>

text \<open>The body is \<open>None\<close> when it does not unmarshal; a payload whose body is of another type stands
  for data that does not unmarshal into a result.  \<open>None\<close> as outcome: the callback returns nil without
  touching the store.\<close>
definition ExecutionPipelineMessageTypeEnum_Trax :: string where
  "ExecutionPipelineMessageTypeEnum_Trax = ''EXECUTION_PIPELINE_MESSAGE_TYPE_ENUM_TRAX''"

definition resultOfMessage :: "string \<Rightarrow> TraxMessage option \<Rightarrow> SagaStepExecutionResultPayload option" where
  "resultOfMessage messageType body =
     (if messageType \<noteq> ExecutionPipelineMessageTypeEnum_Trax then None
      else (case body of
          None \<Rightarrow> None
        | Some msg \<Rightarrow>
            (case Tm_Payloads msg of
               [] \<Rightarrow> None
             | p # _ \<Rightarrow>
                 if P_Type p = SagaPayloadType_SagaStepExecutionResult then
                   (case P_Data p of
                      SagaStepExecutionResultBody er \<Rightarrow>
                        if Er_Status er = ExecutionResultStatusEnum_InExecution then None else Some er
                    | _ \<Rightarrow> None)
                 else None)))"

definition consumeResult ::
    "string \<Rightarrow> string \<Rightarrow> TraxMessage option \<Rightarrow> (string option, unit) handler" where
  "consumeResult clusterId messageType body =
     (case resultOfMessage messageType body of
        None \<Rightarrow> hexit (Return None)
      | Some er \<Rightarrow> processSagaStepExecutionResult clusterId er)"

end
