(* ===== verification/Saga_Invariant.thy ===== *)
theory Saga_Invariant
  imports Store_Psql Step_Order
begin

text \<open>
  What the database promises about every saga at every moment: the states of its steps, in execution
  order, follow one of the patterns the comment of \<open>isSagaStateValid\<close> draws, the saga's own state fits
  the pattern, the links of its steps form one chain, the execution history of a step fits its state, and
  the ids of the steps are alphanumeric, so that two steps never share an idempotency key.
\<close>

section \<open>Patterns of step states\<close>

definition fwd_active :: "SagaStepStateEnum \<Rightarrow> bool" where
  "fwd_active st = (st \<in> {SagaStepStateEnum_ExecutionCandidate, SagaStepStateEnum_ExecutionRunning,
     SagaStepStateEnum_ExecutionSucceeded, SagaStepStateEnum_ExecutionFailed,
     SagaStepStateEnum_ExecutionBlocked})"

definition cmp_active :: "SagaStepStateEnum \<Rightarrow> bool" where
  "cmp_active st = (st \<in> {SagaStepStateEnum_CompensationCandidate, SagaStepStateEnum_CompensationRunning,
     SagaStepStateEnum_CompensationSucceeded, SagaStepStateEnum_CompensationFailed,
     SagaStepStateEnum_CompensationBlocked})"

text \<open>\<open>D..D x P..P\<close> with the active step at position i.\<close>
definition forward_at :: "SagaStepStateEnum list \<Rightarrow> nat \<Rightarrow> bool" where
  "forward_at ss i = (i < length ss \<and> fwd_active (ss ! i) \<and>
     (\<forall>j < i. ss ! j = SagaStepStateEnum_ExecutionDone) \<and>
     (\<forall>j < length ss. i < j \<longrightarrow> ss ! j = SagaStepStateEnum_ExecutionPending))"

text \<open>\<open>d..d A..A\<close> from position i on.\<close>
definition settled_from :: "SagaStepStateEnum list \<Rightarrow> nat \<Rightarrow> bool" where
  "settled_from ss i = (\<exists>k \<ge> i. \<forall>j < length ss. i \<le> j \<longrightarrow>
     ss ! j = (if j < k then SagaStepStateEnum_CompensationDone else SagaStepStateEnum_ExecutionAborted))"

text \<open>\<open>p..p x d..d A..A\<close> with the active step at position i.\<close>
definition backward_at :: "SagaStepStateEnum list \<Rightarrow> nat \<Rightarrow> bool" where
  "backward_at ss i = (i < length ss \<and> cmp_active (ss ! i) \<and>
     (\<forall>j < i. ss ! j = SagaStepStateEnum_CompensationPending) \<and> settled_from ss (Suc i))"

definition all_done :: "SagaStepStateEnum list \<Rightarrow> bool" where
  "all_done ss = (\<forall>st \<in> set ss. st = SagaStepStateEnum_ExecutionDone)"

definition compensated :: "SagaStepStateEnum list \<Rightarrow> bool" where
  "compensated ss = (ss \<noteq> [] \<and> hd ss = SagaStepStateEnum_CompensationDone \<and> settled_from ss 0)"

definition in_flight :: "SagaStepStateEnum list \<Rightarrow> bool" where
  "in_flight ss = (ss = [] \<or> (\<exists>i. forward_at ss i \<or> backward_at ss i))"

definition shape :: "SagaStepStateEnum list \<Rightarrow> bool" where
  "shape ss = (in_flight ss \<or> all_done ss \<or> compensated ss)"

text \<open>Which patterns a saga's own state allows.  A COMPENSATED saga whose steps are not all settled is
  one an operator forced; an INVALID saga's steps stay where they were.\<close>
fun coherent :: "SagaStateEnum \<Rightarrow> SagaStepStateEnum list \<Rightarrow> bool" where
  "coherent SagaStateEnum_Running ss = in_flight ss"
| "coherent SagaStateEnum_Committed ss = all_done ss"
| "coherent SagaStateEnum_CompensationRequested ss = all_done ss"
| "coherent SagaStateEnum_Compensated ss = (compensated ss \<or> (\<exists>i. backward_at ss i))"
| "coherent SagaStateEnum_Blocked ss = (\<exists>i. backward_at ss i)"
| "coherent SagaStateEnum_InvalidState ss = shape ss"
| "coherent _ ss = False"

lemma coherent_shape: "coherent g ss \<Longrightarrow> shape ss"
  by (cases g) (auto simp: shape_def in_flight_def)

lemma forward_at_state: "forward_at ss i \<Longrightarrow> fwd_active (ss ! i)"
  by (simp add: forward_at_def)

lemma backward_at_state: "backward_at ss i \<Longrightarrow> cmp_active (ss ! i)"
  by (simp add: backward_at_def)

lemma fwd_not_cmp: "fwd_active st \<Longrightarrow> \<not> cmp_active st"
  by (auto simp: fwd_active_def cmp_active_def)

lemma settled_nth:
  "settled_from ss i \<Longrightarrow> i \<le> j \<Longrightarrow> j < length ss \<Longrightarrow>
   ss ! j = SagaStepStateEnum_CompensationDone \<or> ss ! j = SagaStepStateEnum_ExecutionAborted"
  unfolding settled_from_def by (metis (full_types))

lemma all_done_nth: "all_done ss \<Longrightarrow> i < length ss \<Longrightarrow> ss ! i = SagaStepStateEnum_ExecutionDone"
  by (simp add: all_done_def)

lemma settled_Nil: "length ss \<le> i \<Longrightarrow> settled_from ss i"
  by (auto simp: settled_from_def)

text \<open>An active state is found in exactly one place.\<close>
lemma shape_fwd_at:
  assumes "shape ss" "i < length ss" "fwd_active (ss ! i)"
  shows "forward_at ss i"
proof -
  have nz: "ss \<noteq> []" using assms by auto
  have "\<not> all_done ss" using assms by (auto simp: fwd_active_def dest: all_done_nth)
  moreover have "\<not> compensated ss"
    using assms settled_nth[of ss 0 i] by (auto simp: compensated_def fwd_active_def)
  moreover have "\<not> backward_at ss k" for k
    using assms settled_nth[of ss "Suc k" i]
    by (cases "i < k"; cases "i = k") (auto simp: backward_at_def fwd_active_def cmp_active_def)
  ultimately obtain k where k: "forward_at ss k"
    using assms(1) nz by (auto simp: shape_def in_flight_def)
  have "k = i"
    using k assms(2,3) by (cases i k rule: linorder_cases) (auto simp: forward_at_def fwd_active_def)
  with k show ?thesis by simp
qed

lemma shape_cmp_at:
  assumes "shape ss" "i < length ss" "cmp_active (ss ! i)"
  shows "backward_at ss i"
proof -
  have nz: "ss \<noteq> []" using assms by auto
  have "\<not> all_done ss" using assms by (auto simp: cmp_active_def dest: all_done_nth)
  moreover have "\<not> compensated ss"
    using assms settled_nth[of ss 0 i] by (auto simp: compensated_def cmp_active_def)
  moreover have "\<not> forward_at ss k" for k
    using assms by (cases i k rule: linorder_cases) (auto simp: forward_at_def fwd_active_def cmp_active_def)
  ultimately obtain k where k: "backward_at ss k"
    using assms(1) nz by (auto simp: shape_def in_flight_def)
  have "k = i"
    using k assms(2,3) settled_nth[of ss "Suc k" i]
    by (cases i k rule: linorder_cases) (auto simp: backward_at_def cmp_active_def)
  with k show ?thesis by simp
qed

lemma shape_pending_cmp:
  assumes "shape ss" "i < length ss" "ss ! i = SagaStepStateEnum_CompensationPending"
  shows "\<exists>k. backward_at ss k \<and> i < k"
proof -
  have nz: "ss \<noteq> []" using assms by auto
  have "\<not> all_done ss" using assms by (auto dest: all_done_nth)
  moreover have "\<not> compensated ss"
    using assms settled_nth[of ss 0 i] by (auto simp: compensated_def)
  moreover have "\<not> forward_at ss k" for k
    using assms by (cases i k rule: linorder_cases) (auto simp: forward_at_def fwd_active_def)
  ultimately obtain k where k: "backward_at ss k"
    using assms(1) nz by (auto simp: shape_def in_flight_def)
  have "i < k"
    using k assms(2,3) settled_nth[of ss "Suc k" i]
    by (cases i k rule: linorder_cases) (auto simp: backward_at_def cmp_active_def)
  with k show ?thesis by auto
qed

lemma in_flight_active:
  "in_flight ss \<Longrightarrow> i < length ss \<Longrightarrow> fwd_active (ss ! i) \<or> cmp_active (ss ! i) \<Longrightarrow>
   forward_at ss i \<or> backward_at ss i"
  using shape_fwd_at shape_cmp_at by (auto simp: shape_def)

section \<open>Histories and states of one step\<close>

text \<open>The history of a step that has not started is empty; a running step's last log is of the phase it
  runs in, and so is a failed, succeeded or blocked compensation's.\<close>
definition step_ok :: "SagaStepInstance \<Rightarrow> bool" where
  "step_ok s = (let h = Ss_ExecutionHistory s in
     (Ss_State s \<in> {SagaStepStateEnum_ExecutionPending, SagaStepStateEnum_ExecutionCandidate,
                   SagaStepStateEnum_ExecutionAborted} \<longrightarrow> h = []) \<and>
     (Ss_State s = SagaStepStateEnum_ExecutionRunning \<longrightarrow> h \<noteq> [] \<and> \<not> IsCompensation (last h)) \<and>
     (Ss_State s \<in> {SagaStepStateEnum_CompensationRunning, SagaStepStateEnum_CompensationSucceeded,
                   SagaStepStateEnum_CompensationFailed, SagaStepStateEnum_CompensationBlocked}
        \<longrightarrow> h \<noteq> [] \<and> IsCompensation (last h)))"

section \<open>The database invariant\<close>

definition saga_rows :: "string \<Rightarrow> string \<Rightarrow> SagaStepInstance list \<Rightarrow> SagaStepInstance list" where
  "saga_rows cid gid S = filter (\<lambda>r. Ss_ClusterId r = cid \<and> Ss_SagaInstanceId r = gid) S"

definition ordered :: "string \<Rightarrow> string \<Rightarrow> SagaStepInstance list \<Rightarrow> SagaStepInstance list option" where
  "ordered cid gid S = OrderSagaStepsInSequence (saga_rows cid gid S)"

abbreviation step_key :: "SagaStepInstance \<Rightarrow> string \<times> string" where
  "step_key r \<equiv> (Ss_ClusterId r, Ss_InstanceId r)"

abbreviation saga_key :: "SagaInstance \<Rightarrow> string \<times> string" where
  "saga_key g \<equiv> (Si_ClusterId g, Si_InstanceId g)"

definition saga_wf :: "SagaStepInstance list \<Rightarrow> SagaInstance \<Rightarrow> bool" where
  "saga_wf S g = (\<exists>os. ordered (Si_ClusterId g) (Si_InstanceId g) S = Some os \<and>
     mset os = mset (saga_rows (Si_ClusterId g) (Si_InstanceId g) S) \<and>
     coherent (Si_State g) (map Ss_State os))"

definition db_inv :: "SagaInstance list \<Rightarrow> SagaStepInstance list \<Rightarrow> bool" where
  "db_inv G S = (distinct (map step_key S) \<and> distinct (map saga_key G) \<and>
     (\<forall>r \<in> set S. step_ok r) \<and>
     (\<forall>r \<in> set S. list_all isAlnum (Ss_InstanceId r)) \<and>
     (\<forall>r \<in> set S. \<exists>g \<in> set G. saga_key g = (Ss_ClusterId r, Ss_SagaInstanceId r)) \<and>
     (\<forall>g \<in> set G. saga_wf S g))"

text \<open>Row functions that keep the identity, the links and the owner of a step.\<close>
definition framed :: "(SagaStepInstance \<Rightarrow> SagaStepInstance) \<Rightarrow> bool" where
  "framed f = (link_preserving f \<and>
     (\<forall>r. Ss_ClusterId (f r) = Ss_ClusterId r \<and> Ss_SagaInstanceId (f r) = Ss_SagaInstanceId r))"

definition framed_saga :: "(SagaInstance \<Rightarrow> SagaInstance) \<Rightarrow> bool" where
  "framed_saga f = (\<forall>g. Si_ClusterId (f g) = Si_ClusterId g \<and> Si_InstanceId (f g) = Si_InstanceId g)"

lemma framed_id: "framed (\<lambda>r. r)" and framed_saga_id: "framed_saga (\<lambda>g. g)"
  by (auto simp: framed_def link_preserving_def framed_saga_def)

lemma framed_if: "framed f \<Longrightarrow> framed (\<lambda>r. if P r then f r else r)"
  by (auto simp: framed_def link_preserving_def)

lemma framed_comp: "framed f \<Longrightarrow> framed h \<Longrightarrow> framed (\<lambda>r. f (h r))"
  by (auto simp: framed_def link_preserving_def)

lemma saga_rows_map: "framed f \<Longrightarrow> saga_rows cid gid (map f S) = map f (saga_rows cid gid S)"
  by (auto simp: saga_rows_def framed_def intro!: filter_map_commute)

lemma ordered_map: "framed f \<Longrightarrow> ordered cid gid (map f S) = map_option (map f) (ordered cid gid S)"
  by (simp add: ordered_def saga_rows_map order_map framed_def)

lemma ordered_set: "ordered cid gid S = Some os \<Longrightarrow> set os \<subseteq> set (saga_rows cid gid S)"
  unfolding ordered_def by (rule order_set)

lemma ordered_mem:
  "ordered cid gid S = Some os \<Longrightarrow> r \<in> set os \<Longrightarrow>
   r \<in> set S \<and> Ss_ClusterId r = cid \<and> Ss_SagaInstanceId r = gid"
  using ordered_set by (fastforce simp: saga_rows_def)

lemma ordered_distinct:
  assumes "distinct (map step_key S)" "ordered cid gid S = Some os" "mset os = mset (saga_rows cid gid S)"
  shows "distinct (map Ss_InstanceId os)"
proof -
  have "distinct (map step_key (saga_rows cid gid S))"
    unfolding saga_rows_def by (rule distinct_map_filter[OF assms(1)])
  then have "distinct (map step_key os)"
    using assms(3) by (metis mset_eq_imp_distinct_iff mset_map)
  then show ?thesis
    using ordered_mem[OF assms(2)] by (auto simp: distinct_map inj_on_def)
qed

lemma framed_keys: "framed f \<Longrightarrow> map step_key (map f S) = map step_key S"
  by (simp add: framed_def link_preserving_def)

lemma framed_saga_keys: "framed_saga f \<Longrightarrow> map saga_key (map f G) = map saga_key G"
  by (simp add: framed_saga_def)

text \<open>The workhorse: an update of one saga's rows (its steps by f, its own row by h) keeps the invariant
  when the new history of each step fits and the new pattern fits the new saga state.\<close>
lemma db_inv_update:
  assumes J: "db_inv G S" and g: "g \<in> set G"
    and os: "ordered (Si_ClusterId g) (Si_InstanceId g) S = Some os"
    and f: "framed f" and h: "framed_saga h"
    and f_other: "\<And>r. r \<in> set S \<Longrightarrow> (Ss_ClusterId r, Ss_SagaInstanceId r) \<noteq> saga_key g \<Longrightarrow> f r = r"
    and h_other: "\<And>x. x \<in> set G \<Longrightarrow> saga_key x \<noteq> saga_key g \<Longrightarrow> Si_State (h x) = Si_State x"
    and ok: "\<And>r. r \<in> set os \<Longrightarrow> step_ok (f r)"
    and coh: "coherent (Si_State (h g)) (map (\<lambda>r. Ss_State (f r)) os)"
  shows "db_inv (map h G) (map f S)"
  unfolding db_inv_def
proof (intro conjI ballI)
  have wf: "x \<in> set G \<Longrightarrow> saga_wf S x" for x using J by (simp add: db_inv_def)
  have keyinj: "x \<in> set G \<Longrightarrow> saga_key x = saga_key g \<Longrightarrow> x = g" for x
    using J g by (auto simp: db_inv_def distinct_map inj_on_def)
  obtain os' where os': "ordered (Si_ClusterId g) (Si_InstanceId g) S = Some os'"
      "mset os' = mset (saga_rows (Si_ClusterId g) (Si_InstanceId g) S)"
    using wf[OF g] by (auto simp: saga_wf_def)
  have mos: "mset os = mset (saga_rows (Si_ClusterId g) (Si_InstanceId g) S)" using os os' by simp
  show "distinct (map step_key (map f S))" using J framed_keys[OF f] unfolding db_inv_def by metis
  show "distinct (map saga_key (map h G))" using J framed_saga_keys[OF h] unfolding db_inv_def by metis
  show "step_ok r" if r: "r \<in> set (map f S)" for r
  proof -
    from r obtain r0 where r0: "r0 \<in> set S" "r = f r0" by auto
    show ?thesis
    proof (cases "(Ss_ClusterId r0, Ss_SagaInstanceId r0) = saga_key g")
      case True
      then have "r0 \<in> set os" using r0 mset_eq_setD[OF mos] by (auto simp: saga_rows_def)
      then show ?thesis using ok r0 by simp
    next
      case False
      then show ?thesis using f_other[OF r0(1)] r0 J by (simp add: db_inv_def)
    qed
  qed
  show "list_all isAlnum (Ss_InstanceId r)" if r: "r \<in> set (map f S)" for r
    using r J f by (auto simp: db_inv_def framed_def link_preserving_def)
  show "\<exists>x \<in> set (map h G). saga_key x = (Ss_ClusterId r, Ss_SagaInstanceId r)" if r: "r \<in> set (map f S)" for r
    using r J f h by (fastforce simp: db_inv_def framed_def framed_saga_def)
  show "saga_wf (map f S) x" if x: "x \<in> set (map h G)" for x
  proof -
    from x obtain x0 where x0: "x0 \<in> set G" "x = h x0" by auto
    show ?thesis
    proof (cases "saga_key x0 = saga_key g")
      case True
      with keyinj x0 have "x0 = g" by simp
      with x0 os mos coh show ?thesis
        using h by (auto simp: saga_wf_def ordered_map[OF f] saga_rows_map[OF f] framed_saga_def comp_def)
    next
      case False
      obtain xs where xs: "ordered (Si_ClusterId x0) (Si_InstanceId x0) S = Some xs"
          "mset xs = mset (saga_rows (Si_ClusterId x0) (Si_InstanceId x0) S)"
          "coherent (Si_State x0) (map Ss_State xs)"
        using wf[OF x0(1)] by (auto simp: saga_wf_def)
      have "map f xs = xs"
        using ordered_mem[OF xs(1)] f_other False by (intro map_idI) auto
      moreover from this have "image_mset f (mset (saga_rows (Si_ClusterId x0) (Si_InstanceId x0) S)) =
          mset (saga_rows (Si_ClusterId x0) (Si_InstanceId x0) S)"
        using xs(2) by (metis mset_map)
      ultimately show ?thesis
        using xs h h_other[OF x0(1) False] x0(2)
        by (auto simp: saga_wf_def ordered_map[OF f] saga_rows_map[OF f] framed_saga_def)
    qed
  qed
qed

text \<open>Marking a saga invalid never breaks the invariant.\<close>
lemma db_inv_saga_update:
  assumes J: "db_inv G S" and h: "framed_saga h"
    and st: "\<And>g os. g \<in> set G \<Longrightarrow> coherent (Si_State g) os \<Longrightarrow> coherent (Si_State (h g)) os"
  shows "db_inv (map h G) S"
  using J unfolding db_inv_def
proof (elim conjE, intro conjI ballI)
  assume a: "distinct (map saga_key G)" "\<forall>g \<in> set G. saga_wf S g"
    "\<forall>r \<in> set S. \<exists>g \<in> set G. saga_key g = (Ss_ClusterId r, Ss_SagaInstanceId r)"
  show "distinct (map saga_key (map h G))" using a(1) framed_saga_keys[OF h] by metis
  show "\<exists>x \<in> set (map h G). saga_key x = (Ss_ClusterId r, Ss_SagaInstanceId r)" if "r \<in> set S" for r
    using that a(3) h by (fastforce simp: framed_saga_def)
  show "saga_wf S x" if "x \<in> set (map h G)" for x
  proof -
    from that obtain x0 where x0: "x0 \<in> set G" "x = h x0" by auto
    with a(2) obtain os where "ordered (Si_ClusterId x0) (Si_InstanceId x0) S = Some os"
        "mset os = mset (saga_rows (Si_ClusterId x0) (Si_InstanceId x0) S)"
        "coherent (Si_State x0) (map Ss_State os)" by (auto simp: saga_wf_def)
    with x0 st[OF x0(1)] h show ?thesis by (auto simp: saga_wf_def framed_saga_def)
  qed
qed auto

end
