(* ===== verification/Saga_Validation.thy ===== *)
theory Saga_Validation
  imports Saga_Invariant Coordinator_Transit
begin

text \<open>
  \<open>isSagaStateValid\<close> and its two validators (\<open>coordinator.go\<close>), what patterns of step states they
  accept, and that they accept every pattern the database invariant allows.  The validators only look
  at states, so they take the states of the ordered steps.
\<close>

definition isCompensationState :: "SagaStepStateEnum \<Rightarrow> bool" where
  "isCompensationState state = (state \<in> {SagaStepStateEnum_CompensationPending,
     SagaStepStateEnum_CompensationCandidate, SagaStepStateEnum_CompensationRunning,
     SagaStepStateEnum_CompensationSucceeded, SagaStepStateEnum_CompensationDone,
     SagaStepStateEnum_CompensationFailed, SagaStepStateEnum_CompensationBlocked})"

section \<open>Forward mode\<close>

definition forwardState :: "SagaStepStateEnum \<Rightarrow> bool" where
  "forwardState state = (state \<in> {SagaStepStateEnum_ExecutionDone, SagaStepStateEnum_ExecutionCandidate,
     SagaStepStateEnum_ExecutionPending, SagaStepStateEnum_ExecutionRunning,
     SagaStepStateEnum_ExecutionSucceeded, SagaStepStateEnum_ExecutionFailed})"

text \<open>The loop over the next steps, with its flag.\<close>
fun scanNextSteps :: "bool \<Rightarrow> SagaStepStateEnum list \<Rightarrow> bool" where
  "scanNextSteps foundNonPending [] = True"
| "scanNextSteps foundNonPending (nextState # rest) =
     (if \<not> foundNonPending then
        (if nextState = SagaStepStateEnum_ExecutionPending then scanNextSteps False rest
         else if forwardState nextState then scanNextSteps True rest
         else False)
      else nextState = SagaStepStateEnum_ExecutionPending \<and> scanNextSteps True rest)"

definition validateNonCompensatingMode :: "SagaStepStateEnum list \<Rightarrow> nat \<Rightarrow> bool" where
  "validateNonCompensatingMode states i =
     (forwardState (states ! i) \<and>
      list_all (\<lambda>st. st = SagaStepStateEnum_ExecutionDone) (take i states) \<and>
      scanNextSteps False (drop (Suc i) states))"

section \<open>Compensating mode\<close>

fun scanSettledSteps :: "bool \<Rightarrow> SagaStepStateEnum list \<Rightarrow> bool" where
  "scanSettledSteps foundAborted [] = True"
| "scanSettledSteps foundAborted (st # rest) =
     (if st = SagaStepStateEnum_ExecutionAborted then scanSettledSteps True rest
      else if isCompensationState st then (if foundAborted then False else scanSettledSteps foundAborted rest)
      else False)"

definition validateCompensatingMode :: "SagaStepStateEnum list \<Rightarrow> nat \<Rightarrow> bool" where
  "validateCompensatingMode states i =
     (isCompensationState (states ! i) \<and>
      list_all (\<lambda>st. st = SagaStepStateEnum_CompensationPending) (take i states) \<and>
      scanSettledSteps False (drop (Suc i) states))"

section \<open>The check\<close>

text \<open>A store error makes the answer false; \<open>None\<close> is the ordering loop that never ends.\<close>
definition isSagaStateValid :: "SagaInstance \<Rightarrow> SagaStepInstance \<Rightarrow> world \<Rightarrow> bool option \<times> world" where
  "isSagaStateValid saga currentStep w =
     (case ListSagaStepInstancesBySagaInstanceId (Si_ClusterId saga) (Si_InstanceId saga) w of
        (Inl e, w1) \<Rightarrow> (Some False, w1)
      | (Inr allSteps, w1) \<Rightarrow>
          if allSteps = [] then (Some True, w1)
          else (case OrderSagaStepsInSequence allSteps of
              None \<Rightarrow> (None, w1)
            | Some orderedSteps \<Rightarrow>
                (case indexOfStep currentStep orderedSteps of
                   None \<Rightarrow> (Some False, w1)
                 | Some i \<Rightarrow>
                     let states = map Ss_State orderedSteps in
                     (Some (if list_ex isCompensationState states
                            then validateCompensatingMode states i
                            else validateNonCompensatingMode states i), w1))))"

section \<open>What the validators accept\<close>

lemma scan_next_True: "scanNextSteps True ss = list_all (\<lambda>st. st = SagaStepStateEnum_ExecutionPending) ss"
  by (induction ss) auto

lemma scan_next_False:
  "scanNextSteps False ss = (\<exists>a b. ss = replicate a SagaStepStateEnum_ExecutionPending @ b \<and>
     (b = [] \<or> (\<exists>x c. b = x # replicate c SagaStepStateEnum_ExecutionPending \<and> forwardState x)))"
  (is "_ = ?R ss")
proof (induction ss)
  case Nil
  show ?case by (auto intro: exI[of _ 0])
next
  case (Cons st ss)
  show ?case
  proof (cases "st = SagaStepStateEnum_ExecutionPending")
    case True
    have "?R ss = ?R (st # ss)"
    proof
      assume "?R ss"
      then obtain a b where "ss = replicate a SagaStepStateEnum_ExecutionPending @ b"
        "b = [] \<or> (\<exists>x c. b = x # replicate c SagaStepStateEnum_ExecutionPending \<and> forwardState x)" by auto
      with True show "?R (st # ss)" by (intro exI[of _ "Suc a"] exI[of _ b]) auto
    next
      assume "?R (st # ss)"
      then obtain a b where ab: "st # ss = replicate a SagaStepStateEnum_ExecutionPending @ b"
        "b = [] \<or> (\<exists>x c. b = x # replicate c SagaStepStateEnum_ExecutionPending \<and> forwardState x)" by auto
      show "?R ss"
      proof (cases a)
        case 0
        with ab obtain c where "ss = replicate c SagaStepStateEnum_ExecutionPending" by auto
        then show ?thesis by (intro exI[of _ c] exI[of _ "[]"]) simp
      next
        case (Suc n)
        with ab show ?thesis by (intro exI[of _ n] exI[of _ b]) simp
      qed
    qed
    with True Cons.IH show ?thesis by simp
  next
    case False
    have allp: "list_all (\<lambda>st. st = SagaStepStateEnum_ExecutionPending) xs =
        (\<exists>c. xs = replicate c SagaStepStateEnum_ExecutionPending)" for xs
      by (induction xs) (auto simp: Cons_replicate_eq intro: exI[of _ "Suc _"])
    show ?thesis
    proof
      assume "scanNextSteps False (st # ss)"
      with False have "forwardState st" "scanNextSteps True ss" by (auto split: if_splits)
      then obtain c where "ss = replicate c SagaStepStateEnum_ExecutionPending"
        by (auto simp: scan_next_True allp)
      with \<open>forwardState st\<close> show "?R (st # ss)" by (intro exI[of _ 0] exI[of _ "st # ss"]) auto
    next
      assume "?R (st # ss)"
      then obtain a b where ab: "st # ss = replicate a SagaStepStateEnum_ExecutionPending @ b"
        "b = [] \<or> (\<exists>x c. b = x # replicate c SagaStepStateEnum_ExecutionPending \<and> forwardState x)" by auto
      with False have "a = 0" by (cases a) auto
      with ab show "scanNextSteps False (st # ss)" using False by (auto simp: scan_next_True allp)
    qed
  qed
qed

text \<open>C17: the forward validator accepts exactly D^i x P^a and D^i x P^a y P^c, where x is the current
  step's state and both x and y may be any forward state: one later step may be active, so the
  accepted set is wider than the patterns the comment of isSagaStateValid lists.\<close>
theorem validateNonCompensatingMode_iff:
  "i < length ss \<Longrightarrow> validateNonCompensatingMode ss i \<longleftrightarrow>
     (\<exists>x a tl. forwardState x \<and>
        ss = replicate i SagaStepStateEnum_ExecutionDone @ x #
             replicate a SagaStepStateEnum_ExecutionPending @ tl \<and>
        (tl = [] \<or> (\<exists>y c. tl = y # replicate c SagaStepStateEnum_ExecutionPending \<and> forwardState y)))"
proof -
  assume i: "i < length ss"
  have rep: "list_all (\<lambda>st. st = v) xs = (xs = replicate (length xs) v)" for v :: SagaStepStateEnum and xs
    by (induction xs) auto
  have "ss = replicate i v @ x # r \<longleftrightarrow> take i ss = replicate i v \<and> ss ! i = x \<and> drop (Suc i) ss = r" for v x r
    using i id_take_nth_drop[OF i] by (metis Cons_eq_append_conv append_eq_append_conv append_eq_conv_conj length_replicate length_take list.inject min.absorb4)
  then show ?thesis
    using i by (auto simp: validateNonCompensatingMode_def scan_next_False rep min_def)
qed

lemma validateNonCompensatingMode_iff_witness:
  "\<exists>x a tl. forwardState x \<and>
     [SagaStepStateEnum_ExecutionDone, SagaStepStateEnum_ExecutionRunning] =
       replicate 1 SagaStepStateEnum_ExecutionDone @ x # replicate a SagaStepStateEnum_ExecutionPending @ tl \<and>
     (tl = [] \<or> (\<exists>y c. tl = y # replicate c SagaStepStateEnum_ExecutionPending \<and> forwardState y))"
  using validateNonCompensatingMode_iff[of 1 "[SagaStepStateEnum_ExecutionDone, SagaStepStateEnum_ExecutionRunning]"]
  by (simp add: validateNonCompensatingMode_def forwardState_def)

lemma scan_settled:
  "scanSettledSteps f ss = (\<exists>q k. ss = q @ replicate k SagaStepStateEnum_ExecutionAborted \<and>
     (if f then q = [] else list_all isCompensationState q))"
proof (induction ss arbitrary: f)
  case (Cons st ss)
  have na: "\<not> isCompensationState SagaStepStateEnum_ExecutionAborted" by (simp add: isCompensationState_def)
  show ?case
  proof (cases "st = SagaStepStateEnum_ExecutionAborted")
    case True
    have "(\<exists>q k. st # ss = q @ replicate k SagaStepStateEnum_ExecutionAborted \<and>
        (if f then q = [] else list_all isCompensationState q)) =
        (\<exists>k. ss = replicate k SagaStepStateEnum_ExecutionAborted)" (is "?L = ?R")
    proof
      assume ?L
      then obtain q k where q: "st # ss = q @ replicate k SagaStepStateEnum_ExecutionAborted"
        "if f then q = [] else list_all isCompensationState q" by auto
      with True na have "q = []" by (cases q) (auto split: if_splits)
      with q show ?R by (auto simp: Cons_replicate_eq)
    next
      assume ?R
      then obtain k where "ss = replicate k SagaStepStateEnum_ExecutionAborted" ..
      with True show ?L by (intro exI[of _ "[]"] exI[of _ "Suc k"]) simp
    qed
    with True show ?thesis by (simp add: Cons.IH)
  next
    case False
    have "(\<exists>q k. st # ss = q @ replicate k SagaStepStateEnum_ExecutionAborted \<and>
        (if f then q = [] else list_all isCompensationState q)) =
        (\<not> f \<and> isCompensationState st \<and> (\<exists>q k. ss = q @ replicate k SagaStepStateEnum_ExecutionAborted \<and>
           list_all isCompensationState q))" (is "?L = ?R")
    proof
      assume ?L
      then obtain q k where q: "st # ss = q @ replicate k SagaStepStateEnum_ExecutionAborted"
        "if f then q = [] else list_all isCompensationState q" by auto
      with False obtain q' where "q = st # q'" by (cases q) (auto simp: Cons_replicate_eq)
      with q show ?R by (auto split: if_splits)
    next
      assume ?R
      then obtain q k where "\<not> f" "ss = q @ replicate k SagaStepStateEnum_ExecutionAborted"
        "list_all isCompensationState q" "isCompensationState st" by auto
      then show ?L by (intro exI[of _ "st # q"] exI[of _ k]) simp
    qed
    with False show ?thesis by (simp add: Cons.IH)
  qed
qed auto



section \<open>Every legal pattern passes\<close>

lemma forward_at_valid:
  assumes "forward_at ss i" "ss ! i \<noteq> SagaStepStateEnum_ExecutionBlocked"
  shows "validateNonCompensatingMode ss i \<and> \<not> list_ex isCompensationState ss"
proof -
  have n: "i < length ss" "fwd_active (ss ! i)" using assms by (auto simp: forward_at_def)
  have f: "forwardState (ss ! i)" using assms n by (auto simp: forwardState_def fwd_active_def)
  have r: "drop (Suc i) ss = replicate (length ss - Suc i) SagaStepStateEnum_ExecutionPending"
    using assms(1) by (intro nth_equalityI) (auto simp: forward_at_def)
  have l: "list_all (\<lambda>st. st = SagaStepStateEnum_ExecutionDone) (take i ss)"
    using assms(1) n by (auto simp: list_all_length forward_at_def)
  have "scanNextSteps False (drop (Suc i) ss)"
    unfolding scan_next_False using r by (intro exI[of _ "length ss - Suc i"] exI[of _ "[]"]) simp
  moreover have "\<not> isCompensationState (ss ! j)" if "j < length ss" for j
    using assms(1) that n
    by (cases i j rule: linorder_cases) (auto simp: forward_at_def isCompensationState_def fwd_active_def)
  ultimately show ?thesis
    using f l by (auto simp: validateNonCompensatingMode_def list_ex_iff in_set_conv_nth)
qed

lemma settled_decompose:
  assumes "settled_from ss i"
  shows "\<exists>k m. drop i ss = replicate m SagaStepStateEnum_CompensationDone @
           replicate k SagaStepStateEnum_ExecutionAborted"
proof -
  obtain k where k: "k \<ge> i" "\<forall>j < length ss. i \<le> j \<longrightarrow>
     ss ! j = (if j < k then SagaStepStateEnum_CompensationDone else SagaStepStateEnum_ExecutionAborted)"
    using assms by (auto simp: settled_from_def)
  let ?m = "min k (length ss) - i"
  have "drop i ss = replicate ?m SagaStepStateEnum_CompensationDone @
      replicate (length ss - i - ?m) SagaStepStateEnum_ExecutionAborted"
    using k by (intro nth_equalityI) (auto simp: nth_append)
  then show ?thesis by blast
qed

lemma backward_at_valid:
  assumes "backward_at ss i"
  shows "validateCompensatingMode ss i \<and> list_ex isCompensationState ss"
proof -
  have n: "i < length ss" "cmp_active (ss ! i)" using assms by (auto simp: backward_at_def)
  have f: "isCompensationState (ss ! i)" using n by (auto simp: isCompensationState_def cmp_active_def)
  obtain m k where "drop (Suc i) ss = replicate m SagaStepStateEnum_CompensationDone @
      replicate k SagaStepStateEnum_ExecutionAborted"
    using assms settled_decompose unfolding backward_at_def by blast
  then have "scanSettledSteps False (drop (Suc i) ss)"
    unfolding scan_settled
    by (intro exI[of _ "replicate m SagaStepStateEnum_CompensationDone"] exI[of _ k])
       (simp add: list_all_iff isCompensationState_def)
  moreover have "list_all (\<lambda>st. st = SagaStepStateEnum_CompensationPending) (take i ss)"
    using assms n by (auto simp: list_all_length backward_at_def)
  ultimately show ?thesis
    using f n by (auto simp: validateCompensatingMode_def list_ex_length)
qed

lemma isSagaStateValid_db [simp]:
  "w_db (snd (isSagaStateValid saga step w)) = w_db w \<and>
   w_tx (snd (isSagaStateValid saga step w)) = w_tx w"
  by (auto simp: isSagaStateValid_def ListSagaStepInstancesBySagaInstanceId_def db_query_def
      next_fault_def Let_def split: sum.splits prod.splits option.splits list.splits fault.splits)

end
