(* ===== verification/Coordinator_Poll.thy ===== *)
theory Coordinator_Poll
  imports Coordinator_Steps Coordinator_Results Saga_Validation
begin

text \<open>
  What runs under the saga's mutex (\<open>coordinator.go\<close>): the worker of the polling loop
  (\<open>processSagaSteps\<close>), the immediate processing a result triggers (\<open>processStepWithMutex\<close>), and
  \<open>initiateCompensationForCommittedSaga\<close>; and the query that finds the steps to poll.  An outcome
  \<open>Some m\<close> is a panic or a loop that never ends.
\<close>

section \<open>The polling query\<close>

text \<open>The CASE of the ORDER BY clause: it compares with strings of its own.\<close>
definition pollRank :: "string \<Rightarrow> nat" where
  "pollRank stored =
     (if stored = ''SAGA_STEP_EXECUTION_SUCCEEDED'' then 1
      else if stored = ''SAGA_STEP_EXECUTION_FAILED'' then 2
      else if stored = ''SAGA_STEP_EXECUTION_RUNNING'' then 3
      else if stored = ''SAGA_STEP_EXECUTION_CANDIDATE'' then 4
      else if stored = ''SAGA_STEP_COMPENSATION_SUCCEEDED'' then 5
      else if stored = ''SAGA_STEP_COMPENSATION_FAILED'' then 6
      else if stored = ''SAGA_STEP_COMPENSATION_RUNNING'' then 7
      else if stored = ''SAGA_STEP_COMPENSATION_CANDIDATE'' then 8
      else 9)"

definition GetSagaStepInstancesByAffinityAndOneOfSagaStatesAndOneOfSagaStepStates ::
    "string \<Rightarrow> string \<Rightarrow> SagaStateEnum list \<Rightarrow> SagaStepStateEnum list \<Rightarrow> world \<Rightarrow>
     SagaStepInstance list result \<times> world" where
  "GetSagaStepInstancesByAffinityAndOneOfSagaStatesAndOneOfSagaStepStates clusterId affinity sagaStates stepStates w =
     (case db_query (\<lambda>d. sort_key (\<lambda>r. pollRank (sagaStepStateString (Ss_State r)))
              (sort_key Ss_CreatedAt (filter (\<lambda>r. Ss_ClusterId r = clusterId \<and> Ss_Affinity r = affinity \<and>
                 Ss_State r \<in> set stepStates \<and>
                 (\<exists>g \<in> set (db_sagas d). Si_ClusterId g = clusterId \<and> Si_InstanceId g = Ss_SagaInstanceId r \<and>
                    Si_State g \<in> set sagaStates)) (db_steps d)))) w of
        (Inl e, w1) \<Rightarrow> (Err (''failed to query saga step instances: '' @ e), w1)
      | (Inr rs, w1) \<Rightarrow> (Ok rs, w1))"

definition polledSagaStates :: "SagaStateEnum list" where
  "polledSagaStates = [SagaStateEnum_Running, SagaStateEnum_CompensationRequested]"

definition polledStepStates :: "SagaStepStateEnum list" where
  "polledStepStates =
     [SagaStepStateEnum_ExecutionCandidate, SagaStepStateEnum_ExecutionRunning,
      SagaStepStateEnum_ExecutionSucceeded, SagaStepStateEnum_ExecutionFailed,
      SagaStepStateEnum_ExecutionDone, SagaStepStateEnum_CompensationCandidate,
      SagaStepStateEnum_CompensationRunning, SagaStepStateEnum_CompensationSucceeded,
      SagaStepStateEnum_CompensationFailed]"

definition pollQuery :: "coordinator \<Rightarrow> string \<Rightarrow> world \<Rightarrow> SagaStepInstance list result \<times> world" where
  "pollQuery co clusterId =
     GetSagaStepInstancesByAffinityAndOneOfSagaStatesAndOneOfSagaStepStates
       clusterId (co_affinityGroup co) polledSagaStates polledStepStates"

section \<open>Fresh data under the mutex\<close>

definition refreshSagaAndStep ::
    "string \<Rightarrow> string \<Rightarrow> string \<Rightarrow> world \<Rightarrow> (SagaInstance \<times> SagaStepInstance) option \<times> world" where
  "refreshSagaAndStep clusterId sagaId stepId w =
     (case GetSagaInstance clusterId sagaId w of
        (Inl e, w1) \<Rightarrow> (None, w1)
      | (Inr saga, w1) \<Rightarrow>
          (case ListSagaStepInstancesBySagaInstanceId clusterId sagaId w1 of
             (Inl e, w2) \<Rightarrow> (None, w2)
           | (Inr allSteps, w2) \<Rightarrow>
               (map_option (Pair saga) (find (\<lambda>s. Ss_InstanceId s = stepId) allSteps), w2)))"

text \<open>\<open>for followUpProcessingRequired\<close>: at most eleven calls, since the counter is checked after.\<close>
fun processLoop :: "nat \<Rightarrow> coordinator \<Rightarrow> hstate \<Rightarrow> string option \<times> hstate" where
  "processLoop 0 co s = (None, s)"
| "processLoop (Suc n) co s =
     (case processSagaStep co s of
        (Inl (Return True), s1) \<Rightarrow> processLoop n co s1
      | (Inl (Died m), s1) \<Rightarrow> (Some m, s1)
      | (_, s1) \<Rightarrow> (None, s1))"

definition maxLoopCount :: nat where "maxLoopCount = 11"

text \<open>Validate, then process until no follow-up is required; a saga that does not validate is marked
  invalid, and the error of marking it is dropped.\<close>
definition validateAndProcess ::
    "coordinator \<Rightarrow> SagaInstance \<Rightarrow> SagaStepInstance \<Rightarrow> world \<Rightarrow> string option \<times> world" where
  "validateAndProcess co saga step w =
     (case isSagaStateValid saga step w of
        (None, w1) \<Rightarrow> (Some ''OrderSagaStepsInSequence does not return'', w1)
      | (Some False, w1) \<Rightarrow>
          (case transitSagaToState saga SagaStateEnum_InvalidState w1 of
             (TPanic m, _, w2) \<Rightarrow> (Some m, w2)
           | (_, _, w2) \<Rightarrow> (None, w2))
      | (Some True, w1) \<Rightarrow>
          (case processLoop maxLoopCount co \<lparr>h_saga = saga, h_step = step, h_w = w1\<rparr> of
             (r, s) \<Rightarrow> (r, h_w s)))"

section \<open>Immediate processing\<close>

definition immediateSkip :: "SagaStepStateEnum \<Rightarrow> bool" where
  "immediateSkip st = (st \<in> {SagaStepStateEnum_ExecutionDone, SagaStepStateEnum_CompensationDone,
     SagaStepStateEnum_ExecutionRunning, SagaStepStateEnum_CompensationRunning})"

definition processStepWithMutex ::
    "coordinator \<Rightarrow> string \<Rightarrow> string \<Rightarrow> string \<Rightarrow> world \<Rightarrow> string option \<times> world" where
  "processStepWithMutex co clusterId sagaId stepId w =
     (case refreshSagaAndStep clusterId sagaId stepId w of
        (None, w1) \<Rightarrow> (None, w1)
      | (Some (saga, step), w1) \<Rightarrow>
          if immediateSkip (Ss_State step) then (None, w1)
          else validateAndProcess co saga step w1)"

section \<open>Compensating a committed saga\<close>

definition compensationRequestReason :: "SagaInstance \<Rightarrow> SagaInstance result \<Rightarrow> string" where
  "compensationRequestReason saga parent =
     (case parent of
        Inr parentSaga \<Rightarrow>
          if Si_CompensationReason parentSaga \<noteq> ''''
          then ''cascading from parent saga '' @ quoted (Si_ParentSagaInstanceId saga) @
               [CHR 0x0A] @ ''  '' @ [CHR 0xE2, CHR 0x86, CHR 0x90] @ '' '' @
               Si_CompensationReason parentSaga
          else ''cascading from parent saga '' @ quoted (Si_ParentSagaInstanceId saga)
      | Inl _ \<Rightarrow> ''cascading from parent saga '' @ quoted (Si_ParentSagaInstanceId saga))"

definition pendStep :: "SagaStepInstance \<Rightarrow> (unit, unit) handler" where
  "pendStep step =
     hbind (hTransitOther step SagaStepStateEnum_CompensationPending (Abandon False ())) (\<lambda>_. hreturn ())"

definition setCompensationReason :: "(unit, unit) handler" where
  "setCompensationReason =
     hbind (hget h_saga) (\<lambda>saga.
     if Si_ParentSagaInstanceId saga = '''' then
       hmodify (\<lambda>s. s\<lparr>h_saga := saga\<lparr>Si_CompensationReason := ''compensation requested for committed saga''\<rparr>\<rparr>)
     else
       hbind (htry (GetSagaInstance (Si_ClusterId saga) (Si_ParentSagaInstanceId saga))) (\<lambda>parent.
       hmodify (\<lambda>s. s\<lparr>h_saga := saga\<lparr>Si_CompensationReason := compensationRequestReason saga parent\<rparr>\<rparr>)))"

definition initiateCompensationBody :: "SagaStepInstance list \<Rightarrow> (unit, unit) handler" where
  "initiateCompensationBody orderedSteps =
     hbind setCompensationReason (\<lambda>_.
     hbind (hTransitOther (last orderedSteps) SagaStepStateEnum_CompensationCandidate (Abandon False ())) (\<lambda>_.
     hbind (hforeach pendStep (butlast orderedSteps)) (\<lambda>_.
     hbind (hget h_saga) (\<lambda>saga.
     hbind (hcall (UpdateSagaState saga SagaStateEnum_Running) (\<lambda>_. Abandon False ())) (\<lambda>_.
     hbind (hcall CommitTransaction (\<lambda>_. Abandon False ())) (\<lambda>_.
     hexit (Return ())))))))"

definition initiateCompensationForCommittedSaga :: "(unit, unit) handler" where
  "initiateCompensationForCommittedSaga =
     hbind (hListSteps (Return ())) (\<lambda>allSteps.
     if allSteps = [] then hInvalidateAndReturn ()
     else
     hbind (hOrder allSteps) (\<lambda>orderedSteps.
     if \<not> list_all (\<lambda>s. Ss_State s = SagaStepStateEnum_ExecutionDone) orderedSteps then hInvalidateAndReturn ()
     else
     hbind (hcall BeginTransaction (\<lambda>_. Return ())) (\<lambda>_.
     withDeferredRollback (initiateCompensationBody orderedSteps))))"

section \<open>The worker of the polling loop\<close>

definition pollSkip :: "SagaStepStateEnum \<Rightarrow> bool" where
  "pollSkip st = (st \<in> {SagaStepStateEnum_ExecutionDone, SagaStepStateEnum_CompensationDone,
     SagaStepStateEnum_ExecutionAborted, SagaStepStateEnum_CompensationBlocked,
     SagaStepStateEnum_ExecutionRunning, SagaStepStateEnum_CompensationRunning,
     SagaStepStateEnum_ExecutionPending, SagaStepStateEnum_CompensationPending})"

definition pollStep ::
    "coordinator \<Rightarrow> string \<Rightarrow> string \<Rightarrow> string \<Rightarrow> world \<Rightarrow> string option \<times> world" where
  "pollStep co clusterId sagaId stepId w =
     (case refreshSagaAndStep clusterId sagaId stepId w of
        (None, w1) \<Rightarrow> (None, w1)
      | (Some (saga, step), w1) \<Rightarrow>
          if Si_State saga = SagaStateEnum_CompensationRequested then
            (case initiateCompensationForCommittedSaga \<lparr>h_saga = saga, h_step = step, h_w = w1\<rparr> of
               (Inl (Died m), s) \<Rightarrow> (Some m, h_w s)
             | (_, s) \<Rightarrow> (None, h_w s))
          else if pollSkip (Ss_State step) then (None, w1)
          else validateAndProcess co saga step w1)"

end
