(* ===== verification/Saga_View.thy ===== *)
theory Saga_View
  imports Coordinator_Poll
begin

text \<open>
  The rows of one saga while a transaction works on them: every statement rewrites rows by functions that
  keep identities and links, so the saga's steps in execution order stay the same list, updated in place.
\<close>

section \<open>One saga's rows during a transaction\<close>

definition at_key ::
    "string \<Rightarrow> string \<Rightarrow> (SagaStepInstance \<Rightarrow> SagaStepInstance) \<Rightarrow> SagaStepInstance \<Rightarrow> SagaStepInstance" where
  "at_key c i u r = (if Ss_ClusterId r = c \<and> Ss_InstanceId r = i then u r else r)"

definition saga_at_key ::
    "string \<Rightarrow> string \<Rightarrow> (SagaInstance \<Rightarrow> SagaInstance) \<Rightarrow> SagaInstance \<Rightarrow> SagaInstance" where
  "saga_at_key c i u r = (if Si_ClusterId r = c \<and> Si_InstanceId r = i then u r else r)"

text \<open>The elements at the positions in J are rewritten.\<close>
definition upd_at :: "nat set \<Rightarrow> ('a \<Rightarrow> 'a) \<Rightarrow> 'a list \<Rightarrow> 'a list" where
  "upd_at J u xs = map (\<lambda>j. if j \<in> J then u (xs ! j) else xs ! j) [0..<length xs]"

lemma upd_at_length [simp]: "length (upd_at J u xs) = length xs"
  by (simp add: upd_at_def)

lemma upd_at_nth [simp]: "j < length xs \<Longrightarrow> upd_at J u xs ! j = (if j \<in> J then u (xs ! j) else xs ! j)"
  by (simp add: upd_at_def)

lemma upd_at_empty [simp]: "upd_at {} u xs = xs"
  by (intro nth_equalityI) auto

lemma upd_at_insert: "j \<notin> J \<Longrightarrow> upd_at J u (upd_at {j} u xs) = upd_at (insert j J) u xs"
  by (intro nth_equalityI) auto

lemma upd_at_all: "(\<And>x. P (u x)) \<Longrightarrow> \<forall>r \<in> set xs. P r \<Longrightarrow> \<forall>r \<in> set (upd_at J u xs). P r"
  by (auto simp: upd_at_def)

lemma update_step_rows_alt:
  "update_step_rows c i u d = d\<lparr>db_steps := map (at_key c i u) (db_steps d)\<rparr>"
  by (simp add: update_step_rows_def at_key_def)

lemma update_saga_rows_alt:
  "update_saga_rows c i u d = d\<lparr>db_sagas := map (saga_at_key c i u) (db_sagas d)\<rparr>"
  by (simp add: update_saga_rows_def saga_at_key_def)

definition base :: "db \<Rightarrow> SagaInstance \<Rightarrow> SagaStepInstance list \<Rightarrow> bool" where
  "base d g os = (db_inv (db_sagas d) (db_steps d) \<and> g \<in> set (db_sagas d) \<and>
     ordered (Si_ClusterId g) (Si_InstanceId g) (db_steps d) = Some os)"

lemma base_facts:
  assumes "base d g os"
  shows "distinct (map step_key (db_steps d))" "distinct (map saga_key (db_sagas d))"
    "mset os = mset (saga_rows (Si_ClusterId g) (Si_InstanceId g) (db_steps d))"
    "coherent (Si_State g) (map Ss_State os)"
    "\<And>r. r \<in> set os \<Longrightarrow> r \<in> set (db_steps d) \<and> Ss_ClusterId r = Si_ClusterId g \<and> Ss_SagaInstanceId r = Si_InstanceId g"
    "distinct (map Ss_InstanceId os)"
    "\<And>r. r \<in> set os \<Longrightarrow> step_ok r"
    "\<And>x. x \<in> set (db_sagas d) \<Longrightarrow> saga_key x = saga_key g \<Longrightarrow> x = g"
proof -
  have J: "db_inv (db_sagas d) (db_steps d)" and g: "g \<in> set (db_sagas d)"
    and os: "ordered (Si_ClusterId g) (Si_InstanceId g) (db_steps d) = Some os"
    using assms by (auto simp: base_def)
  show 1: "distinct (map step_key (db_steps d))" and 2: "distinct (map saga_key (db_sagas d))"
    using J by (auto simp: db_inv_def)
  have wf: "saga_wf (db_steps d) g" using J g by (simp add: db_inv_def)
  then show m: "mset os = mset (saga_rows (Si_ClusterId g) (Si_InstanceId g) (db_steps d))"
    and "coherent (Si_State g) (map Ss_State os)" using os by (auto simp: saga_wf_def)
  show mem: "\<And>r. r \<in> set os \<Longrightarrow> r \<in> set (db_steps d) \<and> Ss_ClusterId r = Si_ClusterId g \<and> Ss_SagaInstanceId r = Si_InstanceId g"
    using ordered_mem[OF os] by blast
  show "distinct (map Ss_InstanceId os)" by (rule ordered_distinct[OF 1 os m])
  show "\<And>r. r \<in> set os \<Longrightarrow> step_ok r" using mem J by (auto simp: db_inv_def)
  show "\<And>x. x \<in> set (db_sagas d) \<Longrightarrow> saga_key x = saga_key g \<Longrightarrow> x = g"
    using 2 g by (auto simp: distinct_map inj_on_def)
qed

definition inview :: "db \<Rightarrow> SagaInstance \<Rightarrow> SagaStepInstance list \<Rightarrow> int \<Rightarrow>
    SagaInstance \<Rightarrow> SagaStepInstance list \<Rightarrow> world \<Rightarrow> bool" where
  "inview d g os t g' os' w = (w_tx w = Some d \<and> w_dbtime w = t \<and> (\<exists>f h. framed f \<and> framed_saga h \<and>
     (\<forall>r \<in> set (db_steps d). (Ss_ClusterId r, Ss_SagaInstanceId r) \<noteq> saga_key g \<longrightarrow> f r = r) \<and>
     (\<forall>x \<in> set (db_sagas d). saga_key x \<noteq> saga_key g \<longrightarrow> h x = x) \<and>
     db_steps (w_db w) = map f (db_steps d) \<and> db_sagas (w_db w) = map h (db_sagas d) \<and>
     os' = map f os \<and> g' = h g))"

lemma inview_start:
  "w_tx w = Some d \<Longrightarrow> w_db w = d \<Longrightarrow> w_dbtime w = t \<Longrightarrow> inview d g os t g os w"
  unfolding inview_def
  by (auto intro!: exI[of _ "\<lambda>r. r"] exI[of _ "\<lambda>g. g"] simp: framed_id framed_saga_id)

lemma inview_base:
  assumes b: "base d g os" and v: "inview d g os t g' os' w"
    and coh: "coherent (Si_State g') (map Ss_State os')" and ok: "\<And>r. r \<in> set os' \<Longrightarrow> step_ok r"
  shows "base (w_db w) g' os'"
proof -
  from v obtain f h where fh: "framed f" "framed_saga h"
     "\<forall>r \<in> set (db_steps d). (Ss_ClusterId r, Ss_SagaInstanceId r) \<noteq> saga_key g \<longrightarrow> f r = r"
     "\<forall>x \<in> set (db_sagas d). saga_key x \<noteq> saga_key g \<longrightarrow> h x = x"
     "db_steps (w_db w) = map f (db_steps d)" "db_sagas (w_db w) = map h (db_sagas d)"
     "os' = map f os" "g' = h g" by (auto simp: inview_def)
  have "db_inv (map h (db_sagas d)) (map f (db_steps d))"
  proof (rule db_inv_update[where g = g and os = os])
    show "db_inv (db_sagas d) (db_steps d)" "g \<in> set (db_sagas d)"
      "ordered (Si_ClusterId g) (Si_InstanceId g) (db_steps d) = Some os" using b by (auto simp: base_def)
  qed (use fh coh ok in \<open>auto simp: comp_def\<close>)
  moreover have "g' \<in> set (db_sagas (w_db w))" using fh b by (auto simp: base_def)
  moreover have "ordered (Si_ClusterId g') (Si_InstanceId g') (db_steps (w_db w)) = Some os'"
    using fh b by (auto simp: base_def ordered_map framed_saga_def)
  ultimately show ?thesis using fh by (simp add: base_def)
qed

lemma find_unique:
  assumes "distinct (map key xs)" "x \<in> set xs" "\<And>y. P y = (key y = key x)"
  shows "find P xs = Some x"
proof -
  have "\<forall>y \<in> set xs. P y = (y = x)"
    using assms by (auto simp: distinct_map inj_on_def)
  with assms(2) show ?thesis by (induction xs) auto
qed

lemma inview_ids:
  assumes b: "base d g os" and v: "inview d g os t g' os' w"
  shows "length os' = length os" "map step_key os' = map step_key os" "saga_key g' = saga_key g"
    "map Ss_SagaInstanceId os' = map Ss_SagaInstanceId os" "distinct (map Ss_InstanceId os')"
    "\<And>r. r \<in> set os' \<Longrightarrow> r \<in> set (db_steps (w_db w)) \<and> Ss_ClusterId r = Si_ClusterId g \<and> Ss_SagaInstanceId r = Si_InstanceId g"
    "distinct (map step_key (db_steps (w_db w)))" "distinct (map saga_key (db_sagas (w_db w)))"
    "g' \<in> set (db_sagas (w_db w))"
proof -
  from v obtain f h where fh: "framed f" "framed_saga h"
     "db_steps (w_db w) = map f (db_steps d)" "db_sagas (w_db w) = map h (db_sagas d)"
     "os' = map f os" "g' = h g" by (auto simp: inview_def)
  show "length os' = length os" using fh by simp
  show 1: "map step_key os' = map step_key os" using fh by (simp add: framed_def link_preserving_def)
  show "saga_key g' = saga_key g" using fh by (simp add: framed_saga_def)
  show "map Ss_SagaInstanceId os' = map Ss_SagaInstanceId os" using fh by (simp add: framed_def)
  have "map Ss_InstanceId os' = map Ss_InstanceId os" using fh by (simp add: framed_def link_preserving_def)
  then show "distinct (map Ss_InstanceId os')" using base_facts(6)[OF b] by simp
  show "\<And>r. r \<in> set os' \<Longrightarrow> r \<in> set (db_steps (w_db w)) \<and> Ss_ClusterId r = Si_ClusterId g \<and> Ss_SagaInstanceId r = Si_InstanceId g"
    using fh base_facts(5)[OF b] by (auto simp: framed_def)
  show "distinct (map step_key (db_steps (w_db w)))" "distinct (map saga_key (db_sagas (w_db w)))"
    using fh framed_keys framed_saga_keys base_facts(1,2)[OF b] by metis+
  show "g' \<in> set (db_sagas (w_db w))" using fh b by (auto simp: base_def)
qed

lemma inview_find_step:
  assumes b: "base d g os" and v: "inview d g os t g' os' w" and j: "j < length os'"
  shows "find_step (Ss_ClusterId (os' ! j)) (Ss_InstanceId (os' ! j)) (w_db w) = Some (os' ! j)"
  unfolding find_step_def
  by (rule find_unique[where key = step_key]) (use inview_ids[OF b v] j in auto)

lemma inview_find_saga:
  assumes b: "base d g os" and v: "inview d g os t g' os' w"
  shows "find_saga (Si_ClusterId g) (Si_InstanceId g) (w_db w) = Some g'"
  unfolding find_saga_def
  by (rule find_unique[where key = saga_key]) (use inview_ids[OF b v] in auto)

lemma inview_rows:
  assumes b: "base d g os" and v: "inview d g os t g' os' w"
  shows "OrderSagaStepsInSequence (saga_steps (Si_ClusterId g) (Si_InstanceId g) (w_db w)) = Some os'"
proof -
  from v obtain f where "framed f" "db_steps (w_db w) = map f (db_steps d)" "os' = map f os"
    by (auto simp: inview_def)
  then show ?thesis
    using b ordered_map[of f] by (auto simp: base_def ordered_def saga_rows_def saga_steps_def)
qed

text \<open>Row functions that change no identifying field.\<close>
lemma inview_step_update:
  assumes b: "base d g os" and v: "inview d g os t g' os' w" and j: "j < length os'"
    and u: "framed u" and k: "c = Ss_ClusterId (os' ! j)" "i = Ss_InstanceId (os' ! j)"
    and w': "w_tx w' = w_tx w" "w_dbtime w' = w_dbtime w"
      "db_steps (w_db w') = db_steps (update_step_rows c i u (w_db w))" "db_sagas (w_db w') = db_sagas (w_db w)"
  shows "inview d g os t g' (upd_at {j} u os') w'"
proof -
  from v obtain f h where fh: "framed f" "framed_saga h"
     "\<forall>r \<in> set (db_steps d). (Ss_ClusterId r, Ss_SagaInstanceId r) \<noteq> saga_key g \<longrightarrow> f r = r"
     "\<forall>x \<in> set (db_sagas d). saga_key x \<noteq> saga_key g \<longrightarrow> h x = x"
     "db_steps (w_db w) = map f (db_steps d)" "db_sagas (w_db w) = map h (db_sagas d)"
     "os' = map f os" "g' = h g" by (auto simp: inview_def)
  note ids = inview_ids[OF b v]
  let ?f = "\<lambda>r. at_key c i u (f r)"
  have fr: "framed (at_key c i u)"
    using u by (auto simp: framed_def link_preserving_def at_key_def)
  have other: "?f r = r" if r: "r \<in> set (db_steps d)" "(Ss_ClusterId r, Ss_SagaInstanceId r) \<noteq> saga_key g" for r
  proof -
    have "f r = r" using fh r by blast
    moreover have "\<not> (Ss_ClusterId r = c \<and> Ss_InstanceId r = i)"
    proof
      assume a: "Ss_ClusterId r = c \<and> Ss_InstanceId r = i"
      have "os' ! j \<in> set (db_steps (w_db w))" using ids(6) j by auto
      moreover have "r \<in> set (db_steps (w_db w))" using fh(5) r \<open>f r = r\<close> by (metis image_eqI list.set_map)
      ultimately have "r = os' ! j" using a k ids(7) by (auto simp: distinct_map inj_on_def)
      with ids(6) j r show False by auto
    qed
    ultimately show ?thesis by (auto simp: at_key_def)
  qed
  have os: "map ?f os = upd_at {j} u os'"
  proof (rule nth_equalityI)
    fix m assume m: "m < length (map ?f os)"
    then have "Ss_InstanceId (os' ! m) = i \<longleftrightarrow> m = j"
      using k j ids(1,5) nth_eq_iff_index_eq[OF ids(5), of m j] by simp
    moreover have "Ss_ClusterId (os' ! m) = c" using m k ids(1,6) j by (metis length_map nth_mem)
    ultimately show "map ?f os ! m = upd_at {j} u os' ! m"
      using m fh(7) by (auto simp: at_key_def)
  qed (use fh in simp)
  show ?thesis
    unfolding inview_def
    using v w' fh other framed_comp[OF fr fh(1)] os
    by (intro conjI exI[of _ ?f] exI[of _ h]) (auto simp: inview_def update_step_rows_alt)
qed

lemma inview_saga_update:
  assumes b: "base d g os" and v: "inview d g os t g' os' w"
    and u: "framed_saga u" and k: "c = Si_ClusterId g" "i = Si_InstanceId g"
    and w': "w_tx w' = w_tx w" "w_dbtime w' = w_dbtime w"
      "db_steps (w_db w') = db_steps (w_db w)" "db_sagas (w_db w') = db_sagas (update_saga_rows c i u (w_db w))"
  shows "inview d g os t (u g') os' w'"
proof -
  from v obtain f h where fh: "framed f" "framed_saga h"
     "\<forall>r \<in> set (db_steps d). (Ss_ClusterId r, Ss_SagaInstanceId r) \<noteq> saga_key g \<longrightarrow> f r = r"
     "\<forall>x \<in> set (db_sagas d). saga_key x \<noteq> saga_key g \<longrightarrow> h x = x"
     "db_steps (w_db w) = map f (db_steps d)" "db_sagas (w_db w) = map h (db_sagas d)"
     "os' = map f os" "g' = h g" by (auto simp: inview_def)
  let ?h = "\<lambda>r. saga_at_key c i u (h r)"
  have 1: "framed_saga ?h" using u fh(2) by (auto simp: framed_saga_def saga_at_key_def)
  have 2: "?h g = u g'" using fh(2,8) k by (auto simp: framed_saga_def saga_at_key_def)
  have 3: "\<forall>x \<in> set (db_sagas d). saga_key x \<noteq> saga_key g \<longrightarrow> ?h x = x"
    using fh(4) k by (auto simp: saga_at_key_def)
  show ?thesis
    unfolding inview_def
    using v w' fh 1 2 3 by (intro conjI exI[of _ f] exI[of _ ?h]) (auto simp: inview_def update_saga_rows_alt)
qed

lemma inview_same:
  "inview d g os t g' os' w \<Longrightarrow> w_tx w' = w_tx w \<Longrightarrow> w_dbtime w' = w_dbtime w \<Longrightarrow>
   db_steps (w_db w') = db_steps (w_db w) \<Longrightarrow> db_sagas (w_db w') = db_sagas (w_db w) \<Longrightarrow>
   inview d g os t g' os' w'"
  by (auto simp: inview_def)

end
