(* ===== verification/Saga_Rules.thy ===== *)
theory Saga_Rules
  imports Saga_View
begin

text \<open>
  Hoare rules for the coordinator's handlers.  An assertion follows one saga through a transaction: what
  its row and its steps, in execution order, currently are (\<open>view\<close>); every statement has a rule saying
  how it changes them, whatever the script of failures does, and the rules chain through \<open>hbind\<close>.
\<close>

section \<open>Assertions on handlers\<close>

definition idle :: "world \<Rightarrow> bool" where
  "idle w = (w_tx w = None \<and> db_inv (db_sagas (w_db w)) (db_steps (w_db w)))"

definition view :: "db \<Rightarrow> SagaInstance \<Rightarrow> SagaStepInstance list \<Rightarrow> int \<Rightarrow>
    SagaInstance \<Rightarrow> SagaStepInstance list \<Rightarrow> SagaInstance \<Rightarrow> SagaStepInstance \<Rightarrow> hstate \<Rightarrow> bool" where
  "view d g os t g' os' sg st s = (inview d g os t g' os' (h_w s) \<and> h_saga s = sg \<and> h_step s = st)"

text \<open>Leaving the body of a transaction: the deferred rollback takes back what was not committed, and
  no path panics.\<close>
definition body_exit :: "db \<Rightarrow> ('e \<Rightarrow> hstate \<Rightarrow> bool) \<Rightarrow> 'e exit \<Rightarrow> hstate \<Rightarrow> bool" where
  "body_exit d R e s = (case e of
       Return r \<Rightarrow> idle (h_w s) \<and> R r s
     | Abandon m r \<Rightarrow> (\<forall>s'. R r s') \<and> (w_tx (h_w s) = Some d \<or> idle (h_w s))
     | Died m \<Rightarrow> False)"

definition safe_exit :: "('e \<Rightarrow> hstate \<Rightarrow> bool) \<Rightarrow> 'e exit \<Rightarrow> hstate \<Rightarrow> bool" where
  "safe_exit R e s = (case e of Return r \<Rightarrow> idle (h_w s) \<and> R r s | _ \<Rightarrow> False)"

lemma body_exit_simps [simp]:
  "body_exit d R (Return r) s = (idle (h_w s) \<and> R r s)"
  "body_exit d R (Abandon m r) s = ((\<forall>s'. R r s') \<and> (w_tx (h_w s) = Some d \<or> idle (h_w s)))"
  "body_exit d R (Died x) s = False"
  "safe_exit R (Return r) s = (idle (h_w s) \<and> R r s)"
  "safe_exit R (Abandon m r) s = False"
  "safe_exit R (Died x) s = False"
  by (simp_all add: body_exit_def safe_exit_def)

section \<open>Normalising handlers\<close>

lemma hbind_assoc: "hbind (hbind m f) k = hbind m (\<lambda>x. hbind (f x) k)"
  by (rule ext) (simp add: hbind_def split: sum.splits prod.splits)

lemma hbind_return: "hbind (hreturn x) k = k x"
  by (rule ext) (simp add: hbind_def hreturn_def)

lemma hbind_exit: "hbind (hexit e) k = hexit e"
  by (rule ext) (simp add: hbind_def hexit_def)

lemma hbind_if: "hbind (if c then m else n) k = (if c then hbind m k else hbind n k)"
  by simp

lemmas handler_norm = hbind_assoc hbind_return hbind_exit hbind_if

section \<open>Rules with a continuation\<close>

lemma hvalid_ex:
  assumes "\<And>x. hvalid (P x) m Q E"
  shows "hvalid (\<lambda>s. \<exists>x. P x s) m Q E"
proof (rule hvalidI)
  fix s assume "\<exists>x. P x s"
  then obtain x where "P x s" ..
  with assms[of x] show "case m s of (Inl e, s1) \<Rightarrow> E e s1 | (Inr x, s1) \<Rightarrow> Q x s1"
    by (simp add: hvalid_def)
qed

lemma hvalid_pure: "(C \<Longrightarrow> hvalid P m Q E) \<Longrightarrow> hvalid (\<lambda>s. C \<and> P s) m Q E"
  by (auto simp: hvalid_def)

lemma hvalid_false: "hvalid (\<lambda>_. False) m Q E"
  by (simp add: hvalid_def)

lemma k_bind:
  "\<lbrakk> hvalid P m B E; \<And>x. hvalid (B x) (k x) Q E \<rbrakk> \<Longrightarrow> hvalid P (hbind m k) Q E"
  by (rule hvalid_bind)

lemma k_exit: "(\<And>s. P s \<Longrightarrow> E e s) \<Longrightarrow> hvalid P (hexit e) Q E"
  by (simp add: hvalid_def hexit_def)

lemma k_modify: "hvalid (\<lambda>s. \<exists>s0. P s0 \<and> s = f s0) (k ()) Q E \<Longrightarrow> hvalid P (hbind (hmodify f) k) Q E"
  by (auto simp: hvalid_def hbind_def hmodify_def)

lemma view_w: "view d g os t g' os' sg st s \<Longrightarrow> inview d g os t g' os' (h_w s)"
  by (simp add: view_def)

lemma view_tx: "view d g os t g' os' sg st s \<Longrightarrow> w_tx (h_w s) = Some d"
  by (simp add: view_def inview_def)

lemma k_get_step:
  "hvalid (view d g os t g' os' sg st) (k st) Q E \<Longrightarrow>
   hvalid (view d g os t g' os' sg st) (hbind (hget h_step) k) Q E"
  by (auto simp: hvalid_def hbind_def hget_def view_def)

lemma k_get_saga:
  "hvalid (view d g os t g' os' sg st) (k sg) Q E \<Longrightarrow>
   hvalid (view d g os t g' os' sg st) (hbind (hget h_saga) k) Q E"
  by (auto simp: hvalid_def hbind_def hget_def view_def)

lemma k_set_step:
  "hvalid (view d g os t g' os' sg (F sg st)) (k ()) Q E \<Longrightarrow>
   hvalid (view d g os t g' os' sg st) (hbind (hmodify (\<lambda>s. s\<lparr>h_step := F (h_saga s) (h_step s)\<rparr>)) k) Q E"
  by (auto simp: hvalid_def hbind_def hmodify_def view_def)

lemma k_set_saga:
  "hvalid (view d g os t g' os' (F sg) st) (k ()) Q E \<Longrightarrow>
   hvalid (view d g os t g' os' sg st) (hbind (hmodify (\<lambda>s. s\<lparr>h_saga := F (h_saga s)\<rparr>)) k) Q E"
  by (auto simp: hvalid_def hbind_def hmodify_def view_def)

text \<open>Calls that leave the rows and the transaction alone.\<close>
definition neutral :: "(world \<Rightarrow> 'a \<times> world) \<Rightarrow> bool" where
  "neutral op = (\<forall>w. w_tx (snd (op w)) = w_tx w \<and> w_dbtime (snd (op w)) = w_dbtime w \<and>
     db_steps (w_db (snd (op w))) = db_steps (w_db w) \<and> db_sagas (w_db (snd (op w))) = db_sagas (w_db w))"

lemma neutral_ops [simp]:
  "neutral random_string" "neutral time_now" "neutral context_done"
  "neutral (mq_publish x rk msg)" "neutral (db_query q)"
  by (auto simp: neutral_def random_string_def time_now_def context_done_def mq_publish_def db_query_def
      next_fault_def Let_def split: list.splits fault.splits prod.splits)

lemma neutral_getters [simp]:
  "neutral (GetSagaInstance c i)" "neutral (GetSagaStepInstance c i)"
  "neutral (ListSagaStepInstancesBySagaInstanceId c i)" "neutral (GetChildSagaInstances c i)"
  by (auto simp: neutral_def GetSagaInstance_def GetSagaStepInstance_def db_query_def next_fault_def
      ListSagaStepInstancesBySagaInstanceId_def GetChildSagaInstances_def
      split: sum.splits prod.splits option.splits list.splits fault.splits if_splits)

lemma getters_read:
  "GetSagaInstance c i w = (Ok g, w1) \<Longrightarrow> find_saga c i (w_db w) = Some g"
  "GetSagaStepInstance c i w = (Ok r, w1) \<Longrightarrow> find_step c i (w_db w) = Some r"
  "ListSagaStepInstancesBySagaInstanceId c i w = (Ok rs, w1) \<Longrightarrow> rs = saga_steps c i (w_db w)"
  by (auto simp: GetSagaInstance_def GetSagaStepInstance_def db_query_def next_fault_def
      ListSagaStepInstancesBySagaInstanceId_def
      split: sum.splits prod.splits option.splits list.splits fault.splits if_splits)

lemma view_neutral:
  "neutral op \<Longrightarrow> view d g os t g' os' sg st s \<Longrightarrow> view d g os t g' os' sg st (s\<lparr>h_w := snd (op (h_w s))\<rparr>)"
  by (auto simp: view_def neutral_def elim!: inview_same)

lemma k_world:
  "\<lbrakk> neutral op; \<And>x. hvalid (view d g os t g' os' sg st) (k x) Q E \<rbrakk> \<Longrightarrow>
   hvalid (view d g os t g' os' sg st) (hbind (hworld op) k) Q E"
  using view_neutral[of op]
  by (fastforce simp: hvalid_def hbind_def hworld_def split: prod.splits)

lemma k_try:
  "\<lbrakk> neutral op; \<And>x. hvalid (view d g os t g' os' sg st) (k x) Q E \<rbrakk> \<Longrightarrow>
   hvalid (view d g os t g' os' sg st) (hbind (htry op) k) Q E"
  using view_neutral[of op]
  by (fastforce simp: hvalid_def hbind_def htry_def split: prod.splits)

lemma k_call:
  assumes "neutral op" "\<And>e s. w_tx (h_w s) = Some d \<Longrightarrow> E (onErr e) s"
    "\<And>x. hvalid (view d g os t g' os' sg st) (k x) Q E"
  shows "hvalid (view d g os t g' os' sg st) (hbind (hcall op onErr) k) Q E"
proof (rule hvalidI)
  fix s assume s: "view d g os t g' os' sg st s"
  obtain r w1 where r: "op (h_w s) = (r, w1)" by fastforce
  have v: "view d g os t g' os' sg st (s\<lparr>h_w := w1\<rparr>)" using view_neutral[OF assms(1) s] r by simp
  show "case hbind (hcall op onErr) k s of (Inl e, s1) \<Rightarrow> E e s1 | (Inr x, s1) \<Rightarrow> Q x s1"
    using r v assms(2)[OF view_tx[OF v]] assms(3)
    by (cases r) (auto simp: hbind_def hcall_def hvalid_def)
qed

section \<open>Updates of the saga's rows\<close>

abbreviation setState :: "SagaStepStateEnum \<Rightarrow> int \<Rightarrow> SagaStepInstance \<Rightarrow> SagaStepInstance" where
  "setState target t r \<equiv> r\<lparr>Ss_State := target, Ss_UpdatedAt := t\<rparr>"

text \<open>A statement on the step rows inside the transaction.\<close>
lemma exec_in_tx:
  assumes "w_tx w = Some d" "db_exec upd w = (r, w1)"
  shows "w_tx w1 = Some d \<and> w_dbtime w1 = w_dbtime w \<and>
    (case r of Inl e \<Rightarrow> w_db w1 = w_db w | Inr _ \<Rightarrow> w_db w1 = upd (w_db w))"
  using assms
  by (auto simp: db_exec_def next_fault_def split: if_splits prod.splits list.splits fault.splits)

lemma notify_neutral:
  "w_tx (notify_step_event x st w) = w_tx w" "w_dbtime (notify_step_event x st w) = w_dbtime w"
  "db_steps (w_db (notify_step_event x st w)) = db_steps (w_db w)"
  "db_sagas (w_db (notify_step_event x st w)) = db_sagas (w_db w)"
  by (auto simp: notify_step_event_def db_exec_def next_fault_def
      split: if_splits prod.splits list.splits fault.splits)

lemma k_exec_step:
  assumes b: "base d g os" and j: "j < length os'" and u: "framed u"
    and key: "c = Ss_ClusterId (os' ! j)" "i = Ss_InstanceId (os' ! j)"
    and op: "\<And>w. op w = db_exec (update_step_rows c i u) w \<or> w_dbtime w \<noteq> t"
    and E: "\<And>e s. w_tx (h_w s) = Some d \<Longrightarrow> E (onErr e) s"
    and k: "hvalid (view d g os t g' (upd_at {j} u os') sg st) (k ()) Q E"
  shows "hvalid (view d g os t g' os' sg st) (hbind (hcall op onErr) k) Q E"
proof (rule hvalidI)
  fix s assume v: "view d g os t g' os' sg st s"
  have iv: "inview d g os t g' os' (h_w s)" using v by (rule view_w)
  have opw: "op (h_w s) = db_exec (update_step_rows c i u) (h_w s)"
    using op[of "h_w s"] iv by (auto simp: inview_def)
  obtain r w1 where r: "db_exec (update_step_rows c i u) (h_w s) = (r, w1)" by fastforce
  note x = exec_in_tx[OF view_tx[OF v] r]
  show "case hbind (hcall op onErr) k s of (Inl e, s1) \<Rightarrow> E e s1 | (Inr x, s1) \<Rightarrow> Q x s1"
  proof (cases r)
    case (Inl e)
    then show ?thesis using r opw x E by (simp add: hbind_def hcall_def)
  next
    case (Inr y)
    have "inview d g os t g' (upd_at {j} u os') w1"
      by (rule inview_step_update[OF b iv j u key])
         (use x Inr view_tx[OF v] in \<open>auto simp: update_step_rows_def\<close>)
    then show ?thesis using r opw Inr k v by (auto simp: hbind_def hcall_def hvalid_def view_def)
  qed
qed

lemma k_exec_saga:
  assumes b: "base d g os" and u: "framed_saga u" and key: "c = Si_ClusterId g" "i = Si_InstanceId g"
    and op: "\<And>w. op w = (case db_exec (update_saga_rows c i u) w of
               (Inl e, w1) \<Rightarrow> (Err (f e), w1) | (Inr _, w1) \<Rightarrow> (Ok y, w1)) \<or> w_dbtime w \<noteq> t"
    and E: "\<And>e s. w_tx (h_w s) = Some d \<Longrightarrow> E (onErr e) s"
    and k: "hvalid (view d g os t (u g') os' sg st) (k y) Q E"
  shows "hvalid (view d g os t g' os' sg st) (hbind (hcall op onErr) k) Q E"
proof (rule hvalidI)
  fix s assume v: "view d g os t g' os' sg st s"
  have iv: "inview d g os t g' os' (h_w s)" using v by (rule view_w)
  obtain r w1 where r: "db_exec (update_saga_rows c i u) (h_w s) = (r, w1)" by fastforce
  note x = exec_in_tx[OF view_tx[OF v] r]
  have opw: "op (h_w s) = (case r of Inl e \<Rightarrow> (Err (f e), w1) | Inr _ \<Rightarrow> (Ok y, w1))"
    using op[of "h_w s"] iv r by (auto simp: inview_def split: sum.splits)
  show "case hbind (hcall op onErr) k s of (Inl e, s1) \<Rightarrow> E e s1 | (Inr x, s1) \<Rightarrow> Q x s1"
  proof (cases r)
    case (Inl e)
    then show ?thesis using opw x E by (simp add: hbind_def hcall_def)
  next
    case (Inr z)
    have "inview d g os t (u g') os' w1"
      by (rule inview_saga_update[OF b iv u key])
         (use x Inr view_tx[OF v] in \<open>auto simp: update_saga_rows_def\<close>)
    then show ?thesis using opw Inr k v by (auto simp: hbind_def hcall_def hvalid_def view_def)
  qed
qed

lemma framed_setState: "framed (setState target t)"
  by (auto simp: framed_def link_preserving_def)

text \<open>A step transition succeeds, fails leaving the transaction to be rolled back, and never panics: the
  row it reads back is the one it wrote.\<close>
lemma transit_step_view:
  assumes b: "base d g os" and v: "inview d g os t g' os' w" and j: "j < length os'"
    and key: "step_key x = step_key (os' ! j)" and c: "Si_ClusterId sg = Ss_ClusterId x"
    and r: "transitSagaStepToState sg x target w = (out, x', w')"
  shows "w_tx w' = Some d \<and> (case out of
      TOk \<Rightarrow> x' = setState target t (os' ! j) \<and> inview d g os t g' (upd_at {j} (setState target t) os') w'
    | TErr e \<Rightarrow> True | TPanic m \<Rightarrow> False)"
proof -
  have tx: "w_tx w = Some d" and dt: "w_dbtime w = t" using v by (auto simp: inview_def)
  let ?u = "setState target t"
  obtain r1 w1 where e: "db_exec (update_step_rows (Ss_ClusterId x) (Ss_InstanceId x) ?u) w = (r1, w1)" by fastforce
  note e1 = exec_in_tx[OF tx e]
  show ?thesis
  proof (cases r1)
    case (Inl z)
    then show ?thesis using r e e1 dt by (auto simp: transitSagaStepToState_def UpdateSagaStepState_def)
  next
    case (Inr z)
    let ?w2 = "notify_step_event x target w1"
    have v2: "inview d g os t g' (upd_at {j} ?u os') ?w2"
      by (rule inview_step_update[OF b v j framed_setState, where c = "Ss_ClusterId x" and i = "Ss_InstanceId x"])
         (use key e1 Inr in \<open>auto simp: notify_neutral update_step_rows_def tx\<close>)
    have f: "find_step (Ss_ClusterId x) (Ss_InstanceId x) (w_db ?w2) = Some (?u (os' ! j))"
      using inview_find_step[OF b v2, of j] j key by simp
    have u1: "UpdateSagaStepState x target w = (Ok (x\<lparr>Ss_State := target\<rparr>), ?w2)"
      using e Inr dt by (simp add: UpdateSagaStepState_def)
    obtain r3 w3 where g3: "GetSagaStepInstance (Ss_ClusterId x) (Ss_InstanceId x) ?w2 = (r3, w3)" by fastforce
    have n: "w_tx w3 = w_tx ?w2" "w_dbtime w3 = w_dbtime ?w2" "db_steps (w_db w3) = db_steps (w_db ?w2)"
        "db_sagas (w_db w3) = db_sagas (w_db ?w2)"
      using neutral_getters(2)[of "Ss_ClusterId x" "Ss_InstanceId x"] g3
      unfolding neutral_def by (metis snd_conv)+
    have tx3: "w_tx w3 = Some d" using n v2 by (simp add: inview_def)
    have v3: "inview d g os t g' (upd_at {j} ?u os') w3" by (rule inview_same[OF v2 n])
    show ?thesis
    proof (cases r3)
      case (Inl a)
      then show ?thesis using r u1 g3 c tx3 by (auto simp: transitSagaStepToState_def)
    next
      case (Inr y)
      then have "y = ?u (os' ! j)"
        using g3 f getters_read(2) by fastforce
      then show ?thesis using r u1 g3 c tx3 Inr v3 by (auto simp: transitSagaStepToState_def)
    qed
  qed
qed

lemma k_transit_step:
  assumes b: "base d g os" and j: "j < length os'"
    and key: "step_key st = step_key (os' ! j)" and c: "Si_ClusterId sg = Ss_ClusterId st"
    and E: "\<And>s. w_tx (h_w s) = Some d \<Longrightarrow> E onErr s"
    and k: "hvalid (view d g os t g' (upd_at {j} (setState target t) os') sg (setState target t (os' ! j))) (k ()) Q E"
  shows "hvalid (view d g os t g' os' sg st) (hbind (hTransitStep target onErr) k) Q E"
proof (rule hvalidI)
  fix s assume v: "view d g os t g' os' sg st s"
  obtain out x' w' where r: "transitSagaStepToState sg st target (h_w s) = (out, x', w')" by (metis prod_cases3)
  note x = transit_step_view[OF b view_w[OF v] j key c r]
  have hs: "h_saga s = sg" "h_step s = st" using v by (auto simp: view_def)
  show "case hbind (hTransitStep target onErr) k s of (Inl e, s1) \<Rightarrow> E e s1 | (Inr x, s1) \<Rightarrow> Q x s1"
    using x r hs k E by (cases out) (auto simp: hbind_def hTransitStep_def hvalid_def view_def)
qed

lemma k_transit_other:
  assumes b: "base d g os" and j: "j < length os'"
    and key: "step_key x = step_key (os' ! j)" and c: "Si_ClusterId sg = Ss_ClusterId x"
    and E: "\<And>s. w_tx (h_w s) = Some d \<Longrightarrow> E onErr s"
    and k: "hvalid (view d g os t g' (upd_at {j} (setState target t) os') sg st) (k (setState target t (os' ! j))) Q E"
  shows "hvalid (view d g os t g' os' sg st) (hbind (hTransitOther x target onErr) k) Q E"
proof (rule hvalidI)
  fix s assume v: "view d g os t g' os' sg st s"
  obtain out x' w' where r: "transitSagaStepToState sg x target (h_w s) = (out, x', w')" by (metis prod_cases3)
  note x = transit_step_view[OF b view_w[OF v] j key c r]
  have hs: "h_saga s = sg" "h_step s = st" using v by (auto simp: view_def)
  show "case hbind (hTransitOther x target onErr) k s of (Inl e, s1) \<Rightarrow> E e s1 | (Inr x, s1) \<Rightarrow> Q x s1"
    using x r hs k E by (cases out) (auto simp: hbind_def hTransitOther_def hvalid_def view_def)
qed

lemma find_saga_updated:
  "framed_saga u \<Longrightarrow> find_saga c i (update_saga_rows c i u d) = map_option u (find_saga c i d)"
proof -
  assume "framed_saga u"
  then have "find (\<lambda>r. Si_ClusterId r = c \<and> Si_InstanceId r = i)
       (map (\<lambda>r. if Si_ClusterId r = c \<and> Si_InstanceId r = i then u r else r) xs) =
     map_option u (find (\<lambda>r. Si_ClusterId r = c \<and> Si_InstanceId r = i) xs)" for xs
    by (induction xs) (auto simp: framed_saga_def)
  then show ?thesis by (simp add: find_saga_def update_saga_rows_def)
qed

abbreviation setSagaState :: "SagaStateEnum \<Rightarrow> string \<Rightarrow> int \<Rightarrow> SagaInstance \<Rightarrow> SagaInstance" where
  "setSagaState target reason t r \<equiv> r\<lparr>Si_State := target, Si_CompensationReason := reason, Si_UpdatedAt := t\<rparr>"

lemma framed_setSagaState: "framed_saga (setSagaState target reason t)"
  by (simp add: framed_saga_def)

lemma UpdateSagaState_alt:
  "UpdateSagaState sg target w =
     (case db_exec (update_saga_rows (Si_ClusterId sg) (Si_InstanceId sg)
             (setSagaState target (Si_CompensationReason sg) (w_dbtime w))) w of
        (Inl e, w1) \<Rightarrow> (Err (''failed to update saga state: '' @ e), w1)
      | (Inr _, w1) \<Rightarrow> (Ok (sg\<lparr>Si_State := target\<rparr>), w1))"
  by (simp add: UpdateSagaState_def)

lemma k_update_saga:
  assumes b: "base d g os" and key: "saga_key sg' = saga_key g"
    and E: "\<And>e s. w_tx (h_w s) = Some d \<Longrightarrow> E (onErr e) s"
    and k: "hvalid (view d g os t (setSagaState target (Si_CompensationReason sg') t g') os' sg st)
              (k (sg'\<lparr>Si_State := target\<rparr>)) Q E"
  shows "hvalid (view d g os t g' os' sg st) (hbind (hcall (UpdateSagaState sg' target) onErr) k) Q E"
  by (rule k_exec_saga[OF b framed_setSagaState, where c = "Si_ClusterId sg'" and i = "Si_InstanceId sg'"
        and f = "\<lambda>e. ''failed to update saga state: '' @ e" and y = "sg'\<lparr>Si_State := target\<rparr>"])
     (use key E k in \<open>auto simp: UpdateSagaState_alt\<close>)

lemma transit_saga_view:
  assumes b: "base d g os" and v: "inview d g os t g' os' w" and key: "saga_key sg = saga_key g"
    and r: "transitSagaToState sg target w = (out, sg', w')"
  shows "w_tx w' = Some d \<and> (case out of
      TOk \<Rightarrow> sg' = sg\<lparr>Si_State := target\<rparr> \<and>
        inview d g os t (setSagaState target (Si_CompensationReason sg) t g') os' w'
    | TErr e \<Rightarrow> True | TPanic m \<Rightarrow> False)"
proof -
  have tx: "w_tx w = Some d" and dt: "w_dbtime w = t" using v by (auto simp: inview_def)
  let ?u = "setSagaState target (Si_CompensationReason sg) t"
  obtain r1 w1 where e: "db_exec (update_saga_rows (Si_ClusterId sg) (Si_InstanceId sg) ?u) w = (r1, w1)" by fastforce
  note e1 = exec_in_tx[OF tx e]
  show ?thesis
  proof (cases r1)
    case (Inl z)
    then show ?thesis using r e e1 dt by (auto simp: transitSagaToState_def UpdateSagaState_alt)
  next
    case (Inr z)
    have v1: "inview d g os t (?u g') os' w1"
      by (rule inview_saga_update[OF b v framed_setSagaState, where c = "Si_ClusterId sg" and i = "Si_InstanceId sg"])
         (use key e1 Inr in \<open>auto simp: update_saga_rows_def tx\<close>)
    have f: "find_saga (Si_ClusterId sg) (Si_InstanceId sg) (w_db w1) = Some (?u g')"
      using inview_find_saga[OF b v1] key by simp
    have u1: "UpdateSagaState sg target w = (Ok (sg\<lparr>Si_State := target\<rparr>), w1)"
      using e Inr dt by (simp add: UpdateSagaState_alt)
    obtain r3 w3 where g3: "GetSagaInstance (Si_ClusterId sg) (Si_InstanceId sg) w1 = (r3, w3)" by fastforce
    have n: "w_tx w3 = w_tx w1" "w_dbtime w3 = w_dbtime w1" "db_steps (w_db w3) = db_steps (w_db w1)"
        "db_sagas (w_db w3) = db_sagas (w_db w1)"
      using neutral_getters(1)[of "Si_ClusterId sg" "Si_InstanceId sg"] g3
      unfolding neutral_def by (metis snd_conv)+
    have tx3: "w_tx w3 = Some d" using n v1 by (simp add: inview_def)
    have v3: "inview d g os t (?u g') os' w3" by (rule inview_same[OF v1 n])
    show ?thesis
    proof (cases r3)
      case (Inl a)
      then show ?thesis using r u1 g3 tx3 by (auto simp: transitSagaToState_def)
    next
      case (Inr y)
      then have "y = ?u g'" using g3 f getters_read(1) by fastforce
      then show ?thesis using r u1 g3 tx3 Inr v3 by (auto simp: transitSagaToState_def)
    qed
  qed
qed

lemma k_transit_saga:
  assumes b: "base d g os" and key: "saga_key sg = saga_key g"
    and E: "\<And>s. w_tx (h_w s) = Some d \<Longrightarrow> E onErr s"
    and k: "hvalid (view d g os t (setSagaState target (Si_CompensationReason sg) t g') os' (sg\<lparr>Si_State := target\<rparr>) st)
              (k ()) Q E"
  shows "hvalid (view d g os t g' os' sg st) (hbind (hTransitSaga target onErr) k) Q E"
proof (rule hvalidI)
  fix s assume v: "view d g os t g' os' sg st s"
  obtain out x' w' where r: "transitSagaToState sg target (h_w s) = (out, x', w')" by (metis prod_cases3)
  note x = transit_saga_view[OF b view_w[OF v] key r]
  have hs: "h_saga s = sg" "h_step s = st" using v by (auto simp: view_def)
  show "case hbind (hTransitSaga target onErr) k s of (Inl e, s1) \<Rightarrow> E e s1 | (Inr x, s1) \<Rightarrow> Q x s1"
    using x r hs k E by (cases out) (auto simp: hbind_def hTransitSaga_def hvalid_def view_def)
qed

lemma k_list_order:
  assumes b: "base d g os" and key: "saga_key sg = saga_key g"
    and E: "\<And>s. w_tx (h_w s) = Some d \<Longrightarrow> E onErr s"
    and k: "\<And>allSteps. OrderSagaStepsInSequence allSteps = Some os' \<Longrightarrow>
        hvalid (view d g os t g' os' sg st) (k allSteps) Q E"
  shows "hvalid (view d g os t g' os' sg st) (hbind (hListSteps onErr) k) Q E"
proof (rule hvalidI)
  fix s assume v: "view d g os t g' os' sg st s"
  have hs: "h_saga s = sg" using v by (auto simp: view_def)
  let ?op = "ListSagaStepInstancesBySagaInstanceId (Si_ClusterId sg) (Si_InstanceId sg)"
  obtain r w1 where r: "?op (h_w s) = (r, w1)" by fastforce
  have v1: "view d g os t g' os' sg st (s\<lparr>h_w := w1\<rparr>)"
    using view_neutral[OF neutral_getters(3) v, of "Si_ClusterId sg" "Si_InstanceId sg"] r by simp
  have tx1: "w_tx w1 = Some d" using view_tx[OF v1] by simp
  show "case hbind (hListSteps onErr) k s of (Inl e, s1) \<Rightarrow> E e s1 | (Inr x, s1) \<Rightarrow> Q x s1"
  proof (cases r)
    case (Inl e)
    then show ?thesis using r hs E tx1 by (simp add: hListSteps_def hbind_def hget_def hcall_def)
  next
    case (Inr rs)
    then have "OrderSagaStepsInSequence rs = Some os'"
      using inview_rows[OF b view_w[OF v]] getters_read(3) r key by auto
    from k[OF this] v1 r hs Inr show ?thesis
      by (simp add: hListSteps_def hbind_def hget_def hcall_def hvalid_def)
  qed
qed

lemma k_order:
  "OrderSagaStepsInSequence allSteps = Some os' \<Longrightarrow> hvalid P (k os') Q E \<Longrightarrow>
   hvalid P (hbind (hOrder allSteps) k) Q E"
  by (simp add: hOrder_def hbind_return)

section \<open>Beginning, committing, rolling back\<close>

definition settled :: "SagaInstance \<Rightarrow> SagaStepInstance list \<Rightarrow> int \<Rightarrow>
    SagaInstance \<Rightarrow> SagaStepInstance \<Rightarrow> hstate \<Rightarrow> bool" where
  "settled g os t sg st s = (w_tx (h_w s) = None \<and> w_dbtime (h_w s) = t \<and> base (w_db (h_w s)) g os \<and>
     h_saga s = sg \<and> h_step s = st)"

lemma settled_idle: "settled g os t sg st s \<Longrightarrow> idle (h_w s)"
  by (simp add: settled_def idle_def base_def)

lemma k_begin:
  assumes E: "\<And>e s. idle (h_w s) \<Longrightarrow> E (onErr e) s"
    and k: "\<And>d. base d g os \<Longrightarrow> hvalid (view d g os t g os sg st) (k ()) Q E"
  shows "hvalid (settled g os t sg st) (hbind (hcall BeginTransaction onErr) k) Q E"
proof (rule hvalidI)
  fix s assume s: "settled g os t sg st s"
  obtain r w1 where r: "BeginTransaction (h_w s) = (r, w1)" by fastforce
  have db: "w_db w1 = w_db (h_w s)" "w_dbtime w1 = w_dbtime (h_w s)"
    "(case r of Inl e \<Rightarrow> w_tx w1 = None | Inr _ \<Rightarrow> w_tx w1 = Some (w_db (h_w s)))"
    using r s by (auto simp: BeginTransaction_def next_fault_def settled_def
        split: list.splits fault.splits prod.splits)
  show "case hbind (hcall BeginTransaction onErr) k s of (Inl e, s1) \<Rightarrow> E e s1 | (Inr x, s1) \<Rightarrow> Q x s1"
  proof (cases r)
    case (Inl e)
    with db have "idle w1" using settled_idle[OF s] by (simp add: idle_def)
    then show ?thesis using Inl r E by (simp add: hbind_def hcall_def)
  next
    case (Inr x)
    with db s have "view (w_db (h_w s)) g os t g os sg st (s\<lparr>h_w := w1\<rparr>)"
      by (auto simp: view_def settled_def intro!: inview_start)
    moreover have "base (w_db (h_w s)) g os" using s by (simp add: settled_def)
    ultimately show ?thesis using k Inr r by (simp add: hbind_def hcall_def hvalid_def)
  qed
qed

lemma commit_world:
  assumes "w_tx w = Some d" "CommitTransaction w = (r, w1)"
  shows "w_tx w1 = None \<and> w_dbtime w1 = w_dbtime w \<and>
    (case r of Inl e \<Rightarrow> w_db w1 = d \<or> w_db w1 = w_db w | Inr _ \<Rightarrow> w_db w1 = w_db w)"
  using assms by (auto simp: CommitTransaction_def next_fault_def
      split: list.splits fault.splits prod.splits if_splits)

lemma k_commit:
  assumes b: "base d g os" and coh: "coherent (Si_State g') (map Ss_State os')" and ok: "\<And>j. j < length os' \<Longrightarrow> step_ok (os' ! j)"
    and E: "\<And>e s. idle (h_w s) \<Longrightarrow> E (onErr e) s"
    and k: "hvalid (settled g' os' t sg st) (k ()) Q E"
  shows "hvalid (view d g os t g' os' sg st) (hbind (hcall CommitTransaction onErr) k) Q E"
proof (rule hvalidI)
  fix s assume v: "view d g os t g' os' sg st s"
  obtain r w1 where r: "CommitTransaction (h_w s) = (r, w1)" by fastforce
  note w = commit_world[OF view_tx[OF v] r]
  have b2: "base (w_db (h_w s)) g' os'"
    by (rule inview_base[OF b view_w[OF v] coh]) (use ok in \<open>auto simp: in_set_conv_nth\<close>)
  show "case hbind (hcall CommitTransaction onErr) k s of (Inl e, s1) \<Rightarrow> E e s1 | (Inr x, s1) \<Rightarrow> Q x s1"
  proof (cases r)
    case (Inl e)
    then have "idle w1" using w b b2 by (auto simp: idle_def base_def)
    then show ?thesis using Inl r E by (simp add: hbind_def hcall_def)
  next
    case (Inr x)
    then have "settled g' os' t sg st (s\<lparr>h_w := w1\<rparr>)"
      using w b2 v by (auto simp: settled_def view_def inview_def)
    then show ?thesis using Inr r k by (simp add: hbind_def hcall_def hvalid_def)
  qed
qed

lemma rollback_idle:
  assumes "w_tx w = Some d \<and> db_inv (db_sagas d) (db_steps d) \<or> idle w"
  shows "idle (snd (RollbackTransaction w))"
  using assms by (auto simp: RollbackTransaction_def next_fault_def idle_def
      split: option.splits list.splits fault.splits prod.splits)

lemma neutralD:
  "neutral op \<Longrightarrow> op w = (r, w1) \<Longrightarrow> w_tx w1 = w_tx w \<and> w_dbtime w1 = w_dbtime w \<and>
   db_steps (w_db w1) = db_steps (w_db w) \<and> db_sagas (w_db w1) = db_sagas (w_db w)"
  unfolding neutral_def by (metis snd_conv)

text \<open>Marking a saga invalid, inside a transaction or not: the invariant stays, and the check that
  follows the write never panics.\<close>
lemma invalidate_inv:
  assumes J: "db_inv (db_sagas (w_db w)) (db_steps (w_db w))"
    and r: "transitSagaToState sg SagaStateEnum_InvalidState w = (out, sg', w')"
  shows "db_inv (db_sagas (w_db w')) (db_steps (w_db w')) \<and> w_tx w' = w_tx w \<and> (\<forall>m. out \<noteq> TPanic m)"
proof -
  let ?u = "setSagaState SagaStateEnum_InvalidState (Si_CompensationReason sg) (w_dbtime w)"
  let ?upd = "update_saga_rows (Si_ClusterId sg) (Si_InstanceId sg) ?u"
  obtain r1 w1 where e: "db_exec ?upd w = (r1, w1)" by fastforce
  have J2: "db_inv (db_sagas (?upd (w_db w))) (db_steps (?upd (w_db w)))"
    unfolding update_saga_rows_def
    by (simp, rule db_inv_saga_update[OF J]) (auto simp: framed_saga_def intro: coherent_shape)
  have e1: "w_tx w1 = w_tx w" "w_db w1 = w_db w \<or> w_db w1 = ?upd (w_db w)"
      "r1 = Inr () \<Longrightarrow> w_db w1 = ?upd (w_db w)"
    using e by (auto simp: db_exec_def next_fault_def split: if_splits prod.splits list.splits fault.splits)
  have J3: "db_inv (db_sagas (w_db w1)) (db_steps (w_db w1))" using e1(2) J J2 by auto
  show ?thesis
  proof (cases r1)
    case (Inl z)
    then show ?thesis using r e e1 J3 by (auto simp: transitSagaToState_def UpdateSagaState_alt)
  next
    case (Inr z)
    obtain r3 w3 where g3: "GetSagaInstance (Si_ClusterId sg) (Si_InstanceId sg) w1 = (r3, w3)" by fastforce
    note n = neutralD[OF neutral_getters(1) g3]
    have "Si_State y = SagaStateEnum_InvalidState" if "r3 = Ok y" for y
      using getters_read(1)[of "Si_ClusterId sg" "Si_InstanceId sg" w1 y w3] that g3 e1(3) Inr
        find_saga_updated[OF framed_setSagaState, of "Si_ClusterId sg" "Si_InstanceId sg"] by auto
    then show ?thesis using r e Inr g3 n J3 e1(1)
      by (cases r3) (auto simp: transitSagaToState_def UpdateSagaState_alt split: if_splits)
  qed
qed

lemma deferred_idle:
  assumes "w_tx (h_w s) = Some d \<and> db_inv (db_sagas d) (db_steps d) \<or> idle (h_w s)"
    and "deferredRollback m s = (out, s2)"
  shows "out = None \<and> idle (h_w s2)"
proof -
  let ?w1 = "snd (RollbackTransaction (h_w s))"
  have i1: "idle ?w1" by (rule rollback_idle[OF assms(1)])
  show ?thesis
  proof (cases m)
    case False
    then show ?thesis using assms(2) i1 by (auto simp: deferredRollback_def)
  next
    case True
    obtain r2 w2 where r2: "BeginTransaction ?w1 = (r2, w2)" by fastforce
    have b: "w_db w2 = w_db ?w1" "(case r2 of Inl e \<Rightarrow> w_tx w2 = None | Inr _ \<Rightarrow> w_tx w2 = Some (w_db ?w1))"
      using r2 i1 by (auto simp: BeginTransaction_def next_fault_def idle_def
        split: list.splits fault.splits prod.splits option.splits)
    show ?thesis
    proof (cases r2)
      case (Inl e)
      then show ?thesis using assms(2) r2 True b i1 by (auto simp: deferredRollback_def idle_def)
    next
      case (Inr x)
      obtain o3 sg3 w3 where t: "transitSagaToState (h_saga s) SagaStateEnum_InvalidState w2 = (o3, sg3, w3)"
        by (metis prod_cases3)
      have i3: "db_inv (db_sagas (w_db w3)) (db_steps (w_db w3))" "w_tx w3 = w_tx w2" "\<forall>m. o3 \<noteq> TPanic m"
        using invalidate_inv[OF _ t] b i1 by (auto simp: idle_def)
      have tx3: "w_tx w3 = Some (w_db ?w1)" using i3 b Inr by simp
      have rb: "idle (snd (RollbackTransaction w3))"
        by (rule rollback_idle) (use tx3 i1 in \<open>auto simp: idle_def\<close>)
      obtain r4 w4 where c: "CommitTransaction w3 = (r4, w4)" by fastforce
      have i4: "idle w4" using commit_world[OF tx3 c] i3 i1 by (cases r4) (auto simp: idle_def)
      have rb4: "idle (snd (RollbackTransaction w4))" by (rule rollback_idle) (use i4 in auto)
      show ?thesis
        using assms(2) True r2 Inr t c i3 rb i4 rb4
        by (cases o3; cases r4) (auto simp: deferredRollback_def)
    qed
  qed
qed

lemma k_deferred:
  assumes b: "base d g os" and body: "hvalid P body Q (body_exit d R)"
  shows "hvalid P (withDeferredRollback body) Q (safe_exit R)"
proof (rule hvalidI)
  fix s assume "P s"
  obtain r s1 where r: "body s = (r, s1)" by fastforce
  have J: "db_inv (db_sagas d) (db_steps d)" using b by (simp add: base_def)
  show "case withDeferredRollback body s of (Inl e, s1) \<Rightarrow> safe_exit R e s1 | (Inr x, s1) \<Rightarrow> Q x s1"
  proof (cases r)
    case (Inl e)
    with hvalidD_exit[OF body \<open>P s\<close>] r have e: "body_exit d R e s1" by simp
    show ?thesis
    proof (cases e)
      case (Abandon m x)
      obtain o2 s2 where d2: "deferredRollback m s1 = (o2, s2)" by fastforce
      have "o2 = None \<and> idle (h_w s2)"
        by (rule deferred_idle[OF _ d2, of d]) (use e Abandon J in auto)
      then show ?thesis using r Inl Abandon d2 e by (simp add: withDeferredRollback_def)
    qed (use r Inl e in \<open>auto simp: withDeferredRollback_def\<close>)
  next
    case (Inr x)
    with hvalidD_val[OF body \<open>P s\<close>] r show ?thesis by (simp add: withDeferredRollback_def)
  qed
qed

end
