(* ===== verification/Handler_Safety.thy ===== *)
theory Handler_Safety
  imports Saga_Rules
begin

text \<open>
  Every case of \<open>processSagaStep\<close> keeps the database invariant, whatever the script of failures, and
  never panics: one lemma per handler, combined in \<open>processSagaStep_safe\<close>.
\<close>

lemma Si_State_set: "Si_State (setSagaState a b c g) = a"
  by simp

section \<open>Outside a transaction\<close>

lemma s_base: "(\<And>d. base d g os \<Longrightarrow> hvalid (settled g os t sg st) m Q E) \<Longrightarrow> hvalid (settled g os t sg st) m Q E"
proof (rule hvalidI)
  fix s assume a: "\<And>d. base d g os \<Longrightarrow> hvalid (settled g os t sg st) m Q E" and s: "settled g os t sg st s"
  have "base (w_db (h_w s)) g os" using s by (simp add: settled_def)
  from a[OF this] s show "case m s of (Inl e, s1) \<Rightarrow> E e s1 | (Inr x, s1) \<Rightarrow> Q x s1"
    by (simp add: hvalid_def)
qed

lemma hvalid_if:
  "\<lbrakk> c \<Longrightarrow> hvalid P m Q E; \<not> c \<Longrightarrow> hvalid P n Q E \<rbrakk> \<Longrightarrow> hvalid P (if c then m else n) Q E"
  by simp

lemma s_exit: "(\<And>s. settled g os t sg st s \<Longrightarrow> E e s) \<Longrightarrow> hvalid (settled g os t sg st) (hexit e) Q E"
  by (rule k_exit)

lemma s_get_step:
  "hvalid (settled g os t sg st) (k st) Q E \<Longrightarrow> hvalid (settled g os t sg st) (hbind (hget h_step) k) Q E"
  by (auto simp: hvalid_def hbind_def hget_def settled_def)

lemma s_get_saga:
  "hvalid (settled g os t sg st) (k sg) Q E \<Longrightarrow> hvalid (settled g os t sg st) (hbind (hget h_saga) k) Q E"
  by (auto simp: hvalid_def hbind_def hget_def settled_def)

lemma s_set_step:
  "hvalid (settled g os t sg (F st)) (k ()) Q E \<Longrightarrow>
   hvalid (settled g os t sg st) (hbind (hmodify (\<lambda>s. s\<lparr>h_step := F (h_step s)\<rparr>)) k) Q E"
  by (auto simp: hvalid_def hbind_def hmodify_def settled_def)

lemma base_same:
  "base d g os \<Longrightarrow> db_steps d' = db_steps d \<Longrightarrow> db_sagas d' = db_sagas d \<Longrightarrow> base d' g os"
  by (simp add: base_def)

lemma settled_neutral:
  "neutral op \<Longrightarrow> settled g os t sg st s \<Longrightarrow> op (h_w s) = (r, w1) \<Longrightarrow> settled g os t sg st (s\<lparr>h_w := w1\<rparr>)"
  using neutralD[of op "h_w s" r w1] by (auto simp: settled_def elim: base_same)

lemma s_world:
  assumes "neutral op" "\<And>x. hvalid (settled g os t sg st) (k x) Q E"
  shows "hvalid (settled g os t sg st) (hbind (hworld op) k) Q E"
proof (rule hvalidI)
  fix s assume s: "settled g os t sg st s"
  obtain r w1 where r: "op (h_w s) = (r, w1)" by fastforce
  then show "case hbind (hworld op) k s of (Inl e, s1) \<Rightarrow> E e s1 | (Inr x, s1) \<Rightarrow> Q x s1"
    using settled_neutral[OF assms(1) s r] assms(2)[of r] by (simp add: hbind_def hworld_def hvalid_def)
qed

lemma s_call:
  assumes "neutral op" "\<And>e s. idle (h_w s) \<Longrightarrow> E (onErr e) s" "\<And>x. hvalid (settled g os t sg st) (k x) Q E"
  shows "hvalid (settled g os t sg st) (hbind (hcall op onErr) k) Q E"
proof (rule hvalidI)
  fix s assume s: "settled g os t sg st s"
  obtain r w1 where r: "op (h_w s) = (r, w1)" by fastforce
  note s1 = settled_neutral[OF assms(1) s r]
  show "case hbind (hcall op onErr) k s of (Inl e, s1) \<Rightarrow> E e s1 | (Inr x, s1) \<Rightarrow> Q x s1"
    using s1 settled_idle[OF s1] assms(2) assms(3) r by (cases r) (auto simp: hbind_def hcall_def hvalid_def)
qed

lemma s_list_order:
  assumes key: "saga_key sg = saga_key g" and E: "\<And>s. idle (h_w s) \<Longrightarrow> E onErr s"
    and k: "\<And>allSteps. OrderSagaStepsInSequence allSteps = Some os \<Longrightarrow> hvalid (settled g os t sg st) (k allSteps) Q E"
  shows "hvalid (settled g os t sg st) (hbind (hListSteps onErr) k) Q E"
proof (rule hvalidI)
  fix s assume s: "settled g os t sg st s"
  let ?op = "ListSagaStepInstancesBySagaInstanceId (Si_ClusterId sg) (Si_InstanceId sg)"
  obtain r w1 where r: "?op (h_w s) = (r, w1)" by fastforce
  have hs: "h_saga s = sg" using s by (simp add: settled_def)
  note s1 = settled_neutral[OF neutral_getters(3) s r]
  show "case hbind (hListSteps onErr) k s of (Inl e, s1) \<Rightarrow> E e s1 | (Inr x, s1) \<Rightarrow> Q x s1"
  proof (cases r)
    case (Inl e)
    then show ?thesis using r hs E settled_idle[OF s1] by (simp add: hListSteps_def hbind_def hget_def hcall_def)
  next
    case (Inr rs)
    have "rs = saga_steps (Si_ClusterId sg) (Si_InstanceId sg) (w_db (h_w s))" using r Inr getters_read(3) by blast
    moreover have "base (w_db (h_w s)) g os" using s by (simp add: settled_def)
    ultimately have "OrderSagaStepsInSequence rs = Some os"
      using key by (simp add: base_def ordered_def saga_rows_def saga_steps_def)
    from k[OF this] s1 r hs Inr show ?thesis
      by (simp add: hListSteps_def hbind_def hget_def hcall_def hvalid_def)
  qed
qed

lemma s_ordered:
  assumes "saga_key sg = saga_key g" "\<And>s. idle (h_w s) \<Longrightarrow> E onErr s" "hvalid (settled g os t sg st) (k os) Q E"
  shows "hvalid (settled g os t sg st) (hbind (hListSteps onErr) (\<lambda>allSteps. hbind (hOrder allSteps) k)) Q E"
  by (rule s_list_order[where E = E, OF assms(1,2)], assumption, rule k_order, assumption, rule assms(3))

lemma k_ordered:
  assumes "base d g os" "saga_key sg = saga_key g" "\<And>s. w_tx (h_w s) = Some d \<Longrightarrow> E onErr s"
    "hvalid (view d g os t g' os' sg st) (k os') Q E"
  shows "hvalid (view d g os t g' os' sg st) (hbind (hListSteps onErr) (\<lambda>allSteps. hbind (hOrder allSteps) k)) Q E"
  by (rule k_list_order[where E = E, OF assms(1,2,3)], assumption, rule k_order, assumption, rule assms(4))

section \<open>Calls that roll back themselves\<close>

lemma rb_of_call:
  assumes "hvalid P (hcall op (\<lambda>_. Abandon False r)) B E0"
    "\<And>s. E0 (Abandon False r) s \<Longrightarrow> E (Return r) (s\<lparr>h_w := snd (RollbackTransaction (h_w s))\<rparr>)"
  shows "hvalid P (hcallRollback op r) B E"
proof (rule hvalidI)
  fix s assume s: "P s"
  obtain x w1 where x: "op (h_w s) = (x, w1)" by fastforce
  show "case hcallRollback op r s of (Inl e, s1) \<Rightarrow> E e s1 | (Inr x, s1) \<Rightarrow> B x s1"
  proof (cases x)
    case (Inl e)
    have "E0 (Abandon False r) (s\<lparr>h_w := w1\<rparr>)"
      by (rule hvalidD_exit[OF assms(1) s]) (simp add: hcall_def x Inl)
    from assms(2)[OF this] show ?thesis by (simp add: hcallRollback_def x Inl)
  next
    case (Inr y)
    have "B y (s\<lparr>h_w := w1\<rparr>)"
      by (rule hvalidD_val[OF assms(1) s]) (simp add: hcall_def x Inr)
    then show ?thesis by (simp add: hcallRollback_def x Inr)
  qed
qed

lemma rb_of_transit:
  assumes "hvalid P (hTransitStep target (Abandon False r)) B E0"
    "\<And>s. E0 (Abandon False r) s \<Longrightarrow> E (Return r) (s\<lparr>h_w := snd (RollbackTransaction (h_w s))\<rparr>)"
    "\<And>m s. \<not> E0 (Died m) s"
  shows "hvalid P (hTransitStepRollback target r) B E"
proof (rule hvalidI)
  fix s assume s: "P s"
  obtain out st w1 where x: "transitSagaStepToState (h_saga s) (h_step s) target (h_w s) = (out, st, w1)" by (metis prod_cases3)
  show "case hTransitStepRollback target r s of (Inl e, s1) \<Rightarrow> E e s1 | (Inr x, s1) \<Rightarrow> B x s1"
  proof (cases out)
    case TOk
    have "B () (s\<lparr>h_step := st, h_w := w1\<rparr>)"
      by (rule hvalidD_val[OF assms(1) s]) (simp add: hTransitStep_def x TOk)
    then show ?thesis by (simp add: hTransitStepRollback_def x TOk)
  next
    case (TErr e)
    have "E0 (Abandon False r) (s\<lparr>h_step := st, h_w := w1\<rparr>)"
      by (rule hvalidD_exit[OF assms(1) s]) (simp add: hTransitStep_def x TErr)
    from assms(2)[OF this] show ?thesis by (simp add: hTransitStepRollback_def x TErr)
  next
    case (TPanic m)
    have "E0 (Died m) (s\<lparr>h_step := st, h_w := w1\<rparr>)"
      by (rule hvalidD_exit[OF assms(1) s]) (simp add: hTransitStep_def x TPanic)
    with assms(3) show ?thesis by blast
  qed
qed

lemma hbind_hreturn: "hbind m hreturn = m"
  by (rule ext) (simp add: hbind_def hreturn_def split: sum.splits prod.splits)

lemma hvalid_hreturn: "hvalid P (hreturn x) (\<lambda>_. P) E"
  by (simp add: hvalid_def hreturn_def)

lemma rb_exit:
  "base d g os \<Longrightarrow> w_tx (h_w s) = Some d \<or> idle (h_w s) \<Longrightarrow> idle (snd (RollbackTransaction (h_w s)))"
  by (rule rollback_idle) (auto simp: base_def)

abbreviation inTx :: "db \<Rightarrow> 'e exit \<Rightarrow> hstate \<Rightarrow> bool" where
  "inTx d \<equiv> (\<lambda>e s. (case e of Died _ \<Rightarrow> False | _ \<Rightarrow> True) \<and> (w_tx (h_w s) = Some d \<or> idle (h_w s)))"

abbreviation setHistory :: "string \<Rightarrow> SagaStepExecutionLog list \<Rightarrow> int \<Rightarrow> SagaStepInstance \<Rightarrow> SagaStepInstance" where
  "setHistory eid h t r \<equiv> r\<lparr>Ss_ExecutionId := eid, Ss_ExecutionHistory := h, Ss_UpdatedAt := t\<rparr>"

lemma k_history:
  assumes b: "base d g os" and j: "j < length os'" and key: "step_key x = step_key (os' ! j)"
    and E: "\<And>e s. w_tx (h_w s) = Some d \<Longrightarrow> E (onErr e) s"
    and k: "hvalid (view d g os t g' (upd_at {j} (setHistory (Ss_ExecutionId x) (Ss_ExecutionHistory x) t) os') sg st) (k ()) Q E"
  shows "hvalid (view d g os t g' os' sg st) (hbind (hcall (UpdateSagaStepInstanceExecutionHistory x) onErr) k) Q E"
  by (rule k_exec_step[OF b j, where c = "Ss_ClusterId x" and i = "Ss_InstanceId x"
        and u = "setHistory (Ss_ExecutionId x) (Ss_ExecutionHistory x) t"])
     (use key E k in \<open>auto simp: UpdateSagaStepInstanceExecutionHistory_def framed_def link_preserving_def\<close>)

lemma rb_history:
  assumes b: "base d g os" and j: "j < length os'" and key: "step_key x = step_key (os' ! j)"
    and E: "\<And>s. idle (h_w s) \<Longrightarrow> E (Return r) s"
    and k: "hvalid (view d g os t g' (upd_at {j} (setHistory (Ss_ExecutionId x) (Ss_ExecutionHistory x) t) os') sg st) (k ()) Q E"
  shows "hvalid (view d g os t g' os' sg st) (hbind (hcallRollback (UpdateSagaStepInstanceExecutionHistory x) r) k) Q E"
proof (rule k_bind)
  have rb: "E (Return r) (s\<lparr>h_w := snd (RollbackTransaction (h_w s))\<rparr>)"
    if "w_tx (h_w s) = Some d \<or> idle (h_w s)" for s
    using E[of "s\<lparr>h_w := snd (RollbackTransaction (h_w s))\<rparr>"] rb_exit[OF b that] by simp
  show "hvalid (view d g os t g' os' sg st) (hcallRollback (UpdateSagaStepInstanceExecutionHistory x) r)
     (\<lambda>_. view d g os t g' (upd_at {j} (setHistory (Ss_ExecutionId x) (Ss_ExecutionHistory x) t) os') sg st) E"
    by (rule rb_of_call[where ?E0.0 = "inTx d"], subst hbind_hreturn[symmetric],
        rule k_history[OF b j key _ hvalid_hreturn]) (use rb in auto)
qed (use k in simp)

lemma rb_transit:
  assumes b: "base d g os" and j: "j < length os'"
    and key: "step_key st = step_key (os' ! j)" and c: "Si_ClusterId sg = Ss_ClusterId st"
    and E: "\<And>s. idle (h_w s) \<Longrightarrow> E (Return r) s"
    and k: "hvalid (view d g os t g' (upd_at {j} (setState target t) os') sg (setState target t (os' ! j))) (k ()) Q E"
  shows "hvalid (view d g os t g' os' sg st) (hbind (hTransitStepRollback target r) k) Q E"
proof (rule k_bind)
  have rb: "E (Return r) (s\<lparr>h_w := snd (RollbackTransaction (h_w s))\<rparr>)"
    if "w_tx (h_w s) = Some d \<or> idle (h_w s)" for s
    using E[of "s\<lparr>h_w := snd (RollbackTransaction (h_w s))\<rparr>"] rb_exit[OF b that] by simp
  show "hvalid (view d g os t g' os' sg st) (hTransitStepRollback target r)
     (\<lambda>_. view d g os t g' (upd_at {j} (setState target t) os') sg (setState target t (os' ! j))) E"
    by (rule rb_of_transit[where ?E0.0 = "inTx d"], subst hbind_hreturn[symmetric],
        rule k_transit_step[OF b j key c _ hvalid_hreturn]) (use rb in auto)
qed (use k in simp)

lemma rb_commit:
  assumes b: "base d g os" and coh: "coherent (Si_State g') (map Ss_State os')" and ok: "\<And>j. j < length os' \<Longrightarrow> step_ok (os' ! j)"
    and E: "\<And>s. idle (h_w s) \<Longrightarrow> E (Return r) s"
    and k: "hvalid (settled g' os' t sg st) (k ()) Q E"
  shows "hvalid (view d g os t g' os' sg st) (hbind (hcallRollback CommitTransaction r) k) Q E"
proof (rule k_bind)
  have rb: "E (Return r) (s\<lparr>h_w := snd (RollbackTransaction (h_w s))\<rparr>)"
    if "w_tx (h_w s) = Some d \<or> idle (h_w s)" for s
    using E[of "s\<lparr>h_w := snd (RollbackTransaction (h_w s))\<rparr>"] rb_exit[OF b that] by simp
  show "hvalid (view d g os t g' os' sg st) (hcallRollback CommitTransaction r) (\<lambda>_. settled g' os' t sg st) E"
    by (rule rb_of_call[where ?E0.0 = "inTx d"], subst hbind_hreturn[symmetric],
        rule k_commit[OF b coh ok _ hvalid_hreturn]) (use rb in auto)
qed (use k in simp)

section \<open>Where a handler stands\<close>

definition agrees :: "SagaStepInstance \<Rightarrow> SagaStepInstance \<Rightarrow> bool" where
  "agrees st r = (step_key st = step_key r \<and> Ss_State st = Ss_State r \<and>
     Ss_ExecutionHistory st = Ss_ExecutionHistory r)"

text \<open>A step that is running when a handler gets it has not had its result yet.\<close>
definition fresh_log :: "SagaStepInstance \<Rightarrow> bool" where
  "fresh_log st = (Ss_State st \<in> {SagaStepStateEnum_ExecutionRunning, SagaStepStateEnum_CompensationRunning} \<longrightarrow>
     Ss_ExecutionHistory st \<noteq> [] \<and> ExecutionResultReceivedTs (last (Ss_ExecutionHistory st)) = 0)"

definition at_step :: "SagaInstance \<Rightarrow> SagaStepInstance list \<Rightarrow> nat \<Rightarrow> SagaInstance \<Rightarrow> SagaStepInstance \<Rightarrow> bool" where
  "at_step g os i sg st = (i < length os \<and> agrees st (os ! i) \<and> saga_key sg = saga_key g \<and>
     Si_State sg = Si_State g \<and> fresh_log st)"

definition resumable :: "hstate \<Rightarrow> bool" where
  "resumable s = (\<exists>g os t i sg st. settled g os t sg st s \<and> at_step g os i sg st)"

definition resumes :: "bool \<Rightarrow> hstate \<Rightarrow> bool" where
  "resumes b s = (b \<longrightarrow> resumable s)"

lemma resumes_False [simp]: "resumes False s"
  by (simp add: resumes_def)

lemma resumes_True: "settled g os t sg st s \<Longrightarrow> at_step g os i sg st \<Longrightarrow> resumes True s"
  unfolding resumes_def resumable_def by blast

lemma k_exit_True:
  "at_step g os i sg st \<Longrightarrow> hvalid (settled g os t sg st) (hexit (Return True)) Q (safe_exit resumes)"
  "at_step g os i sg st \<Longrightarrow> hvalid (settled g os t sg st) (hexit (Return True)) Q (body_exit d resumes)"
  by (rule k_exit, simp add: settled_idle resumes_True)+

lemma at_step_facts:
  assumes b: "base d g os" and a: "at_step g os i sg st"
  shows "i < length os" "saga_key sg = saga_key g"
    "Ss_ClusterId st = Si_ClusterId g" "Si_ClusterId sg = Si_ClusterId g" "Si_InstanceId sg = Si_InstanceId g"
    "\<And>j. j < length os \<Longrightarrow> Ss_ClusterId (os ! j) = Si_ClusterId g" "Ss_InstanceId st = Ss_InstanceId (os ! i)"
    "Ss_State st = Ss_State (os ! i)" "Ss_ExecutionHistory st = Ss_ExecutionHistory (os ! i)" "Si_State sg = Si_State g"
    "indexOfStep st os = Some i" "os ! i \<in> set os" "step_ok (os ! i)" "coherent (Si_State g) (map Ss_State os)"
    "fresh_log st" "\<And>j. j < length os \<Longrightarrow> step_ok (os ! j)"
proof -
  have sk: "step_key st = step_key (os ! i)" using a by (simp add: at_step_def agrees_def)
  show l: "i < length os" "saga_key sg = saga_key g"
    "Ss_State st = Ss_State (os ! i)" "Ss_ExecutionHistory st = Ss_ExecutionHistory (os ! i)" "Si_State sg = Si_State g"
    "fresh_log st"
    using a by (auto simp: at_step_def agrees_def)
  then show m: "os ! i \<in> set os" by simp
  show "Ss_ClusterId st = Si_ClusterId g" using sk base_facts(5)[OF b m] by simp
  show "Si_ClusterId sg = Si_ClusterId g" "Si_InstanceId sg = Si_InstanceId g" using l by auto
  show iid: "Ss_InstanceId st = Ss_InstanceId (os ! i)" using sk by simp
  show "indexOfStep st os = Some i"
    unfolding indexOfStep_def iid by (rule find_index_nth_distinct[OF base_facts(6)[OF b] l(1)])
  show "step_ok (os ! i)" by (rule base_facts(7)[OF b m])
  show "coherent (Si_State g) (map Ss_State os)" by (rule base_facts(4)[OF b])
  show "\<And>j. j < length os \<Longrightarrow> Ss_ClusterId (os ! j) = Si_ClusterId g"
    "\<And>j. j < length os \<Longrightarrow> step_ok (os ! j)" using base_facts(5,7)[OF b] by simp_all
qed

lemma pending_history:
  "step_ok r \<Longrightarrow> Ss_State r = SagaStepStateEnum_ExecutionPending \<Longrightarrow> Ss_ExecutionHistory r = []"
  by (simp add: step_ok_def Let_def)

section \<open>Moves between patterns\<close>

lemma forward_exclusive:
  assumes "forward_at ss i"
  shows "\<not> all_done ss" "\<not> compensated ss" "\<not> backward_at ss k"
proof -
  have i: "i < length ss" "fwd_active (ss ! i)" using assms by (auto simp: forward_at_def)
  show "\<not> all_done ss" using i by (auto simp: fwd_active_def dest: all_done_nth)
  show "\<not> compensated ss" using i settled_nth[of ss 0 i] by (auto simp: compensated_def fwd_active_def)
  show "\<not> backward_at ss k"
    using i settled_nth[of ss "Suc k" i]
    by (cases i k rule: linorder_cases) (auto simp: backward_at_def fwd_active_def cmp_active_def)
qed

lemma backward_exclusive:
  assumes "backward_at ss i"
  shows "\<not> all_done ss" "\<not> compensated ss"
proof -
  have i: "i < length ss" "cmp_active (ss ! i)" using assms by (auto simp: backward_at_def)
  show "\<not> all_done ss" using i by (auto simp: cmp_active_def dest: all_done_nth)
  show "\<not> compensated ss" using i settled_nth[of ss 0 i] by (auto simp: compensated_def cmp_active_def)
qed

lemma coherent_from_forward:
  "coherent gs ss \<Longrightarrow> forward_at ss i \<Longrightarrow> forward_at ss' k \<or> backward_at ss' k \<Longrightarrow> coherent gs ss'"
  using forward_exclusive[of ss i] by (cases gs) (auto simp: in_flight_def shape_def)

lemma coherent_from_backward:
  "coherent gs ss \<Longrightarrow> backward_at ss i \<Longrightarrow> backward_at ss' k \<Longrightarrow> coherent gs ss'"
  using backward_exclusive[of ss i] forward_exclusive(3)[of ss _ i]
  by (cases gs) (auto simp: in_flight_def shape_def)

lemma forward_upd:
  assumes "forward_at (map Ss_State os) i" "\<And>r. fwd_active (Ss_State (u r)) \<or> Ss_State (u r) = Ss_State r"
  shows "forward_at (map Ss_State (upd_at {i} u os)) i"
  using assms by (auto simp: forward_at_def) metis

lemma backward_upd:
  assumes "backward_at (map Ss_State os) i" "\<And>r. cmp_active (Ss_State (u r)) \<or> Ss_State (u r) = Ss_State r"
  shows "backward_at (map Ss_State (upd_at {i} u os)) i"
proof -
  have "settled_from (map Ss_State (upd_at {i} u os)) (Suc i)"
    using assms(1) by (auto simp: backward_at_def settled_from_def)
  with assms show ?thesis by (auto simp: backward_at_def) metis
qed

lemma current_forward:
  assumes b: "base d g os" and a: "at_step g os i sg st" and s: "fwd_active (Ss_State st)"
  shows "forward_at (map Ss_State os) i"
  using at_step_facts[OF b a] s by (intro shape_fwd_at) (auto dest: coherent_shape)

lemma current_backward:
  assumes b: "base d g os" and a: "at_step g os i sg st" and s: "cmp_active (Ss_State st)"
  shows "backward_at (map Ss_State os) i"
  using at_step_facts[OF b a] s by (intro shape_cmp_at) (auto dest: coherent_shape)

lemma upd_at_step_ok:
  "(\<And>r. r \<in> set os \<Longrightarrow> step_ok r) \<Longrightarrow> (\<And>j. j < length os \<Longrightarrow> j \<in> J \<Longrightarrow> step_ok (u (os ! j))) \<Longrightarrow>
   r \<in> set (upd_at J u os) \<Longrightarrow> step_ok r"
  by (auto simp: upd_at_def)

section \<open>EXECUTION\_CANDIDATE\<close>

lemma candidate_safe:
  assumes a: "at_step g os i sg st" and X: "Ss_State st = SagaStepStateEnum_ExecutionCandidate"
  shows "hvalid (settled g os t sg st) handleExecutionCandidate (\<lambda>_ _. False) (safe_exit resumes)"
proof (rule s_base)
  fix d assume b: "base d g os"
  note A = at_step_facts[OF b a]
  have h: "Ss_ExecutionHistory st = []" using A X by (simp add: step_ok_def Let_def)
  have fw: "forward_at (map Ss_State os) i" by (rule current_forward[OF b a]) (simp add: X fwd_active_def)
  have prev: "\<not> (0 < i \<and> Ss_State (os ! (i - 1)) \<noteq> SagaStepStateEnum_ExecutionDone)"
    and nxt: "\<not> (Suc i < length os \<and> Ss_State (os ! Suc i) \<noteq> SagaStepStateEnum_ExecutionPending)"
    using fw by (cases i; auto simp: forward_at_def)+
  show "hvalid (settled g os t sg st) handleExecutionCandidate (\<lambda>_ _. False) (safe_exit resumes)"
    unfolding handleExecutionCandidate_def
    apply (rule s_get_step)
    apply (simp only: h simp_thms if_False)
    apply (rule s_ordered[OF A(2)], simp)
    apply (simp only: A(11) option.case prev nxt if_False)
    apply (rule s_world, simp)
    apply (rule s_world, simp)
    apply (rule s_set_step)
    apply (rule k_begin, simp)
    subgoal premises p
      apply (rule k_get_step)
      apply (rule rb_history[OF p, where j = i], simp add: A, simp add: A, simp)
      apply (rule rb_transit[OF p, where j = i], simp add: A, simp add: A, simp add: A, simp)
      apply (rule k_get_step)
      apply (rule rb_history[OF p, where j = i], simp add: A, simp add: A, simp)
      apply (rule rb_commit[OF p])
      subgoal
        by (rule coherent_from_forward[OF A(14) fw, where k = i])
           (use fw in \<open>auto simp: forward_at_def fwd_active_def\<close>)
      subgoal for j
        by (cases "j = i", simp add: step_ok_def Let_def newExecutionLog_def A(1), simp add: A(16))
      apply simp
      apply (rule k_exit_True[where i = i])
      subgoal using A(1,2,10) by (simp add: at_step_def agrees_def fresh_log_def newExecutionLog_def)
      done
    done
qed

section \<open>The running states\<close>

lemma running_pattern:
  assumes b: "base d g os" and a: "at_step g os i sg st"
    and X: "Ss_State st = SagaStepStateEnum_ExecutionRunning \<and> target \<in> {SagaStepStateEnum_ExecutionRunning,
              SagaStepStateEnum_ExecutionFailed, SagaStepStateEnum_ExecutionSucceeded} \<or>
            Ss_State st = SagaStepStateEnum_CompensationRunning \<and> target \<in> {SagaStepStateEnum_CompensationRunning,
              SagaStepStateEnum_CompensationFailed, SagaStepStateEnum_CompensationSucceeded}"
    and u: "\<And>j. j < length os \<Longrightarrow> Ss_State (os' ! j) = (if j = i then target else Ss_State (os ! j))"
    and l: "length os' = length os"
  shows "coherent (Si_State g) (map Ss_State os')"
proof -
  note A = at_step_facts[OF b a]
  from X show ?thesis
  proof (elim disjE conjE)
    assume x: "Ss_State st = SagaStepStateEnum_ExecutionRunning" and t: "target \<in> {SagaStepStateEnum_ExecutionRunning,
              SagaStepStateEnum_ExecutionFailed, SagaStepStateEnum_ExecutionSucceeded}"
    have fw: "forward_at (map Ss_State os) i" by (rule current_forward[OF b a]) (simp add: x fwd_active_def)
    show ?thesis
      by (rule coherent_from_forward[OF A(14) fw, where k = i])
         (use fw l u t in \<open>auto simp: forward_at_def fwd_active_def\<close>)
  next
    assume x: "Ss_State st = SagaStepStateEnum_CompensationRunning" and t: "target \<in> {SagaStepStateEnum_CompensationRunning,
              SagaStepStateEnum_CompensationFailed, SagaStepStateEnum_CompensationSucceeded}"
    have bw: "backward_at (map Ss_State os) i" by (rule current_backward[OF b a]) (simp add: x cmp_active_def)
    show ?thesis
      by (rule coherent_from_backward[OF A(14) bw, where k = i])
         (use bw l u t in \<open>auto simp: backward_at_def settled_from_def cmp_active_def\<close>)
  qed
qed

definition running :: "SagaStepInstance \<Rightarrow> bool" where
  "running st = (Ss_State st \<in> {SagaStepStateEnum_ExecutionRunning, SagaStepStateEnum_CompensationRunning})"

lemma running_history:
  assumes "base d g os" "at_step g os i sg st" "running st"
  shows "Ss_ExecutionHistory st \<noteq> []" "Ss_ExecutionHistory (os ! i) \<noteq> []"
    "IsCompensation (last (Ss_ExecutionHistory st)) = (Ss_State st = SagaStepStateEnum_CompensationRunning)"
    "Ss_ExecutionHistory st = Ss_ExecutionHistory (os ! i)"
    "ExecutionResultReceivedTs (last (Ss_ExecutionHistory st)) = 0"
  using at_step_facts[OF assms(1,2)] assms(3) by (auto simp: running_def step_ok_def Let_def fresh_log_def)

lemma timeout_safe:
  assumes a: "at_step g os i sg st" and run: "running st"
    and f: "failed = (if Ss_State st = SagaStepStateEnum_CompensationRunning
              then SagaStepStateEnum_CompensationFailed else SagaStepStateEnum_ExecutionFailed)"
  shows "hvalid (settled g os t sg st) (handleTimeout nowTs failed) (\<lambda>_ _. False) (safe_exit resumes)"
proof (rule s_base)
  fix d assume b: "base d g os"
  note A = at_step_facts[OF b a]
  note H = running_history[OF b a run]
  show "hvalid (settled g os t sg st) (handleTimeout nowTs failed) (\<lambda>_ _. False) (safe_exit resumes)"
    unfolding handleTimeout_def
    apply (rule k_begin, simp)
    subgoal premises p
      apply (rule k_deferred[OF p])
      apply (rule k_set_step)
      apply (rule k_get_step)
      apply (rule k_history[OF p, where j = i], simp add: A, simp add: A, simp)
      apply (rule k_transit_step[OF p, where j = i], simp add: A, simp add: A, simp add: A, simp)
      apply (rule k_commit[OF p])
      subgoal by (rule running_pattern[OF b a, where target = failed]) (use run f A(1) in \<open>auto simp: running_def\<close>)
      subgoal for j
        using H f by (cases "j = i", simp add: step_ok_def Let_def A(1) last_mapLast, simp add: A(16))
      apply simp
      apply (rule k_exit_True[where i = i])
      subgoal using A(1,2,10) f by (simp add: at_step_def agrees_def fresh_log_def)
      done
    done
qed

lemma stamp_safe:
  assumes b: "base d g os" and a: "at_step g os i sg st" and run: "running st"
  shows "hvalid (view d g os t g os sg st) (hPublishAndStamp co msg) (\<lambda>_ _. False) (body_exit d resumes)"
proof -
  note A = at_step_facts[OF b a]
  note H = running_history[OF b a run]
  show ?thesis
    unfolding hPublishAndStamp_def
    apply (rule k_get_saga)
    apply (rule k_get_step)
    apply (rule k_call, simp, simp)
    apply (rule k_world, simp)
    apply (rule k_set_step)
    apply (rule k_get_step)
    apply (rule k_history[OF b, where j = i], simp add: A, simp add: A, simp)
    apply (rule k_commit[OF b])
    subgoal by (rule running_pattern[OF b a, where target = "Ss_State st"]) (use run A(8) in \<open>auto simp: running_def\<close>)
    subgoal for x nowTs j
      using H A(13) by (cases "j = i", simp add: step_ok_def Let_def A(1) last_mapLast, simp add: A(16))
    apply simp
    apply (rule k_exit)
    apply (simp add: settled_idle)
    done
qed

lemma message_safe:
  assumes "\<And>msg. hvalid (view d g os t g' os' sg st) (k msg) Q E"
  shows "hvalid (view d g os t g' os' sg st) (hbind (hStepRequestMessage co ptype body) k) Q E"
  unfolding hStepRequestMessage_def handler_norm
  by (rule k_get_saga, rule k_get_step, (rule k_world, simp)+, rule assms)

lemma execution_running_safe:
  assumes a: "at_step g os i sg st" and X: "Ss_State st = SagaStepStateEnum_ExecutionRunning"
  shows "hvalid (settled g os t sg st) (handleExecutionRunning co) (\<lambda>_ _. False) (safe_exit resumes)"
proof (rule s_base)
  fix d assume b: "base d g os"
  note A = at_step_facts[OF b a]
  have run: "running st" using X by (simp add: running_def)
  note H = running_history[OF b a run]
  show "hvalid (settled g os t sg st) (handleExecutionRunning co) (\<lambda>_ _. False) (safe_exit resumes)"
    unfolding handleExecutionRunning_def Let_def
    apply (rule s_get_step)
    apply (simp only: H(1,5) simp_thms if_False if_True)
    apply (rule s_world, simp)
    apply (rule hvalid_if, rule s_exit, simp add: settled_idle)
    apply (rule hvalid_if, rule timeout_safe[OF a run], simp add: X)
    apply (rule hvalid_if)
    subgoal
      unfolding sendExecutionRequest_def
      apply (rule k_begin, simp)
      subgoal premises p
        apply (rule k_deferred[OF p(4)])
        apply (rule k_get_saga)
        apply (rule k_get_step)
        apply (rule k_list_order[OF p(4) A(2)], simp)
        subgoal premises q
          apply (simp only: getPreviousStepsInOrder_def q option.map option.case)
          apply (cases "collectPreviousResults (takeWhile (\<lambda>s. Ss_InstanceId s \<noteq> Ss_InstanceId st) os) (Si_Input sg)")
           apply (simp only: option.case)
           apply (rule k_exit, simp add: view_tx)
          apply (simp only: option.case)
          apply (rule message_safe)
          apply (rule stamp_safe[OF p(4) a run])
          done
        done
      done
    apply (rule s_exit, simp add: settled_idle)
    done
qed

section \<open>EXECUTION\_SUCCEEDED\<close>

lemma execution_succeeded_safe:
  assumes a: "at_step g os i sg st" and X: "Ss_State st = SagaStepStateEnum_ExecutionSucceeded"
  shows "hvalid (settled g os t sg st) handleExecutionSucceeded (\<lambda>_ _. False) (safe_exit resumes)"
  unfolding handleExecutionSucceeded_def
  apply (rule k_begin, simp)
  subgoal premises p for d
  proof (rule k_deferred[OF p])
    note A = at_step_facts[OF p a]
    have fw: "forward_at (map Ss_State os) i" by (rule current_forward[OF p a]) (simp add: X fwd_active_def)
    have last: "\<not> (\<exists>j < length os. j \<noteq> i \<and> Ss_State (os ! j) \<noteq> SagaStepStateEnum_ExecutionDone)" if "Suc i = length os"
      using fw by (auto simp: forward_at_def that[symmetric] less_Suc_eq)
    show "hvalid (view d g os t g os sg st) executionSucceededBody (\<lambda>_ _. False) (body_exit d resumes)"
      unfolding executionSucceededBody_def
      apply (rule k_get_step)
      apply (rule k_ordered[OF p A(2)], simp)
      apply (simp only: A(11) option.case)
      apply (rule k_transit_step[OF p, where j = i], simp add: A, simp add: A, simp add: A, simp)
      apply (cases "Suc i < length os")
      subgoal premises c
      proof -
        have n: "Ss_State (os ! Suc i) = SagaStepStateEnum_ExecutionPending" "Suc i \<noteq> length os"
          using fw c by (auto simp: forward_at_def)
        have h: "Ss_ExecutionHistory (os ! Suc i) = []" by (rule pending_history[OF A(16)[OF c] n(1)])
        show ?thesis
          apply (simp only: c n simp_thms if_True if_False handler_norm)
          apply (rule k_transit_other[OF p, where j = "Suc i"], simp add: c, simp add: c, simp add: A c, simp)
          apply (rule k_commit[OF p])
          subgoal
            by (rule coherent_from_forward[OF A(14) fw, where k = "Suc i"])
               (use fw c in \<open>auto simp: forward_at_def fwd_active_def less_Suc_eq\<close>)
          subgoal for j
            by (cases "j = Suc i", simp add: step_ok_def Let_def c h, cases "j = i",
                simp add: step_ok_def Let_def A(1), simp add: A(16))
          apply simp
          apply (rule k_exit, simp add: settled_idle)
          done
      qed
      subgoal premises c
      proof -
        have n: "Suc i = length os" using c A(1) by simp
        show ?thesis
          apply (simp only: less_irrefl last[OF n] n simp_thms if_True if_False handler_norm)
          apply (rule k_get_step)
          apply (rule hvalid_if, simp)
          apply (rule k_transit_saga[OF p A(2)], simp)
          apply (rule k_commit[OF p])
          subgoal
            using fw by (auto simp: all_done_def in_set_conv_nth forward_at_def n[symmetric] less_Suc_eq)
          subgoal for j
            by (cases "j = i", simp add: step_ok_def Let_def A(1), simp add: A(16))
          apply simp
          apply (rule k_exit, simp add: settled_idle)
          done
      qed
      done
  qed
  done

section \<open>EXECUTION\_FAILED\<close>

text \<open>A loop of transitions over the steps at the positions js.\<close>
lemma foreach_transit:
  assumes b: "base d g os" and c: "Si_ClusterId sg = Si_ClusterId g"
    and F: "\<And>j. j \<in> set js \<Longrightarrow> F (os ! j) = hbind (hTransitOther (os ! j) target onErr) (\<lambda>_. hreturn ())"
    and E: "\<And>s. w_tx (h_w s) = Some d \<Longrightarrow> E onErr s"
  shows "distinct js \<Longrightarrow> (\<And>j. j \<in> set js \<Longrightarrow> j < length os) \<Longrightarrow>
    length os' = length os \<Longrightarrow> (\<And>j. j < length os \<Longrightarrow> step_key (os' ! j) = step_key (os ! j)) \<Longrightarrow>
    hvalid (view d g os t g' (upd_at (set js) (setState target t) os') sg st) (k ()) Q E \<Longrightarrow>
    hvalid (view d g os t g' os' sg st) (hbind (hforeach F (map ((!) os) js)) k) Q E"
using F proof (induction js arbitrary: os')
  case Nil
  then show ?case by (simp add: handler_norm)
next
  case (Cons j js)
  have j: "j < length os" using Cons.prems(2) by simp
  have cl: "Ss_ClusterId (os ! j) = Si_ClusterId g" using base_facts(5)[OF b, of "os ! j"] j by simp
  have Fj: "F (os ! j) = hbind (hTransitOther (os ! j) target onErr) (\<lambda>_. hreturn ())"
    using Cons.prems(6) by simp
  have k': "hvalid (view d g os t g' (upd_at (set js) (setState target t) (upd_at {j} (setState target t) os')) sg st) (k ()) Q E"
    using Cons.prems(1,5) by (simp add: upd_at_insert)
  have rest: "hvalid (view d g os t g' (upd_at {j} (setState target t) os') sg st)
      (hbind (hforeach F (map ((!) os) js)) k) Q E"
    by (rule Cons.IH[OF _ _ _ _ k']) (use Cons.prems in auto)
  have key: "step_key (os ! j) = step_key (os' ! j)" using Cons.prems(4)[OF j] by simp
  show ?case
    unfolding list.map hforeach.simps handler_norm Fj
    by (rule k_transit_other[OF b _ key _ E rest]) (use Cons.prems(3) j c cl in auto)
qed

lemma drop_as_map: "drop n xs = map ((!) xs) [n..<length xs]"
  by (intro nth_equalityI) auto

lemma take_as_map: "i \<le> length xs \<Longrightarrow> take i xs = map ((!) xs) [0..<i]"
  by (intro nth_equalityI) auto

lemma butlast_as_map: "butlast xs = map ((!) xs) [0..<length xs - 1]"
  by (intro nth_equalityI) (auto simp: nth_butlast)

lemma execution_failed_safe:
  assumes a: "at_step g os i sg st" and X: "Ss_State st = SagaStepStateEnum_ExecutionFailed"
  shows "hvalid (settled g os t sg st) handleExecutionFailed (\<lambda>_ _. False) (safe_exit resumes)"
  unfolding handleExecutionFailed_def
  apply (rule k_begin, simp)
  subgoal premises p for d
  proof (rule k_deferred[OF p])
    note A = at_step_facts[OF p a]
    have fw: "forward_at (map Ss_State os) i" by (rule current_forward[OF p a]) (simp add: X fwd_active_def)
    have i: "i \<le> length os" using A(1) by simp
    have F1: "abortNextStep (os ! j) = hbind (hTransitOther (os ! j) SagaStepStateEnum_ExecutionAborted (Abandon False False)) (\<lambda>_. hreturn ())"
      if "j \<in> set [Suc i..<length os]" for j
      using fw that by (auto simp: abortNextStep_def forward_at_def)
    have F2: "pendPreviousStep (os ! j) = hbind (hTransitOther (os ! j) SagaStepStateEnum_CompensationPending (Abandon False False)) (\<lambda>_. hreturn ())"
      if "j \<in> set [0..<i]" for j
      using fw that by (auto simp: pendPreviousStep_def forward_at_def)
    show "hvalid (view d g os t g os sg st) executionFailedBody (\<lambda>_ _. False) (body_exit d resumes)"
      unfolding executionFailedBody_def
      apply (rule k_get_step)
      apply (rule k_ordered[OF p A(2)], simp)
      apply (simp only: A(11) option.case drop_as_map take_as_map[OF i])
      apply (rule k_set_saga)
      apply (rule k_get_saga)
      apply (rule k_update_saga[OF p], simp add: A, simp)
      apply (rule foreach_transit[OF p _ F1], simp add: A, assumption, simp, simp, simp, simp, simp)
      apply (rule foreach_transit[OF p _ F2], simp add: A, assumption, simp, simp, insert A(1), simp, simp, simp)
      apply (rule k_transit_step[OF p, where j = i], simp add: A, simp add: A, simp add: A, simp)
      apply (rule k_commit[OF p])
      subgoal
        by (rule coherent_from_forward[where ss = "map Ss_State os" and i = i and k = i])
           (use A(1,10,14) fw in \<open>auto simp: forward_at_def backward_at_def settled_from_def cmp_active_def\<close>)
      subgoal for j
        using fw pending_history[OF A(16), of j]
        by (cases "j < i", simp add: step_ok_def Let_def A(1), cases "j = i", simp add: step_ok_def Let_def A(1),
            simp add: step_ok_def Let_def forward_at_def)
      apply simp
      apply (rule k_exit_True[where i = i])
      subgoal using A(1,2,10) by (simp add: at_step_def agrees_def fresh_log_def)
      done
  qed
  done

section \<open>COMPENSATION\_CANDIDATE\<close>

lemma exec_any:
  "db_exec upd w = (r, w1) \<Longrightarrow> w_tx w1 = w_tx w \<and> w_dbtime w1 = w_dbtime w \<and>
     (w_db w1 = w_db w \<or> w_db w1 = upd (w_db w)) \<and> (\<forall>x. r = Inr x \<longrightarrow> w_db w1 = upd (w_db w))"
  by (auto simp: db_exec_def next_fault_def split: if_splits prod.splits list.splits fault.splits)

definition requestIfCommitted :: "int \<Rightarrow> SagaInstance \<Rightarrow> SagaInstance" where
  "requestIfCommitted t r = (if Si_State r = SagaStateEnum_Committed
      then r\<lparr>Si_State := SagaStateEnum_CompensationRequested, Si_UpdatedAt := t\<rparr> else r)"

lemma trigger_world:
  assumes "TriggerSagaCompensation c i w = (r, w1)"
  shows "w_tx w1 = w_tx w \<and> w_dbtime w1 = w_dbtime w \<and>
    (w_db w1 = w_db w \<or> w_db w1 = update_saga_rows c i (requestIfCommitted (w_dbtime w)) (w_db w))"
proof -
  obtain x w2 where e: "db_exec (update_saga_rows c i (requestIfCommitted (w_dbtime w))) w = (x, w2)" by fastforce
  have "w1 = w2" using assms e
    by (auto simp: TriggerSagaCompensation_def requestIfCommitted_def[abs_def] Let_def split: sum.splits if_splits)
  with exec_any[OF e] show ?thesis by auto
qed

lemma requestIfCommitted_inv:
  assumes "db_inv G S" shows "db_inv (map (saga_at_key c i (requestIfCommitted t)) G) S"
  by (rule db_inv_saga_update[OF assms]) (auto simp: framed_saga_def saga_at_key_def requestIfCommitted_def)

lemma trigger_settled:
  assumes s: "settled g os t sg st s" and n: "Si_State g \<noteq> SagaStateEnum_Committed"
    and r: "TriggerSagaCompensation c i (h_w s) = (r, w1)"
  shows "settled g os t sg st (s\<lparr>h_w := w1\<rparr>)"
proof -
  let ?h = "saga_at_key c i (requestIfCommitted (w_dbtime (h_w s)))"
  have b: "base (w_db (h_w s)) g os" using s by (simp add: settled_def)
  have "?h g = g" using n by (simp add: saga_at_key_def requestIfCommitted_def)
  with b have "g \<in> ?h ` set (db_sagas (w_db (h_w s)))" unfolding base_def by (metis rev_image_eqI)
  with b have "base (update_saga_rows c i (requestIfCommitted (w_dbtime (h_w s))) (w_db (h_w s))) g os"
    by (simp add: base_def update_saga_rows_alt requestIfCommitted_inv)
  with b trigger_world[OF r] s show ?thesis by (auto simp: settled_def)
qed

lemma scan_children_safe:
  assumes n: "Si_State g \<noteq> SagaStateEnum_Committed"
  shows "hvalid (settled g os t sg st) (scanChildSagas sid cs) (\<lambda>_. settled g os t sg st) E"
proof (induction cs)
  case (Cons c cs)
  have t: "hvalid (settled g os t sg st) (htry (TriggerSagaCompensation a b)) (\<lambda>_. settled g os t sg st) E" for a b
    using trigger_settled[OF _ n] by (auto simp: hvalid_def htry_def split: prod.splits)
  have r: "hvalid (settled g os t sg st) (hbind (scanChildSagas sid cs) (\<lambda>_. hreturn True)) (\<lambda>_. settled g os t sg st) E"
    by (rule k_bind[OF Cons hvalid_hreturn])
  show ?case
    using k_bind[OF t r] r Cons by (auto split: SagaStateEnum.split)
qed (simp add: hvalid_hreturn)

lemma compensation_candidate_safe:
  assumes a: "at_step g os i sg st" and X: "Ss_State st = SagaStepStateEnum_CompensationCandidate"
  shows "hvalid (settled g os t sg st) handleCompensationCandidate (\<lambda>_ _. False) (safe_exit resumes)"
proof (rule s_base)
  fix d assume b: "base d g os"
  note A = at_step_facts[OF b a]
  have bw: "backward_at (map Ss_State os) i" by (rule current_backward[OF b a]) (simp add: X cmp_active_def)
  have prev: "\<not> (0 < i \<and> Ss_State (os ! (i - 1)) \<noteq> SagaStepStateEnum_CompensationPending)"
    using bw by (cases i; auto simp: backward_at_def)
  have after: "\<not> \<not> list_all settledAfter (drop (Suc i) os)"
    unfolding not_not list_all_length settledAfter_def
  proof (intro allI impI)
    fix n assume n: "n < length (drop (Suc i) os)"
    then show "Ss_State (drop (Suc i) os ! n) = SagaStepStateEnum_ExecutionAborted \<or>
        Ss_State (drop (Suc i) os ! n) = SagaStepStateEnum_CompensationDone"
      using bw settled_nth[of "map Ss_State os" "Suc i" "Suc i + n"] by (auto simp: backward_at_def)
  qed
  have nc: "Si_State g \<noteq> SagaStateEnum_Committed"
    using A(14) backward_exclusive(1)[OF bw] by (cases "Si_State g") auto
  show "hvalid (settled g os t sg st) handleCompensationCandidate (\<lambda>_ _. False) (safe_exit resumes)"
    unfolding handleCompensationCandidate_def Let_def
    apply (rule s_get_step)
    apply (rule s_get_saga)
    apply (rule s_ordered[OF A(2)], simp)
    apply (simp only: A(11) option.case prev after if_False)
    apply (rule s_call, simp, simp)
    apply (rule k_bind[OF scan_children_safe[OF nc]])
    apply (rule hvalid_if, rule s_exit, simp add: settled_idle)
    apply (rule s_world, simp)
    apply (rule k_begin, simp)
    subgoal premises p for _ _ now
      apply (rule rb_transit[OF p(2), where j = i], simp add: A, simp add: A, simp add: A, simp)
      apply (rule k_set_step)
      apply (rule k_get_step)
      apply (rule rb_history[OF p(2), where j = i], simp add: A, simp add: A, simp)
      apply (rule k_commit[OF p(2)])
      subgoal
        by (rule coherent_from_backward[OF A(14) bw, where k = i])
           (use bw in \<open>auto simp: backward_at_def settled_from_def cmp_active_def\<close>)
      subgoal for j
        by (cases "j = i", simp add: step_ok_def Let_def newExecutionLog_def A(1), simp add: A(16))
      apply simp
      apply (rule k_exit_True[where i = i])
      subgoal using A(1,2,10) by (simp add: at_step_def agrees_def fresh_log_def newExecutionLog_def)
      done
    done
qed

section \<open>COMPENSATION\_RUNNING\<close>

lemma k_try_list:
  assumes b: "base d g os" and key: "saga_key sg = saga_key g"
    and err: "\<And>e. hvalid (view d g os t g' os' sg st) (k (Inl e)) Q E"
    and ok: "\<And>rs. OrderSagaStepsInSequence rs = Some os' \<Longrightarrow> hvalid (view d g os t g' os' sg st) (k (Inr rs)) Q E"
  shows "hvalid (view d g os t g' os' sg st)
     (hbind (htry (ListSagaStepInstancesBySagaInstanceId (Si_ClusterId sg) (Si_InstanceId sg))) k) Q E"
proof (rule hvalidI)
  fix s assume v: "view d g os t g' os' sg st s"
  let ?op = "ListSagaStepInstancesBySagaInstanceId (Si_ClusterId sg) (Si_InstanceId sg)"
  obtain r w1 where r: "?op (h_w s) = (r, w1)" by fastforce
  have v1: "view d g os t g' os' sg st (s\<lparr>h_w := w1\<rparr>)"
    using view_neutral[OF neutral_getters(3) v, of "Si_ClusterId sg" "Si_InstanceId sg"] r by simp
  have "hvalid (view d g os t g' os' sg st) (k r) Q E"
  proof (cases r)
    case (Inr rs)
    then have "OrderSagaStepsInSequence rs = Some os'"
      using inview_rows[OF b view_w[OF v]] getters_read(3) r key by auto
    with ok Inr show ?thesis by simp
  qed (use err in simp)
  then show "case hbind (htry ?op) k s of (Inl e, s1) \<Rightarrow> E e s1 | (Inr x, s1) \<Rightarrow> Q x s1"
    using r v1 by (simp add: hbind_def htry_def hvalid_def)
qed

lemma compensation_running_safe:
  assumes a: "at_step g os i sg st" and X: "Ss_State st = SagaStepStateEnum_CompensationRunning"
  shows "hvalid (settled g os t sg st) (handleCompensationRunning co) (\<lambda>_ _. False) (safe_exit resumes)"
proof (rule s_base)
  fix d assume b: "base d g os"
  note A = at_step_facts[OF b a]
  have run: "running st" using X by (simp add: running_def)
  note H = running_history[OF b a run]
  have ic: "\<not> \<not> IsCompensation (last (Ss_ExecutionHistory st))" using H(3) X by simp
  show "hvalid (settled g os t sg st) (handleCompensationRunning co) (\<lambda>_ _. False) (safe_exit resumes)"
    unfolding handleCompensationRunning_def Let_def
    apply (rule s_get_step)
    apply (simp only: H(1,5) ic simp_thms if_False if_True)
    apply (rule s_world, simp)
    apply (rule hvalid_if, rule s_exit, simp add: settled_idle)
    apply (rule hvalid_if, rule timeout_safe[OF a run], simp add: X)
    apply (rule hvalid_if)
    subgoal
      unfolding sendCompensationRequest_def
      apply (rule k_begin, simp)
      subgoal premises p
        apply (rule k_deferred[OF p(4)])
        apply (rule k_get_saga)
        apply (rule k_get_step)
        apply (rule k_try_list[OF p(4) A(2)])
        subgoal
          apply (simp only: sum.case handler_norm)
          apply (rule message_safe)
          apply (rule stamp_safe[OF p(4) a run])
          done
        apply (simp only: sum.case handler_norm)
        apply (rule k_order, assumption)
        apply (rule message_safe)
        apply (rule stamp_safe[OF p(4) a run])
        done
      done
    apply (rule s_exit, simp add: settled_idle)
    done
qed

section \<open>COMPENSATION\_SUCCEEDED\<close>

lemma compensatedPattern_settled:
  "compensatedPattern False (replicate m SagaStepStateEnum_CompensationDone @ replicate k SagaStepStateEnum_ExecutionAborted)"
proof (induction m)
  case 0
  have "compensatedPattern b (replicate k SagaStepStateEnum_ExecutionAborted)" for b
    by (induction k arbitrary: b) auto
  then show ?case by simp
qed simp

lemma settled_extend:
  assumes "settled_from ss (Suc i)" "length ss' = length ss" "ss' ! i = SagaStepStateEnum_CompensationDone"
    "\<And>j. i < j \<Longrightarrow> j < length ss \<Longrightarrow> ss' ! j = ss ! j"
  shows "settled_from ss' i"
proof -
  obtain k where k: "k \<ge> Suc i" "\<forall>j < length ss. Suc i \<le> j \<longrightarrow>
     ss ! j = (if j < k then SagaStepStateEnum_CompensationDone else SagaStepStateEnum_ExecutionAborted)"
    using assms(1) by (auto simp: settled_from_def)
  have "ss' ! j = (if j < k then SagaStepStateEnum_CompensationDone else SagaStepStateEnum_ExecutionAborted)"
    if "j < length ss'" "i \<le> j" for j
    using that k assms by (cases "j = i") auto
  then show ?thesis using k(1) unfolding settled_from_def by (intro exI[of _ k]) auto
qed

lemma compensated_from_backward:
  assumes "backward_at ss 0" "length ss' = length ss" "ss' ! 0 = SagaStepStateEnum_CompensationDone"
    "\<And>j. 0 < j \<Longrightarrow> j < length ss \<Longrightarrow> ss' ! j = ss ! j"
  shows "compensated ss'"
proof -
  have "ss' \<noteq> []" using assms(1,2) by (auto simp: backward_at_def)
  moreover have "settled_from ss' 0" by (rule settled_extend[of ss]) (use assms in \<open>auto simp: backward_at_def\<close>)
  ultimately show ?thesis using assms(3) by (simp add: compensated_def hd_conv_nth)
qed

lemma compensation_succeeded_safe:
  assumes a: "at_step g os i sg st" and X: "Ss_State st = SagaStepStateEnum_CompensationSucceeded"
  shows "hvalid (settled g os t sg st) handleCompensationSucceeded (\<lambda>_ _. False) (safe_exit resumes)"
  unfolding handleCompensationSucceeded_def
  apply (rule k_begin, simp)
  subgoal premises p for d
  proof (rule k_deferred[OF p])
    note A = at_step_facts[OF p a]
    have bw: "backward_at (map Ss_State os) i" by (rule current_backward[OF p a]) (simp add: X cmp_active_def)
    show "hvalid (view d g os t g os sg st) compensationSucceededBody (\<lambda>_ _. False) (body_exit d resumes)"
      unfolding compensationSucceededBody_def
      apply (rule k_get_step)
      apply (rule k_ordered[OF p A(2)], simp)
      apply (simp only: A(11) option.case)
      apply (cases i)
      subgoal premises c
      proof -
        obtain m k where mk: "drop (Suc 0) (map Ss_State os) =
            replicate m SagaStepStateEnum_CompensationDone @ replicate k SagaStepStateEnum_ExecutionAborted"
          using bw settled_decompose c unfolding backward_at_def by blast
        have pat: "compensatedPattern False (map Ss_State (os[0 := setState SagaStepStateEnum_CompensationDone t (os ! 0)]))"
        proof -
          have "map Ss_State (os[0 := setState SagaStepStateEnum_CompensationDone t (os ! 0)]) =
              SagaStepStateEnum_CompensationDone # drop (Suc 0) (map Ss_State os)"
            using A(1) by (cases os) auto
          then show ?thesis using compensatedPattern_settled[of "Suc m" k] mk by simp
        qed
        show ?thesis
          apply (simp only: c less_irrefl simp_thms if_True if_False handler_norm)
          apply (rule k_transit_step[OF p, where j = 0], use A c in simp, use A c in simp, simp add: A, simp)
          apply (rule k_get_step)
          apply (simp only: pat simp_thms if_True if_False)
          apply (rule hvalid_if, simp)
          apply (simp only: pat simp_thms if_True if_False)
          apply (rule k_transit_saga[OF p A(2)], simp)
          apply (rule k_commit[OF p])
          subgoal
            unfolding Si_State_set coherent.simps
            by (rule disjI1, rule compensated_from_backward[of "map Ss_State os"]) (use bw c A(1) in auto)
          subgoal for j
            by (cases "j = 0", use A(1) in \<open>simp add: step_ok_def Let_def\<close>, simp add: A(16))
          apply simp
          apply (rule k_exit_True[where i = 0])
          subgoal using A(1,2,10) c by (simp add: at_step_def agrees_def fresh_log_def)
          done
      qed
      subgoal premises c for m
      proof -
        have m: "0 < i" "i - 1 < length os" "m = i - 1" "i \<noteq> 0" using c A(1) by auto
        have prev: "Ss_State (os ! (i - 1)) = SagaStepStateEnum_CompensationPending"
          using bw m(1) by (auto simp: backward_at_def)
        show ?thesis
          apply (simp only: m(1,4) prev simp_thms if_True if_False handler_norm)
          apply (rule k_transit_other[OF p, where j = "i - 1"], simp add: m(2)[simplified], simp, use A m in simp, simp)
          apply (rule k_transit_step[OF p, where j = i], use A m in simp, use A m in simp, simp add: A, simp)
          apply (rule k_get_step)
          apply (rule k_commit[OF p])
          subgoal
          proof (rule coherent_from_backward[OF A(14) bw, where k = "i - 1"])
            show "backward_at (map Ss_State (upd_at {i} (setState SagaStepStateEnum_CompensationDone t)
               (upd_at {i - 1} (setState SagaStepStateEnum_CompensationCandidate t) os))) (i - 1)" (is "backward_at ?ss _")
              unfolding backward_at_def
            proof (intro conjI)
              have "settled_from ?ss i"
                by (rule settled_extend[of "map Ss_State os"]) (use bw A(1) m(1) in \<open>auto simp: backward_at_def\<close>)
              then show "settled_from ?ss (Suc (i - 1))" using m by simp
            qed (use bw m A(1) in \<open>auto simp: backward_at_def cmp_active_def\<close>)
          qed
          subgoal for j
            by (cases "j = i", use A(1) m in \<open>simp add: step_ok_def Let_def\<close>, cases "j = i - 1",
                use m(2) in \<open>simp add: step_ok_def Let_def\<close>, simp add: A(16))
          apply simp
          apply (rule k_exit_True[where i = i])
          subgoal using A(1,2,10) by (simp add: at_step_def agrees_def fresh_log_def)
          done
      qed
      done
  qed
  done

section \<open>COMPENSATION\_FAILED\<close>

lemma compensation_failed_safe:
  assumes a: "at_step g os i sg st" and X: "Ss_State st = SagaStepStateEnum_CompensationFailed"
  shows "hvalid (settled g os t sg st) handleCompensationFailed (\<lambda>_ _. False) (safe_exit resumes)"
  unfolding handleCompensationFailed_def
  apply (rule k_begin, simp)
  subgoal premises p for d
  proof (rule k_deferred[OF p])
    note A = at_step_facts[OF p a]
    have bw: "backward_at (map Ss_State os) i" by (rule current_backward[OF p a]) (simp add: X cmp_active_def)
    have h: "Ss_ExecutionHistory (os ! i) \<noteq> []" "IsCompensation (last (Ss_ExecutionHistory (os ! i)))"
      using A(8,13) X by (auto simp: step_ok_def Let_def)
    show "hvalid (view d g os t g os sg st)
       (hbind (hTransitStep SagaStepStateEnum_CompensationBlocked (Abandon False False)) (\<lambda>_.
        hbind (hTransitSaga SagaStateEnum_Blocked (Abandon False False)) (\<lambda>_.
        hbind (hcall CommitTransaction (\<lambda>_. Abandon False False)) (\<lambda>_.
        hexit (Return False))))) (\<lambda>_ _. False) (body_exit d resumes)"
      apply (rule k_transit_step[OF p, where j = i], simp add: A, simp add: A, simp add: A, simp)
      apply (rule k_transit_saga[OF p A(2)], simp)
      apply (rule k_commit[OF p])
      subgoal
        unfolding Si_State_set coherent.simps
        by (rule exI[of _ i]) (use bw in \<open>auto simp: backward_at_def settled_from_def cmp_active_def\<close>)
      subgoal for j
        by (cases "j = i", simp add: step_ok_def Let_def A(1) h, simp add: A(16))
      apply simp
      apply (rule k_exit, simp add: settled_idle)
      done
  qed
  done

section \<open>The switch\<close>

lemma s_invalidate:
  assumes "\<And>s. R r s"
  shows "hvalid (\<lambda>s. idle (h_w s)) (hInvalidateAndReturn r) (\<lambda>_ _. False) (safe_exit R)"
proof (rule hvalidI)
  fix s :: hstate assume i: "idle (h_w s)"
  obtain out sg w1 where r: "transitSagaToState (h_saga s) SagaStateEnum_InvalidState (h_w s) = (out, sg, w1)"
    by (metis prod_cases3)
  have "idle w1" "\<forall>m. out \<noteq> TPanic m" using invalidate_inv[OF _ r] i by (auto simp: idle_def)
  then show "case hInvalidateAndReturn r s of (Inl e, s1) \<Rightarrow> safe_exit R e s1 | (Inr x, s1) \<Rightarrow> False"
    using r assms by (cases out) (auto simp: hInvalidateAndReturn_def hbind_def hTransitSaga_def hexit_def)
qed

text \<open>One call of the state machine, under any pattern of failures: it never panics and never hangs, it
  leaves no transaction open, the rows satisfy the invariant, and when it asks to be called again its
  objects agree with the rows.\<close>
lemma processSagaStep_safe:
  "hvalid resumable (processSagaStep co) (\<lambda>_ _. False) (safe_exit resumes)"
  unfolding resumable_def
proof (intro hvalid_ex)
  fix g os t i sg st
  have c: "hvalid (settled g os t sg st) (processSagaStep co) (\<lambda>_ _. False) (safe_exit resumes)"
    if a: "at_step g os i sg st"
  proof -
    have x: "hvalid (settled g os t sg st) (hexit (Return False)) (\<lambda>_ _. False) (safe_exit resumes)"
      by (rule s_exit) (simp add: settled_idle)
    have v: "hvalid (settled g os t sg st) (hInvalidateAndReturn False) (\<lambda>_ _. False) (safe_exit resumes)"
      by (rule hvalid_pre[OF s_invalidate]) (auto intro: settled_idle)
    show ?thesis
      unfolding processSagaStep_def
      apply (rule s_get_step)
      apply (cases "Ss_State st")
      apply (simp_all only: SagaStepStateEnum.case x v candidate_safe[OF a] execution_running_safe[OF a]
        execution_succeeded_safe[OF a] execution_failed_safe[OF a] compensation_candidate_safe[OF a]
        compensation_running_safe[OF a] compensation_succeeded_safe[OF a] compensation_failed_safe[OF a])
      done
  qed
  show "hvalid (\<lambda>s. settled g os t sg st s \<and> at_step g os i sg st) (processSagaStep co) (\<lambda>_ _. False) (safe_exit resumes)"
    using c by (auto simp: hvalid_def)
qed

end
