(* ===== verification/Saga_Safety.thy ===== *)
theory Saga_Safety
  imports Handler_Safety
begin

text \<open>
  The database invariant across the coordinator's entry points: the poller's worker, immediate
  processing, execution results and the operator's requests.  None of them panics or hangs, whatever
  fails.
\<close>

section \<open>Processing a step under the mutex\<close>

lemma processLoop_safe:
  "resumable s \<Longrightarrow> processLoop n co s = (r, s1) \<Longrightarrow> r = None \<and> idle (h_w s1)"
proof (induction n arbitrary: s)
  case 0
  then show ?case by (auto simp: resumable_def settled_idle)
next
  case (Suc n)
  obtain x s2 where x: "processSagaStep co s = (x, s2)" by fastforce
  show ?case
  proof (cases x)
    case (Inl e)
    have e: "safe_exit resumes e s2"
      using hvalidD_exit[OF processSagaStep_safe Suc.prems(1)] x Inl by simp
    then obtain b where b: "e = Return b" "idle (h_w s2)" "resumes b s2"
      by (cases e) auto
    then show ?thesis using Suc x Inl by (cases b) (auto simp: resumes_def)
  next
    case (Inr u)
    then show ?thesis using hvalidD_val[OF processSagaStep_safe Suc.prems(1)] x by blast
  qed
qed

lemma find_someD: "find P xs = Some x \<Longrightarrow> x \<in> set xs \<and> P x"
  by (auto simp: find_Some_iff)

lemma idle_base:
  assumes "idle w" "g \<in> set (db_sagas (w_db w))"
  shows "\<exists>os. base (w_db w) g os"
  using assms by (auto simp: idle_def base_def db_inv_def saga_wf_def)

lemma base_member:
  assumes b: "base d g os" and r: "r \<in> set (db_steps d)" "Ss_ClusterId r = Si_ClusterId g" "Ss_SagaInstanceId r = Si_InstanceId g"
  shows "\<exists>i < length os. r = os ! i"
proof -
  have "r \<in> set os" using r mset_eq_setD[OF base_facts(3)[OF b]] by (auto simp: saga_rows_def)
  then show ?thesis by (metis in_set_conv_nth)
qed

lemma refresh_safe:
  assumes i: "idle w" and r: "refreshSagaAndStep c gid sid w = (x, w1)"
  shows "idle w1 \<and> (\<forall>g st. x = Some (g, st) \<longrightarrow> (\<exists>os j. base (w_db w1) g os \<and> j < length os \<and> st = os ! j))"
proof -
  obtain r1 v1 where g1: "GetSagaInstance c gid w = (r1, v1)" by fastforce
  note n1 = neutralD[OF neutral_getters(1) g1]
  have i1: "idle v1" using i n1 by (simp add: idle_def)
  show ?thesis
  proof (cases r1)
    case (Inl e)
    then show ?thesis using r g1 i1 by (simp add: refreshSagaAndStep_def)
  next
    case (Inr g)
    obtain r2 v2 where g2: "ListSagaStepInstancesBySagaInstanceId c gid v1 = (r2, v2)" by fastforce
    note n2 = neutralD[OF neutral_getters(3) g2]
    have i2: "idle v2" using i1 n2 by (simp add: idle_def)
    show ?thesis
    proof (cases r2)
      case (Inl e)
      then show ?thesis using r g1 g2 Inr i2 by (simp add: refreshSagaAndStep_def)
    next
      case (Inr rs)
      have g: "g \<in> set (db_sagas (w_db v2))" "Si_ClusterId g = c" "Si_InstanceId g = gid"
        using getters_read(1)[of c gid w g v1] g1 \<open>r1 = Inr g\<close> n1 n2
        by (auto simp: find_saga_def dest: find_someD)
      obtain os where os: "base (w_db v2) g os" using idle_base[OF i2 g(1)] by blast
      have rs: "rs = saga_steps c gid (w_db v2)"
        using getters_read(3)[of c gid v1 rs v2] g2 Inr n2 by (simp add: saga_steps_def)
      have m: "\<exists>j < length os. st = os ! j" if "find (\<lambda>s. Ss_InstanceId s = sid) rs = Some st" for st
        by (rule base_member[OF os]) (use find_someD[OF that] rs g in \<open>auto simp: saga_steps_def\<close>)
      have "x = map_option (Pair g) (find (\<lambda>s. Ss_InstanceId s = sid) rs) \<and> w1 = v2"
        using r g1 g2 Inr \<open>r1 = Inr g\<close> by (simp add: refreshSagaAndStep_def)
      then show ?thesis using i2 os m by fastforce
    qed
  qed
qed

lemma base_at_step:
  assumes "base d g os" "j < length os" "\<not> running (os ! j)"
  shows "at_step g os j g (os ! j)"
  using assms by (auto simp: at_step_def agrees_def fresh_log_def running_def)

lemma isSagaStateValid_returns:
  assumes b: "base (w_db w) g os" and r: "isSagaStateValid g st w = (v, w1)"
  shows "v \<noteq> None \<and> w_tx w1 = w_tx w \<and> w_dbtime w1 = w_dbtime w \<and>
    db_steps (w_db w1) = db_steps (w_db w) \<and> db_sagas (w_db w1) = db_sagas (w_db w)"
proof -
  obtain r1 v1 where g1: "ListSagaStepInstancesBySagaInstanceId (Si_ClusterId g) (Si_InstanceId g) w = (r1, v1)" by fastforce
  note n1 = neutralD[OF neutral_getters(3) g1]
  show ?thesis
  proof (cases r1)
    case (Inr rs)
    have "OrderSagaStepsInSequence rs = Some os"
      using getters_read(3) g1 Inr b by (simp add: base_def ordered_def saga_rows_def saga_steps_def)
    then show ?thesis using r g1 Inr n1
      by (auto simp: isSagaStateValid_def Let_def split: if_splits option.splits)
  qed (use r g1 n1 in \<open>auto simp: isSagaStateValid_def\<close>)
qed

lemma validateAndProcess_safe:
  assumes i: "idle w" and b: "base (w_db w) g os" and j: "j < length os" "\<not> running (os ! j)"
    and r: "validateAndProcess co g (os ! j) w = (x, w1)"
  shows "x = None \<and> idle w1"
proof -
  obtain v w2 where v: "isSagaStateValid g (os ! j) w = (v, w2)" by fastforce
  note n = isSagaStateValid_returns[OF b v]
  have i2: "idle w2" using i n by (simp add: idle_def)
  from n obtain ok where ok: "v = Some ok" by auto
  show ?thesis
  proof (cases ok)
    case True
    let ?s = "\<lparr>h_saga = g, h_step = os ! j, h_w = w2\<rparr>"
    have "settled g os (w_dbtime w2) g (os ! j) ?s"
      using n i2 b by (auto simp: settled_def idle_def elim: base_same)
    then have "resumable ?s"
      using base_at_step[OF b j] unfolding resumable_def by blast
    then show ?thesis using r v ok True processLoop_safe[of ?s maxLoopCount co]
      by (auto simp: validateAndProcess_def split: prod.splits)
  next
    case False
    obtain out sg w3 where t: "transitSagaToState g SagaStateEnum_InvalidState w2 = (out, sg, w3)" by (metis prod_cases3)
    have "idle w3" "\<forall>m. out \<noteq> TPanic m" using invalidate_inv[OF _ t] i2 by (auto simp: idle_def)
    then show ?thesis using r v ok False t by (cases out) (auto simp: validateAndProcess_def)
  qed
qed

lemma processStepWithMutex_safe:
  assumes i: "idle w" and r: "processStepWithMutex co c gid sid w = (x, w1)"
  shows "x = None \<and> idle w1"
proof -
  obtain y w2 where y: "refreshSagaAndStep c gid sid w = (y, w2)" by fastforce
  note f = refresh_safe[OF i y]
  show ?thesis
  proof (cases y)
    case None
    then show ?thesis using r y f by (simp add: processStepWithMutex_def)
  next
    case (Some p)
    obtain g st where p: "p = (g, st)" by fastforce
    with f Some obtain os j where o: "base (w_db w2) g os" "j < length os" "st = os ! j" by blast
    show ?thesis
    proof (cases "immediateSkip (Ss_State st)")
      case False
      then have nr: "\<not> running (os ! j)" using o by (simp add: immediateSkip_def running_def)
      show ?thesis
        by (rule validateAndProcess_safe[OF _ o(1,2) nr, of co]) (use r y f Some p o False in \<open>auto simp: processStepWithMutex_def\<close>)
    qed (use r y f Some p in \<open>simp add: processStepWithMutex_def\<close>)
  qed
qed

section \<open>Compensating a committed saga\<close>

abbreviation anyUnit :: "unit \<Rightarrow> hstate \<Rightarrow> bool" where
  "anyUnit \<equiv> \<lambda>_ _. True"

lemma order_nonempty:
  assumes "OrderSagaStepsInSequence ss = Some r" "ss \<noteq> []"
  shows "r \<noteq> []"
proof (cases "find (\<lambda>s. Ss_PreviousSagaStepInstanceId s = '''') ss")
  case None
  then show ?thesis using assms by (simp add: OrderSagaStepsInSequence_def orderWithFuel_def)
next
  case (Some f)
  then have "walkChain (Suc (length ss)) (stepMapOf ss) f = Some r"
    using assms by (simp add: OrderSagaStepsInSequence_def orderWithFuel_def del: walkChain.simps)
  then show ?thesis using walk_more_fuel by blast
qed

lemma k_reason:
  assumes "\<And>R. hvalid (view d g os t g' os' (sg\<lparr>Si_CompensationReason := R\<rparr>) st) (k ()) Q E"
  shows "hvalid (view d g os t g' os' sg st) (hbind setCompensationReason k) Q E"
  unfolding setCompensationReason_def handler_norm
  apply (rule k_get_saga)
  apply (rule hvalid_if)
  subgoal by (rule k_set_saga[where F = "\<lambda>_. _"]) (rule assms)
  subgoal
    apply (rule k_try, simp)
    apply (rule k_set_saga[where F = "\<lambda>_. _"])
    apply (rule assms)
    done
  done

lemma initiate_safe:
  assumes g: "Si_State g = SagaStateEnum_CompensationRequested"
  shows "hvalid (settled g os t g st) initiateCompensationForCommittedSaga (\<lambda>_ _. False) (safe_exit anyUnit)"
proof -
  have inv: "hvalid (settled g os t g st) (hInvalidateAndReturn ()) (\<lambda>_ _. False) (safe_exit anyUnit)"
    by (rule hvalid_pre[OF s_invalidate]) (auto intro: settled_idle)
  have body: "hvalid (view d g os t g os g st) (initiateCompensationBody os) (\<lambda>_ _. False) (body_exit d anyUnit)"
    if b: "base d g os" and ne: "os \<noteq> []" for d
  proof -
    have dn: "Ss_State (os ! j) = SagaStepStateEnum_ExecutionDone" if "j < length os" for j
      using base_facts(4)[OF b] g that all_done_nth[of "map Ss_State os" j] by simp
    have cl: "Ss_ClusterId (os ! j) = Si_ClusterId g" "step_ok (os ! j)" if "j < length os" for j
      using base_facts(5,7)[OF b, of "os ! j"] that by simp_all
    have l: "length os - 1 < length os" using ne by simp
    show ?thesis
      unfolding initiateCompensationBody_def butlast_as_map last_conv_nth[OF ne]
      apply (rule k_reason)
      apply (rule k_transit_other[OF b, where j = "length os - 1"], rule l, simp, use cl l in simp, simp)
      apply (rule foreach_transit[OF b], simp, simp add: pendStep_def, simp, simp, use l in simp, simp, simp)
      apply (rule k_get_saga)
      apply (rule k_update_saga[OF b], simp, simp)
      apply (rule k_commit[OF b])
      subgoal
        unfolding Si_State_set coherent.simps in_flight_def
        by (intro disjI2 exI[of _ "length os - 1"] disjI2)
           (use l in \<open>auto simp: backward_at_def cmp_active_def settled_Nil\<close>)
      subgoal for R j
        using dn[of j] by (cases "j = length os - 1", simp add: step_ok_def Let_def, simp add: step_ok_def Let_def)
      apply simp
      apply (rule k_exit, simp add: settled_idle)
      done
  qed
  show ?thesis
    unfolding initiateCompensationForCommittedSaga_def
    apply (rule s_list_order, simp, simp)
    apply (rule hvalid_if, rule inv)
    apply (rule k_order, assumption)
    apply (rule hvalid_if, rule inv)
    apply (rule k_begin, simp)
    subgoal premises p for allSteps d
      by (rule k_deferred[OF p(4) body[OF p(4) order_nonempty[OF p(1,2)]]])
    done
qed

lemma pollStep_safe:
  assumes i: "idle w" and r: "pollStep co c gid sid w = (x, w1)"
  shows "x = None \<and> idle w1"
proof -
  obtain y w2 where y: "refreshSagaAndStep c gid sid w = (y, w2)" by fastforce
  note f = refresh_safe[OF i y]
  show ?thesis
  proof (cases y)
    case None
    then show ?thesis using r y f by (simp add: pollStep_def)
  next
    case (Some p)
    obtain g st where p: "p = (g, st)" by fastforce
    with f Some obtain os j where o: "base (w_db w2) g os" "j < length os" "st = os ! j" by blast
    show ?thesis
    proof (cases "Si_State g = SagaStateEnum_CompensationRequested")
      case True
      let ?s = "\<lparr>h_saga = g, h_step = st, h_w = w2\<rparr>"
      have "settled g os (w_dbtime w2) g st ?s" using f o by (simp add: settled_def idle_def)
      from hvalidD_exit[OF initiate_safe[OF True] this] hvalidD_val[OF initiate_safe[OF True] this]
      obtain s1 where "initiateCompensationForCommittedSaga ?s = (Inl (Return ()), s1)" "idle (h_w s1)"
        by (cases "initiateCompensationForCommittedSaga ?s"; cases "fst (initiateCompensationForCommittedSaga ?s)")
           (fastforce simp: safe_exit_def split: exit.splits)+
      then show ?thesis using r y Some p True by (simp add: pollStep_def)
    next
      case nr: False
      show ?thesis
      proof (cases "pollSkip (Ss_State st)")
        case False
        then have "\<not> running (os ! j)" using o by (simp add: pollSkip_def running_def)
        from validateAndProcess_safe[OF _ o(1,2) this, of co] show ?thesis
          using r y f Some p o False nr by (auto simp: pollStep_def)
      qed (use r y f Some p nr in \<open>simp add: pollStep_def\<close>)
    qed
  qed
qed

section \<open>Execution results\<close>

abbreviation anyError :: "string option \<Rightarrow> hstate \<Rightarrow> bool" where
  "anyError \<equiv> \<lambda>_ _. True"

lemma k_get_saga_call:
  assumes E: "\<And>e s. w_tx (h_w s) = Some d \<Longrightarrow> E (onErr e) s"
    and k: "\<And>x. Si_ClusterId x = c \<Longrightarrow> hvalid (view d g os t g' os' sg st) (k x) Q E"
  shows "hvalid (view d g os t g' os' sg st) (hbind (hcall (GetSagaInstance c i) onErr) k) Q E"
proof (rule hvalidI)
  fix s assume v: "view d g os t g' os' sg st s"
  obtain r w1 where r: "GetSagaInstance c i (h_w s) = (r, w1)" by fastforce
  have v1: "view d g os t g' os' sg st (s\<lparr>h_w := w1\<rparr>)"
    using view_neutral[OF neutral_getters(1) v, of c i] r by simp
  show "case hbind (hcall (GetSagaInstance c i) onErr) k s of (Inl e, s1) \<Rightarrow> E e s1 | (Inr x, s1) \<Rightarrow> Q x s1"
  proof (cases r)
    case (Inl e)
    then show ?thesis using r E view_tx[OF v1] by (simp add: hbind_def hcall_def)
  next
    case (Inr x)
    have "Si_ClusterId x = c"
      using getters_read(1)[of c i "h_w s" x w1] r Inr by (auto simp: find_saga_def dest: find_someD)
    from k[OF this] v1 r Inr show ?thesis by (simp add: hbind_def hcall_def hvalid_def)
  qed
qed

lemma k_spawn:
  "hvalid (view d g os t g' os' sg st) (k ()) Q E \<Longrightarrow>
   hvalid (view d g os t g' os' sg st) (hbind (hSpawnProcessing er) k) Q E"
proof (rule hvalidI)
  fix s assume k: "hvalid (view d g os t g' os' sg st) (k ()) Q E" and v: "view d g os t g' os' sg st s"
  let ?w1 = "(h_w s)\<lparr>w_spawned := w_spawned (h_w s) @
     [(Si_ClusterId (h_saga s), Er_SagaInstanceId er, Er_SagaStepInstanceId er)]\<rparr>"
  have "view d g os t g' os' sg st (s\<lparr>h_w := ?w1\<rparr>)"
    using v by (auto simp: view_def elim!: inview_same)
  then show "case hbind (hSpawnProcessing er) k s of (Inl e, s1) \<Rightarrow> E e s1 | (Inr x, s1) \<Rightarrow> Q x s1"
    using k by (simp add: hbind_def hSpawnProcessing_def hmodify_def hvalid_def)
qed

text \<open>The states a step with a history can be in when its result is not late.\<close>
lemma result_state:
  assumes b: "base d g os" and i: "i < length os" and n: "\<not> lateResultState (Ss_State (os ! i))"
    and h: "Ss_ExecutionHistory (os ! i) \<noteq> []"
  shows "Ss_State (os ! i) = SagaStepStateEnum_ExecutionRunning \<and> \<not> IsCompensation (last (Ss_ExecutionHistory (os ! i)))
           \<and> forward_at (map Ss_State os) i \<or>
         Ss_State (os ! i) \<in> {SagaStepStateEnum_CompensationRunning, SagaStepStateEnum_CompensationBlocked} \<and>
           IsCompensation (last (Ss_ExecutionHistory (os ! i))) \<and> backward_at (map Ss_State os) i"
proof -
  have ok: "step_ok (os ! i)" and coh: "coherent (Si_State g) (map Ss_State os)"
    using base_facts(4,7)[OF b] i by auto
  have sh: "shape (map Ss_State os)" by (rule coherent_shape[OF coh])
  have "Ss_State (os ! i) \<noteq> SagaStepStateEnum_Unknown"
  proof
    assume u: "Ss_State (os ! i) = SagaStepStateEnum_Unknown"
    have "\<not> forward_at (map Ss_State os) k" for k
      using u i by (cases i k rule: linorder_cases) (auto simp: forward_at_def fwd_active_def)
    moreover have "\<not> backward_at (map Ss_State os) k" for k
      using u i settled_nth[of "map Ss_State os" "Suc k" i]
      by (cases i k rule: linorder_cases) (auto simp: backward_at_def cmp_active_def)
    moreover have "\<not> all_done (map Ss_State os)" using u i all_done_nth[of "map Ss_State os" i] by auto
    moreover have "\<not> compensated (map Ss_State os)"
      using u i settled_nth[of "map Ss_State os" 0 i] by (auto simp: compensated_def)
    ultimately show False using sh i by (auto simp: shape_def in_flight_def)
  qed
  with n ok h have "Ss_State (os ! i) = SagaStepStateEnum_ExecutionRunning \<and> \<not> IsCompensation (last (Ss_ExecutionHistory (os ! i))) \<or>
         Ss_State (os ! i) \<in> {SagaStepStateEnum_CompensationRunning, SagaStepStateEnum_CompensationBlocked} \<and>
           IsCompensation (last (Ss_ExecutionHistory (os ! i)))"
    by (cases "Ss_State (os ! i)") (auto simp: lateResultState_def step_ok_def Let_def)
  then show ?thesis
    using shape_fwd_at[OF sh, of i] shape_cmp_at[OF sh, of i] i by (auto simp: fwd_active_def cmp_active_def)
qed

lemma result_coherent:
  assumes b: "base d g os" and i: "i < length os" and n: "\<not> lateResultState (Ss_State (os ! i))"
    and h: "Ss_ExecutionHistory (os ! i) \<noteq> []"
    and target: "target = Ss_State (os ! i) \<or>
        resultTarget (IsCompensation (last (Ss_ExecutionHistory (os ! i)))) status = Some target"
    and u: "\<And>j. j < length os \<Longrightarrow> Ss_State (os' ! j) = (if j = i then target else Ss_State (os ! j))"
    and l: "length os' = length os"
  shows "coherent (Si_State g) (map Ss_State os')"
  using result_state[OF b i n h]
proof (elim disjE conjE)
  assume x: "Ss_State (os ! i) = SagaStepStateEnum_ExecutionRunning" "\<not> IsCompensation (last (Ss_ExecutionHistory (os ! i)))"
    and fw: "forward_at (map Ss_State os) i"
  have "fwd_active target" using target x
    by (auto simp: resultTarget_def fwd_active_def split: ExecutionResultStatusEnum.splits)
  then show ?thesis
    by (intro coherent_from_forward[OF base_facts(4)[OF b] fw, where k = i])
       (use fw l u in \<open>auto simp: forward_at_def\<close>)
next
  assume x: "Ss_State (os ! i) \<in> {SagaStepStateEnum_CompensationRunning, SagaStepStateEnum_CompensationBlocked}"
    "IsCompensation (last (Ss_ExecutionHistory (os ! i)))" and bw: "backward_at (map Ss_State os) i"
  have "cmp_active target" using target x
    by (auto simp: resultTarget_def cmp_active_def split: ExecutionResultStatusEnum.splits)
  then show ?thesis
    by (intro coherent_from_backward[OF base_facts(4)[OF b] bw, where k = i])
       (use bw l u in \<open>auto simp: backward_at_def settled_from_def\<close>)
qed

lemma result_step_ok:
  assumes b: "base d g os" and i: "i < length os" and n: "\<not> lateResultState (Ss_State (os ! i))"
    and h: "Ss_ExecutionHistory (os ! i) \<noteq> []"
    and target: "Ss_State r = Ss_State (os ! i) \<or>
        resultTarget (IsCompensation (last (Ss_ExecutionHistory (os ! i)))) status = Some (Ss_State r)"
    and r: "Ss_ExecutionHistory r \<noteq> []" "IsCompensation (last (Ss_ExecutionHistory r)) = IsCompensation (last (Ss_ExecutionHistory (os ! i)))"
  shows "step_ok r"
  using result_state[OF b i n h] target r
  by (auto simp: step_ok_def Let_def resultTarget_def split: ExecutionResultStatusEnum.splits)

lemma k_store_result:
  assumes b: "base d g os" and i: "i < length os"
    and k: "\<And>u st. (\<And>r. Ss_State (u r) = Ss_State r \<and> Ss_ExecutionHistory (u r) = Ss_ExecutionHistory r \<and> step_key (u r) = step_key r) \<Longrightarrow>
        step_key st = step_key (os ! i) \<Longrightarrow> Ss_ExecutionHistory st = Ss_ExecutionHistory (os ! i) \<Longrightarrow>
        hvalid (view d g os t g (upd_at {i} u os) sg st) (k ()) Q (body_exit d anyError)"
  shows "hvalid (view d g os t g os sg (os ! i)) (hbind (storeResult er) k) Q (body_exit d anyError)"
  unfolding storeResult_def handler_norm
  apply (rule k_get_step)
  apply (rule hvalid_if)
  subgoal
    apply (rule k_set_step[where F = "\<lambda>_ _. _"])
    apply (rule k_get_step)
    apply (rule k_exec_step[OF b i, where c = "Ss_ClusterId (os ! i)" and i = "Ss_InstanceId (os ! i)"
        and u = "\<lambda>r. r\<lparr>Ss_CompensationResult := Er_ExecutionResult er, Ss_UpdatedAt := t\<rparr>"])
    apply (simp_all add: framed_def link_preserving_def UpdateSagaStepCompensationResult_def)
    apply blast
    apply (rule k; simp)
    done
  subgoal
    apply (rule k_set_step[where F = "\<lambda>_ _. _"])
    apply (rule k_get_step)
    apply (rule k_exec_step[OF b i, where c = "Ss_ClusterId (os ! i)" and i = "Ss_InstanceId (os ! i)"
        and u = "\<lambda>r. r\<lparr>Ss_Result := Er_ExecutionResult er, Ss_UpdatedAt := t\<rparr>"])
    apply (simp_all add: framed_def link_preserving_def UpdateSagaStepResult_def)
    apply blast
    apply (rule k; simp)
    done
  done

lemma not_cancelled:
  "(\<And>x. hvalid (view d g os t g' os' sg st) (k x) Q (body_exit d anyError)) \<Longrightarrow>
   hvalid (view d g os t g' os' sg st) (hbind hNotCancelled k) Q (body_exit d anyError)"
  unfolding hNotCancelled_def by (rule k_call) simp_all

lemma executionResultOnStep_safe:
  assumes b: "base d g os" and i: "i < length os" and c: "Ss_ClusterId (os ! i) = c"
  shows "hvalid (view d g os t g os sg st) (executionResultOnStep c er (os ! i)) (\<lambda>_ _. False) (body_exit d anyError)"
proof -
  have coh: "coherent (Si_State g) (map Ss_State os)" and ok: "\<And>j. j < length os \<Longrightarrow> step_ok (os ! j)"
    using base_facts(4,7)[OF b] by auto
  have fin: "hvalid (view d g os t g os' sg' st') (hbind hNotCancelled (\<lambda>_.
       hbind (hcall CommitTransaction (\<lambda>e. Abandon False (Some (''failed to commit transaction: '' @ e)))) (\<lambda>_.
       hexit (Return None)))) (\<lambda>_ _. False) (body_exit d anyError)"
    if "coherent (Si_State g) (map Ss_State os')" "\<And>j. j < length os' \<Longrightarrow> step_ok (os' ! j)" for os' sg' st'
    apply (rule not_cancelled)
    apply (rule k_commit[OF b that], assumption, simp)
    apply (rule k_exit, simp add: settled_idle)
    done
  show ?thesis
    unfolding executionResultOnStep_def
    apply (rule k_set_step[where F = "\<lambda>_ _. _"])
    apply (rule not_cancelled)
    apply (rule hvalid_if)
    subgoal
      apply (rule k_commit[OF b coh ok], assumption, simp)
      apply (rule k_exit, simp add: settled_idle)
      done
    subgoal premises late
      apply (rule k_get_saga_call, simp)
      subgoal premises sc for saga
        apply (rule k_set_saga[where F = "\<lambda>_. _"])
        apply (rule not_cancelled)
        apply (rule k_store_result[OF b i])
        apply (rule hvalid_if, rule k_exit, simp add: view_tx)
        subgoal premises u for _ u st1
          apply (rule k_world, simp)
          apply (rule k_set_step)
          apply (rule k_get_step)
          apply (rule k_history[OF b, where j = i], simp add: i, use u i in simp, simp)
          apply (rule not_cancelled)
          unfolding applyResult_def handler_norm
          apply (rule k_get_step)
          subgoal for nowTs
          proof -
            let ?upd = "\<lambda>l. l\<lparr>ExecutionResultReceivedTs := nowTs, ExecutionResult := Er_ExecutionResult er, LogConclusionTs := nowTs\<rparr>"
            have ic: "IsCompensation (last (Ss_ExecutionHistory (st1\<lparr>Ss_ExecutionHistory := mapLast ?upd (Ss_ExecutionHistory st1)\<rparr>)))
                = IsCompensation (last (Ss_ExecutionHistory (os ! i)))"
              using u by (simp add: last_mapLast)
            show ?thesis
              unfolding ic
              apply (cases "resultTarget (IsCompensation (last (Ss_ExecutionHistory (os ! i)))) (Er_Status er)")
              subgoal premises tgt
                apply (simp only: tgt option.case handler_norm)
                apply (rule fin)
                subgoal by (rule result_coherent[OF b i late, where target = "Ss_State (os ! i)"]) (use u i in auto)
                subgoal for j
                  by (cases "j = i", rule result_step_ok[OF b i late], use u i in \<open>simp_all add: last_mapLast ok\<close>)
                done
              subgoal premises tgt for target
                apply (simp only: tgt option.case handler_norm)
                apply (rule k_transit_step[OF b, where j = i], simp add: i, use u i in simp, use sc c u in simp, simp)
                apply (rule k_spawn)
                apply (rule fin)
                subgoal by (rule result_coherent[OF b i late, where target = target]) (use u i tgt in auto)
                subgoal for j
                  by (cases "j = i", rule result_step_ok[OF b i late, where status = "Er_Status er"],
                      use u i tgt in \<open>simp_all add: last_mapLast ok\<close>)
                done
              done
          qed
          done
        done
      done
    done
qed

text \<open>What survives: the rows, or those an open transaction would return to.\<close>
definition durable :: "world \<Rightarrow> db" where
  "durable w = (case w_tx w of None \<Rightarrow> w_db w | Some d \<Rightarrow> d)"

definition sound :: "world \<Rightarrow> bool" where
  "sound w = db_inv (db_sagas (durable w)) (db_steps (durable w))"

lemma idle_sound: "idle w \<Longrightarrow> sound w"
  by (simp add: idle_def sound_def durable_def)

lemma executionResultBody_safe:
  assumes d: "w_tx (h_w s) = Some d" "w_db (h_w s) = d" "db_inv (db_sagas d) (db_steps d)"
    and r: "withDeferredRollback (executionResultBody c er) s = (x, s1)"
  shows "(\<exists>y. x = Inl (Return y)) \<and> idle (h_w s1)"
proof -
  obtain r1 w1 where g1: "GetSagaStepInstance c (Er_SagaStepInstanceId er) (h_w s) = (r1, w1)" by fastforce
  note n = neutralD[OF neutral_getters(2) g1]
  show ?thesis
  proof (cases r1)
    case (Inl e)
    obtain o2 s2 where d2: "deferredRollback False (s\<lparr>h_w := w1\<rparr>) = (o2, s2)" by fastforce
    have "o2 = None \<and> idle (h_w s2)" by (rule deferred_idle[OF _ d2, of d]) (use n d in auto)
    then show ?thesis using r g1 Inl d2
      by (auto simp: withDeferredRollback_def executionResultBody_def hbind_def hcall_def)
  next
    case (Inr st)
    have st: "st \<in> set (db_steps d)" "Ss_ClusterId st = c"
      using getters_read(2)[of c "Er_SagaStepInstanceId er" "h_w s" st w1] g1 Inr d
      by (auto simp: find_step_def dest: find_someD)
    obtain g where g: "g \<in> set (db_sagas d)" "saga_key g = (Ss_ClusterId st, Ss_SagaInstanceId st)"
      using d(3) st(1) unfolding db_inv_def by blast
    obtain os where b: "base d g os"
      using g(1) d(3) by (auto simp: base_def db_inv_def saga_wf_def)
    obtain i where i: "i < length os" "st = os ! i" using base_member[OF b st(1)] g(2) by auto
    let ?s1 = "s\<lparr>h_w := w1\<rparr>"
    have v: "view d g os (w_dbtime w1) g os (h_saga s) (h_step s) ?s1"
      using inview_start[of "h_w s" d "w_dbtime (h_w s)" g os] d n by (auto simp: view_def elim!: inview_same)
    have body: "executionResultBody c er s = executionResultOnStep c er (os ! i) ?s1"
      using g1 Inr i by (simp add: executionResultBody_def hbind_def hcall_def)
    have "Ss_ClusterId (os ! i) = c" using st(2) i(2) by simp
    from k_deferred[OF b executionResultOnStep_safe[OF b i(1) this]]
    have "hvalid (view d g os (w_dbtime w1) g os (h_saga s) (h_step s))
        (withDeferredRollback (executionResultOnStep c er (os ! i))) (\<lambda>_ _. False) (safe_exit anyError)" .
    with v have "case withDeferredRollback (executionResultOnStep c er (os ! i)) ?s1 of
        (Inl e, s1) \<Rightarrow> safe_exit anyError e s1 | (Inr x, s1) \<Rightarrow> False"
      by (simp add: hvalid_def)
    moreover have "withDeferredRollback (executionResultBody c er) s =
        withDeferredRollback (executionResultOnStep c er (os ! i)) ?s1"
      by (simp add: withDeferredRollback_def body)
    ultimately show ?thesis using r by (cases x) (auto simp: safe_exit_def split: exit.splits)
  qed
qed

text \<open>A result leaves through a return; only a context cancelled right after the transaction began leaves
  one open.\<close>
lemma processSagaStepExecutionResult_safe:
  assumes i: "idle (h_w s)" and r: "processSagaStepExecutionResult c er s = (x, s1)"
  shows "(\<exists>y. x = Inl (Return y)) \<and> sound (h_w s1)"
proof -
  let ?w = "h_w s"
  obtain r1 w1 where b: "BeginTransaction ?w = (r1, w1)" by fastforce
  have w1: "w_db w1 = w_db ?w" "(case r1 of Inl e \<Rightarrow> w_tx w1 = None | Inr _ \<Rightarrow> w_tx w1 = Some (w_db ?w))"
    using b i by (auto simp: BeginTransaction_def next_fault_def idle_def
        split: list.splits fault.splits prod.splits option.splits)
  show ?thesis
  proof (cases r1)
    case (Inl e)
    then have "idle w1" using w1 i by (simp add: idle_def)
    then show ?thesis using r b Inl
      by (auto simp: processSagaStepExecutionResult_def hbind_def hcall_def idle_sound)
  next
    case (Inr u)
    obtain r2 w2 where c2: "context_done w1 = (r2, w2)" by fastforce
    have w2: "w_tx w2 = w_tx w1" "w_db w2 = w_db w1"
      using c2 by (auto simp: context_done_def next_fault_def split: list.splits fault.splits prod.splits)
    have d: "w_tx w2 = Some (w_db ?w)" "w_db w2 = w_db ?w" using w1 w2 Inr by auto
    have J: "db_inv (db_sagas (w_db ?w)) (db_steps (w_db ?w))" using i by (simp add: idle_def)
    show ?thesis
    proof (cases r2)
      case (Inl e)
      have "sound w2" using d J by (simp add: sound_def durable_def)
      then show ?thesis using r b Inr c2 Inl
        by (auto simp: processSagaStepExecutionResult_def hbind_def hcall_def)
    next
      case (Inr v)
      let ?s2 = "s\<lparr>h_w := w2\<rparr>"
      obtain y s3 where x: "withDeferredRollback (executionResultBody c er) ?s2 = (y, s3)" by fastforce
      have "(\<exists>z. y = Inl (Return z)) \<and> idle (h_w s3)"
        by (rule executionResultBody_safe[OF _ _ J x]) (use d in auto)
      moreover have "processSagaStepExecutionResult c er s = (y, s3)"
        using b \<open>r1 = Inr u\<close> c2 Inr x by (simp add: processSagaStepExecutionResult_def hbind_def hcall_def)
      ultimately show ?thesis using r idle_sound by auto
    qed
  qed
qed

lemma consumeResult_safe:
  assumes i: "idle (h_w s)" and r: "consumeResult c mt body s = (x, s1)"
  shows "(\<exists>y. x = Inl (Return y)) \<and> sound (h_w s1)"
  using assms processSagaStepExecutionResult_safe
  by (auto simp: consumeResult_def hexit_def idle_sound split: option.splits)

section \<open>Operator requests\<close>

lemma trigger_safe:
  assumes "idle w" "TriggerSagaCompensation c i w = (r, w1)"
  shows "idle w1"
  using trigger_world[OF assms(2)] assms(1) requestIfCommitted_inv
  by (auto simp: idle_def update_saga_rows_alt)

lemma force_mark_safe:
  assumes i: "idle w" and r: "ForceMarkSagaCompensated c iid reason w = (x, w1)"
  shows "idle w1"
proof -
  let ?u = "\<lambda>r. if Si_State r = SagaStateEnum_Blocked
      then r\<lparr>Si_State := SagaStateEnum_Compensated,
             Si_CompensationReason := ''[FORCE-MARKED] '' @ reason, Si_UpdatedAt := w_dbtime w\<rparr> else r"
  obtain y w2 where e: "db_exec (update_saga_rows c iid ?u) w = (y, w2)" by fastforce
  have "w1 = w \<or> w1 = w2" using r e
    by (auto simp: ForceMarkSagaCompensated_def Let_def split: sum.splits if_splits)
  moreover have "db_inv (map (saga_at_key c iid ?u) (db_sagas (w_db w))) (db_steps (w_db w))"
    by (rule db_inv_saga_update) (use i in \<open>auto simp: idle_def framed_saga_def saga_at_key_def\<close>)
  then have "idle w2" using exec_any[OF e] i by (auto simp: idle_def update_saga_rows_alt)
  ultimately show ?thesis using i by auto
qed

end
