(* ===== verification/Store_Templates.thy ===== *)
theory Store_Templates
  imports Store_Psql
begin

text \<open>
  Templates and clusters in the PostgreSQL store (\<open>store_psql.go\<close>).  Saving is idempotent on the id;
  updates and deletions that touch no row are errors; every change of a template notifies the
  coordinators, and an error of the notification is dropped.
\<close>

definition notify_template_event :: "string \<Rightarrow> world \<Rightarrow> world" where
  "notify_template_event payload w =
     snd (db_exec (\<lambda>d. d\<lparr>db_notify := db_notify d @ [(''trax_template_events'', payload)]\<rparr>) w)"

definition template_payload :: "string \<Rightarrow> string \<Rightarrow> string" where
  "template_payload action tid =
     ''{\"action\":\"'' @ action @ ''\",\"type\":\"saga_template\",\"template_id\":\"'' @ tid @ ''\"}''"

definition step_template_payload :: "string \<Rightarrow> string \<Rightarrow> string \<Rightarrow> string" where
  "step_template_payload action tid stid =
     ''{\"action\":\"'' @ action @ ''\",\"type\":\"saga_step_template\",\"template_id\":\"'' @ tid @
     ''\",\"saga_template_id\":\"'' @ stid @ ''\"}''"

definition deleted_step_template_payload :: "string \<Rightarrow> string" where
  "deleted_step_template_payload tid =
     ''{\"action\":\"delete\",\"type\":\"saga_step_template\",\"template_id\":\"'' @ tid @ ''\"}''"

section \<open>Saga templates\<close>

definition find_template :: "string \<Rightarrow> db \<Rightarrow> SagaTemplate option" where
  "find_template tid d = find (\<lambda>r. St_TemplateId r = tid) (db_templates d)"

definition find_step_template :: "string \<Rightarrow> db \<Rightarrow> SagaStepTemplate option" where
  "find_step_template tid d = find (\<lambda>r. Sst_TemplateId r = tid) (db_stepTemplates d)"

definition SaveSagaTemplateIdempotently :: "SagaTemplate \<Rightarrow> world \<Rightarrow> bool result \<times> world" where
  "SaveSagaTemplateIdempotently tpl w =
     (case db_query (\<lambda>d. find_template (St_TemplateId tpl) d \<noteq> None) w of
        (Inl e, w1) \<Rightarrow> (Err (''failed to check template existence: '' @ e), w1)
      | (Inr True, w1) \<Rightarrow> (Ok False, w1)
      | (Inr False, w1) \<Rightarrow>
          (case db_insert (\<lambda>d. find_template (St_TemplateId tpl) d = None)
                  (\<lambda>d. d\<lparr>db_templates := db_templates d @ [tpl]\<rparr>) w1 of
             (Inl e, w2) \<Rightarrow> (Err (''failed to insert saga template: '' @ e), w2)
           | (Inr _, w2) \<Rightarrow>
               (Ok True, notify_template_event (template_payload ''create'' (St_TemplateId tpl)) w2)))"

definition GetSagaTemplate :: "string \<Rightarrow> world \<Rightarrow> SagaTemplate result \<times> world" where
  "GetSagaTemplate tid w =
     (case db_query (find_template tid) w of
        (Inl e, w1) \<Rightarrow> (Err (''failed to scan saga template: '' @ e), w1)
      | (Inr None, w1) \<Rightarrow> (Err ''saga template not found'', w1)
      | (Inr (Some r), w1) \<Rightarrow> (Ok r, w1))"

definition ListSagaTemplates :: "world \<Rightarrow> SagaTemplate list result \<times> world" where
  "ListSagaTemplates w =
     (case db_query (\<lambda>d. sort_key St_TemplateId (db_templates d)) w of
        (Inl e, w1) \<Rightarrow> (Err (''failed to query saga templates: '' @ e), w1)
      | (Inr rs, w1) \<Rightarrow> (Ok rs, w1))"

definition ListSagaTemplateIds :: "world \<Rightarrow> string list result \<times> world" where
  "ListSagaTemplateIds w =
     (case db_query (\<lambda>d. sort (map St_TemplateId (db_templates d))) w of
        (Inl e, w1) \<Rightarrow> (Err (''failed to query saga template IDs: '' @ e), w1)
      | (Inr rs, w1) \<Rightarrow> (Ok rs, w1))"

text \<open>The UPDATE leaves the id and writes every other column.\<close>
definition UpdateSagaTemplate :: "SagaTemplate \<Rightarrow> world \<Rightarrow> unit result \<times> world" where
  "UpdateSagaTemplate tpl w =
     (let affected = find_template (St_TemplateId tpl) (w_db w) \<noteq> None
      in case db_exec (\<lambda>d. d\<lparr>db_templates :=
               map (\<lambda>r. if St_TemplateId r = St_TemplateId tpl then tpl else r) (db_templates d)\<rparr>) w of
           (Inl e, w1) \<Rightarrow> (Err (''failed to update saga template: '' @ e), w1)
         | (Inr _, w1) \<Rightarrow>
             if \<not> affected then (Err (''saga template not found: '' @ St_TemplateId tpl), w1)
             else (Ok (), notify_template_event (template_payload ''update'' (St_TemplateId tpl)) w1))"

text \<open>Two statements; a template that instances still reference cannot be deleted (foreign keys).\<close>
definition DeleteSagaTemplate :: "string \<Rightarrow> world \<Rightarrow> unit result \<times> world" where
  "DeleteSagaTemplate tid w =
     (case db_insert (\<lambda>d. \<not> (\<exists>r \<in> set (db_steps d). Ss_SagaStepTemplateId r \<in>
                Sst_TemplateId ` {s \<in> set (db_stepTemplates d). Sst_SagaTemplateId s = tid}))
             (\<lambda>d. d\<lparr>db_stepTemplates := filter (\<lambda>s. Sst_SagaTemplateId s \<noteq> tid) (db_stepTemplates d)\<rparr>) w of
        (Inl e, w1) \<Rightarrow> (Err (''failed to delete step templates for saga template '' @ tid @ '': '' @ e), w1)
      | (Inr _, w1) \<Rightarrow>
          (let affected = find_template tid (w_db w1) \<noteq> None
           in case db_insert (\<lambda>d. \<not> (\<exists>g \<in> set (db_sagas d). Si_SagaTemplateId g = tid) \<and>
                                  \<not> (\<exists>r \<in> set (db_steps d). Ss_SagaTemplateId r = tid))
                    (\<lambda>d. d\<lparr>db_templates := filter (\<lambda>s. St_TemplateId s \<noteq> tid) (db_templates d)\<rparr>) w1 of
                (Inl e, w2) \<Rightarrow> (Err (''failed to delete saga template: '' @ e), w2)
              | (Inr _, w2) \<Rightarrow>
                  if \<not> affected then (Err (''saga template not found: '' @ tid), w2)
                  else (Ok (), notify_template_event (template_payload ''delete'' tid) w2)))"

section \<open>Step templates\<close>

definition SaveSagaStepTemplateIdempotently :: "SagaStepTemplate \<Rightarrow> world \<Rightarrow> bool result \<times> world" where
  "SaveSagaStepTemplateIdempotently tpl w =
     (case db_query (\<lambda>d. find_step_template (Sst_TemplateId tpl) d \<noteq> None) w of
        (Inl e, w1) \<Rightarrow> (Err (''failed to check step template existence: '' @ e), w1)
      | (Inr True, w1) \<Rightarrow> (Ok False, w1)
      | (Inr False, w1) \<Rightarrow>
          (case db_insert (\<lambda>d. find_step_template (Sst_TemplateId tpl) d = None \<and>
                              find_template (Sst_SagaTemplateId tpl) d \<noteq> None)
                  (\<lambda>d. d\<lparr>db_stepTemplates := db_stepTemplates d @ [tpl]\<rparr>) w1 of
             (Inl e, w2) \<Rightarrow> (Err (''failed to insert saga step template: '' @ e), w2)
           | (Inr _, w2) \<Rightarrow>
               (Ok True, notify_template_event
                 (step_template_payload ''create'' (Sst_TemplateId tpl) (Sst_SagaTemplateId tpl)) w2)))"

definition GetSagaStepTemplate :: "string \<Rightarrow> world \<Rightarrow> SagaStepTemplate result \<times> world" where
  "GetSagaStepTemplate tid w =
     (case db_query (find_step_template tid) w of
        (Inl e, w1) \<Rightarrow> (Err (''failed to scan saga step template: '' @ e), w1)
      | (Inr None, w1) \<Rightarrow> (Err ''saga step template not found'', w1)
      | (Inr (Some r), w1) \<Rightarrow> (Ok r, w1))"

definition ListSagaStepTemplates :: "world \<Rightarrow> SagaStepTemplate list result \<times> world" where
  "ListSagaStepTemplates w =
     (case db_query (\<lambda>d. sort_key Sst_TemplateId (db_stepTemplates d)) w of
        (Inl e, w1) \<Rightarrow> (Err (''failed to query saga step templates: '' @ e), w1)
      | (Inr rs, w1) \<Rightarrow> (Ok rs, w1))"

definition ListSagaStepTemplateIds :: "world \<Rightarrow> string list result \<times> world" where
  "ListSagaStepTemplateIds w =
     (case db_query (\<lambda>d. sort (map Sst_TemplateId (db_stepTemplates d))) w of
        (Inl e, w1) \<Rightarrow> (Err (''failed to query saga step template IDs: '' @ e), w1)
      | (Inr rs, w1) \<Rightarrow> (Ok rs, w1))"

definition UpdateSagaStepTemplate :: "SagaStepTemplate \<Rightarrow> world \<Rightarrow> unit result \<times> world" where
  "UpdateSagaStepTemplate tpl w =
     (let affected = find_step_template (Sst_TemplateId tpl) (w_db w) \<noteq> None
      in case db_insert (\<lambda>d. find_step_template (Sst_TemplateId tpl) d = None \<or>
                            find_template (Sst_SagaTemplateId tpl) d \<noteq> None)
               (\<lambda>d. d\<lparr>db_stepTemplates :=
                 map (\<lambda>r. if Sst_TemplateId r = Sst_TemplateId tpl then tpl else r) (db_stepTemplates d)\<rparr>) w of
           (Inl e, w1) \<Rightarrow> (Err (''failed to update saga step template: '' @ e), w1)
         | (Inr _, w1) \<Rightarrow>
             if \<not> affected then (Err (''saga step template not found: '' @ Sst_TemplateId tpl), w1)
             else (Ok (), notify_template_event
                    (step_template_payload ''update'' (Sst_TemplateId tpl) (Sst_SagaTemplateId tpl)) w1))"

definition DeleteSagaStepTemplate :: "string \<Rightarrow> world \<Rightarrow> unit result \<times> world" where
  "DeleteSagaStepTemplate tid w =
     (let affected = find_step_template tid (w_db w) \<noteq> None
      in case db_insert (\<lambda>d. \<not> (\<exists>r \<in> set (db_steps d). Ss_SagaStepTemplateId r = tid))
               (\<lambda>d. d\<lparr>db_stepTemplates := filter (\<lambda>s. Sst_TemplateId s \<noteq> tid) (db_stepTemplates d)\<rparr>) w of
           (Inl e, w1) \<Rightarrow> (Err (''failed to delete saga step template: '' @ e), w1)
         | (Inr _, w1) \<Rightarrow>
             if \<not> affected then (Err (''saga step template not found: '' @ tid), w1)
             else (Ok (), notify_template_event (deleted_step_template_payload tid) w1))"

section \<open>Clusters\<close>

definition find_cluster :: "string \<Rightarrow> db \<Rightarrow> Cluster option" where
  "find_cluster cid d = find (\<lambda>r. Cl_Id r = cid) (db_clusters d)"

text \<open>\<open>INSERT ... ON CONFLICT (id) DO NOTHING\<close>\<close>
definition SaveClusterIdempotently :: "Cluster \<Rightarrow> world \<Rightarrow> bool result \<times> world" where
  "SaveClusterIdempotently cl w =
     (let fresh = find_cluster (Cl_Id cl) (w_db w) = None
      in case db_exec (\<lambda>d. if find_cluster (Cl_Id cl) d = None
                           then d\<lparr>db_clusters := db_clusters d @ [cl]\<rparr> else d) w of
           (Inl e, w1) \<Rightarrow> (Err (''failed to save cluster: '' @ e), w1)
         | (Inr _, w1) \<Rightarrow> (Ok fresh, w1))"

definition GetCluster :: "string \<Rightarrow> world \<Rightarrow> Cluster result \<times> world" where
  "GetCluster cid w =
     (case db_query (find_cluster cid) w of
        (Inl e, w1) \<Rightarrow> (Err (''failed to get cluster: '' @ e), w1)
      | (Inr None, w1) \<Rightarrow> (Err ''cluster not found'', w1)
      | (Inr (Some r), w1) \<Rightarrow> (Ok r, w1))"

definition UpdateCluster :: "Cluster \<Rightarrow> world \<Rightarrow> unit result \<times> world" where
  "UpdateCluster cl w =
     (let affected = find_cluster (Cl_Id cl) (w_db w) \<noteq> None
      in case db_exec (\<lambda>d. d\<lparr>db_clusters :=
               map (\<lambda>r. if Cl_Id r = Cl_Id cl then cl else r) (db_clusters d)\<rparr>) w of
           (Inl e, w1) \<Rightarrow> (Err (''failed to update cluster: '' @ e), w1)
         | (Inr _, w1) \<Rightarrow> if affected then (Ok (), w1) else (Err ''cluster not found'', w1))"

definition DeleteCluster :: "string \<Rightarrow> world \<Rightarrow> unit result \<times> world" where
  "DeleteCluster cid w =
     (let affected = find_cluster cid (w_db w) \<noteq> None
      in case db_exec (\<lambda>d. d\<lparr>db_clusters := filter (\<lambda>r. Cl_Id r \<noteq> cid) (db_clusters d)\<rparr>) w of
           (Inl e, w1) \<Rightarrow> (Err (''failed to delete cluster: '' @ e), w1)
         | (Inr _, w1) \<Rightarrow> if affected then (Ok (), w1) else (Err ''cluster not found'', w1))"

definition ListClusters :: "world \<Rightarrow> Cluster list result \<times> world" where
  "ListClusters w =
     (case db_query (\<lambda>d. sort_key Cl_Id (db_clusters d)) w of
        (Inl e, w1) \<Rightarrow> (Err (''failed to query clusters: '' @ e), w1)
      | (Inr rs, w1) \<Rightarrow> (Ok rs, w1))"

definition ListClusterIds :: "world \<Rightarrow> string list result \<times> world" where
  "ListClusterIds w =
     (case db_query (\<lambda>d. sort (map Cl_Id (db_clusters d))) w of
        (Inl e, w1) \<Rightarrow> (Err (''failed to query cluster IDs: '' @ e), w1)
      | (Inr rs, w1) \<Rightarrow> (Ok rs, w1))"

end
