(* ===== verification/Coordinator_Submission.thy ===== *)
theory Coordinator_Submission
  imports Coordinator_Steps Store_Templates
begin

text \<open>
  Accepting a saga (\<open>followSagaSubmitterIfNeeded\<close> in \<open>coordinator.go\<close>): the rows a submission creates in
  one transaction, and the reply that tells the submitter.  There is no deferred rollback here: every
  error path rolls back by itself, and an error of the rollback replaces the error.
\<close>

section \<open>Building the rows\<close>

definition newSagaInstance ::
    "TraxMessage \<Rightarrow> SagaSubmissionRequestPayload \<Rightarrow> SagaTemplate \<Rightarrow> string \<Rightarrow> SagaInstance" where
  "newSagaInstance msg p tpl executionId =
     \<lparr>Si_InstanceId = Sr_SagaInstanceId p, Si_ClusterId = Tm_ClusterId msg, Si_ZoneId = Sr_ZoneId p,
      Si_TraceId = Tm_TraceId msg, Si_ExecutionId = executionId, Si_SagaSubmitterId = Tm_Issuer msg,
      Si_Origin = Tm_Origin msg, Si_OriginIdempotencyKey = Tm_OriginIdempotencyKey msg,
      Si_Labels = Map.empty, Si_Tags = St_Tags tpl, Si_Metadata = Tm_Metadata msg,
      Si_State = SagaStateEnum_Running, Si_SagaTemplateId = Sr_SagaTemplateId p, Si_Input = Sr_SagaInput p,
      Si_SagaInstanceIds = [], Si_ParentSagaInstanceId = Sr_ParentSagaInstanceId p,
      Si_ParentSagaStepInstanceId = Sr_ParentSagaStepInstanceId p,
      Si_RootSagaInstanceId =
        (if Sr_RootSagaInstanceId p = '''' then Sr_SagaInstanceId p else Sr_RootSagaInstanceId p),
      Si_SagaDepth = Sr_SagaDepth p, Si_CompensationReason = '''', Si_AnnexIids = [],
      Si_CreatedAt = 0, Si_UpdatedAt = 0\<rparr>"

definition newStepInstance ::
    "coordinator \<Rightarrow> TraxMessage \<Rightarrow> SagaSubmissionRequestPayload \<Rightarrow> SagaStepTemplate \<Rightarrow> string \<Rightarrow> nat \<Rightarrow>
     string \<Rightarrow> string \<Rightarrow> SagaStepInstance" where
  "newStepInstance co msg p stpl sagaStepTemplateId index iid executionId =
     \<lparr>Ss_InstanceId = iid, Ss_ClusterId = Tm_ClusterId msg, Ss_ZoneId = Sr_ZoneId p,
      Ss_SagaInstanceId = Sr_SagaInstanceId p, Ss_TraceId = Tm_TraceId msg, Ss_ExecutionId = executionId,
      Ss_Labels = Sst_Labels stpl, Ss_Tags = Sst_Tags stpl, Ss_Metadata = Sst_Metadata stpl,
      Ss_Affinity = co_affinityGroup co,
      Ss_State = (if index = 0 then SagaStepStateEnum_ExecutionCandidate else SagaStepStateEnum_ExecutionPending),
      Ss_Result = Map.empty, Ss_CompensationResult = Map.empty,
      Ss_SagaTemplateId = Sr_SagaTemplateId p, Ss_SagaStepTemplateId = sagaStepTemplateId,
      Ss_PreviousSagaStepInstanceId = '''', Ss_NextSagaStepInstanceId = '''', Ss_ExecutionHistory = [],
      Ss_CreatedAt = 0, Ss_UpdatedAt = 0\<rparr>"

text \<open>The loop over the template's steps: read the step template, draw the instance id, then the
  execution id.\<close>
fun buildSteps ::
    "coordinator \<Rightarrow> TraxMessage \<Rightarrow> SagaSubmissionRequestPayload \<Rightarrow> nat \<Rightarrow> string list \<Rightarrow> world \<Rightarrow>
     SagaStepInstance list result \<times> world" where
  "buildSteps co msg p index [] w = (Ok [], w)"
| "buildSteps co msg p index (tid # tids) w =
     (case GetSagaStepTemplate tid w of
        (Inl e, w1) \<Rightarrow> (Err (''failed to get saga step template: '' @ e), w1)
      | (Inr stpl, w1) \<Rightarrow>
          (case random_string w1 of (iid, w2) \<Rightarrow>
           (case random_string w2 of (eid, w3) \<Rightarrow>
             (case buildSteps co msg p (Suc index) tids w3 of
                (Inl e, w4) \<Rightarrow> (Err e, w4)
              | (Inr steps, w4) \<Rightarrow> (Ok (newStepInstance co msg p stpl tid index iid eid # steps), w4)))))"

definition linkSteps :: "SagaStepInstance list \<Rightarrow> SagaStepInstance list" where
  "linkSteps steps = map (\<lambda>i. (steps ! i)
      \<lparr>Ss_PreviousSagaStepInstanceId := (if 0 < i then Ss_InstanceId (steps ! (i - 1)) else ''''),
       Ss_NextSagaStepInstanceId :=
         (if i < length steps - 1 then Ss_InstanceId (steps ! (i + 1)) else Ss_NextSagaStepInstanceId (steps ! i))\<rparr>)
      [0..<length steps]"

section \<open>Storing them\<close>

text \<open>\<open>if err != nil { rollback; return }\<close>\<close>
definition rollbackWith :: "string \<Rightarrow> world \<Rightarrow> unit result \<times> world" where
  "rollbackWith e w =
     (case RollbackTransaction w of
        (Inl e2, w1) \<Rightarrow> (Err (''failed to rollback transaction: '' @ e2 @ '', inner: '' @ e), w1)
      | (Inr _, w1) \<Rightarrow> (Err e, w1))"

fun saveSteps :: "SagaStepInstance list \<Rightarrow> world \<Rightarrow> unit result \<times> world" where
  "saveSteps [] w = (Ok (), w)"
| "saveSteps (s # ss) w =
     (case SaveSagaStepInstanceIdempotently s w of
        (Inl e, w1) \<Rightarrow> (Err (''failed to save saga step instance idempotently: '' @ e), w1)
      | (Inr saved, w1) \<Rightarrow> saveSteps ss w1)"

definition storeSaga :: "SagaInstance \<Rightarrow> SagaStepInstance list \<Rightarrow> world \<Rightarrow> unit result \<times> world" where
  "storeSaga saga steps w =
     (case SaveSagaInstanceIdempotently saga w of
        (Inl e, w1) \<Rightarrow> (Err (''failed to save saga instance idempotently: '' @ e), w1)
      | (Inr saved, w1) \<Rightarrow> if saved then saveSteps steps w1 else (Ok (), w1))"

text \<open>What happens between \<open>BeginTransaction\<close> and \<open>CommitTransaction\<close>.\<close>
definition submissionBody ::
    "coordinator \<Rightarrow> TraxMessage \<Rightarrow> SagaSubmissionRequestPayload \<Rightarrow> world \<Rightarrow> unit result \<times> world" where
  "submissionBody co msg p w =
     (case GetSagaTemplate (Sr_SagaTemplateId p) w of
        (Inl e, w1) \<Rightarrow> (Err (''failed to get saga template: '' @ e), w1)
      | (Inr tpl, w1) \<Rightarrow>
          (case random_string w1 of (executionId, w2) \<Rightarrow>
            (case buildSteps co msg p 0 (St_SagaStepTemplateIds tpl) w2 of
               (Inl e, w3) \<Rightarrow> (Err e, w3)
             | (Inr steps, w3) \<Rightarrow>
                 storeSaga ((newSagaInstance msg p tpl executionId)\<lparr>Si_SagaInstanceIds := map Ss_InstanceId steps\<rparr>)
                   (linkSteps steps) w3)))"

text \<open>A failed commit is not rolled back: the transaction is over anyway.\<close>
definition submitSaga ::
    "coordinator \<Rightarrow> TraxMessage \<Rightarrow> SagaSubmissionRequestPayload \<Rightarrow> world \<Rightarrow> unit result \<times> world" where
  "submitSaga co msg p w =
     (case BeginTransaction w of
        (Inl e, w1) \<Rightarrow> (Err (''failed to begin transaction: '' @ e), w1)
      | (Inr _, w1) \<Rightarrow>
          (case submissionBody co msg p w1 of
             (Inl e, w2) \<Rightarrow> rollbackWith e w2
           | (Inr _, w2) \<Rightarrow>
               (case CommitTransaction w2 of
                  (Inl e, w3) \<Rightarrow> (Err (''failed to commit transaction: '' @ e), w3)
                | (Inr _, w3) \<Rightarrow> (Ok (), w3))))"

section \<open>The reply\<close>

definition replyMessage :: "coordinator \<Rightarrow> TraxMessage \<Rightarrow> Payload \<Rightarrow> world \<Rightarrow> TraxMessage \<times> world" where
  "replyMessage co msg body w =
     (case random_string w of (mid, w1) \<Rightarrow>
      (case random_string w1 of (tid, w2) \<Rightarrow>
      (case random_string w2 of (eid, w3) \<Rightarrow>
      (case time_now w3 of (ts, w4) \<Rightarrow>
        (AddPayload body ((NewTraxMessageBuilder mid tid eid ts)
           \<lparr>Tm_RefMessageId := Tm_MessageId msg, Tm_ExecutionId := Tm_ExecutionId msg,
            Tm_ClusterId := Tm_ClusterId msg, Tm_TraceId := Tm_TraceId msg, Tm_Origin := Tm_Origin msg,
            Tm_OriginIdempotencyKey := Tm_OriginIdempotencyKey msg, Tm_Issuer := co_subComponent co,
            Tm_Referrer := '''', Tm_Submitter := co_subComponent co,
            Tm_SubmitterAffinityGroup := co_affinityGroup co, Tm_Session := Tm_Session msg\<rparr>), w4)))))"

definition submissionReply :: "coordinator \<Rightarrow> TraxMessage \<Rightarrow> Payload \<Rightarrow> unit result \<Rightarrow> Payload" where
  "submissionReply co msg request r =
     (case r of
        Inl e \<Rightarrow> jsonPayload SagaPayloadType_SagaSubmissionFailure
                   (SagaSubmissionFailureBody (Tm_Submitter msg) request [e] ''{}'')
      | Inr _ \<Rightarrow> jsonPayload SagaPayloadType_SagaSubmissionSuccess
                   (SagaSubmissionSuccessBody (Tm_Submitter msg) request ''{}''))"

definition submissionOutcome ::
    "coordinator \<Rightarrow> bool \<Rightarrow> TraxMessage \<Rightarrow> Payload \<Rightarrow> world \<Rightarrow> unit result \<times> world" where
  "submissionOutcome co ready msg request w =
     (if \<not> ready then (Err ''coordinator is not ready to accept saga submissions (database unhealthy or not running)'', w)
      else (case P_Data request of
              SagaSubmissionRequestBody p \<Rightarrow> submitSaga co msg p w
            | _ \<Rightarrow> (Err ''failed to unmarshal SagaSubmissionRequestPayload'', w)))"

text \<open>The callback on the submitter's outbox; it reads the first payload without looking whether there
  is one.  The reply goes to the inbox node of \<open>msg.Submitter\<close>.\<close>
definition onSubmission ::
    "coordinator \<Rightarrow> bool \<Rightarrow> TraxMessage \<Rightarrow> world \<Rightarrow> string option exit \<times> world" where
  "onSubmission co ready msg w =
     (case Tm_Payloads msg of
        [] \<Rightarrow> (Died ''index out of range [0] with length 0'', w)
      | request # _ \<Rightarrow>
          if P_Type request \<noteq> SagaPayloadType_SagaSubmissionRequest then (Return None, w)
          else
          (case submissionOutcome co ready msg request w of (r, w1) \<Rightarrow>
          (case replyMessage co msg (submissionReply co msg request r) w1 of (reply, w2) \<Rightarrow>
          (case mq_publish (fst (getSagaSubmitterInboxNodeNames (Tm_ClusterId msg) (Tm_Submitter msg))) '''' reply w2 of
             (Inl e, w3) \<Rightarrow> (Return (Some (''failed to publish saga submission failure: '' @ e)), w3)
           | (Inr _, w3) \<Rightarrow> (Return None, w3)))))"

section \<open>Following submitters\<close>

text \<open>\<open>followedMap\<close>: which submitters this process consumes.  The check and the insertion are two
  critical sections; the second result says whether a consumer is started.\<close>
definition followKey :: "string \<Rightarrow> string \<Rightarrow> string" where
  "followKey clusterId sagaSubmitterId = clusterId @ ''|'' @ sagaSubmitterId"

definition followSagaSubmitterIfNeeded ::
    "string \<Rightarrow> string \<Rightarrow> (string \<Rightarrow> bool) \<Rightarrow> (string \<Rightarrow> bool) \<times> string option" where
  "followSagaSubmitterIfNeeded clusterId sagaSubmitterId followed =
     (let key = followKey clusterId sagaSubmitterId
      in if followed key then (followed, None)
         else (followed(key := True), Some (snd (getSagaSubmitterOutboxNodeNames clusterId sagaSubmitterId))))"

end
