(* ===== verification/Submission_Safety.thy ===== *)
theory Submission_Safety
  imports Saga_Safety Coordinator_Submission
begin

text \<open>
  Accepting a saga keeps the database invariant: what a submission stores is one chain of steps whose
  first is a candidate and whose others are pending, and a submission that fails leaves nothing.
\<close>

section \<open>A new saga in the tables\<close>

lemma saga_rows_append: "saga_rows c i (S @ T) = saga_rows c i S @ saga_rows c i T"
  by (simp add: saga_rows_def)

lemma db_inv_new_saga:
  assumes J: "db_inv G S" and new: "\<And>x. x \<in> set G \<Longrightarrow> saga_key x \<noteq> saga_key g"
    and ch: "is_chain ss" and coh: "coherent (Si_State g) (map Ss_State ss)"
    and own: "\<And>r. r \<in> set ss \<Longrightarrow> (Ss_ClusterId r, Ss_SagaInstanceId r) = saga_key g"
    and ok: "\<And>r. r \<in> set ss \<Longrightarrow> step_ok r \<and> list_all isAlnum (Ss_InstanceId r)"
    and fresh: "\<And>r s. r \<in> set S \<Longrightarrow> s \<in> set ss \<Longrightarrow> Ss_InstanceId r \<noteq> Ss_InstanceId s"
  shows "db_inv (G @ [g]) (S @ ss)"
proof -
  have S: "\<And>r. r \<in> set S \<Longrightarrow> \<exists>x \<in> set G. saga_key x = (Ss_ClusterId r, Ss_SagaInstanceId r)"
    and G: "\<And>x. x \<in> set G \<Longrightarrow> saga_wf S x" using J by (auto simp: db_inv_def)
  have old: "saga_rows c i ss = []" if "(c, i) \<noteq> saga_key g" for c i
    using that own by (auto simp: saga_rows_def filter_empty_conv)
  have g_new: "saga_rows (Si_ClusterId g) (Si_InstanceId g) S = []"
  proof -
    have "(Ss_ClusterId r, Ss_SagaInstanceId r) \<noteq> saga_key g" if "r \<in> set S" for r
      using S[OF that] new by metis
    then show ?thesis by (auto simp: saga_rows_def filter_empty_conv)
  qed
  have g_rows: "saga_rows (Si_ClusterId g) (Si_InstanceId g) ss = ss"
    using own by (simp add: saga_rows_def filter_id_conv)
  have d: "distinct (map Ss_InstanceId ss)" using ch by (simp add: is_chain_def)
  have "distinct (map step_key (S @ ss))"
    using J d fresh by (auto simp: db_inv_def distinct_map inj_on_def)
  moreover have "distinct (map saga_key (G @ [g]))"
    using J new by (force simp: db_inv_def)
  moreover have "saga_wf (S @ ss) g"
    using order_chain[OF ch, of ss] coh
    by (simp add: saga_wf_def ordered_def saga_rows_append g_new g_rows)
  moreover have "saga_wf (S @ ss) x" if "x \<in> set G" for x
    using G[OF that] old new[OF that] by (simp add: saga_wf_def ordered_def saga_rows_append)
  moreover have "\<exists>x \<in> set (G @ [g]). saga_key x = (Ss_ClusterId r, Ss_SagaInstanceId r)" if "r \<in> set (S @ ss)" for r
    using that S own by auto
  ultimately show ?thesis using J ok by (auto simp: db_inv_def)
qed

section \<open>Distinct identifiers give distinct idempotency keys\<close>

lemma last_segment:
  assumes "a @ ''.'' @ x = b @ ''.'' @ y" "list_all isAlnum x" "list_all isAlnum y"
  shows "x = y"
proof -
  have t: "takeWhile (\<lambda>c. c \<noteq> CHR ''.'') (rev (z @ ''.'' @ v)) = rev v" if "list_all isAlnum v" for z v
  proof -
    have "\<forall>c \<in> set (rev v). c \<noteq> CHR ''.''" using that alnum_not_dot by (auto simp: list_all_iff)
    then show ?thesis by (simp add: takeWhile_append)
  qed
  have "rev x = rev y" using t[OF assms(2), of a] t[OF assms(3), of b] assms(1) by metis
  then show ?thesis by simp
qed

lemma step_key_determines_id:
  assumes "SagaStepInstance_SagaIdempotencyKey r = SagaStepInstance_SagaIdempotencyKey s"
    "list_all isAlnum (Ss_InstanceId r)" "list_all isAlnum (Ss_InstanceId s)"
  shows "Ss_InstanceId r = Ss_InstanceId s"
proof -
  define p where "p z = ''ssidk:'' @ Ss_ClusterId z @ ''.'' @ Ss_ZoneId z @ ''.'' @ Ss_SagaTemplateId z @ ''.'' @
     Ss_SagaStepTemplateId z" for z :: SagaStepInstance
  have "SagaStepInstance_SagaIdempotencyKey z = p z @ ''.'' @ Ss_InstanceId z" for z :: SagaStepInstance
    by (simp add: p_def SagaStepInstance_SagaIdempotencyKey_def getSagaStepIdempotencyKey_def)
  with assms(1) have "p r @ ''.'' @ Ss_InstanceId r = p s @ ''.'' @ Ss_InstanceId s" by simp
  then show ?thesis by (rule last_segment[OF _ assms(2,3)])
qed

section \<open>The linked steps\<close>

lemma length_linkSteps [simp]: "length (linkSteps steps) = length steps"
  by (simp add: linkSteps_def)

lemma linkSteps_nth:
  "i < length steps \<Longrightarrow> linkSteps steps ! i = (steps ! i)
     \<lparr>Ss_PreviousSagaStepInstanceId := (if 0 < i then Ss_InstanceId (steps ! (i - 1)) else ''''),
      Ss_NextSagaStepInstanceId :=
        (if i < length steps - 1 then Ss_InstanceId (steps ! (i + 1)) else Ss_NextSagaStepInstanceId (steps ! i))\<rparr>"
  by (simp add: linkSteps_def)

lemma linkSteps_ids [simp]: "map Ss_InstanceId (linkSteps steps) = map Ss_InstanceId steps"
  and linkSteps_states [simp]: "map Ss_State (linkSteps steps) = map Ss_State steps"
  by (auto intro!: nth_equalityI simp: linkSteps_nth)

lemma linkSteps_chain:
  assumes "distinct (map Ss_InstanceId steps)"
    "\<And>s. s \<in> set steps \<Longrightarrow> Ss_InstanceId s \<noteq> '''' \<and> Ss_NextSagaStepInstanceId s = ''''"
  shows "is_chain (linkSteps steps)"
proof -
  have id: "Ss_InstanceId (linkSteps steps ! i) = Ss_InstanceId (steps ! i)" if "i < length steps" for i
    using that by (simp add: linkSteps_nth)
  have "Ss_InstanceId s \<noteq> ''''" if "s \<in> set (linkSteps steps)" for s
    using that assms(2) id by (metis in_set_conv_nth length_linkSteps nth_mem)
  then show ?thesis
    using assms id by (auto simp: is_chain_def linkSteps_nth)
qed


section \<open>Storing the steps\<close>

abbreviation stamp :: "int \<Rightarrow> SagaStepInstance \<Rightarrow> SagaStepInstance" where
  "stamp t s \<equiv> s\<lparr>Ss_CreatedAt := t, Ss_UpdatedAt := t\<rparr>"

lemma insert_in_tx:
  assumes "w_tx w = Some d" "db_insert ok upd w = (r, w1)"
  shows "w_tx w1 = Some d \<and> w_dbtime w1 = w_dbtime w \<and> (\<forall>x. r = Inr x \<longrightarrow> w_db w1 = upd (w_db w) \<and> ok (w_db w))"
  using assms exec_any[of upd w r w1] by (auto simp: db_insert_def split: if_splits)

lemma query_in_tx:
  assumes "db_query q w = (r, w1)"
  shows "w_tx w1 = w_tx w \<and> w_dbtime w1 = w_dbtime w \<and> w_db w1 = w_db w \<and> (\<forall>x. r = Inr x \<longrightarrow> x = q (w_db w))"
  using assms by (auto simp: db_query_def next_fault_def split: if_splits prod.splits list.splits fault.splits)

lemma save_step:
  assumes tx: "w_tx w = Some d" and r: "SaveSagaStepInstanceIdempotently s w = (r, w1)"
    and new: "\<And>x. x \<in> set (db_steps (w_db w)) \<Longrightarrow> list_all isAlnum (Ss_InstanceId x) \<and> Ss_InstanceId x \<noteq> Ss_InstanceId s"
    and s: "list_all isAlnum (Ss_InstanceId s)"
  shows "w_tx w1 = Some d \<and> w_dbtime w1 = w_dbtime w \<and> (\<forall>x. r = Inr x \<longrightarrow>
     db_steps (w_db w1) = db_steps (w_db w) @ [stamp (w_dbtime w) s] \<and> db_sagas (w_db w1) = db_sagas (w_db w))"
proof -
  let ?q = "\<lambda>d. \<exists>r \<in> set (db_steps d). Ss_ClusterId r = Ss_ClusterId s \<and>
              SagaStepInstance_SagaIdempotencyKey r = SagaStepInstance_SagaIdempotencyKey s"
  obtain r1 v where q: "db_query ?q w = (r1, v)" by fastforce
  note q1 = query_in_tx[OF q]
  have nq: "\<not> ?q (w_db w)" using new s step_key_determines_id by blast
  show ?thesis
  proof (cases r1)
    case (Inl e)
    then show ?thesis using r q q1 tx by (auto simp: SaveSagaStepInstanceIdempotently_def)
  next
    case (Inr b)
    with q1 nq have b: "b = False" by auto
    let ?i = "db_insert (\<lambda>d. find_step (Ss_ClusterId s) (Ss_InstanceId s) d = None \<and>
                    find_saga (Ss_ClusterId s) (Ss_SagaInstanceId s) d \<noteq> None \<and>
                    Ss_SagaTemplateId s \<in> St_TemplateId ` set (db_templates d) \<and>
                    Ss_SagaStepTemplateId s \<in> Sst_TemplateId ` set (db_stepTemplates d))
                  (\<lambda>d. d\<lparr>db_steps := db_steps d @ [stamp (w_dbtime v) s]\<rparr>) v"
    obtain r2 v2 where i: "?i = (r2, v2)" by fastforce
    have t: "w_tx v = Some d" using q1 tx by simp
    note i1 = insert_in_tx[OF t i]
    show ?thesis
      using r q Inr b i i1 q1 by (cases r2) (auto simp: SaveSagaStepInstanceIdempotently_def notify_neutral)
  qed
qed

lemma save_steps:
  assumes "w_tx w = Some d" "saveSteps ss w = (r, w1)"
    "\<And>x. x \<in> set (db_steps (w_db w)) \<Longrightarrow> list_all isAlnum (Ss_InstanceId x) \<and> Ss_InstanceId x \<notin> Ss_InstanceId ` set ss"
    "\<And>s. s \<in> set ss \<Longrightarrow> list_all isAlnum (Ss_InstanceId s)" "distinct (map Ss_InstanceId ss)"
  shows "w_tx w1 = Some d \<and> w_dbtime w1 = w_dbtime w \<and> (\<forall>x. r = Inr x \<longrightarrow>
     db_steps (w_db w1) = db_steps (w_db w) @ map (stamp (w_dbtime w)) ss \<and> db_sagas (w_db w1) = db_sagas (w_db w))"
  using assms
proof (induction ss arbitrary: w)
  case (Cons s ss)
  obtain r1 v where s: "SaveSagaStepInstanceIdempotently s w = (r1, v)" by fastforce
  have sv: "w_tx v = Some d \<and> w_dbtime v = w_dbtime w \<and> (\<forall>x. r1 = Inr x \<longrightarrow>
     db_steps (w_db v) = db_steps (w_db w) @ [stamp (w_dbtime w) s] \<and> db_sagas (w_db v) = db_sagas (w_db w))"
    by (rule save_step[OF Cons.prems(1) s]) (use Cons.prems in auto)
  show ?case
  proof (cases r1)
    case (Inl e)
    then show ?thesis using Cons.prems(2) s sv by auto
  next
    case (Inr b)
    have "w_tx w1 = Some d \<and> w_dbtime w1 = w_dbtime v \<and> (\<forall>x. r = Inr x \<longrightarrow>
       db_steps (w_db w1) = db_steps (w_db v) @ map (stamp (w_dbtime v)) ss \<and> db_sagas (w_db w1) = db_sagas (w_db v))"
      by (rule Cons.IH) (use Cons.prems s sv Inr in auto)
    then show ?thesis using sv Inr by simp
  qed
qed simp

section \<open>Building the steps\<close>

text \<open>The strings a world will still draw.\<close>
definition draws :: "world \<Rightarrow> string list" where
  "draws w = map (SecureRandomString 32) (w_rand w)"

lemma draw_one:
  assumes "random_string w = (x, w1)" "draws w \<noteq> []"
  shows "draws w = x # draws w1 \<and> w_db w1 = w_db w \<and> w_tx w1 = w_tx w \<and> w_dbtime w1 = w_dbtime w \<and>
    list_all isAlnum x \<and> x \<noteq> ''''"
proof -
  have "SecureRandomString 32 r \<noteq> ''''" for r
    by (metis length_SecureRandomString list.size(3) zero_neq_numeral)
  then show ?thesis
    using assms SecureRandomString_alnum
    by (cases "w_rand w") (auto simp: random_string_def draws_def list_all_iff)
qed

definition submitted_step :: "TraxMessage \<Rightarrow> SagaSubmissionRequestPayload \<Rightarrow> nat \<Rightarrow> SagaStepInstance \<Rightarrow> bool" where
  "submitted_step msg p i s = (Ss_ClusterId s = Tm_ClusterId msg \<and> Ss_SagaInstanceId s = Sr_SagaInstanceId p \<and>
     Ss_State s = (if i = 0 then SagaStepStateEnum_ExecutionCandidate else SagaStepStateEnum_ExecutionPending) \<and>
     Ss_ExecutionHistory s = [] \<and> Ss_NextSagaStepInstanceId s = '''' \<and>
     list_all isAlnum (Ss_InstanceId s) \<and> Ss_InstanceId s \<noteq> '''')"

lemma template_query:
  "GetSagaStepTemplate tid w = (r, w1) \<Longrightarrow>
     w_tx w1 = w_tx w \<and> w_dbtime w1 = w_dbtime w \<and> w_db w1 = w_db w \<and> w_rand w1 = w_rand w"
  "GetSagaTemplate tid w = (r', w1) \<Longrightarrow>
     w_tx w1 = w_tx w \<and> w_dbtime w1 = w_dbtime w \<and> w_db w1 = w_db w \<and> w_rand w1 = w_rand w \<and>
     (\<forall>t. r' = Inr t \<longrightarrow> t \<in> set (db_templates (w_db w)))"
  by (auto simp: GetSagaStepTemplate_def GetSagaTemplate_def db_query_def next_fault_def find_template_def find_Some_iff
      split: sum.splits option.splits if_splits prod.splits list.splits fault.splits)

lemma build_steps:
  assumes "buildSteps co msg p k tids w = (r, w1)" "2 * length tids \<le> length (draws w)" "distinct (draws w)"
  shows "w_tx w1 = w_tx w \<and> w_dbtime w1 = w_dbtime w \<and> w_db w1 = w_db w \<and> (\<forall>steps. r = Inr steps \<longrightarrow>
     distinct (map Ss_InstanceId steps) \<and> Ss_InstanceId ` set steps \<subseteq> set (draws w) \<and>
     (\<forall>i < length steps. submitted_step msg p (k + i) (steps ! i)))"
  using assms
proof (induction tids arbitrary: k w r w1)
  case (Cons tid tids)
  obtain r1 v1 where t: "GetSagaStepTemplate tid w = (r1, v1)" by fastforce
  note n1 = template_query(1)[OF t]
  show ?case
  proof (cases r1)
    case (Inl e)
    then show ?thesis using Cons.prems(1) t n1 by auto
  next
    case (Inr stpl)
    obtain iid v2 where d1: "random_string v1 = (iid, v2)" by fastforce
    obtain eid v3 where d2: "random_string v2 = (eid, v3)" by fastforce
    obtain r4 v4 where b: "buildSteps co msg p (Suc k) tids v3 = (r4, v4)" by fastforce
    have dr: "draws v1 = draws w" using n1 by (simp add: draws_def)
    have 1: "draws v1 = iid # draws v2 \<and> w_db v2 = w_db v1 \<and> w_tx v2 = w_tx v1 \<and> w_dbtime v2 = w_dbtime v1 \<and>
        list_all isAlnum iid \<and> iid \<noteq> ''''"
      by (rule draw_one[OF d1]) (use Cons.prems(2) dr in auto)
    have 2: "draws v2 = eid # draws v3 \<and> w_db v3 = w_db v2 \<and> w_tx v3 = w_tx v2 \<and> w_dbtime v3 = w_dbtime v2 \<and>
        list_all isAlnum eid \<and> eid \<noteq> ''''"
    proof (rule draw_one[OF d2])
      have "length (draws w) = Suc (length (draws v2))" using dr 1 by (metis length_Cons)
      then show "draws v2 \<noteq> []" using Cons.prems(2) by auto
    qed
    have w3: "draws w = iid # eid # draws v3" using dr 1 2 by metis
    have IH: "w_tx v4 = w_tx v3 \<and> w_dbtime v4 = w_dbtime v3 \<and> w_db v4 = w_db v3 \<and> (\<forall>steps. r4 = Inr steps \<longrightarrow>
       distinct (map Ss_InstanceId steps) \<and> Ss_InstanceId ` set steps \<subseteq> set (draws v3) \<and>
       (\<forall>i < length steps. submitted_step msg p (Suc k + i) (steps ! i)))"
      by (rule Cons.IH[OF b]) (use Cons.prems(2,3) w3 in auto)
    show ?thesis
    proof (cases r4)
      case (Inl e)
      then show ?thesis using Cons.prems(1) t \<open>r1 = Inr stpl\<close> d1 d2 b n1 1 2 IH by auto
    next
      case (Inr steps)
      let ?s = "newStepInstance co msg p stpl tid k iid eid"
      have res: "r = Inr (?s # steps)" "w1 = v4"
        using Cons.prems(1) t \<open>r1 = Inr stpl\<close> d1 d2 b Inr by auto
      have s: "submitted_step msg p k ?s" using 1 by (simp add: submitted_step_def newStepInstance_def)
      have id: "Ss_InstanceId ?s = iid" by (simp add: newStepInstance_def)
      have sub: "submitted_step msg p (k + i) ((?s # steps) ! i)" if "i < length (?s # steps)" for i
        using that s IH Inr by (cases i) auto
      have "iid \<notin> set (draws v3)" "set (draws v3) \<subseteq> set (draws w)" "iid \<in> set (draws w)"
        using Cons.prems(3) w3 by auto
      then show ?thesis using res id sub n1 1 2 IH Inr by auto
    qed
  qed
qed (simp)

section \<open>The submission\<close>

lemma save_saga:
  assumes tx: "w_tx w = Some d" and r: "SaveSagaInstanceIdempotently g w = (r, w1)"
  shows "w_tx w1 = Some d \<and> w_dbtime w1 = w_dbtime w \<and> (\<forall>b. r = Inr b \<longrightarrow>
     db_steps (w_db w1) = db_steps (w_db w) \<and>
     (if b then (\<forall>x \<in> set (db_sagas (w_db w)). saga_key x \<noteq> saga_key g) \<and>
        db_sagas (w_db w1) = db_sagas (w_db w) @ [g\<lparr>Si_CreatedAt := w_dbtime w, Si_UpdatedAt := w_dbtime w\<rparr>]
      else db_sagas (w_db w1) = db_sagas (w_db w)))"
proof -
  let ?q = "\<lambda>d. \<exists>r \<in> set (db_sagas d). Si_ClusterId r = Si_ClusterId g \<and>
              SagaInstance_SagaIdempotencyKey r = SagaInstance_SagaIdempotencyKey g"
  obtain r1 v where q: "db_query ?q w = (r1, v)" by fastforce
  note q1 = query_in_tx[OF q]
  show ?thesis
  proof (cases r1)
    case (Inl e)
    then show ?thesis using r q q1 tx by (auto simp: SaveSagaInstanceIdempotently_def)
  next
    case (Inr b)
    show ?thesis
    proof (cases b)
      case True
      then show ?thesis using r q q1 tx Inr by (auto simp: SaveSagaInstanceIdempotently_def)
    next
      case False
      let ?i = "db_insert (\<lambda>d. find_saga (Si_ClusterId g) (Si_InstanceId g) d = None \<and>
                    Si_SagaTemplateId g \<in> St_TemplateId ` set (db_templates d))
                  (\<lambda>d. d\<lparr>db_sagas := db_sagas d @
                    [g\<lparr>Si_CreatedAt := w_dbtime v, Si_UpdatedAt := w_dbtime v\<rparr>]\<rparr>) v"
      obtain r2 v2 where i: "?i = (r2, v2)" by fastforce
      have t: "w_tx v = Some d" using q1 tx by simp
      note i1 = insert_in_tx[OF t i]
      show ?thesis
        using r q Inr False i i1 q1
        by (cases r2) (auto simp: SaveSagaInstanceIdempotently_def find_saga_def find_None_iff)
    qed
  qed
qed

lemma submitted_pattern:
  assumes "\<And>i. i < length ss \<Longrightarrow> submitted_step msg p i (ss ! i)"
  shows "in_flight (map Ss_State ss)"
proof (cases "ss = []")
  case False
  then have "forward_at (map Ss_State ss) 0"
    using assms by (auto simp: forward_at_def submitted_step_def fwd_active_def)
  then show ?thesis by (auto simp: in_flight_def)
qed (simp add: in_flight_def)

lemma framed_stamp: "framed (stamp t)"
  by (simp add: framed_def link_preserving_def)

lemma is_chain_map: "link_preserving f \<Longrightarrow> is_chain ss \<Longrightarrow> is_chain (map f ss)"
  by (auto simp: is_chain_def link_preserving_def comp_def)

lemma storeSaga_inv:
  assumes tx: "w_tx w = Some d" and J: "db_inv (db_sagas (w_db w)) (db_steps (w_db w))"
    and g: "Si_State g = SagaStateEnum_Running" "Si_ClusterId g = Tm_ClusterId msg" "Si_InstanceId g = Sr_SagaInstanceId p"
    and sub: "\<And>i. i < length steps \<Longrightarrow> submitted_step msg p i (steps ! i)"
    and d: "distinct (map Ss_InstanceId steps)"
    and fresh: "\<And>x. x \<in> set (db_steps (w_db w)) \<Longrightarrow> Ss_InstanceId x \<notin> Ss_InstanceId ` set steps"
    and r: "storeSaga g (linkSteps steps) w = (r, w1)"
  shows "w_tx w1 = Some d \<and> (r = Inr () \<longrightarrow> db_inv (db_sagas (w_db w1)) (db_steps (w_db w1)))"
proof -
  let ?t = "w_dbtime w" and ?ss = "linkSteps steps"
  obtain r1 v where s: "SaveSagaInstanceIdempotently g w = (r1, v)" by fastforce
  note s1 = save_saga[OF tx s]
  have sub_mem: "\<exists>i. submitted_step msg p i x" if "x \<in> set steps" for x
    using that sub by (metis in_set_conv_nth)
  have ch: "is_chain ?ss"
    by (rule linkSteps_chain[OF d]) (use sub_mem in \<open>fastforce simp: submitted_step_def\<close>)
  have own: "submitted_step msg p i ((?ss ! i)\<lparr>Ss_NextSagaStepInstanceId := ''''\<rparr>)" if "i < length steps" for i
    using sub[OF that] that by (simp add: linkSteps_nth submitted_step_def)
  have mem: "\<exists>i. submitted_step msg p i (x\<lparr>Ss_NextSagaStepInstanceId := ''''\<rparr>)" if "x \<in> set ?ss" for x
    using that own by (metis in_set_conv_nth length_linkSteps)
  have ids: "Ss_InstanceId ` set ?ss = Ss_InstanceId ` set steps"
    by (metis linkSteps_ids set_map)
  show ?thesis
  proof (cases r1)
    case (Inl e)
    then show ?thesis using r s s1 by (auto simp: storeSaga_def)
  next
    case (Inr b)
    show ?thesis
    proof (cases b)
      case False
      then show ?thesis using r s s1 Inr J by (auto simp: storeSaga_def)
    next
      case True
      have sv: "saveSteps ?ss v = (r, w1)" using r s Inr True by (simp add: storeSaga_def)
      let ?g = "g\<lparr>Si_CreatedAt := ?t, Si_UpdatedAt := ?t\<rparr>"
      have v: "w_tx v = Some d" "w_dbtime v = ?t" "db_steps (w_db v) = db_steps (w_db w)"
        "db_sagas (w_db v) = db_sagas (w_db w) @ [?g]"
        and new: "\<And>x. x \<in> set (db_sagas (w_db w)) \<Longrightarrow> saga_key x \<noteq> saga_key ?g"
        using s1 Inr True by auto
      have al: "list_all isAlnum (Ss_InstanceId x)" if "x \<in> set ?ss" for x
        using mem[OF that] by (auto simp: submitted_step_def)
      have ss: "w_tx w1 = Some d \<and> w_dbtime w1 = w_dbtime v \<and> (\<forall>x. r = Inr x \<longrightarrow>
          db_steps (w_db w1) = db_steps (w_db v) @ map (stamp (w_dbtime v)) ?ss \<and>
          db_sagas (w_db w1) = db_sagas (w_db v))"
        by (rule save_steps[OF v(1) sv]) (use J fresh al d ids v in \<open>auto simp: db_inv_def\<close>)
      have "db_inv (db_sagas (w_db w) @ [?g]) (db_steps (w_db w) @ map (stamp ?t) ?ss)"
      proof (rule db_inv_new_saga[OF J])
        show "is_chain (map (stamp ?t) ?ss)"
          using is_chain_map[OF _ ch] framed_stamp by (simp add: framed_def)
        have "map Ss_State (map (stamp ?t) ?ss) = map Ss_State steps" by (simp add: comp_def)
        then show "coherent (Si_State ?g) (map Ss_State (map (stamp ?t) ?ss))"
          using submitted_pattern[OF sub] g(1) by simp
        show "saga_key x \<noteq> saga_key ?g" if "x \<in> set (db_sagas (w_db w))" for x by (rule new[OF that])
        show "(Ss_ClusterId x, Ss_SagaInstanceId x) = saga_key ?g" if "x \<in> set (map (stamp ?t) ?ss)" for x
          using that mem g by (auto simp: submitted_step_def)
        show "step_ok x \<and> list_all isAlnum (Ss_InstanceId x)" if x: "x \<in> set (map (stamp ?t) ?ss)" for x
        proof -
          from x obtain y where y: "y \<in> set ?ss" "x = stamp ?t y" by auto
          with mem obtain i where "submitted_step msg p i (y\<lparr>Ss_NextSagaStepInstanceId := ''''\<rparr>)" by blast
          with y show ?thesis by (cases i) (simp_all add: submitted_step_def step_ok_def)
        qed
        show "Ss_InstanceId x \<noteq> Ss_InstanceId y"
          if x: "x \<in> set (db_steps (w_db w))" and y: "y \<in> set (map (stamp ?t) ?ss)" for x y
        proof -
          from y obtain z where z: "z \<in> set ?ss" "y = stamp ?t z" by auto
          then have "Ss_InstanceId y \<in> Ss_InstanceId ` set steps" using ids by force
          with fresh[OF x] show ?thesis by metis
        qed
      qed
      then show ?thesis using ss v by auto
    qed
  qed
qed

text \<open>What a submission needs of its random strings: enough of them, no two equal, none already the id of
  a step.  They are 32 characters of \<open>crypto/rand\<close>, one of 62 to the 32nd possibilities.\<close>
definition draws_needed :: "db \<Rightarrow> nat \<Rightarrow> bool" where
  "draws_needed d n = (\<forall>t \<in> set (db_templates d). Suc (2 * length (St_SagaStepTemplateIds t)) \<le> n)"

definition fresh_enough :: "world \<Rightarrow> bool" where
  "fresh_enough w = (distinct (draws w) \<and> draws_needed (w_db w) (length (draws w)) \<and>
     (\<forall>r \<in> set (db_steps (w_db w)). Ss_InstanceId r \<notin> set (draws w)))"

lemma submissionBody_inv:
  assumes tx: "w_tx w = Some d" and J: "db_inv (db_sagas (w_db w)) (db_steps (w_db w))" and f: "fresh_enough w"
    and r: "submissionBody co msg p w = (r, w1)"
  shows "w_tx w1 = Some d \<and> (r = Inr () \<longrightarrow> db_inv (db_sagas (w_db w1)) (db_steps (w_db w1)))"
proof -
  obtain r1 v1 where t: "GetSagaTemplate (Sr_SagaTemplateId p) w = (r1, v1)" by fastforce
  note n1 = template_query(2)[OF t]
  show ?thesis
  proof (cases r1)
    case (Inl e)
    then show ?thesis using r t n1 tx by (auto simp: submissionBody_def)
  next
    case (Inr tpl)
    obtain eid v2 where d1: "random_string v1 = (eid, v2)" by fastforce
    obtain r3 v3 where b: "buildSteps co msg p 0 (St_SagaStepTemplateIds tpl) v2 = (r3, v3)" by fastforce
    have dr: "draws v1 = draws w" using n1 by (simp add: draws_def)
    have len: "Suc (2 * length (St_SagaStepTemplateIds tpl)) \<le> length (draws w)"
      using f n1 Inr by (auto simp: fresh_enough_def draws_needed_def)
    have 1: "draws v1 = eid # draws v2 \<and> w_db v2 = w_db v1 \<and> w_tx v2 = w_tx v1 \<and> w_dbtime v2 = w_dbtime v1 \<and>
        list_all isAlnum eid \<and> eid \<noteq> ''''"
      by (rule draw_one[OF d1]) (use len dr in auto)
    have w2: "draws w = eid # draws v2" using dr 1 by simp
    note bs = build_steps[OF b]
    have bs: "w_tx v3 = w_tx v2 \<and> w_dbtime v3 = w_dbtime v2 \<and> w_db v3 = w_db v2 \<and> (\<forall>steps. r3 = Inr steps \<longrightarrow>
       distinct (map Ss_InstanceId steps) \<and> Ss_InstanceId ` set steps \<subseteq> set (draws v2) \<and>
       (\<forall>i < length steps. submitted_step msg p (0 + i) (steps ! i)))"
      by (rule build_steps[OF b]) (use len f w2 in \<open>auto simp: fresh_enough_def\<close>)
    show ?thesis
    proof (cases r3)
      case (Inl e)
      then show ?thesis using r t \<open>r1 = Inr tpl\<close> d1 b n1 1 bs tx by (auto simp: submissionBody_def)
    next
      case (Inr steps)
      let ?g = "(newSagaInstance msg p tpl eid)\<lparr>Si_SagaInstanceIds := map Ss_InstanceId steps\<rparr>"
      have st: "storeSaga ?g (linkSteps steps) v3 = (r, w1)"
        using r t \<open>r1 = Inr tpl\<close> d1 b Inr by (simp add: submissionBody_def)
      show ?thesis
      proof (rule storeSaga_inv[OF _ _ _ _ _ _ _ _ st])
        show "w_tx v3 = Some d" "db_inv (db_sagas (w_db v3)) (db_steps (w_db v3))"
          using bs 1 n1 tx J by auto
        show "Si_State ?g = SagaStateEnum_Running" "Si_ClusterId ?g = Tm_ClusterId msg"
          "Si_InstanceId ?g = Sr_SagaInstanceId p" by (simp_all add: newSagaInstance_def)
        show "distinct (map Ss_InstanceId steps)" using bs Inr by simp
        show "submitted_step msg p i (steps ! i)" if "i < length steps" for i using bs Inr that by simp
        show "Ss_InstanceId x \<notin> Ss_InstanceId ` set steps" if "x \<in> set (db_steps (w_db v3))" for x
          using that bs Inr f w2 n1 1 by (auto simp: fresh_enough_def)
      qed
    qed
  qed
qed

lemma submitSaga_safe:
  assumes i: "idle w" and f: "fresh_enough w" and r: "submitSaga co msg p w = (r, w1)"
  shows "idle w1"
proof -
  have J: "db_inv (db_sagas (w_db w)) (db_steps (w_db w))" using i by (simp add: idle_def)
  obtain r1 v1 where b: "BeginTransaction w = (r1, v1)" by fastforce
  have v1: "w_db v1 = w_db w" "w_rand v1 = w_rand w"
    "(case r1 of Inl e \<Rightarrow> w_tx v1 = None | Inr _ \<Rightarrow> w_tx v1 = Some (w_db w))"
    using b i by (auto simp: BeginTransaction_def next_fault_def idle_def
        split: list.splits fault.splits prod.splits option.splits)
  show ?thesis
  proof (cases r1)
    case (Inl e)
    then show ?thesis using r b v1 i by (auto simp: submitSaga_def idle_def)
  next
    case (Inr u)
    obtain r2 v2 where s: "submissionBody co msg p v1 = (r2, v2)" by fastforce
    have tx: "w_tx v1 = Some (w_db w)" using v1 Inr by simp
    have s2: "w_tx v2 = Some (w_db w) \<and> (r2 = Inr () \<longrightarrow> db_inv (db_sagas (w_db v2)) (db_steps (w_db v2)))"
      by (rule submissionBody_inv[OF tx _ _ s]) (use J f v1 in \<open>auto simp: fresh_enough_def draws_def\<close>)
    show ?thesis
    proof (cases r2)
      case (Inl e)
      obtain r3 v3 where rb: "RollbackTransaction v2 = (r3, v3)" by fastforce
      have "idle v3" using rb s2 J
        by (auto simp: RollbackTransaction_def next_fault_def idle_def split: list.splits fault.splits prod.splits)
      then show ?thesis using r b s \<open>r1 = Inr u\<close> Inl rb
        by (cases r3) (auto simp: submitSaga_def rollbackWith_def)
    next
      case (Inr x)
      obtain r3 v3 where cm: "CommitTransaction v2 = (r3, v3)" by fastforce
      have "idle v3" using cm s2 J Inr
        by (auto simp: CommitTransaction_def next_fault_def idle_def split: list.splits fault.splits prod.splits if_splits)
      then show ?thesis using r b s \<open>r1 = Inr u\<close> Inr cm
        by (cases r3) (auto simp: submitSaga_def)
    qed
  qed
qed

lemma onSubmission_safe:
  assumes i: "idle w" and f: "fresh_enough w" and r: "onSubmission co ready msg w = (x, w1)"
  shows "idle w1 \<and> (Tm_Payloads msg \<noteq> [] \<longrightarrow> (\<exists>y. x = Return y))"
proof (cases "Tm_Payloads msg")
  case Nil
  then show ?thesis using r i by (simp add: onSubmission_def)
next
  case (Cons request ps)
  show ?thesis
  proof (cases "P_Type request \<noteq> SagaPayloadType_SagaSubmissionRequest")
    case True
    then show ?thesis using r i Cons by (auto simp: onSubmission_def)
  next
    case False
    obtain r1 v1 where o: "submissionOutcome co ready msg request w = (r1, v1)" by fastforce
    have i1: "idle v1" using o i f submitSaga_safe
      by (auto simp: submissionOutcome_def split: if_splits PayloadBody.splits)
    obtain m v2 where m: "replyMessage co msg (submissionReply co msg request r1) v1 = (m, v2)" by fastforce
    have i2: "idle v2" using m i1
      by (auto simp: replyMessage_def idle_def random_string_def time_now_def split: prod.splits list.splits)
    obtain r3 v3 where q: "mq_publish (fst (getSagaSubmitterInboxNodeNames (Tm_ClusterId msg) (Tm_Submitter msg))) '''' m v2 = (r3, v3)"
      by fastforce
    have "idle v3" using neutralD[OF neutral_ops(4) q] i2 by (simp add: idle_def)
    then show ?thesis using r Cons False o m q
      by (cases r3) (auto simp: onSubmission_def)
  qed
qed

end
