(* ===== verification/Saga_Registry.thy ===== *)
theory Saga_Registry
  imports Store_Templates
begin

text \<open>
  What the coordinator expects of the saga table of a \<open>Store\<close> (\<open>pkg/trax/store.go\<close>), as a locale, with
  the lemmas a client gets from it, and the PostgreSQL store's proof that it provides it when no call
  fails.  A view of a store maps (cluster id, instance id) to the saga without its database timestamps.
\<close>

definition unstamped :: "SagaInstance \<Rightarrow> SagaInstance" where
  "unstamped g = g\<lparr>Si_CreatedAt := 0, Si_UpdatedAt := 0\<rparr>"

definition sagaIdent :: "SagaInstance \<Rightarrow> string \<times> string" where
  "sagaIdent g = (Si_ClusterId g, Si_InstanceId g)"

definition keyed_in :: "(string \<times> string \<rightharpoonup> SagaInstance) \<Rightarrow> SagaInstance \<Rightarrow> bool" where
  "keyed_in v g = (\<exists>x \<in> ran v. Si_ClusterId x = Si_ClusterId g \<and>
     SagaInstance_SagaIdempotencyKey x = SagaInstance_SagaIdempotencyKey g)"

lemma unstamped_simps [simp]:
  "unstamped (unstamped g) = unstamped g" "Si_ClusterId (unstamped g) = Si_ClusterId g"
  "Si_InstanceId (unstamped g) = Si_InstanceId g" "Si_State (unstamped g) = Si_State g"
  "SagaInstance_SagaIdempotencyKey (unstamped g) = SagaInstance_SagaIdempotencyKey g"
  "sagaIdent (unstamped g) = sagaIdent g"
  by (simp_all add: unstamped_def SagaInstance_SagaIdempotencyKey_def sagaIdent_def)

lemma keyed_in_unstamped [simp]: "keyed_in v (unstamped g) = keyed_in v g"
  by (simp add: keyed_in_def)

locale saga_registry =
  fixes wf :: "'s \<Rightarrow> bool"
    and view :: "'s \<Rightarrow> string \<times> string \<rightharpoonup> SagaInstance"
    and admits :: "'s \<Rightarrow> SagaInstance \<Rightarrow> bool"
    and save :: "SagaInstance \<Rightarrow> 's \<Rightarrow> bool result \<times> 's"
    and trigger :: "string \<Rightarrow> string \<Rightarrow> 's \<Rightarrow> unit result \<times> 's"
    and force :: "string \<Rightarrow> string \<Rightarrow> string \<Rightarrow> 's \<Rightarrow> unit result \<times> 's"
  assumes view_ident: "wf s \<Longrightarrow> view s k = Some x \<Longrightarrow> sagaIdent x = k"
    and save_known: "wf s \<Longrightarrow> keyed_in (view s) g \<Longrightarrow>
      \<exists>s'. save g s = (Ok False, s') \<and> wf s' \<and> view s' = view s"
    and save_fresh: "wf s \<Longrightarrow> \<not> keyed_in (view s) g \<Longrightarrow> view s (sagaIdent g) = None \<Longrightarrow> admits s g \<Longrightarrow>
      \<exists>s'. save g s = (Ok True, s') \<and> wf s' \<and> view s' = (view s)(sagaIdent g \<mapsto> unstamped g)"
    and trigger_refused: "wf s \<Longrightarrow> (\<And>x. view s (c, i) = Some x \<Longrightarrow> Si_State x \<noteq> SagaStateEnum_Committed) \<Longrightarrow>
      \<exists>e s'. trigger c i s = (Err e, s') \<and> wf s' \<and> view s' = view s"
    and trigger_done: "wf s \<Longrightarrow> view s (c, i) = Some x \<Longrightarrow> Si_State x = SagaStateEnum_Committed \<Longrightarrow>
      \<exists>s'. trigger c i s = (Ok (), s') \<and> wf s' \<and>
        view s' = (view s)((c, i) \<mapsto> x\<lparr>Si_State := SagaStateEnum_CompensationRequested\<rparr>)"
    and force_refused: "wf s \<Longrightarrow> r = '''' \<or> (\<forall>x. view s (c, i) = Some x \<longrightarrow> Si_State x \<noteq> SagaStateEnum_Blocked) \<Longrightarrow>
      \<exists>e s'. force c i r s = (Err e, s') \<and> wf s' \<and> view s' = view s"
    and force_done: "wf s \<Longrightarrow> r \<noteq> '''' \<Longrightarrow> view s (c, i) = Some x \<Longrightarrow> Si_State x = SagaStateEnum_Blocked \<Longrightarrow>
      \<exists>s'. force c i r s = (Ok (), s') \<and> wf s' \<and>
        view s' = (view s)((c, i) \<mapsto> x\<lparr>Si_State := SagaStateEnum_Compensated,
                                      Si_CompensationReason := ''[FORCE-MARKED] '' @ r\<rparr>)"
begin

lemma save_twice:
  assumes "wf s" and "\<not> keyed_in (view s) g" and "view s (sagaIdent g) = None" and "admits s g"
  shows "\<exists>s1 s2. save g s = (Ok True, s1) \<and> save g s1 = (Ok False, s2) \<and> wf s2 \<and>
    view s2 = (view s)(sagaIdent g \<mapsto> unstamped g)"
proof -
  obtain s1 where s1: "save g s = (Ok True, s1)" "wf s1" "view s1 = (view s)(sagaIdent g \<mapsto> unstamped g)"
    using save_fresh[OF assms] by blast
  have "unstamped g \<in> ran (view s1)" by (rule ranI[of _ "sagaIdent g"]) (simp add: s1(3))
  then have "keyed_in (view s1) g" by (auto simp: keyed_in_def intro: bexI[of _ "unstamped g"])
  then show ?thesis using save_known[OF s1(2)] s1 by metis
qed

lemma trigger_once:
  assumes "wf s" and "trigger c i s = (Ok u, s1)"
  shows "\<exists>x. view s (c, i) = Some x \<and> Si_State x = SagaStateEnum_Committed \<and>
    view s1 = (view s)((c, i) \<mapsto> x\<lparr>Si_State := SagaStateEnum_CompensationRequested\<rparr>) \<and>
    (\<exists>e s2. trigger c i s1 = (Err e, s2) \<and> view s2 = view s1)"
proof -
  obtain x where x: "view s (c, i) = Some x" "Si_State x = SagaStateEnum_Committed"
    using trigger_refused[OF assms(1)] assms(2) by fastforce
  have w: "wf s1" "view s1 = (view s)((c, i) \<mapsto> x\<lparr>Si_State := SagaStateEnum_CompensationRequested\<rparr>)"
    using trigger_done[OF assms(1) x] assms(2) by auto
  show ?thesis using x w trigger_refused[OF w(1), of c i] by fastforce
qed

lemma force_only_blocked:
  assumes "wf s" and "force c i r s = (Ok u, s1)"
  shows "r \<noteq> '''' \<and> (\<exists>x. view s (c, i) = Some x \<and> Si_State x = SagaStateEnum_Blocked)"
  using force_refused[OF assms(1), of r c i] assms(2) by fastforce

lemma others_untouched:
  assumes "wf s" and "k \<noteq> (c, i)"
  shows "view (snd (trigger c i s)) k = view s k" and "view (snd (force c i r s)) k = view s k"
proof -
  show "view (snd (trigger c i s)) k = view s k"
  proof (cases "\<exists>x. view s (c, i) = Some x \<and> Si_State x = SagaStateEnum_Committed")
    case True
    then show ?thesis using trigger_done[OF assms(1), of c i] assms(2) by fastforce
  next
    case False
    then show ?thesis using trigger_refused[OF assms(1), of c i] by fastforce
  qed
  show "view (snd (force c i r s)) k = view s k"
  proof (cases "r \<noteq> '''' \<and> (\<exists>x. view s (c, i) = Some x \<and> Si_State x = SagaStateEnum_Blocked)")
    case True
    then show ?thesis using force_done[OF assms(1), of r c i] assms(2) by fastforce
  next
    case False
    then show ?thesis using force_refused[OF assms(1), of r c i] by fastforce
  qed
qed

end

section \<open>The PostgreSQL store provides it\<close>

definition psql_wf :: "world \<Rightarrow> bool" where
  "psql_wf w = (w_faults w = [] \<and> (w_tx w \<noteq> None \<longrightarrow> \<not> w_aborted w) \<and>
     distinct (map sagaIdent (db_sagas (w_db w))))"

definition psql_view :: "world \<Rightarrow> string \<times> string \<rightharpoonup> SagaInstance" where
  "psql_view w k = map_option unstamped (find_saga (fst k) (snd k) (w_db w))"

definition psql_admits :: "world \<Rightarrow> SagaInstance \<Rightarrow> bool" where
  "psql_admits w g = (Si_SagaTemplateId g \<in> St_TemplateId ` set (db_templates (w_db w)))"

lemma find_saga_ident: "find_saga (fst k) (snd k) d = find (\<lambda>r. sagaIdent r = k) (db_sagas d)"
  by (cases k) (auto simp: find_saga_def sagaIdent_def intro!: arg_cong[where f = "\<lambda>p. find p _"])

lemma find_ident_iff:
  "distinct (map sagaIdent rs) \<Longrightarrow> find (\<lambda>r. sagaIdent r = k) rs = Some r \<longleftrightarrow> r \<in> set rs \<and> sagaIdent r = k"
  by (induction rs) auto

lemma psql_view_Some:
  "psql_wf w \<Longrightarrow> psql_view w k = Some x \<longleftrightarrow> (\<exists>r \<in> set (db_sagas (w_db w)). sagaIdent r = k \<and> x = unstamped r)"
  by (auto simp: psql_view_def psql_wf_def find_saga_ident find_ident_iff)

lemma psql_ran: "psql_wf w \<Longrightarrow> ran (psql_view w) = unstamped ` set (db_sagas (w_db w))"
  by (auto simp: ran_def psql_view_Some) (metis surj_pair)

lemma psql_keyed:
  "psql_wf w \<Longrightarrow> keyed_in (psql_view w) g \<longleftrightarrow> (\<exists>r \<in> set (db_sagas (w_db w)). Si_ClusterId r = Si_ClusterId g \<and>
     SagaInstance_SagaIdempotencyKey r = SagaInstance_SagaIdempotencyKey g)"
  by (simp add: keyed_in_def psql_ran)

lemma works [simp]: "w_faults w = [] \<Longrightarrow> next_fault w = (Works, w)"
  by (simp add: next_fault_def)

lemma find_updated:
  "(\<And>r. sagaIdent (f r) = sagaIdent r) \<Longrightarrow>
   find (\<lambda>r. sagaIdent r = k) (map (\<lambda>r. if sagaIdent r = j then f r else r) rs) =
   map_option (\<lambda>r. if k = j then f r else r) (find (\<lambda>r. sagaIdent r = k) rs)"
  by (induction rs) auto

lemma update_rows_ident:
  "db_sagas (update_saga_rows c i f d) = map (\<lambda>r. if sagaIdent r = (c, i) then f r else r) (db_sagas d)"
  by (simp add: update_saga_rows_def sagaIdent_def)

lemma psql_update_view:
  assumes "\<And>r. sagaIdent (f r) = sagaIdent r"
  shows "psql_view (w\<lparr>w_db := update_saga_rows c i f (w_db w)\<rparr>) k =
    (if k = (c, i) then map_option (unstamped \<circ> f) (find_saga c i (w_db w)) else psql_view w k)"
  using find_updated[of f k "(c, i)" "db_sagas (w_db w)", OF assms] find_saga_ident[of "(c, i)"]
  by (auto simp: psql_view_def find_saga_ident update_rows_ident option.map_comp comp_def)

lemma psql_update_wf:
  assumes "\<And>r. sagaIdent (f r) = sagaIdent r" and "psql_wf w"
  shows "psql_wf (w\<lparr>w_db := update_saga_rows c i f (w_db w)\<rparr>)"
proof -
  have "map sagaIdent (map (\<lambda>r. if sagaIdent r = j then f r else r) rs) = map sagaIdent rs" for j rs
    using assms(1) by (induction rs) auto
  then show ?thesis using assms(2) by (simp add: psql_wf_def update_rows_ident del: map_map)
qed

lemma psql_save_known:
  assumes "psql_wf s" and "keyed_in (psql_view s) g"
  shows "\<exists>s'. SaveSagaInstanceIdempotently g s = (Ok False, s') \<and> psql_wf s' \<and> psql_view s' = psql_view s"
proof -
  have "\<exists>r \<in> set (db_sagas (w_db s)). Si_ClusterId r = Si_ClusterId g \<and>
      SagaInstance_SagaIdempotencyKey r = SagaInstance_SagaIdempotencyKey g"
    using assms psql_keyed by blast
  moreover have "db_query q s = (Ok (q (w_db s)), s)" for q :: "db \<Rightarrow> bool"
    using assms(1) by (auto simp: psql_wf_def db_query_def)
  ultimately show ?thesis using assms(1) by (auto simp: SaveSagaInstanceIdempotently_def)
qed

lemma psql_query: "psql_wf s \<Longrightarrow> db_query q s = (Ok (q (w_db s)), s)"
  by (auto simp: psql_wf_def db_query_def)

lemma psql_exec: "psql_wf s \<Longrightarrow> db_exec u s = (Ok (), s\<lparr>w_db := u (w_db s)\<rparr>)"
  by (auto simp: psql_wf_def db_exec_def)

lemma find_snoc: "find P (xs @ [y]) = (case find P xs of Some r \<Rightarrow> Some r | None \<Rightarrow> if P y then Some y else None)"
  by (induction xs) auto

lemma psql_save_fresh:
  assumes "psql_wf s" and "\<not> keyed_in (psql_view s) g" and "psql_view s (sagaIdent g) = None" and "psql_admits s g"
  shows "\<exists>s'. SaveSagaInstanceIdempotently g s = (Ok True, s') \<and> psql_wf s' \<and>
    psql_view s' = (psql_view s)(sagaIdent g \<mapsto> unstamped g)"
proof -
  let ?g = "g\<lparr>Si_CreatedAt := w_dbtime s, Si_UpdatedAt := w_dbtime s\<rparr>"
  let ?s = "s\<lparr>w_db := (w_db s)\<lparr>db_sagas := db_sagas (w_db s) @ [?g]\<rparr>\<rparr>"
  have new: "find_saga (Si_ClusterId g) (Si_InstanceId g) (w_db s) = None"
    using assms(3) by (simp add: psql_view_def sagaIdent_def)
  have id: "sagaIdent ?g = sagaIdent g" "unstamped ?g = unstamped g" by (simp_all add: sagaIdent_def unstamped_def)
  have none: "\<forall>r \<in> set (db_sagas (w_db s)). sagaIdent r \<noteq> sagaIdent g"
    using new by (auto simp: find_saga_def find_None_iff sagaIdent_def)
  have nf: "find (\<lambda>r. sagaIdent r = sagaIdent g) (db_sagas (w_db s)) = None"
    using none by (auto simp: find_None_iff)
  have "(\<exists>r \<in> set (db_sagas (w_db s)). Si_ClusterId r = Si_ClusterId g \<and>
      SagaInstance_SagaIdempotencyKey r = SagaInstance_SagaIdempotencyKey g) = False"
    using assms(1,2) psql_keyed by blast
  note absent = this
  have "SaveSagaInstanceIdempotently g s = (Ok True, ?s)"
    using new assms(4) unfolding psql_admits_def
    by (simp add: absent SaveSagaInstanceIdempotently_def psql_query[OF assms(1)] db_insert_def psql_exec[OF assms(1)])
  moreover have "psql_wf ?s" using assms(1) none id by (auto simp: psql_wf_def)
  moreover have "psql_view ?s k = ((psql_view s)(sagaIdent g \<mapsto> unstamped g)) k" for k
    using id nf by (auto simp: psql_view_def find_saga_ident find_snoc split: option.splits)
  ultimately show ?thesis by blast
qed

lemma find_saga_affected:
  "psql_wf s \<Longrightarrow> (\<exists>r \<in> set (db_sagas (w_db s)). Si_ClusterId r = c \<and> Si_InstanceId r = i \<and> P (Si_State r)) \<longleftrightarrow>
   (\<exists>r. find_saga c i (w_db s) = Some r \<and> P (Si_State r))"
proof -
  assume w: "psql_wf s"
  have "(find_saga c i (w_db s) = Some r) = (r \<in> set (db_sagas (w_db s)) \<and> sagaIdent r = (c, i))" for r
    using find_saga_ident[of "(c, i)" "w_db s"] w find_ident_iff by (simp add: psql_wf_def)
  then show ?thesis by (auto simp: sagaIdent_def)
qed

text \<open>A guarded update of one row: it changes the row exactly when the guard holds.\<close>
lemma psql_guarded_update:
  fixes f :: "SagaInstance \<Rightarrow> SagaInstance" and c i :: string and P :: "SagaStateEnum \<Rightarrow> bool"
  assumes "psql_wf s" and "\<And>r. sagaIdent (f r) = sagaIdent r"
  defines "s' \<equiv> s\<lparr>w_db := update_saga_rows c i (\<lambda>r. if P (Si_State r) then f r else r) (w_db s)\<rparr>"
  shows "psql_wf s'"
    and "(\<And>x. psql_view s (c, i) = Some x \<Longrightarrow> \<not> P (Si_State x)) \<Longrightarrow> psql_view s' = psql_view s"
    and "psql_view s (c, i) = Some x \<Longrightarrow> P (Si_State x) \<Longrightarrow> (\<And>r. unstamped (f r) = unstamped (f (unstamped r))) \<Longrightarrow>
      psql_view s' = (psql_view s)((c, i) \<mapsto> unstamped (f x))"
proof -
  let ?f = "\<lambda>r. if P (Si_State r) then f r else r"
  have id: "sagaIdent (?f r) = sagaIdent r" for r using assms(2) by simp
  show "psql_wf s'" unfolding s'_def by (rule psql_update_wf[of ?f, OF id assms(1)])
  show "psql_view s' = psql_view s" if "\<And>x. psql_view s (c, i) = Some x \<Longrightarrow> \<not> P (Si_State x)"
  proof
    show "psql_view s' k = psql_view s k" for k
      unfolding s'_def psql_update_view[of ?f, OF id]
      using that by (cases "find_saga c i (w_db s)") (auto simp: psql_view_def)
  qed
  show "psql_view s' = (psql_view s)((c, i) \<mapsto> unstamped (f x))"
    if "psql_view s (c, i) = Some x" "P (Si_State x)" "\<And>r. unstamped (f r) = unstamped (f (unstamped r))"
  proof
    show "psql_view s' k = ((psql_view s)((c, i) \<mapsto> unstamped (f x))) k" for k
      unfolding s'_def psql_update_view[of ?f, OF id]
      using that by (cases "find_saga c i (w_db s)") (auto simp: psql_view_def)
  qed
qed

lemma psql_trigger:
  assumes "psql_wf s"
  shows "(\<And>x. psql_view s (c, i) = Some x \<Longrightarrow> Si_State x \<noteq> SagaStateEnum_Committed) \<Longrightarrow>
      \<exists>e s'. TriggerSagaCompensation c i s = (Err e, s') \<and> psql_wf s' \<and> psql_view s' = psql_view s"
    and "psql_view s (c, i) = Some x \<Longrightarrow> Si_State x = SagaStateEnum_Committed \<Longrightarrow>
      \<exists>s'. TriggerSagaCompensation c i s = (Ok (), s') \<and> psql_wf s' \<and>
        psql_view s' = (psql_view s)((c, i) \<mapsto> x\<lparr>Si_State := SagaStateEnum_CompensationRequested\<rparr>)"
proof -
  let ?f = "\<lambda>r. r\<lparr>Si_State := SagaStateEnum_CompensationRequested, Si_UpdatedAt := w_dbtime s\<rparr>"
  have id: "sagaIdent (?f r) = sagaIdent r" for r by (simp add: sagaIdent_def)
  have un: "unstamped (?f r) = unstamped (?f (unstamped r))" for r by (simp add: unstamped_def)
  note upd = psql_guarded_update[OF assms, where f = ?f and c = c and i = i and P = "\<lambda>st. st = SagaStateEnum_Committed", OF id]
  have aff: "(\<exists>r \<in> set (db_sagas (w_db s)). Si_ClusterId r = c \<and> Si_InstanceId r = i \<and> Si_State r = SagaStateEnum_Committed) =
      (\<exists>x. psql_view s (c, i) = Some x \<and> Si_State x = SagaStateEnum_Committed)"
    using find_saga_affected[OF assms, of c i "\<lambda>st. st = SagaStateEnum_Committed"] by (auto simp: psql_view_def)
  show "\<exists>e s'. TriggerSagaCompensation c i s = (Err e, s') \<and> psql_wf s' \<and> psql_view s' = psql_view s"
    if "\<And>x. psql_view s (c, i) = Some x \<Longrightarrow> Si_State x \<noteq> SagaStateEnum_Committed"
    using that upd aff by (auto simp: TriggerSagaCompensation_def Let_def psql_exec[OF assms])
  show "\<exists>s'. TriggerSagaCompensation c i s = (Ok (), s') \<and> psql_wf s' \<and>
        psql_view s' = (psql_view s)((c, i) \<mapsto> x\<lparr>Si_State := SagaStateEnum_CompensationRequested\<rparr>)"
    if x: "psql_view s (c, i) = Some x" "Si_State x = SagaStateEnum_Committed"
  proof -
    have "unstamped (?f x) = x\<lparr>Si_State := SagaStateEnum_CompensationRequested\<rparr>"
      using x(1) by (auto simp: psql_view_def unstamped_def)
    then show ?thesis
      using upd(1) upd(3)[OF x un] x aff by (auto simp: TriggerSagaCompensation_def Let_def psql_exec[OF assms])
  qed
qed

lemma psql_force:
  assumes "psql_wf s"
  shows "r = '''' \<or> (\<forall>x. psql_view s (c, i) = Some x \<longrightarrow> Si_State x \<noteq> SagaStateEnum_Blocked) \<Longrightarrow>
      \<exists>e s'. ForceMarkSagaCompensated c i r s = (Err e, s') \<and> psql_wf s' \<and> psql_view s' = psql_view s"
    and "r \<noteq> '''' \<Longrightarrow> psql_view s (c, i) = Some x \<Longrightarrow> Si_State x = SagaStateEnum_Blocked \<Longrightarrow>
      \<exists>s'. ForceMarkSagaCompensated c i r s = (Ok (), s') \<and> psql_wf s' \<and>
        psql_view s' = (psql_view s)((c, i) \<mapsto> x\<lparr>Si_State := SagaStateEnum_Compensated,
                                                Si_CompensationReason := ''[FORCE-MARKED] '' @ r\<rparr>)"
proof -
  let ?f = "\<lambda>x. x\<lparr>Si_State := SagaStateEnum_Compensated, Si_CompensationReason := ''[FORCE-MARKED] '' @ r,
                Si_UpdatedAt := w_dbtime s\<rparr>"
  have id: "sagaIdent (?f r) = sagaIdent r" for r by (simp add: sagaIdent_def)
  have un: "unstamped (?f r) = unstamped (?f (unstamped r))" for r by (simp add: unstamped_def)
  note upd = psql_guarded_update[OF assms, where f = ?f and c = c and i = i and P = "\<lambda>st. st = SagaStateEnum_Blocked", OF id]
  have aff: "(\<exists>r \<in> set (db_sagas (w_db s)). Si_ClusterId r = c \<and> Si_InstanceId r = i \<and> Si_State r = SagaStateEnum_Blocked) =
      (\<exists>x. psql_view s (c, i) = Some x \<and> Si_State x = SagaStateEnum_Blocked)"
    using find_saga_affected[OF assms, of c i "\<lambda>st. st = SagaStateEnum_Blocked"] by (auto simp: psql_view_def)
  show "\<exists>e s'. ForceMarkSagaCompensated c i r s = (Err e, s') \<and> psql_wf s' \<and> psql_view s' = psql_view s"
    if "r = '''' \<or> (\<forall>x. psql_view s (c, i) = Some x \<longrightarrow> Si_State x \<noteq> SagaStateEnum_Blocked)"
    using that upd aff assms by (auto simp: ForceMarkSagaCompensated_def Let_def psql_exec[OF assms])
  show "\<exists>s'. ForceMarkSagaCompensated c i r s = (Ok (), s') \<and> psql_wf s' \<and>
        psql_view s' = (psql_view s)((c, i) \<mapsto> x\<lparr>Si_State := SagaStateEnum_Compensated,
                                                Si_CompensationReason := ''[FORCE-MARKED] '' @ r\<rparr>)"
    if r: "r \<noteq> ''''" and x: "psql_view s (c, i) = Some x" "Si_State x = SagaStateEnum_Blocked"
  proof -
    have "unstamped (?f x) = x\<lparr>Si_State := SagaStateEnum_Compensated, Si_CompensationReason := ''[FORCE-MARKED] '' @ r\<rparr>"
      using x(1) by (auto simp: psql_view_def unstamped_def)
    then show ?thesis
      using upd(1) upd(3)[OF x un] x r aff by (auto simp: ForceMarkSagaCompensated_def Let_def psql_exec[OF assms])
  qed
qed

interpretation psql: saga_registry psql_wf psql_view psql_admits
  SaveSagaInstanceIdempotently TriggerSagaCompensation ForceMarkSagaCompensated
proof unfold_locales
  show "sagaIdent x = k" if "psql_wf s" "psql_view s k = Some x" for s k x
    using that by (auto simp: psql_view_Some)
qed (fact psql_save_known psql_save_fresh psql_trigger psql_force)+

end
