(* ===== verification/Go_Strings.thy ===== *)
theory Go_Strings
  imports Prelude
begin

text \<open>
  The functions of Go's \<open>strings\<close>, \<open>strconv\<close> and \<open>fmt\<close> packages that the code uses, on ASCII strings.
\<close>

section \<open>Numbers\<close>

definition digit :: "nat \<Rightarrow> char" where
  "digit n = char_of (48 + n)"

fun digits :: "nat \<Rightarrow> string" where
  "digits n = (if n < 10 then [digit n] else digits (n div 10) @ [digit (n mod 10)])"

declare digits.simps [simp del]

definition itoa :: "int \<Rightarrow> string" where
  "itoa i = (if i < 0 then CHR ''-'' # digits (nat (- i)) else digits (nat i))"

text \<open>\<open>strconv.Atoi\<close> on a string of decimal digits; \<open>None\<close> is a syntax error.\<close>
fun digitsValue :: "string \<Rightarrow> nat \<Rightarrow> nat option" where
  "digitsValue [] acc = Some acc"
| "digitsValue (c # cs) acc =
     (if CHR ''0'' \<le> c \<and> c \<le> CHR ''9'' then digitsValue cs (10 * acc + (of_char c - 48)) else None)"

definition natOf :: "string \<Rightarrow> nat option" where
  "natOf s = (if s = '''' then None else digitsValue s 0)"

text \<open>\<open>strconv.Atoi\<close>, and \<open>ParseInt\<close> to base 10: an optional sign and digits, within 64 bits.\<close>
definition atoi :: "string \<Rightarrow> int option" where
  "atoi s =
     (let n = (case s of
                 c # ds \<Rightarrow> if c = CHR ''+'' then map_option int (natOf ds)
                           else if c = CHR ''-'' then map_option (\<lambda>k. - int k) (natOf ds)
                           else map_option int (natOf s)
               | [] \<Rightarrow> None)
      in case n of None \<Rightarrow> None | Some i \<Rightarrow> if - (2 ^ 63) \<le> i \<and> i < 2 ^ 63 then Some i else None)"

lemma of_char_digit: "n < 10 \<Longrightarrow> (of_char (digit n) :: nat) = 48 + n"
  by (simp add: digit_def)

lemma digit_range: "n < 10 \<Longrightarrow> CHR ''0'' \<le> digit n \<and> digit n \<le> CHR ''9''"
  using of_char_digit[of n] by (simp add: less_eq_char_def)

lemma digitsValue_append: "digitsValue (s @ t) acc = Option.bind (digitsValue s acc) (digitsValue t)"
  by (induction s arbitrary: acc) auto

lemma digitsValue_digits: "digitsValue (digits n) 0 = Some n"
proof (induction n rule: digits.induct)
  case (1 n)
  show ?case
  proof (cases "n < 10")
    case True
    then show ?thesis using digit_range[OF True] by (simp add: digits.simps[of n] of_char_digit)
  next
    case False
    have "n mod 10 < 10" by simp
    then show ?thesis
      using 1 False digit_range[of "n mod 10"] of_char_digit[of "n mod 10"]
      by (simp add: digits.simps[of n] digitsValue_append)
  qed
qed

lemma digits_not_Nil [simp]: "digits n \<noteq> ''''"
  by (simp add: digits.simps[of n])

lemma natOf_digits [simp]: "natOf (digits n) = Some n"
  by (simp add: natOf_def digitsValue_digits)

lemma digits_inj [simp]: "(digits m = digits n) = (m = n)"
  by (metis natOf_digits option.inject)

lemma digits_decimal: "list_all (\<lambda>c. CHR ''0'' \<le> c \<and> c \<le> CHR ''9'') (digits n)"
proof (induction n rule: digits.induct)
  case (1 n)
  have "n mod 10 < 10" by simp
  then show ?case using 1 digit_range digits.simps[of n] by (cases "n < 10") auto
qed

section \<open>Letters and spaces\<close>

definition toUpperChar :: "char \<Rightarrow> char" where
  "toUpperChar c = (if CHR ''a'' \<le> c \<and> c \<le> CHR ''z'' then char_of ((of_char c :: nat) - 32) else c)"

definition strings_ToUpper :: "string \<Rightarrow> string" where
  "strings_ToUpper = map toUpperChar"

definition toLowerChar :: "char \<Rightarrow> char" where
  "toLowerChar c = (if CHR ''A'' \<le> c \<and> c \<le> CHR ''Z'' then char_of ((of_char c :: nat) + 32) else c)"

definition strings_ToLower :: "string \<Rightarrow> string" where
  "strings_ToLower = map toLowerChar"

definition strings_EqualFold :: "string \<Rightarrow> string \<Rightarrow> bool" where
  "strings_EqualFold s t = (strings_ToUpper s = strings_ToUpper t)"

definition isSpace :: "char \<Rightarrow> bool" where
  "isSpace c = (c = CHR '' '' \<or> (9 \<le> (of_char c :: nat) \<and> (of_char c :: nat) \<le> 13))"

definition strings_TrimSpace :: "string \<Rightarrow> string" where
  "strings_TrimSpace s = rev (dropWhile isSpace (rev (dropWhile isSpace s)))"

section \<open>Searching and joining\<close>

fun strings_Join :: "string list \<Rightarrow> string \<Rightarrow> string" where
  "strings_Join [] sep = ''''"
| "strings_Join [x] sep = x"
| "strings_Join (x # xs) sep = x @ sep @ strings_Join xs sep"

definition startsWith :: "string \<Rightarrow> string \<Rightarrow> bool" where
  "startsWith p s = (take (length p) s = p)"

fun strings_Contains :: "string \<Rightarrow> string \<Rightarrow> bool" where
  "strings_Contains [] p = (p = [])"
| "strings_Contains (c # cs) p = (startsWith p (c # cs) \<or> strings_Contains cs p)"

text \<open>\<open>strings.ReplaceAll\<close> for a non-empty \<open>old\<close>, the only use the code makes of it.\<close>
function strings_ReplaceAll :: "string \<Rightarrow> string \<Rightarrow> string \<Rightarrow> string" where
  "strings_ReplaceAll [] old new = []"
| "strings_ReplaceAll (c # cs) old new =
     (if old \<noteq> [] \<and> startsWith old (c # cs)
      then new @ strings_ReplaceAll (drop (length old) (c # cs)) old new
      else c # strings_ReplaceAll cs old new)"
  by pat_completeness auto
termination
  by (relation "measure (\<lambda>(s, old, new). length s)") (auto simp: neq_Nil_conv)

text \<open>What follows the last dot, or everything.\<close>
definition afterLastDot :: "string \<Rightarrow> string" where
  "afterLastDot s = rev (takeWhile (\<lambda>c. c \<noteq> CHR ''.'') (rev s))"

lemma ReplaceAll_absent:
  "x \<notin> set s \<Longrightarrow> strings_ReplaceAll (s @ t) (x # old) new = s @ strings_ReplaceAll t (x # old) new"
  by (induction s) (auto simp: startsWith_def)

lemma ReplaceAll_none: "x \<notin> set s \<Longrightarrow> strings_ReplaceAll s (x # old) new = s"
  using ReplaceAll_absent[of x s "[]"] by simp

lemma Join_Cons: "xs \<noteq> [] \<Longrightarrow> strings_Join (x # xs) sep = x @ sep @ strings_Join xs sep"
  by (cases xs) auto

end
