(* ===== verification/Query_Clauses.thy ===== *)
theory Query_Clauses
  imports Go_Strings
begin

text \<open>
  The SQL clauses of the listings (\<open>pkg/common/query.go\<close>, \<open>pkg/common/query_helpers.go\<close>) and how the
  saga listing of \<open>store_psql.go\<close> puts them together.  A Go map is ranged over in an order the
  program does not choose, so \<open>Filters\<close> is the association list in the order of the loop.
\<close>

record SortColumn =
  Sc_Column :: string
  Sc_Direction :: string

record QueryOptions =
  Qo_Offset :: int
  Qo_Limit :: int
  Qo_Cursor :: string
  Qo_ResultCacheKey :: string
  Qo_SortBy :: "SortColumn list"
  Qo_Search :: string
  Qo_Filters :: "(string \<times> string) list"

definition emptyQueryOptions :: QueryOptions where
  "emptyQueryOptions = \<lparr>Qo_Offset = 0, Qo_Limit = 0, Qo_Cursor = '''', Qo_ResultCacheKey = '''',
     Qo_SortBy = [], Qo_Search = '''', Qo_Filters = []\<rparr>"

section \<open>Order and page\<close>

definition sortDirection :: "string \<Rightarrow> string" where
  "sortDirection d = (let direction = strings_ToUpper d
     in if direction \<noteq> ''ASC'' \<and> direction \<noteq> ''DESC'' then ''ASC'' else direction)"

definition BuildOrderByClause :: "QueryOptions option \<Rightarrow> string \<Rightarrow> string" where
  "BuildOrderByClause options tableAlias =
     (let pre = (if tableAlias \<noteq> '''' then tableAlias @ ''.'' else '''');
          sorts = (case options of None \<Rightarrow> [] | Some q \<Rightarrow> Qo_SortBy q)
      in if sorts = [] then ''ORDER BY '' @ pre @ ''created_at DESC, '' @ pre @ ''iid ASC''
         else ''ORDER BY '' @ strings_Join
                (map (\<lambda>s. pre @ Sc_Column s @ '' '' @ sortDirection (Sc_Direction s)) sorts) '', '')"

definition BuildPaginationClause :: "QueryOptions option \<Rightarrow> string" where
  "BuildPaginationClause options =
     (case options of None \<Rightarrow> ''''
      | Some q \<Rightarrow>
          if Qo_Limit q \<le> 0 then ''''
          else ''LIMIT '' @ itoa (Qo_Limit q) @
               (if Qo_Offset q > 0 then '' OFFSET '' @ itoa (Qo_Offset q) else ''''))"

section \<open>Filters and search\<close>

fun filterConditions ::
    "(string \<Rightarrow> bool) \<Rightarrow> nat \<Rightarrow> (string \<times> string) list \<Rightarrow> string list \<times> string list" where
  "filterConditions allowed argIndex [] = ([], [])"
| "filterConditions allowed argIndex ((col, val) # rest) =
     (if \<not> allowed col then filterConditions allowed argIndex rest
      else (case filterConditions allowed (Suc argIndex) rest of
              (conditions, args) \<Rightarrow> ((col @ '' = $'' @ digits argIndex) # conditions, val # args)))"

definition BuildFilterClause ::
    "QueryOptions option \<Rightarrow> (string \<Rightarrow> bool) \<Rightarrow> nat \<Rightarrow> string \<times> string list" where
  "BuildFilterClause options allowed startArgIndex =
     (case options of None \<Rightarrow> ('''', [])
      | Some q \<Rightarrow>
          (case filterConditions allowed startArgIndex (Qo_Filters q) of
             (conditions, args) \<Rightarrow>
               if conditions = [] then ('''', [])
               else (''WHERE '' @ strings_Join conditions '' AND '', args)))"

definition jsonbColumns :: "string list" where
  "jsonbColumns = [''display_names'', ''descriptions'', ''labels'', ''tags'', ''metadata'', ''identifiers'',
     ''classes'', ''deployment_details'']"

definition searchCondition :: "string \<Rightarrow> nat \<Rightarrow> string" where
  "searchCondition column argIndex =
     (if strings_Contains column ''->'' \<or> afterLastDot column \<in> set jsonbColumns
      then ''CAST('' @ column @ '' AS TEXT) ILIKE $'' @ digits argIndex
      else column @ '' ILIKE $'' @ digits argIndex)"

fun searchConditions :: "nat \<Rightarrow> string list \<Rightarrow> string list" where
  "searchConditions argIndex [] = []"
| "searchConditions argIndex (c # cs) = searchCondition c argIndex # searchConditions (Suc argIndex) cs"

definition BuildSearchClause :: "QueryOptions option \<Rightarrow> string list \<Rightarrow> string \<times> string list" where
  "BuildSearchClause options searchColumns =
     (case options of None \<Rightarrow> ('''', [])
      | Some q \<Rightarrow>
          if Qo_Search q = '''' \<or> searchColumns = [] then ('''', [])
          else (''WHERE ('' @ strings_Join (searchConditions 1 searchColumns) '' OR '' @ '')'',
                map (\<lambda>_. ''%'' @ Qo_Search q @ ''%'') searchColumns))"

section \<open>The saga listing\<close>

definition SagaInstancesSearchColumns :: "string list" where
  "SagaInstancesSearchColumns = [''instance_id'', ''zone_id'', ''trace_id'', ''execution_id'', ''saga_submitter_id'',
     ''origin'', ''origin_idempotency_key'', ''labels'', ''tags'', ''metadata'', ''state'', ''saga_template_id'',
     ''input_data'', ''saga_instance_ids'', ''parent_saga_instance_id'', ''parent_saga_step_instance_id'',
     ''root_saga_instance_id'', ''compensation_reason'', ''annex_iids'']"

definition SagaInstancesSortableFields :: smap where
  "SagaInstancesSortableFields = (\<lambda>f. if f \<in> {''instance_id'', ''created_at'', ''updated_at'', ''state'',
     ''saga_template_id'', ''saga_submitter_id'', ''trace_id'', ''execution_id'', ''zone_id'', ''saga_depth'',
     ''compensation_reason''} then Some f else None)"

definition sagaInstancesAllowedFilters :: "string \<Rightarrow> bool" where
  "sagaInstancesAllowedFilters c = (c \<in> {''state'', ''saga_template_id'', ''saga_submitter_id''})"

definition SagaInstancesDefaultSort :: "SortColumn list" where
  "SagaInstancesDefaultSort = [\<lparr>Sc_Column = ''created_at'', Sc_Direction = ''DESC''\<rparr>,
     \<lparr>Sc_Column = ''instance_id'', Sc_Direction = ''ASC''\<rparr>]"

text \<open>\<open>for i := len(searchArgs); i >= 1; i--\<close>\<close>
fun renumberPlaceholders :: "nat \<Rightarrow> nat \<Rightarrow> string \<Rightarrow> string" where
  "renumberPlaceholders 0 nFilters clause = clause"
| "renumberPlaceholders (Suc i) nFilters clause =
     renumberPlaceholders i nFilters
       (strings_ReplaceAll clause (CHR ''$'' # digits (Suc i)) (CHR ''$'' # digits (Suc i + nFilters)))"

text \<open>The WHERE clause and its arguments.\<close>
definition listingWhere :: "QueryOptions \<Rightarrow> string \<times> string list" where
  "listingWhere q =
     (case BuildFilterClause (Some q) sagaInstancesAllowedFilters 1 of (filterClause, filterArgs) \<Rightarrow>
      (case BuildSearchClause (Some q) SagaInstancesSearchColumns of (searchClause, searchArgs) \<Rightarrow>
       let parts = (if filterClause \<noteq> '''' then [drop 6 filterClause] else []) @
             (if searchClause \<noteq> ''''
              then [''('' @ drop 6 (renumberPlaceholders (length searchArgs) (length filterArgs) searchClause) @ '')'']
              else [])
       in (if parts \<noteq> [] then ''WHERE '' @ strings_Join parts '' AND '' else '''',
           filterArgs @ searchArgs)))"

definition listingQueries :: "string \<Rightarrow> QueryOptions option \<Rightarrow> (string \<times> string) \<times> string list" where
  "listingQueries tableName opts =
     (let given = (case opts of None \<Rightarrow> emptyQueryOptions | Some q \<Rightarrow> q);
          q = (if Qo_SortBy given = [] then given\<lparr>Qo_SortBy := SagaInstancesDefaultSort\<rparr> else given)
      in case listingWhere q of (whereClause, args) \<Rightarrow>
           ((''SELECT COUNT(*) FROM '' @ tableName @ '' '' @ whereClause,
             ''FROM '' @ tableName @ '' '' @ whereClause @ '' '' @ BuildOrderByClause (Some q) '''' @ '' '' @
             BuildPaginationClause (Some q)), args))"

section \<open>Placeholders\<close>

text \<open>The numbers of the placeholders of a clause, left to right, as PostgreSQL reads them.\<close>
fun placeholdersFrom :: "nat option \<Rightarrow> string \<Rightarrow> nat list" where
  "placeholdersFrom pending [] = (case pending of None \<Rightarrow> [] | Some n \<Rightarrow> [n])"
| "placeholdersFrom pending (c # cs) =
     (if c = CHR ''$'' then (case pending of None \<Rightarrow> [] | Some n \<Rightarrow> [n]) @ placeholdersFrom (Some 0) cs
      else (case pending of
              None \<Rightarrow> placeholdersFrom None cs
            | Some n \<Rightarrow> if CHR ''0'' \<le> c \<and> c \<le> CHR ''9'' then placeholdersFrom (Some (10 * n + (of_char c - 48))) cs
                        else n # placeholdersFrom None cs))"

abbreviation placeholders :: "string \<Rightarrow> nat list" where
  "placeholders \<equiv> placeholdersFrom None"

text \<open>A clause as alternating text and placeholder; each placeholder is the string of its digits.\<close>
fun pieces :: "(string \<times> string) list \<Rightarrow> string \<Rightarrow> string" where
  "pieces [] e = e"
| "pieces ((t, ds) # rest) e = t @ CHR ''$'' # ds @ pieces rest e"

definition decimal :: "string \<Rightarrow> bool" where
  "decimal s = list_all (\<lambda>c. CHR ''0'' \<le> c \<and> c \<le> CHR ''9'') s"

text \<open>Text that no placeholder runs into.\<close>
fun plain :: "string \<Rightarrow> bool" where
  "plain [] = True"
| "plain (c # r) = (CHR ''$'' \<notin> set (c # r) \<and> \<not> (CHR ''0'' \<le> c \<and> c \<le> CHR ''9''))"

definition wellPieced :: "(string \<times> string) list \<Rightarrow> string \<Rightarrow> bool" where
  "wellPieced ps e = (plain e \<and> list_all (\<lambda>p. fst p \<noteq> '''' \<and> plain (fst p) \<and> snd p \<noteq> '''' \<and> decimal (snd p)) ps)"

lemma decimal_digits [simp]: "decimal (digits n)"
  using digits_decimal by (simp add: decimal_def)

lemma decimal_no_dollar: "decimal ds \<Longrightarrow> CHR ''$'' \<notin> set ds"
  by (auto simp: decimal_def list_all_iff less_eq_char_def)

lemma plain_no_dollar: "plain t \<Longrightarrow> CHR ''$'' \<notin> set t"
  by (cases t) auto

text \<open>What replacing one placeholder does to the digits of a placeholder: it takes a prefix for the whole.\<close>
definition replaceDigits :: "string \<Rightarrow> string \<Rightarrow> string \<Rightarrow> string" where
  "replaceDigits old new ds = (if startsWith old ds then new @ drop (length old) ds else ds)"

abbreviation boundary :: "string \<Rightarrow> bool" where
  "boundary s \<equiv> \<forall>c r. s = c # r \<longrightarrow> \<not> (CHR ''0'' \<le> c \<and> c \<le> CHR ''9'')"

lemma pieces_boundary: "wellPieced ps e \<Longrightarrow> boundary (pieces ps e)"
  by (cases "(ps, e)" rule: pieces.cases; cases e; auto simp: wellPieced_def elim!: plain.elims(2))

lemma startsWith_boundary:
  "decimal old \<Longrightarrow> boundary rest \<Longrightarrow> startsWith old (ds @ rest) = startsWith old ds"
proof (induction old arbitrary: ds)
  case Nil
  then show ?case by (simp add: startsWith_def)
next
  case (Cons c old)
  then show ?case by (cases ds; cases rest) (auto simp: startsWith_def decimal_def)
qed

lemma startsWith_length: "startsWith old ds \<Longrightarrow> length old \<le> length ds"
  by (metis startsWith_def length_take min.cobounded1 nat_le_linear take_all)

lemma ReplaceAll_pieces:
  assumes "decimal old" and "wellPieced ps e"
  shows "strings_ReplaceAll (pieces ps e) (CHR ''$'' # old) (CHR ''$'' # new) =
    pieces (map (apsnd (replaceDigits old new)) ps) e"
  using assms(2)
proof (induction ps)
  case Nil
  then show ?case by (simp add: wellPieced_def plain_no_dollar ReplaceAll_none)
next
  case (Cons p ps)
  obtain t ds where p: "p = (t, ds)" by (cases p)
  have w: "wellPieced ps e" and t: "CHR ''$'' \<notin> set t" and d: "decimal ds"
    using Cons.prems p by (auto simp: wellPieced_def plain_no_dollar)
  have sw: "startsWith (CHR ''$'' # old) (CHR ''$'' # ds @ pieces ps e) = startsWith old ds"
    using startsWith_boundary[OF assms(1) pieces_boundary[OF w]] by (simp add: startsWith_def)
  have nd: "CHR ''$'' \<notin> set (drop n ds)" for n
    using decimal_no_dollar[OF d] by (meson in_set_dropD)
  have R: "strings_ReplaceAll (drop n ds @ pieces ps e) (CHR ''$'' # old) (CHR ''$'' # new) =
      drop n ds @ pieces (map (apsnd (replaceDigits old new)) ps) e" for n
    using ReplaceAll_absent[OF nd] Cons.IH[OF w] by simp
  show ?case
    using ReplaceAll_absent[OF t] sw R[of 0] R[of "length old"] startsWith_length[of old ds]
    by (simp add: p replaceDigits_def[of old new ds])
qed

fun renumberDigits :: "nat \<Rightarrow> nat \<Rightarrow> string \<Rightarrow> string" where
  "renumberDigits 0 f ds = ds"
| "renumberDigits (Suc i) f ds = renumberDigits i f (replaceDigits (digits (Suc i)) (digits (Suc i + f)) ds)"

lemma wellPieced_replace:
  "decimal new \<Longrightarrow> new \<noteq> '''' \<Longrightarrow> wellPieced ps e \<Longrightarrow>
   wellPieced (map (apsnd (replaceDigits old new)) ps) e"
  by (auto simp: wellPieced_def list_all_iff replaceDigits_def decimal_def dest: in_set_dropD)

lemma renumber_pieces:
  "wellPieced ps e \<Longrightarrow>
   renumberPlaceholders k f (pieces ps e) = pieces (map (apsnd (renumberDigits k f)) ps) e \<and>
   wellPieced (map (apsnd (renumberDigits k f)) ps) e"
proof (induction k arbitrary: ps)
  case 0
  have "map (apsnd (\<lambda>a. a)) ps = ps" by (induction ps) auto
  then show ?case using 0 by simp
next
  case (Suc k)
  have w: "wellPieced (map (apsnd (replaceDigits (digits (Suc k)) (digits (Suc k + f)))) ps) e"
    by (rule wellPieced_replace) (use Suc.prems in auto)
  have c: "map (apsnd (renumberDigits k f)) (map (apsnd (replaceDigits (digits (Suc k)) (digits (Suc k + f)))) ps) =
      map (apsnd (renumberDigits (Suc k) f)) ps"
    by (auto simp: apsnd_def map_prod_def)
  show ?case
    using ReplaceAll_pieces[OF _ Suc.prems, of "digits (Suc k)" "digits (Suc k + f)"] Suc.IH[OF w]
    unfolding c by (simp del: renumberDigits.simps)
qed

lemma placeholders_plain: "CHR ''$'' \<notin> set t \<Longrightarrow> placeholders (t @ r) = placeholders r"
  by (induction t) auto

lemma placeholders_digits:
  "decimal ds \<Longrightarrow> boundary rest \<Longrightarrow>
   placeholdersFrom (Some n) (ds @ rest) = the (digitsValue ds n) # placeholders rest"
proof (induction ds arbitrary: n)
  case Nil
  then show ?case by (cases rest) auto
next
  case (Cons c ds)
  then show ?case by (auto simp: decimal_def less_eq_char_def)
qed

lemma placeholders_pieces:
  "wellPieced ps e \<Longrightarrow> placeholders (pieces ps e) = map (\<lambda>p. the (natOf (snd p))) ps"
proof (induction ps)
  case Nil
  then show ?case using placeholders_plain[of e "[]"] by (simp add: wellPieced_def plain_no_dollar)
next
  case (Cons p ps)
  obtain t ds where p: "p = (t, ds)" by (cases p)
  have w: "wellPieced ps e" and t: "CHR ''$'' \<notin> set t" and d: "decimal ds" and n: "ds \<noteq> ''''"
    using Cons.prems p by (auto simp: wellPieced_def plain_no_dollar)
  show ?case
    using placeholders_plain[OF t] placeholders_digits[OF d pieces_boundary[OF w], of 0] Cons.IH[OF w] n
    by (simp add: p natOf_def)
qed

section \<open>Which placeholders a listing has\<close>

lemma placeholders_append:
  "boundary b \<Longrightarrow> placeholdersFrom pending (a @ b) = placeholdersFrom pending a @ placeholders b"
  by (induction a arbitrary: pending; cases b) (auto split: option.splits)

lemma placeholders_text: "CHR ''$'' \<notin> set t \<Longrightarrow> placeholders t = []"
  using placeholders_plain[of t "[]"] by simp

lemma placeholders_number: "placeholders (CHR ''$'' # digits n) = [n]"
  using placeholders_digits[of "digits n" "[]" 0] by (simp add: digitsValue_digits)

lemma filterConditions_empty:
  "filterConditions allowed n fs = (conds, args) \<Longrightarrow> length args = length conds"
  by (induction allowed n fs arbitrary: conds args rule: filterConditions.induct)
    (auto split: if_splits prod.splits)

lemma placeholders_filterConditions:
  "filterConditions allowed n fs = (conds, args) \<Longrightarrow> (\<And>c. allowed c \<Longrightarrow> CHR ''$'' \<notin> set c) \<Longrightarrow>
   placeholders (strings_Join conds '' AND '') = [n..<n + length args]"
proof (induction allowed n fs arbitrary: conds args rule: filterConditions.induct)
  case (1 allowed n)
  then show ?case by simp
next
  case (2 allowed n col val rest)
  show ?case
  proof (cases "allowed col")
    case True
    obtain cs as where r: "filterConditions allowed (Suc n) rest = (cs, as)" by fastforce
    have d: "CHR ''$'' \<notin> set (col @ '' = '')" using 2(4) True by simp
    have one: "placeholders (col @ '' = $'' @ digits n) = [n]"
      using placeholders_plain[OF d, of "CHR ''$'' # digits n"] placeholders_number by simp
    have many: "placeholders ((col @ '' = $'' @ digits n) @ '' AND '' @ rest') = n # placeholders rest'" for rest'
      using one placeholders_append[of "'' AND '' @ rest'" None "col @ '' = $'' @ digits n"]
        placeholders_plain[of "'' AND ''" rest'] by (simp add: less_eq_char_def)
    show ?thesis
      using 2(2)[OF _ r 2(4)] 2(3) True r one many filterConditions_empty[OF r]
      by (cases "cs = []") (auto simp: Join_Cons upt_rec[of n])
  next
    case False
    then show ?thesis using 2 by simp
  qed
qed

text \<open>The pieces of a search clause.\<close>
fun searchPieces :: "nat \<Rightarrow> string \<Rightarrow> string list \<Rightarrow> (string \<times> string) list" where
  "searchPieces n pre [] = []"
| "searchPieces n pre (c # cs) =
     (pre @ (if strings_Contains c ''->'' \<or> afterLastDot c \<in> set jsonbColumns
             then ''CAST('' @ c @ '' AS TEXT) ILIKE '' else c @ '' ILIKE ''), digits n)
     # searchPieces (Suc n) '' OR '' cs"

lemma searchConditions_pieces:
  "cols \<noteq> [] \<Longrightarrow> pre @ strings_Join (searchConditions n cols) '' OR '' @ e = pieces (searchPieces n pre cols) e"
proof (induction cols arbitrary: n pre)
  case Nil
  then show ?case by simp
next
  case (Cons c cs)
  have ne: "(searchConditions (Suc n) cs = []) = (cs = [])" by (cases cs) auto
  show ?case using Cons.IH[where n = "Suc n" and pre = "'' OR ''"] ne
    by (cases "cs = []") (auto simp: Join_Cons searchCondition_def)
qed

lemma wellPieced_search:
  "pre \<noteq> '''' \<Longrightarrow> plain pre \<Longrightarrow> plain e \<Longrightarrow> list_all (\<lambda>c. CHR ''$'' \<notin> set c) cols \<Longrightarrow>
   wellPieced (searchPieces n pre cols) e"
proof (induction cols arbitrary: n pre)
  case Nil
  then show ?case by (simp add: wellPieced_def)
next
  case (Cons c cs)
  have "wellPieced (searchPieces (Suc n) '' OR '' cs) e"
    by (rule Cons.IH) (use Cons.prems in \<open>auto simp: less_eq_char_def\<close>)
  then show ?case using Cons.prems by (cases pre) (auto simp: wellPieced_def)
qed

lemma searchPieces_digits: "map snd (searchPieces n pre cols) = map digits [n..<n + length cols]"
  by (induction cols arbitrary: n pre) (auto simp: upt_rec)

text \<open>The number a placeholder has after the renumbering.\<close>
definition renumbered :: "nat \<Rightarrow> nat \<Rightarrow> nat \<Rightarrow> nat" where
  "renumbered k f n = the (natOf (renumberDigits k f (digits n)))"

lemma placeholders_renumbered_search:
  assumes "Qo_Search q \<noteq> ''''" and "cols \<noteq> []" and "list_all (\<lambda>c. CHR ''$'' \<notin> set c) cols"
  shows "placeholders (drop 6 (renumberPlaceholders k f (fst (BuildSearchClause (Some q) cols)))) =
    map (renumbered k f) [1..<Suc (length cols)]"
proof -
  obtain c cs where cols: "cols = c # cs" using assms(2) by (cases cols) auto
  let ?ps = "searchPieces 1 ''WHERE ('' cols"
  have w: "wellPieced ?ps '')''"
    by (rule wellPieced_search) (use assms(3) in \<open>auto simp: less_eq_char_def\<close>)
  have c: "fst (BuildSearchClause (Some q) cols) = pieces ?ps '')''"
    using searchConditions_pieces[of cols "''WHERE (''" 1 "'')''"] assms by (simp add: BuildSearchClause_def)
  let ?r = "map (apsnd (renumberDigits k f)) ?ps"
  have "pieces ?r '')'' = take 6 (pieces ?r '')'') @ drop 6 (pieces ?r '')'')" by simp
  moreover have "CHR ''$'' \<notin> set (take 6 (pieces ?r '')''))" by (simp add: cols)
  ultimately have "placeholders (drop 6 (pieces ?r '')'')) = placeholders (pieces ?r '')'')"
    using placeholders_plain by metis
  also have "\<dots> = map (\<lambda>p. the (natOf (snd p))) ?r"
    using placeholders_pieces renumber_pieces[OF w] by blast
  also have "\<dots> = map (\<lambda>ds. the (natOf (renumberDigits k f ds))) (map snd ?ps)" by simp
  also have "\<dots> = map (renumbered k f) [1..<Suc (length cols)]"
    by (simp add: searchPieces_digits renumbered_def comp_def)
  finally show ?thesis using renumber_pieces[OF w] c by simp
qed

lemma renumberDigits_other:
  "k < n \<Longrightarrow> n \<le> 9 \<Longrightarrow> renumberDigits k f (digits n) = digits n"
proof (induction k)
  case 0
  then show ?case by simp
next
  case (Suc k)
  have one: "digits (Suc k) = [digit (Suc k)]" "digits n = [digit n]"
    using Suc.prems by (auto simp: digits.simps[of n] digits.simps[of "Suc k"])
  have "digits (Suc k) \<noteq> digits n" using Suc.prems by simp
  then have "\<not> startsWith (digits (Suc k)) (digits n)" by (simp add: one startsWith_def)
  then show ?case using Suc by (simp add: replaceDigits_def)
qed

lemma renumbered_small:
  "1 \<le> n \<Longrightarrow> n \<le> k \<Longrightarrow> k + f \<le> 9 \<Longrightarrow> renumbered k f n = n + f"
proof -
  have "1 \<le> n \<Longrightarrow> n \<le> k \<Longrightarrow> k + f \<le> 9 \<Longrightarrow> renumberDigits k f (digits n) = digits (n + f)"
  proof (induction k)
    case 0
    then show ?case by simp
  next
    case (Suc k)
    have one: "digits (Suc k) = [digit (Suc k)]" "digits n = [digit n]"
      using Suc.prems by (auto simp: digits.simps[of n] digits.simps[of "Suc k"])
    show ?case
    proof (cases "n = Suc k")
      case True
      then have "replaceDigits (digits (Suc k)) (digits (Suc k + f)) (digits n) = digits (n + f)"
        by (simp add: replaceDigits_def startsWith_def)
      then show ?thesis using True Suc.prems renumberDigits_other[of k "n + f" f] by simp
    next
      case False
      then have "digits (Suc k) \<noteq> digits n" by simp
      then have "\<not> startsWith (digits (Suc k)) (digits n)" by (simp add: one startsWith_def)
      then show ?thesis using Suc False by (simp add: replaceDigits_def)
    qed
  qed
  then show "1 \<le> n \<Longrightarrow> n \<le> k \<Longrightarrow> k + f \<le> 9 \<Longrightarrow> renumbered k f n = n + f"
    by (simp add: renumbered_def)
qed

lemma renumberDigits_numeral:
  "renumberDigits (numeral k) f ds =
   renumberDigits (pred_numeral k) f (replaceDigits (digits (numeral k)) (digits (numeral k + f)) ds)"
  by (simp add: numeral_eq_Suc)

lemma digit_values:
  "digit 0 = CHR ''0''" "digit 1 = CHR ''1''" "digit 2 = CHR ''2''" "digit 3 = CHR ''3''" "digit 4 = CHR ''4''"
  "digit 5 = CHR ''5''" "digit 6 = CHR ''6''" "digit 7 = CHR ''7''" "digit 8 = CHR ''8''" "digit 9 = CHR ''9''"
  "digit (Suc 0) = CHR ''1''"
  by (simp_all add: digit_def char_of_def bit_iff_odd)

lemmas evaluate_renumbering = renumberDigits_numeral digits.simps[of "numeral k" for k] digits.simps[of 1]
  digits.simps[of "Suc 0"] digit_values replaceDigits_def startsWith_def

lemma renumbered_last:
  "renumberDigits 19 1 (digits 19) = ''30''" "renumberDigits 19 2 (digits 19) = ''41''"
  "renumberDigits 19 3 (digits 19) = ''52''"
  by (simp_all add: evaluate_renumbering)

lemma renumberDigits_zero: "renumberDigits k 0 ds = ds"
proof (induction k arbitrary: ds)
  case 0
  then show ?case by simp
next
  case (Suc k)
  have "replaceDigits old old ds = ds" for old
    by (metis append_take_drop_id replaceDigits_def startsWith_def)
  then show ?case using Suc by simp
qed

definition filterArguments :: "QueryOptions \<Rightarrow> string list" where
  "filterArguments q = snd (BuildFilterClause (Some q) sagaInstancesAllowedFilters 1)"

lemma allowed_no_dollar: "sagaInstancesAllowedFilters c \<Longrightarrow> CHR ''$'' \<notin> set c"
  by (auto simp: sagaInstancesAllowedFilters_def)

lemma filterClause_cases:
  obtains "BuildFilterClause (Some q) sagaInstancesAllowedFilters 1 = ('''', [])" "filterArguments q = []"
  | conds args where
      "BuildFilterClause (Some q) sagaInstancesAllowedFilters 1 = (''WHERE '' @ strings_Join conds '' AND '', args)"
      "args \<noteq> []" "filterArguments q = args"
      "placeholders (strings_Join conds '' AND '') = [1..<Suc (length args)]"
proof -
  obtain conds args where c: "filterConditions sagaInstancesAllowedFilters 1 (Qo_Filters q) = (conds, args)"
    by fastforce
  have p: "placeholders (strings_Join conds '' AND '') = [1..<1 + length args]"
    by (rule placeholders_filterConditions[OF c allowed_no_dollar])
  show ?thesis
  proof (cases "conds = []")
    case True
    then show ?thesis using that(1) c filterConditions_empty[OF c]
      by (simp add: BuildFilterClause_def filterArguments_def)
  next
    case False
    show ?thesis
      by (rule that(2)[of conds args])
        (use c p filterConditions_empty[OF c] False in \<open>auto simp: BuildFilterClause_def filterArguments_def simp del: upt_Suc\<close>)
  qed
qed

lemma search_columns: "list_all (\<lambda>c. CHR ''$'' \<notin> set c) SagaInstancesSearchColumns"
  "length SagaInstancesSearchColumns = 19" "SagaInstancesSearchColumns \<noteq> []"
  by (simp_all add: SagaInstancesSearchColumns_def)

lemma search_absent: "Qo_Search q = '''' \<Longrightarrow> BuildSearchClause (Some q) cols = ('''', [])"
  by (simp add: BuildSearchClause_def)

lemma search_present:
  "Qo_Search q \<noteq> '''' \<Longrightarrow>
   fst (BuildSearchClause (Some q) SagaInstancesSearchColumns) \<noteq> '''' \<and>
   length (snd (BuildSearchClause (Some q) SagaInstancesSearchColumns)) = 19"
  by (simp add: BuildSearchClause_def search_columns)

lemma placeholders_closed: "placeholders (t @ '')'') = placeholders t"
  using placeholders_append[of "'')''" None t] by (simp add: less_eq_char_def)

lemma placeholders_and: "placeholders (t @ '' AND '' @ s) = placeholders t @ placeholders s"
  using placeholders_append[of "'' AND '' @ s" None t] placeholders_plain[of "'' AND ''" s]
  by (simp add: less_eq_char_def)

text \<open>The placeholders of the listing's WHERE clause and how many arguments it binds.\<close>
lemma listingWhere_placeholders:
  "placeholders (fst (listingWhere q)) =
     [1..<Suc (length (filterArguments q))] @
     (if Qo_Search q = '''' then [] else map (renumbered 19 (length (filterArguments q))) [1..<20])"
  "length (snd (listingWhere q)) = length (filterArguments q) + (if Qo_Search q = '''' then 0 else 19)"
proof -
  let ?S = "BuildSearchClause (Some q) SagaInstancesSearchColumns"
  let ?R = "\<lambda>f. drop 6 (renumberPlaceholders 19 f (fst ?S))"
  have R: "placeholders (?R f) = map (renumbered 19 f) [1..<20]" if "Qo_Search q \<noteq> ''''" for f
    using placeholders_renumbered_search[OF that search_columns(3,1), of 19 f]
    by (simp add: search_columns(2) numeral_eq_Suc)
  have "placeholders (fst (listingWhere q)) =
     [1..<Suc (length (filterArguments q))] @
     (if Qo_Search q = '''' then [] else map (renumbered 19 (length (filterArguments q))) [1..<20]) \<and>
     length (snd (listingWhere q)) = length (filterArguments q) + (if Qo_Search q = '''' then 0 else 19)"
  proof (cases "Qo_Search q = ''''")
    case True
    show ?thesis
      by (rule filterClause_cases[of q])
        (simp_all add: listingWhere_def search_absent[OF True] True del: upt_Suc)
  next
    case False
    obtain sc sa where S: "?S = (sc, sa)" "sc \<noteq> ''''" "length sa = 19"
      using search_present[OF False] by (cases ?S) auto
    show ?thesis
      by (rule filterClause_cases[of q])
        (simp_all add: listingWhere_def S False placeholders_closed placeholders_and[simplified]
          R[OF False, unfolded S fst_conv, simplified] del: upt_Suc)
  qed
  then show "placeholders (fst (listingWhere q)) =
     [1..<Suc (length (filterArguments q))] @
     (if Qo_Search q = '''' then [] else map (renumbered 19 (length (filterArguments q))) [1..<20])"
    and "length (snd (listingWhere q)) = length (filterArguments q) + (if Qo_Search q = '''' then 0 else 19)"
    by blast+
qed

lemma filterConditions_args:
  "snd (filterConditions allowed n fs) = map snd (filter (\<lambda>p. allowed (fst p)) fs)"
  by (induction allowed n fs rule: filterConditions.induct) (auto split: prod.splits)

lemma filterArguments_eq:
  "filterArguments q = map snd (filter (\<lambda>p. sagaInstancesAllowedFilters (fst p)) (Qo_Filters q))"
  using filterConditions_args[of sagaInstancesAllowedFilters 1 "Qo_Filters q"]
    filterConditions_empty[of sagaInstancesAllowedFilters 1 "Qo_Filters q"]
  by (auto simp: filterArguments_def BuildFilterClause_def split: prod.splits)

lemma at_most_three_filters:
  assumes "distinct (map fst (Qo_Filters q))"
  shows "length (filterArguments q) \<le> 3"
proof -
  let ?fs = "filter (\<lambda>p. sagaInstancesAllowedFilters (fst p)) (Qo_Filters q)"
  have "distinct (map fst ?fs)" using assms by (simp add: distinct_map_filter)
  moreover have "set (map fst ?fs) \<subseteq> {''state'', ''saga_template_id'', ''saga_submitter_id''}"
    by (auto simp: sagaInstancesAllowedFilters_def)
  ultimately have "length (map fst ?fs) \<le> card {''state'', ''saga_template_id'', ''saga_submitter_id''}"
    by (metis card_mono distinct_card finite.emptyI finite_insert)
  then show ?thesis by (simp add: filterArguments_eq)
qed

text \<open>C27: The saga listing's WHERE clause refers only to arguments it binds exactly when the request has
  no search text or no filter: with both, the textual renumbering of \<open>$1..$19\<close> also hits the prefixes of
  two-digit placeholders and the query names a parameter that does not exist.\<close>
theorem listing_placeholders_bound_iff:
  assumes "distinct (map fst (Qo_Filters q))"
  shows "(\<forall>p \<in> set (placeholders (fst (listingWhere q))). p \<le> length (snd (listingWhere q))) \<longleftrightarrow>
    Qo_Search q = '''' \<or> filterArguments q = []"
proof -
  consider "Qo_Search q = ''''" | "Qo_Search q \<noteq> ''''" "filterArguments q = []"
    | f where "Qo_Search q \<noteq> ''''" "length (filterArguments q) = f" "f = 1 \<or> f = 2 \<or> f = 3"
  proof -
    have "length (filterArguments q) = 0 \<or> length (filterArguments q) = 1 \<or>
        length (filterArguments q) = 2 \<or> length (filterArguments q) = 3"
      using at_most_three_filters[OF assms] by linarith
    then show thesis using that by auto
  qed
  then show ?thesis
  proof cases
    case 1
    then show ?thesis using listingWhere_placeholders[of q] by auto
  next
    case 2
    have "renumbered 19 0 n = n" for n by (simp add: renumbered_def renumberDigits_zero)
    then show ?thesis using listingWhere_placeholders[of q] 2 by auto
  next
    case 3
    have v: "natOf ''30'' = Some 30" "natOf ''41'' = Some 41" "natOf ''52'' = Some 52"
      by (simp_all add: natOf_def less_eq_char_def)
    have big: "renumbered 19 f 19 > f + 19" using 3(3) renumbered_last v by (auto simp: renumbered_def)
    have "renumbered 19 f 19 \<in> set (placeholders (fst (listingWhere q)))"
      using listingWhere_placeholders(1)[of q] 3(1,2) by auto
    moreover have "length (snd (listingWhere q)) = f + 19"
      using listingWhere_placeholders(2)[of q] 3(1,2) by simp
    ultimately have "\<not> (\<forall>p \<in> set (placeholders (fst (listingWhere q))). p \<le> length (snd (listingWhere q)))"
      using big by (metis linorder_not_le)
    moreover have "filterArguments q \<noteq> []" using 3(2,3) by auto
    ultimately show ?thesis using 3(1) by blast
  qed
qed

definition exSearch :: QueryOptions where
  "exSearch = emptyQueryOptions\<lparr>Qo_Search := ''order'', Qo_Filters := [(''state'', ''INVALID'')]\<rparr>"

theorem listing_placeholders_bound_iff_witness:
  "\<not> (\<forall>p \<in> set (placeholders (fst (listingWhere exSearch))). p \<le> length (snd (listingWhere exSearch)))"
  using listing_placeholders_bound_iff[of exSearch]
  by (simp add: exSearch_def emptyQueryOptions_def filterArguments_eq sagaInstancesAllowedFilters_def)

end
