(* ===== verification/Store_Listing.thy ===== *)
theory Store_Listing
  imports Saga_Registry Query_Clauses
begin

text \<open>
  The rest of the PostgreSQL store (\<open>store_psql.go\<close>): lookups by idempotency key, the listings and the saga
  annexes.  What the server computes for the text of a paginated listing is an argument.
\<close>

section \<open>Listings\<close>

definition GetSagaInstanceBySagaIdempotencyKey :: "string \<Rightarrow> string \<Rightarrow> world \<Rightarrow> SagaInstance result \<times> world" where
  "GetSagaInstanceBySagaIdempotencyKey clusterId key w =
     (case db_query (\<lambda>d. find (\<lambda>r. Si_ClusterId r = clusterId \<and> SagaInstance_SagaIdempotencyKey r = key) (db_sagas d)) w of
        (Inl e, w1) \<Rightarrow> (Err (''failed to scan saga instance: '' @ e), w1)
      | (Inr None, w1) \<Rightarrow> (Err ErrSagaInstanceNotFound, w1)
      | (Inr (Some r), w1) \<Rightarrow> (Ok r, w1))"

definition GetSagaStepBySagaIdempotencyKey :: "string \<Rightarrow> string \<Rightarrow> world \<Rightarrow> SagaStepInstance result \<times> world" where
  "GetSagaStepBySagaIdempotencyKey clusterId key w =
     (case db_query (\<lambda>d. find (\<lambda>r. Ss_ClusterId r = clusterId \<and> SagaStepInstance_SagaIdempotencyKey r = key) (db_steps d)) w of
        (Inl e, w1) \<Rightarrow> (Err (''failed to scan saga step instance: '' @ e), w1)
      | (Inr None, w1) \<Rightarrow> (Err ErrSagaStepInstanceNotFound, w1)
      | (Inr (Some r), w1) \<Rightarrow> (Ok r, w1))"

text \<open>\<open>ORDER BY created_at DESC\<close>\<close>
definition ListSagaInstances :: "string \<Rightarrow> world \<Rightarrow> SagaInstance list result \<times> world" where
  "ListSagaInstances clusterId w =
     (case db_query (\<lambda>d. rev (sort_key Si_CreatedAt (filter (\<lambda>r. Si_ClusterId r = clusterId) (db_sagas d)))) w of
        (Inl e, w1) \<Rightarrow> (Err (''failed to query saga instances: '' @ e), w1)
      | (Inr rs, w1) \<Rightarrow> (Ok rs, w1))"

definition ListSagaInstanceIds :: "string \<Rightarrow> world \<Rightarrow> string list result \<times> world" where
  "ListSagaInstanceIds clusterId w =
     (case db_query (\<lambda>d. map Si_InstanceId (filter (\<lambda>r. Si_ClusterId r = clusterId) (db_sagas d))) w of
        (Inl e, w1) \<Rightarrow> (Err (''failed to query saga instance IDs: '' @ e), w1)
      | (Inr rs, w1) \<Rightarrow> (Ok rs, w1))"

definition ListSagaStepInstances :: "string \<Rightarrow> world \<Rightarrow> SagaStepInstance list result \<times> world" where
  "ListSagaStepInstances clusterId w =
     (case db_query (\<lambda>d. filter (\<lambda>r. Ss_ClusterId r = clusterId) (db_steps d)) w of
        (Inl e, w1) \<Rightarrow> (Err (''failed to query saga step instances: '' @ e), w1)
      | (Inr rs, w1) \<Rightarrow> (Ok rs, w1))"

definition ListSagaStepInstanceIds :: "string \<Rightarrow> world \<Rightarrow> string list result \<times> world" where
  "ListSagaStepInstanceIds clusterId w =
     (case db_query (\<lambda>d. map Ss_InstanceId (filter (\<lambda>r. Ss_ClusterId r = clusterId) (db_steps d))) w of
        (Inl e, w1) \<Rightarrow> (Err (''failed to query saga step instance IDs: '' @ e), w1)
      | (Inr rs, w1) \<Rightarrow> (Ok rs, w1))"

definition ListSagaInstancesPaginated ::
    "(string \<Rightarrow> string list \<Rightarrow> db \<Rightarrow> int) \<Rightarrow> (string \<Rightarrow> string list \<Rightarrow> db \<Rightarrow> SagaInstance list) \<Rightarrow>
     string \<Rightarrow> QueryOptions option \<Rightarrow> world \<Rightarrow> (SagaInstance list \<times> int) result \<times> world" where
  "ListSagaInstancesPaginated sqlCount sqlSelect tableName opts w =
     (case listingQueries tableName opts of ((countQuery, query), args) \<Rightarrow>
      (case db_query (sqlCount countQuery args) w of
         (Inl e, w1) \<Rightarrow> (Err (''failed to count saga instances: '' @ e), w1)
       | (Inr totalCount, w1) \<Rightarrow>
           (case db_query (sqlSelect query args) w1 of
              (Inl e, w2) \<Rightarrow> (Err (''failed to query saga instances: '' @ e), w2)
            | (Inr rs, w2) \<Rightarrow> (Ok (rs, totalCount), w2))))"

section \<open>Annexes\<close>

text \<open>\<open>INSERT ... ON CONFLICT (iid) DO UPDATE\<close>\<close>
definition upsert_annex :: "SagaAnnex \<Rightarrow> int \<Rightarrow> db \<Rightarrow> db" where
  "upsert_annex a now d =
     (let same = (\<lambda>r. An_ClusterId r = An_ClusterId a \<and> An_Iid r = An_Iid a)
      in if \<exists>r \<in> set (db_annexes d). same r
         then d\<lparr>db_annexes := map (\<lambda>r. if same r then a\<lparr>An_CreatedAt := An_CreatedAt r, An_UpdatedAt := now\<rparr> else r)
                  (db_annexes d)\<rparr>
         else d\<lparr>db_annexes := db_annexes d @ [a\<lparr>An_CreatedAt := now, An_UpdatedAt := now\<rparr>]\<rparr>)"

definition CreateSagaAnnex :: "SagaAnnex option \<Rightarrow> world \<Rightarrow> unit result \<times> world" where
  "CreateSagaAnnex annex w =
     (case annex of
        None \<Rightarrow> (Err ''annex iid, saga_instance_id and cluster_id are required'', w)
      | Some a \<Rightarrow>
          if An_Iid a = '''' \<or> An_SagaInstanceId a = '''' \<or> An_ClusterId a = ''''
          then (Err ''annex iid, saga_instance_id and cluster_id are required'', w)
          else let contentLength = (if An_ContentLength a = 0 then int (length (An_ContentData a)) else An_ContentLength a)
               in (case db_insert (\<lambda>d. find_saga (An_ClusterId a) (An_SagaInstanceId a) d \<noteq> None)
                           (upsert_annex (a\<lparr>An_ContentLength := contentLength\<rparr>) (w_dbtime w)) w of
                     (Inl e, w1) \<Rightarrow> (Err (''failed to insert saga annex: '' @ e), w1)
                   | (Inr _, w1) \<Rightarrow>
                       let found = find_saga (An_ClusterId a) (An_SagaInstanceId a) (w_db w1) \<noteq> None
                       in (case db_exec (update_saga_rows (An_ClusterId a) (An_SagaInstanceId a)
                                  (\<lambda>r. r\<lparr>Si_AnnexIids := removeAll (An_Iid a) (Si_AnnexIids r) @ [An_Iid a],
                                         Si_UpdatedAt := w_dbtime w1\<rparr>)) w1 of
                             (Inl e, w2) \<Rightarrow> (Err (''failed to attach annex iid to saga: '' @ e), w2)
                           | (Inr _, w2) \<Rightarrow> if found then (Ok (), w2) else (Err ErrSagaInstanceNotFound, w2))))"

definition ListSagaAnnexes :: "string \<Rightarrow> string \<Rightarrow> world \<Rightarrow> SagaAnnex list result \<times> world" where
  "ListSagaAnnexes clusterId sagaInstanceId w =
     (case db_query (\<lambda>d. sort_key An_CreatedAt (map (\<lambda>a. a\<lparr>An_ContentData := ''''\<rparr>)
              (filter (\<lambda>a. An_ClusterId a = clusterId \<and> An_SagaInstanceId a = sagaInstanceId) (db_annexes d)))) w of
        (Inl e, w1) \<Rightarrow> (Err (''failed to list saga annexes: '' @ e), w1)
      | (Inr rs, w1) \<Rightarrow> (Ok rs, w1))"

definition GetSagaAnnexBytes :: "string \<Rightarrow> string \<Rightarrow> world \<Rightarrow> SagaAnnex result \<times> world" where
  "GetSagaAnnexBytes clusterId annexIid w =
     (case db_query (\<lambda>d. find (\<lambda>a. An_ClusterId a = clusterId \<and> An_Iid a = annexIid) (db_annexes d)) w of
        (Inl e, w1) \<Rightarrow> (Err (''failed to scan saga annex bytes: '' @ e), w1)
      | (Inr None, w1) \<Rightarrow> (Err (''annex not found: '' @ annexIid), w1)
      | (Inr (Some a), w1) \<Rightarrow> (Ok a, w1))"

section \<open>Creating an annex\<close>

lemma find_map_keep:
  "(\<And>r. P (f r) = P r) \<Longrightarrow> find P (map f xs) = map_option f (find P xs)"
  by (induction xs) auto

lemma upsert_annex_find:
  "\<exists>created. find (\<lambda>r. An_ClusterId r = An_ClusterId a \<and> An_Iid r = An_Iid a) (db_annexes (upsert_annex a now d)) =
     Some (a\<lparr>An_CreatedAt := created, An_UpdatedAt := now\<rparr>)"
proof (cases "\<exists>r \<in> set (db_annexes d). An_ClusterId r = An_ClusterId a \<and> An_Iid r = An_Iid a")
  case True
  let ?P = "\<lambda>r. An_ClusterId r = An_ClusterId a \<and> An_Iid r = An_Iid a"
  let ?f = "\<lambda>r. if ?P r then a\<lparr>An_CreatedAt := An_CreatedAt r, An_UpdatedAt := now\<rparr> else r"
  obtain r where r: "find ?P (db_annexes d) = Some r" using True by (fastforce simp: find_None_iff)
  then have "?P r" by (auto simp: find_Some_iff)
  have "find ?P (map ?f (db_annexes d)) = map_option ?f (find ?P (db_annexes d))" by (rule find_map_keep) auto
  then show ?thesis using r \<open>?P r\<close> True by (auto simp: upsert_annex_def Let_def)
next
  case False
  then have "find (\<lambda>r. An_ClusterId r = An_ClusterId a \<and> An_Iid r = An_Iid a) (db_annexes d) = None"
    by (auto simp: find_None_iff)
  then show ?thesis using False by (auto simp: upsert_annex_def Let_def find_snoc)
qed

lemma upsert_annex_keeps [simp]: "db_sagas (upsert_annex a now d) = db_sagas d"
  by (simp add: upsert_annex_def Let_def)

lemma find_saga_upsert [simp]: "find_saga c i (upsert_annex a now d) = find_saga c i d"
  by (simp add: find_saga_def)

text \<open>The annex as the store keeps it, up to its timestamps.\<close>
definition storedAnnex :: "SagaAnnex \<Rightarrow> SagaAnnex" where
  "storedAnnex a = (if An_ContentLength a = 0 then a\<lparr>An_ContentLength := int (length (An_ContentData a))\<rparr> else a)"

lemma create_annex_ok:
  assumes w: "psql_wf w" and a: "An_Iid a \<noteq> ''''" "An_SagaInstanceId a \<noteq> ''''" "An_ClusterId a \<noteq> ''''"
    and g: "psql_view w (An_ClusterId a, An_SagaInstanceId a) = Some g"
  shows "\<exists>w'. CreateSagaAnnex (Some a) w = (Ok (), w') \<and> psql_wf w' \<and>
    psql_view w' = (psql_view w)((An_ClusterId a, An_SagaInstanceId a) \<mapsto>
      g\<lparr>Si_AnnexIids := removeAll (An_Iid a) (Si_AnnexIids g) @ [An_Iid a]\<rparr>) \<and>
    (\<exists>t. GetSagaAnnexBytes (An_ClusterId a) (An_Iid a) w' =
      (Ok ((storedAnnex a)\<lparr>An_CreatedAt := t, An_UpdatedAt := w_dbtime w\<rparr>), w'))"
proof -
  let ?a = "storedAnnex a" and ?c = "An_ClusterId a" and ?i = "An_SagaInstanceId a"
  let ?f = "\<lambda>r. r\<lparr>Si_AnnexIids := removeAll (An_Iid a) (Si_AnnexIids r) @ [An_Iid a], Si_UpdatedAt := w_dbtime w\<rparr>"
  let ?w1 = "w\<lparr>w_db := upsert_annex ?a (w_dbtime w) (w_db w)\<rparr>"
  let ?w2 = "?w1\<lparr>w_db := update_saga_rows ?c ?i ?f (w_db ?w1)\<rparr>"
  obtain r where r: "find_saga ?c ?i (w_db w) = Some r" "g = unstamped r" using g by (auto simp: psql_view_def)
  have id: "sagaIdent (?f r) = sagaIdent r" for r by (simp add: sagaIdent_def)
  have w1: "psql_wf ?w1" "psql_view ?w1 = psql_view w"
    using w by (simp_all add: psql_wf_def psql_view_def fun_eq_iff)
  have s: "a\<lparr>An_ContentLength := (if An_ContentLength a = 0 then int (length (An_ContentData a)) else An_ContentLength a)\<rparr> = ?a"
    by (simp add: storedAnnex_def)
  have "CreateSagaAnnex (Some a) w = (Ok (), ?w2)"
    using a r s by (simp add: CreateSagaAnnex_def db_insert_def psql_exec[OF w] psql_exec[OF w1(1)] Let_def)
  moreover have "psql_wf ?w2" by (rule psql_update_wf[of ?f, OF id w1(1)])
  moreover have "psql_view ?w2 = (psql_view w)((?c, ?i) \<mapsto> g\<lparr>Si_AnnexIids := removeAll (An_Iid a) (Si_AnnexIids g) @ [An_Iid a]\<rparr>)"
  proof
    show "psql_view ?w2 k = ((psql_view w)((?c, ?i) \<mapsto> g\<lparr>Si_AnnexIids := removeAll (An_Iid a) (Si_AnnexIids g) @ [An_Iid a]\<rparr>)) k" for k
      using r w1(2) unfolding psql_update_view[of ?f, OF id] by (simp add: unstamped_def)
  qed
  moreover obtain t where "find (\<lambda>r. An_ClusterId r = ?c \<and> An_Iid r = An_Iid a) (db_annexes (w_db ?w2)) =
      Some (?a\<lparr>An_CreatedAt := t, An_UpdatedAt := w_dbtime w\<rparr>)"
    using upsert_annex_find[of ?a "w_dbtime w" "w_db w"] by (auto simp: update_saga_rows_def storedAnnex_def split: if_splits)
  ultimately show ?thesis
    by (auto simp: GetSagaAnnexBytes_def psql_query)
qed

text \<open>Creating an annex with an iid that exists already (a retry) replaces its bytes and leaves its iid
  in the saga's list exactly once: after two creations the list is the old one without the iid, then
  the iid, and the bytes read back are those of the second creation.\<close>
theorem psql_annex_retry:
  assumes w: "psql_wf w" and a: "An_Iid a \<noteq> ''''" "An_SagaInstanceId a \<noteq> ''''" "An_ClusterId a \<noteq> ''''"
    and b: "An_Iid b = An_Iid a" "An_SagaInstanceId b = An_SagaInstanceId a" "An_ClusterId b = An_ClusterId a"
    and g: "psql_view w (An_ClusterId a, An_SagaInstanceId a) = Some g"
  shows "\<exists>w1 w2 t u. CreateSagaAnnex (Some a) w = (Ok (), w1) \<and> CreateSagaAnnex (Some b) w1 = (Ok (), w2) \<and>
    psql_view w2 = (psql_view w)((An_ClusterId a, An_SagaInstanceId a) \<mapsto>
      g\<lparr>Si_AnnexIids := removeAll (An_Iid a) (Si_AnnexIids g) @ [An_Iid a]\<rparr>) \<and>
    GetSagaAnnexBytes (An_ClusterId a) (An_Iid a) w2 =
      (Ok ((storedAnnex b)\<lparr>An_CreatedAt := t, An_UpdatedAt := u\<rparr>), w2)"
proof -
  obtain w1 where w1: "CreateSagaAnnex (Some a) w = (Ok (), w1)" "psql_wf w1"
      "psql_view w1 = (psql_view w)((An_ClusterId a, An_SagaInstanceId a) \<mapsto>
        g\<lparr>Si_AnnexIids := removeAll (An_Iid a) (Si_AnnexIids g) @ [An_Iid a]\<rparr>)"
    using create_annex_ok[OF w a g] by blast
  have "psql_view w1 (An_ClusterId b, An_SagaInstanceId b) =
      Some (g\<lparr>Si_AnnexIids := removeAll (An_Iid a) (Si_AnnexIids g) @ [An_Iid a]\<rparr>)"
    using w1(3) b by simp
  from create_annex_ok[OF w1(2) _ _ _ this] a b w1
  show ?thesis by (fastforce simp: fun_upd_def)
qed

text \<open>The two statements of an annex creation are not one transaction: when the first works and the second
  fails, the caller gets an error, yet the annex is stored and its saga does not list it.\<close>
theorem psql_annex_not_atomic:
  assumes "w_tx w = None" and "w_faults w = [Works, Fails]"
    and "An_Iid a \<noteq> ''''" "An_SagaInstanceId a \<noteq> ''''" "An_ClusterId a \<noteq> ''''"
    and "find_saga (An_ClusterId a) (An_SagaInstanceId a) (w_db w) = Some g" and "An_Iid a \<notin> set (Si_AnnexIids g)"
  shows "\<exists>e w'. CreateSagaAnnex (Some a) w = (Err e, w') \<and>
    (\<exists>r \<in> set (db_annexes (w_db w')). An_ClusterId r = An_ClusterId a \<and> An_Iid r = An_Iid a) \<and>
    find_saga (An_ClusterId a) (An_SagaInstanceId a) (w_db w') = Some g"
proof -
  let ?a = "storedAnnex a"
  let ?w = "w\<lparr>w_faults := [Fails]\<rparr>\<lparr>w_db := upsert_annex ?a (w_dbtime w) (w_db w)\<rparr>"
  have s: "a\<lparr>An_ContentLength := (if An_ContentLength a = 0 then int (length (An_ContentData a)) else An_ContentLength a)\<rparr> = ?a"
    by (simp add: storedAnnex_def)
  have "\<exists>e. CreateSagaAnnex (Some a) w = (Err e, ?w\<lparr>w_faults := []\<rparr>)"
    using assms s by (simp add: CreateSagaAnnex_def db_insert_def db_exec_def next_fault_def Let_def)
  moreover obtain t where "find (\<lambda>r. An_ClusterId r = An_ClusterId ?a \<and> An_Iid r = An_Iid ?a)
      (db_annexes (upsert_annex ?a (w_dbtime w) (w_db w))) = Some (?a\<lparr>An_CreatedAt := t, An_UpdatedAt := w_dbtime w\<rparr>)"
    using upsert_annex_find by blast
  moreover have "An_ClusterId ?a = An_ClusterId a" "An_Iid ?a = An_Iid a" by (simp_all add: storedAnnex_def)
  ultimately show ?thesis using assms(6) by (fastforce simp: find_Some_iff)
qed

definition exAnnexDb :: db where
  "exAnnexDb = \<lparr>db_sagas = [zeroSagaInstance\<lparr>Si_ClusterId := ''c1'', Si_InstanceId := ''i1''\<rparr>], db_steps = [],
     db_templates = [], db_stepTemplates = [], db_clusters = [], db_annexes = [], db_notify = []\<rparr>"

definition exAnnexWorld :: "fault list \<Rightarrow> world" where
  "exAnnexWorld fs = \<lparr>w_db = exAnnexDb, w_tx = None, w_aborted = False, w_faults = fs, w_clock = [], w_now = 0,
     w_rand = [], w_dbtime = 7, w_outbox = [], w_spawned = []\<rparr>"

definition exPdf :: SagaAnnex where
  "exPdf = \<lparr>An_Iid = ''a1'', An_ClusterId = ''c1'', An_SagaInstanceId = ''i1'', An_ContentType = ''application/pdf'',
     An_ContentLength = 0, An_Notes = '''', An_ContentData = ''bytes'', An_CreatedAt = 0, An_UpdatedAt = 0\<rparr>"

lemma exAnnex_saga: "psql_wf (exAnnexWorld [])" "psql_view (exAnnexWorld []) (''c1'', ''i1'') =
    Some (zeroSagaInstance\<lparr>Si_ClusterId := ''c1'', Si_InstanceId := ''i1''\<rparr>)"
    "find_saga ''c1'' ''i1'' exAnnexDb = Some (zeroSagaInstance\<lparr>Si_ClusterId := ''c1'', Si_InstanceId := ''i1''\<rparr>)"
  by (simp_all add: psql_wf_def exAnnexWorld_def exAnnexDb_def psql_view_def find_saga_def unstamped_def zeroSagaInstance_def)

lemma exPdf_ids: "An_Iid exPdf = ''a1''" "An_SagaInstanceId exPdf = ''i1''" "An_ClusterId exPdf = ''c1''"
  by (simp_all add: exPdf_def)

theorem psql_annex_retry_witness:
  "\<exists>w1 w2. CreateSagaAnnex (Some exPdf) (exAnnexWorld []) = (Ok (), w1) \<and> CreateSagaAnnex (Some exPdf) w1 = (Ok (), w2)"
proof -
  have "psql_view (exAnnexWorld []) (An_ClusterId exPdf, An_SagaInstanceId exPdf) =
      Some (zeroSagaInstance\<lparr>Si_ClusterId := ''c1'', Si_InstanceId := ''i1''\<rparr>)"
    by (simp add: exPdf_ids exAnnex_saga)
  from psql_annex_retry[OF exAnnex_saga(1) _ _ _ refl refl refl this] show ?thesis by (auto simp: exPdf_ids)
qed

theorem psql_annex_not_atomic_witness:
  "\<exists>e w'. CreateSagaAnnex (Some exPdf) (exAnnexWorld [Works, Fails]) = (Err e, w')"
proof -
  let ?w = "exAnnexWorld [Works, Fails]"
  have w: "w_tx ?w = None" "w_faults ?w = [Works, Fails]" "w_db ?w = exAnnexDb" by (simp_all add: exAnnexWorld_def)
  have n: "An_Iid exPdf \<noteq> ''''" "An_SagaInstanceId exPdf \<noteq> ''''" "An_ClusterId exPdf \<noteq> ''''"
    by (simp_all add: exPdf_ids)
  have f: "find_saga (An_ClusterId exPdf) (An_SagaInstanceId exPdf) (w_db ?w) =
      Some (zeroSagaInstance\<lparr>Si_ClusterId := ''c1'', Si_InstanceId := ''i1''\<rparr>)"
    by (simp add: exPdf_ids exAnnex_saga w(3))
  have "An_Iid exPdf \<notin> set (Si_AnnexIids (zeroSagaInstance\<lparr>Si_ClusterId := ''c1'', Si_InstanceId := ''i1''\<rparr>))"
    by (simp add: zeroSagaInstance_def)
  from psql_annex_not_atomic[OF w(1,2) n f this] show ?thesis by blast
qed

section \<open>The saga table\<close>

text \<open>Saving a saga is idempotent on its idempotency key: submitted twice, it is stored once, and the
  second call says so instead of failing.\<close>
theorem psql_save_idempotent:
  assumes "psql_wf w" and "\<not> keyed_in (psql_view w) g" and "psql_view w (sagaIdent g) = None" and "psql_admits w g"
  shows "\<exists>w1 w2. SaveSagaInstanceIdempotently g w = (Ok True, w1) \<and> SaveSagaInstanceIdempotently g w1 = (Ok False, w2) \<and>
    psql_wf w2 \<and> psql_view w2 = (psql_view w)(sagaIdent g \<mapsto> unstamped g)"
  by (rule psql.save_twice[OF assms])

definition exSavedWorld :: world where
  "exSavedWorld = (exAnnexWorld [])\<lparr>w_db := exAnnexDb\<lparr>db_sagas := [], db_templates := [\<lparr>St_TemplateId = '''',
     St_DisplayName = '''', St_Description = '''', St_Labels = Map.empty, St_Tags = [], St_Metadata = Map.empty,
     St_SagaStepTemplateIds = []\<rparr>]\<rparr>\<rparr>"

theorem psql_save_idempotent_witness:
  "\<exists>w1 w2. SaveSagaInstanceIdempotently zeroSagaInstance exSavedWorld = (Ok True, w1) \<and>
    SaveSagaInstanceIdempotently zeroSagaInstance w1 = (Ok False, w2)"
proof -
  have "psql_wf exSavedWorld" "\<not> keyed_in (psql_view exSavedWorld) zeroSagaInstance"
    "psql_view exSavedWorld (sagaIdent zeroSagaInstance) = None" "psql_admits exSavedWorld zeroSagaInstance"
    by (simp_all add: exSavedWorld_def exAnnexWorld_def exAnnexDb_def psql_wf_def psql_view_def psql_admits_def
        keyed_in_def ran_def find_saga_def zeroSagaInstance_def)
  from psql_save_idempotent[OF this] show ?thesis by blast
qed

text \<open>A compensation request is accepted only for a COMMITTED saga and only once: the second request fails
  and changes nothing, and no other saga is touched by the first.\<close>
theorem psql_trigger_once:
  assumes "psql_wf w" and "TriggerSagaCompensation c i w = (Ok u, w1)"
  shows "(\<exists>x. psql_view w (c, i) = Some x \<and> Si_State x = SagaStateEnum_Committed \<and>
      psql_view w1 = (psql_view w)((c, i) \<mapsto> x\<lparr>Si_State := SagaStateEnum_CompensationRequested\<rparr>)) \<and>
    (\<exists>e w2. TriggerSagaCompensation c i w1 = (Err e, w2) \<and> psql_view w2 = psql_view w1)"
  using psql.trigger_once[OF assms] by blast

definition exCommittedWorld :: world where
  "exCommittedWorld = (exAnnexWorld [])\<lparr>w_db := exAnnexDb\<lparr>db_sagas :=
     [zeroSagaInstance\<lparr>Si_ClusterId := ''c1'', Si_InstanceId := ''i1'', Si_State := SagaStateEnum_Committed\<rparr>]\<rparr>\<rparr>"

theorem psql_trigger_once_witness:
  "\<exists>w1 e w2. TriggerSagaCompensation ''c1'' ''i1'' exCommittedWorld = (Ok (), w1) \<and>
    TriggerSagaCompensation ''c1'' ''i1'' w1 = (Err e, w2)"
proof -
  have wf: "psql_wf exCommittedWorld"
    by (simp add: exCommittedWorld_def exAnnexWorld_def exAnnexDb_def psql_wf_def)
  have "psql_view exCommittedWorld (''c1'', ''i1'') = Some (unstamped (zeroSagaInstance\<lparr>Si_ClusterId := ''c1'',
      Si_InstanceId := ''i1'', Si_State := SagaStateEnum_Committed\<rparr>))"
    by (simp add: exCommittedWorld_def exAnnexWorld_def exAnnexDb_def psql_view_def find_saga_def)
  then obtain w1 where t: "TriggerSagaCompensation ''c1'' ''i1'' exCommittedWorld = (Ok (), w1)"
    using psql_trigger(2)[OF wf] by fastforce
  then show ?thesis using psql_trigger_once[OF wf t] by blast
qed

end
