(* ===== verification/Saga_System.thy ===== *)
theory Saga_System
  imports Submission_Safety Store_Listing
begin

text \<open>
  The system as a transition relation: the goroutines of the coordinators, the operator's requests and
  the management of templates and clusters, each one event on the shared database.  An event starts on
  a goroutine of its own with the environment it meets (which calls fail, clock, random strings) and
  leaves behind what is durable: the rows, or, when it left a transaction open, the rows that
  transaction would return to.  Events are atomic: saga work runs under the saga's mutex.
\<close>

section \<open>Events\<close>

record env =
  env_faults :: "fault list"
  env_clock :: "int list"
  env_now :: int
  env_rand :: "nat list list"
  env_dbtime :: int

definition goroutine :: "env \<Rightarrow> db \<Rightarrow> world" where
  "goroutine e d = \<lparr>w_db = d, w_tx = None, w_aborted = False, w_faults = env_faults e,
     w_clock = env_clock e, w_now = env_now e, w_rand = env_rand e, w_dbtime = env_dbtime e,
     w_outbox = [], w_spawned = []\<rparr>"

datatype event =
    SubmissionArrives coordinator bool TraxMessage
  | PollerTakes coordinator string string string
  | ImmediateProcessing coordinator string string string
  | ResultArrives string string "TraxMessage option"
  | OperatorTriggers string string
  | OperatorForces string string string
  | TemplateSaved SagaTemplate
  | TemplateUpdated SagaTemplate
  | TemplateDeleted string
  | StepTemplateSaved SagaStepTemplate
  | StepTemplateUpdated SagaStepTemplate
  | StepTemplateDeleted string
  | ClusterSaved Cluster
  | ClusterUpdated Cluster
  | ClusterDeleted string
  | AnnexAttached "SagaAnnex option"

fun exitPanic :: "'e exit \<Rightarrow> string option" where
  "exitPanic (Died m) = Some m"
| "exitPanic _ = None"

text \<open>The panic of the event, if it panics, and the world after it.\<close>
fun run_event :: "event \<Rightarrow> world \<Rightarrow> string option \<times> world" where
  "run_event (SubmissionArrives co ready msg) w = apfst exitPanic (onSubmission co ready msg w)"
| "run_event (PollerTakes co c gid sid) w = pollStep co c gid sid w"
| "run_event (ImmediateProcessing co c gid sid) w = processStepWithMutex co c gid sid w"
| "run_event (ResultArrives c mt body) w =
     (case consumeResult c mt body \<lparr>h_saga = zeroSagaInstance, h_step = zeroStepInstance, h_w = w\<rparr> of
        (Inl e, s) \<Rightarrow> (exitPanic e, h_w s)
      | (Inr _, s) \<Rightarrow> (None, h_w s))"
| "run_event (OperatorTriggers c gid) w = (None, snd (TriggerSagaCompensation c gid w))"
| "run_event (OperatorForces c gid reason) w = (None, snd (ForceMarkSagaCompensated c gid reason w))"
| "run_event (TemplateSaved t) w = (None, snd (SaveSagaTemplateIdempotently t w))"
| "run_event (TemplateUpdated t) w = (None, snd (UpdateSagaTemplate t w))"
| "run_event (TemplateDeleted tid) w = (None, snd (DeleteSagaTemplate tid w))"
| "run_event (StepTemplateSaved t) w = (None, snd (SaveSagaStepTemplateIdempotently t w))"
| "run_event (StepTemplateUpdated t) w = (None, snd (UpdateSagaStepTemplate t w))"
| "run_event (StepTemplateDeleted tid) w = (None, snd (DeleteSagaStepTemplate tid w))"
| "run_event (ClusterSaved cl) w = (None, snd (SaveClusterIdempotently cl w))"
| "run_event (ClusterUpdated cl) w = (None, snd (UpdateCluster cl w))"
| "run_event (ClusterDeleted cid) w = (None, snd (DeleteCluster cid w))"
| "run_event (AnnexAttached annex) w = (None, snd (CreateSagaAnnex annex w))"

text \<open>The one assumption about the environment: a submission draws fresh identifiers.\<close>
fun admissible :: "event \<Rightarrow> world \<Rightarrow> bool" where
  "admissible (SubmissionArrives _ _ _) w = fresh_enough w"
| "admissible _ w = True"

inductive reachable :: "db \<Rightarrow> bool" where
  reachable_init: "db_sagas d = [] \<Longrightarrow> db_steps d = [] \<Longrightarrow> reachable d"
| reachable_event: "reachable d \<Longrightarrow> admissible ev (goroutine e d) \<Longrightarrow> run_event ev (goroutine e d) = (r, w) \<Longrightarrow>
    reachable (durable w)"

section \<open>Every event keeps the invariant\<close>

lemma insert_any:
  "db_insert ok upd w = (r, w1) \<Longrightarrow> w_tx w1 = w_tx w \<and>
     (w_db w1 = w_db w \<or> w_db w1 = upd (w_db w))"
  using exec_any[of upd w r w1] by (auto simp: db_insert_def split: if_splits)

lemmas template_defs = SaveSagaTemplateIdempotently_def UpdateSagaTemplate_def DeleteSagaTemplate_def
  SaveSagaStepTemplateIdempotently_def UpdateSagaStepTemplate_def DeleteSagaStepTemplate_def
  SaveClusterIdempotently_def UpdateCluster_def DeleteCluster_def

lemma notify_template_keeps [simp]:
  "w_tx (notify_template_event p w) = w_tx w"
  "db_sagas (w_db (notify_template_event p w)) = db_sagas (w_db w)"
  "db_steps (w_db (notify_template_event p w)) = db_steps (w_db w)"
  by (auto simp: notify_template_event_def db_exec_def next_fault_def
      split: if_splits prod.splits list.splits fault.splits)

definition same_rows :: "world \<Rightarrow> world \<Rightarrow> bool" where
  "same_rows w w1 = (w_tx w1 = w_tx w \<and> db_sagas (w_db w1) = db_sagas (w_db w) \<and> db_steps (w_db w1) = db_steps (w_db w))"

definition frames :: "(db \<Rightarrow> db) \<Rightarrow> bool" where
  "frames f = (\<forall>d. db_sagas (f d) = db_sagas d \<and> db_steps (f d) = db_steps d)"

lemma same_case:
  "\<lbrakk> same_rows w (snd m); \<And>e v. same_rows w v \<Longrightarrow> same_rows w (snd (A e v));
     \<And>x v. same_rows w v \<Longrightarrow> same_rows w (snd (B x v)) \<rbrakk> \<Longrightarrow>
   same_rows w (snd (case m of (Inl e, v) \<Rightarrow> A e v | (Inr x, v) \<Rightarrow> B x v))"
  by (auto split: prod.splits sum.splits)

lemma same_exec: "same_rows w v \<Longrightarrow> frames f \<Longrightarrow> same_rows w (snd (db_exec f v))"
  using exec_any[of f v "fst (db_exec f v)" "snd (db_exec f v)"] by (auto simp: frames_def same_rows_def)

lemma same_insert: "same_rows w v \<Longrightarrow> frames f \<Longrightarrow> same_rows w (snd (db_insert ok f v))"
  using insert_any[of ok f v "fst (db_insert ok f v)" "snd (db_insert ok f v)"]
  by (auto simp: frames_def same_rows_def)

lemma same_query: "same_rows w v \<Longrightarrow> same_rows w (snd (db_query q v))"
  using query_in_tx[of q v "fst (db_query q v)" "snd (db_query q v)"] by (simp add: same_rows_def)

lemma same_notify: "same_rows w v \<Longrightarrow> same_rows w (notify_template_event p v)"
  by (simp add: same_rows_def)

lemma same_rows_refl: "same_rows w w"
  by (simp add: same_rows_def)

lemma same_pair: "same_rows w v \<Longrightarrow> same_rows w (snd (r, v))"
  by simp

lemma same_if: "\<lbrakk> same_rows w (snd m); same_rows w (snd n) \<rbrakk> \<Longrightarrow> same_rows w (snd (if c then m else n))"
  by simp

lemma same_bool: "\<lbrakk> same_rows w (snd m); same_rows w (snd n) \<rbrakk> \<Longrightarrow> same_rows w (snd (case c of True \<Rightarrow> m | False \<Rightarrow> n))"
  by (cases c) auto

lemmas same_intros = same_case same_exec same_insert same_query same_notify same_pair same_if same_bool

lemma management_same:
  "same_rows w (snd (SaveSagaTemplateIdempotently t w))" "same_rows w (snd (UpdateSagaTemplate t w))"
  "same_rows w (snd (DeleteSagaTemplate tid w))" "same_rows w (snd (SaveSagaStepTemplateIdempotently st w))"
  "same_rows w (snd (UpdateSagaStepTemplate st w))" "same_rows w (snd (DeleteSagaStepTemplate tid w))"
  "same_rows w (snd (SaveClusterIdempotently cl w))" "same_rows w (snd (UpdateCluster cl w))"
  "same_rows w (snd (DeleteCluster cid w))"
  unfolding template_defs Let_def
  by (intro same_intros; simp add: frames_def same_rows_refl)+

lemma same_rows_idle: "idle w \<Longrightarrow> same_rows w w1 \<Longrightarrow> idle w1"
  by (simp add: idle_def same_rows_def)

text \<open>An update of a saga's row that leaves its keys and its state alone.\<close>
lemma saga_columns_idle:
  assumes i: "idle w" and u: "framed_saga u" "\<And>g. Si_State (u g) = Si_State g"
  shows "idle (snd (db_exec (update_saga_rows c gid u) w))"
proof -
  have "db_inv (map (saga_at_key c gid u) (db_sagas (w_db w))) (db_steps (w_db w))"
    by (rule db_inv_saga_update) (use i u in \<open>auto simp: idle_def framed_saga_def saga_at_key_def\<close>)
  then show ?thesis
    using exec_any[OF surjective_pairing, of "update_saga_rows c gid u" w] i by (auto simp: idle_def update_saga_rows_alt)
qed

lemma annex_idle:
  assumes i: "idle w"
  shows "idle (snd (CreateSagaAnnex annex w))"
proof (cases annex)
  case (Some a)
  let ?n = "if An_ContentLength a = 0 then int (length (An_ContentData a)) else An_ContentLength a"
  obtain y v where v: "db_insert (\<lambda>d. find_saga (An_ClusterId a) (An_SagaInstanceId a) d \<noteq> None)
      (upsert_annex (a\<lparr>An_ContentLength := ?n\<rparr>) (w_dbtime w)) w = (y, v)"
    by fastforce
  have "frames (upsert_annex b t)" for b t by (simp add: frames_def upsert_annex_def Let_def)
  then have v': "idle v" using same_insert[OF same_rows_refl] v i same_rows_idle by (metis snd_conv)
  let ?u = "\<lambda>r. r\<lparr>Si_AnnexIids := removeAll (An_Iid a) (Si_AnnexIids r) @ [An_Iid a], Si_UpdatedAt := w_dbtime v\<rparr>"
  have "idle (snd (db_exec (update_saga_rows (An_ClusterId a) (An_SagaInstanceId a) ?u) v))"
    by (rule saga_columns_idle[OF v']) (simp_all add: framed_saga_def)
  then show ?thesis using i v v' Some
    by (auto simp: CreateSagaAnnex_def Let_def split: sum.splits prod.splits if_splits)
qed (use i in \<open>simp add: CreateSagaAnnex_def\<close>)

text \<open>Everything the events guarantee: they do not panic, except on a submission message without
  payloads, and the durable rows satisfy the invariant.\<close>
fun without_payload :: "event \<Rightarrow> bool" where
  "without_payload (SubmissionArrives _ _ msg) = (Tm_Payloads msg = [])"
| "without_payload _ = False"

lemma run_event_safe:
  assumes i: "idle w" and a: "admissible ev w" and r: "run_event ev w = (x, w1)"
  shows "sound w1 \<and> (without_payload ev \<or> x = None)"
proof (cases ev)
  case (SubmissionArrives co ready msg)
  obtain y v where y: "onSubmission co ready msg w = (y, v)" by fastforce
  with onSubmission_safe[OF i _ y] a r SubmissionArrives show ?thesis by (auto simp: idle_sound)
next
  case (PollerTakes co c gid sid)
  with pollStep_safe[OF i, of co c gid sid x w1] r show ?thesis by (simp add: idle_sound)
next
  case (ImmediateProcessing co c gid sid)
  with processStepWithMutex_safe[OF i, of co c gid sid x w1] r show ?thesis by (simp add: idle_sound)
next
  case (ResultArrives c mt body)
  let ?s = "\<lparr>h_saga = zeroSagaInstance, h_step = zeroStepInstance, h_w = w\<rparr>"
  obtain y s1 where y: "consumeResult c mt body ?s = (y, s1)" by fastforce
  with consumeResult_safe[of ?s c mt body y s1] i r ResultArrives show ?thesis by auto
next
  case (OperatorTriggers c gid)
  with trigger_safe[OF i, of c gid "fst (TriggerSagaCompensation c gid w)" w1] r show ?thesis
    by (auto simp: idle_sound)
next
  case (OperatorForces c gid reason)
  with force_mark_safe[OF i, of c gid reason "fst (ForceMarkSagaCompensated c gid reason w)" w1] r show ?thesis
    by (auto simp: idle_sound)
next
  case (AnnexAttached annex)
  with annex_idle[OF i] r show ?thesis by (auto simp: idle_sound)
qed (use management_same[of w] same_rows_idle[OF i] r idle_sound in auto)

lemma goroutine_idle: "db_inv (db_sagas d) (db_steps d) \<Longrightarrow> idle (goroutine e d)"
  by (simp add: idle_def goroutine_def)

lemma reachable_inv: "reachable d \<Longrightarrow> db_inv (db_sagas d) (db_steps d)"
proof (induction rule: reachable.induct)
  case (reachable_init d)
  then show ?case by (simp add: db_inv_def)
next
  case (reachable_event d ev e r w)
  with run_event_safe[OF goroutine_idle] show ?case by (auto simp: sound_def)
qed

inductive_cases reachable_cases: "reachable d"

section \<open>Runs\<close>

text \<open>Events one after the other, each in its environment, admissible when it starts.\<close>
fun run_all :: "(event \<times> env) list \<Rightarrow> db \<Rightarrow> db" where
  "run_all [] d = d"
| "run_all ((ev, e) # evs) d = run_all evs (durable (snd (run_event ev (goroutine e d))))"

fun all_admissible :: "(event \<times> env) list \<Rightarrow> db \<Rightarrow> bool" where
  "all_admissible [] d = True"
| "all_admissible ((ev, e) # evs) d = (admissible ev (goroutine e d) \<and>
     all_admissible evs (durable (snd (run_event ev (goroutine e d)))))"

lemma reachable_run: "reachable d \<Longrightarrow> all_admissible evs d \<Longrightarrow> reachable (run_all evs d)"
proof (induction evs arbitrary: d)
  case (Cons p evs)
  obtain ev e where p: "p = (ev, e)" by fastforce
  have "reachable (durable (snd (run_event ev (goroutine e d))))"
    by (rule reachable_event[OF Cons.prems(1) _ surjective_pairing]) (use Cons.prems(2) p in auto)
  then show ?case using Cons p by simp
qed simp

end
