(* ===== verification/Saga_Example.thy ===== *)
theory Saga_Example
  imports Saga_System
begin

text \<open>A concrete saga of two steps, submitted to an empty database.\<close>

definition exCoordinator :: coordinator where
  "exCoordinator = \<lparr>co_affinityGroup = ''ag'', co_executionTimeoutMs = 60, co_subComponent = ''co''\<rparr>"

definition exTemplate :: SagaTemplate where
  "exTemplate = \<lparr>St_TemplateId = ''t'', St_DisplayName = '''', St_Description = '''', St_Labels = Map.empty,
     St_Tags = [], St_Metadata = Map.empty, St_SagaStepTemplateIds = [''s1'', ''s2'']\<rparr>"

definition exStepTemplate :: "string \<Rightarrow> SagaStepTemplate" where
  "exStepTemplate tid = \<lparr>Sst_TemplateId = tid, Sst_SagaTemplateId = ''t'', Sst_DisplayName = '''',
     Sst_Description = '''', Sst_Labels = Map.empty, Sst_Tags = [], Sst_Metadata = Map.empty\<rparr>"

definition exDb :: db where
  "exDb = \<lparr>db_sagas = [], db_steps = [], db_templates = [exTemplate],
     db_stepTemplates = [exStepTemplate ''s1'', exStepTemplate ''s2''], db_clusters = [], db_annexes = [], db_notify = []\<rparr>"

definition exRequest :: SagaSubmissionRequestPayload where
  "exRequest = \<lparr>Sr_SagaSubmitterId = ''sub'', Sr_SagaTemplateId = ''t'', Sr_SagaInstanceId = ''g'', Sr_ZoneId = ''z'',
     Sr_SagaInput = Map.empty, Sr_ParentSagaInstanceId = '''', Sr_ParentSagaStepInstanceId = '''',
     Sr_RootSagaInstanceId = '''', Sr_SagaDepth = 0\<rparr>"

definition exMessage :: TraxMessage where
  "exMessage = AddPayload (jsonPayload SagaPayloadType_SagaSubmissionRequest (SagaSubmissionRequestBody exRequest))
     ((NewTraxMessageBuilder ''m'' ''tr'' ''ex'' 1)\<lparr>Tm_ClusterId := ''c'', Tm_Submitter := ''sub''\<rparr>)"

definition exEnv :: "nat \<Rightarrow> env" where
  "exEnv n = \<lparr>env_faults = [], env_clock = [], env_now = 100, env_rand = map (\<lambda>i. [i]) [n..<n + 5], env_dbtime = 7\<rparr>"

definition exSubmit :: event where
  "exSubmit = SubmissionArrives exCoordinator True exMessage"

text \<open>The ids its two steps get: the second and the fourth string drawn.\<close>
definition exStep1 :: string where "exStep1 = SecureRandomString 32 [1]"
definition exStep2 :: string where "exStep2 = SecureRandomString 32 [3]"

definition exPoll :: "string \<Rightarrow> event" where
  "exPoll sid = PollerTakes exCoordinator ''c'' ''g'' sid"

definition exResult :: "string \<Rightarrow> ExecutionResultStatusEnum \<Rightarrow> event" where
  "exResult sid status = ResultArrives ''c'' ExecutionPipelineMessageTypeEnum_Trax
     (Some (AddPayload (jsonPayload SagaPayloadType_SagaStepExecutionResult (SagaStepExecutionResultBody
        \<lparr>Er_SagaSubmitterId = ''sub'', Er_SagaInstanceId = ''g'', Er_SagaStepInstanceId = sid, Er_ZoneId = ''z'',
         Er_Status = status, Er_ExecutionResult = [''k'' \<mapsto> ''v'']\<rparr>))
        (NewTraxMessageBuilder ''m'' ''tr'' ''ex'' 1)))"

definition exRun :: "event list \<Rightarrow> (event \<times> env) list" where
  "exRun evs = (exSubmit, exEnv 0) # map (\<lambda>ev. (ev, exEnv 5)) evs"

definition exForward :: "event list" where
  "exForward = [exPoll exStep1, exResult exStep1 ExecutionResultStatusEnum_Success, exPoll exStep1,
     exPoll exStep2, exResult exStep2 ExecutionResultStatusEnum_Success, exPoll exStep2]"

definition exBackward :: "event list" where
  "exBackward = [exPoll exStep1, exResult exStep1 ExecutionResultStatusEnum_Success, exPoll exStep1,
     exPoll exStep2, exResult exStep2 ExecutionResultStatusEnum_Failed, exPoll exStep2,
     exResult exStep2 ExecutionResultStatusEnum_Success, exPoll exStep2, exPoll exStep1,
     exResult exStep1 ExecutionResultStatusEnum_Success, exPoll exStep1]"

definition summary :: "db \<Rightarrow> (string \<times> string \<times> SagaStateEnum) list \<times> (string \<times> string \<times> SagaStepStateEnum) list" where
  "summary d = (map (\<lambda>g. (Si_ClusterId g, Si_InstanceId g, Si_State g)) (db_sagas d),
     map (\<lambda>r. (Ss_ClusterId r, Ss_SagaInstanceId r, Ss_State r)) (db_steps d))"

definition exSubmitted :: db where "exSubmitted = run_all (exRun []) exDb"
definition exCommitted :: db where "exCommitted = run_all (exRun exForward) exDb"
definition exCompensated :: db where "exCompensated = run_all (exRun exBackward) exDb"

lemma exSubmitted_summary:
  "summary exSubmitted = ([(''c'', ''g'', SagaStateEnum_Running)],
     [(''c'', ''g'', SagaStepStateEnum_ExecutionCandidate), (''c'', ''g'', SagaStepStateEnum_ExecutionPending)])"
  unfolding exSubmitted_def by code_simp

lemma exCommitted_summary:
  "summary exCommitted = ([(''c'', ''g'', SagaStateEnum_Committed)],
     [(''c'', ''g'', SagaStepStateEnum_ExecutionDone), (''c'', ''g'', SagaStepStateEnum_ExecutionDone)])"
  unfolding exCommitted_def by code_simp

lemma exCompensated_summary:
  "summary exCompensated = ([(''c'', ''g'', SagaStateEnum_Compensated)],
     [(''c'', ''g'', SagaStepStateEnum_CompensationDone), (''c'', ''g'', SagaStepStateEnum_CompensationDone)])"
  unfolding exCompensated_def by code_simp

lemma ex_admissible: "admissible exSubmit (goroutine (exEnv 0) exDb)"
  by code_simp

lemma exRun_admissible:
  assumes "list_all (\<lambda>ev. \<forall>w. admissible ev w) evs"
  shows "all_admissible (exRun evs) exDb"
proof -
  have "list_all (\<lambda>ev. \<forall>w. admissible ev w) evs \<Longrightarrow> all_admissible (map (\<lambda>ev. (ev, e)) evs) d" for e d
    by (induction evs arbitrary: d) auto
  then show ?thesis using assms ex_admissible by (simp add: exRun_def)
qed

lemma ex_events_admissible:
  "admissible (exPoll sid) = (\<lambda>_. True)" "admissible (exResult sid st) = (\<lambda>_. True)"
  by (rule ext, simp add: exPoll_def, rule ext, simp add: exResult_def)

lemma ex_reachable: "reachable exSubmitted" "reachable exCommitted" "reachable exCompensated"
proof -
  have d: "reachable exDb" by (rule reachable_init) (simp_all add: exDb_def)
  show "reachable exSubmitted" "reachable exCommitted" "reachable exCompensated"
    unfolding exSubmitted_def exCommitted_def exCompensated_def
    by (rule reachable_run[OF d], rule exRun_admissible,
        simp add: exForward_def exBackward_def ex_events_admissible)+
qed

end
