(* ===== verification/Saga_Guarantees.thy ===== *)
theory Saga_Guarantees
  imports Saga_Example
begin

text \<open>
  What the coordinator guarantees of every database it can reach, whatever fails and in whatever order
  the events come.
\<close>

lemma reachable_base:
  assumes "reachable d" "g \<in> set (db_sagas d)"
  obtains os where "base d g os"
  using reachable_inv[OF assms(1)] assms(2) by (auto simp: base_def db_inv_def saga_wf_def)

lemma reachable_row:
  assumes "base d g os" "r \<in> set (db_steps d)" "Ss_ClusterId r = Si_ClusterId g" "Ss_SagaInstanceId r = Si_InstanceId g"
  obtains i where "i < length os" "r = os ! i"
  using base_member[OF assms] by blast

lemma row_saga:
  assumes "reachable d" "r \<in> set (db_steps d)"
  obtains g where "g \<in> set (db_sagas d)" "Si_ClusterId g = Ss_ClusterId r" "Si_InstanceId g = Ss_SagaInstanceId r"
  using reachable_inv[OF assms(1)] assms(2) unfolding db_inv_def by fast


lemma shape_one_active:
  assumes "shape ss" "i < length ss" "j < length ss"
    "fwd_active (ss ! i) \<or> cmp_active (ss ! i)" "fwd_active (ss ! j) \<or> cmp_active (ss ! j)"
  shows "i = j"
proof -
  have *: "forward_at ss k \<or> backward_at ss k" if "k < length ss" "fwd_active (ss ! k) \<or> cmp_active (ss ! k)" for k
    using that shape_fwd_at[OF assms(1)] shape_cmp_at[OF assms(1)] by blast
  have act: "\<not> (fwd_active st \<or> cmp_active st)"
    if "st \<in> {SagaStepStateEnum_ExecutionDone, SagaStepStateEnum_ExecutionPending,
       SagaStepStateEnum_CompensationPending, SagaStepStateEnum_CompensationDone, SagaStepStateEnum_ExecutionAborted}" for st
    using that by (auto simp: fwd_active_def cmp_active_def)
  have only: "k = m" if f: "forward_at ss m \<or> backward_at ss m" and k: "k < length ss"
      "fwd_active (ss ! k) \<or> cmp_active (ss ! k)" for k m
  proof (rule ccontr)
    assume "k \<noteq> m"
    then consider "k < m" | "m < k" by linarith
    then have "ss ! k \<in> {SagaStepStateEnum_ExecutionDone, SagaStepStateEnum_ExecutionPending,
       SagaStepStateEnum_CompensationPending, SagaStepStateEnum_CompensationDone, SagaStepStateEnum_ExecutionAborted}"
      using f k(1) settled_nth[of ss "Suc m" k]
      by cases (auto simp: forward_at_def backward_at_def)
    with act k(2) show False by blast
  qed
  from *[OF assms(2,4)] only[OF _ assms(3,5)] show ?thesis by blast
qed

text \<open>C2: no two steps of a saga are ever in progress together, forward or backward.\<close>
theorem at_most_one_active_step:
  assumes "reachable d" "r \<in> set (db_steps d)" "s \<in> set (db_steps d)"
    "Ss_ClusterId r = Ss_ClusterId s" "Ss_SagaInstanceId r = Ss_SagaInstanceId s"
    "fwd_active (Ss_State r) \<or> cmp_active (Ss_State r)" "fwd_active (Ss_State s) \<or> cmp_active (Ss_State s)"
  shows "r = s"
proof -
  obtain g where g: "g \<in> set (db_sagas d)" "Si_ClusterId g = Ss_ClusterId r" "Si_InstanceId g = Ss_SagaInstanceId r"
    by (rule row_saga[OF assms(1,2)])
  obtain os where os: "base d g os" by (rule reachable_base[OF assms(1) g(1)])
  obtain i where i: "i < length os" "r = os ! i" by (rule reachable_row[OF os assms(2)]) (use g in auto)
  obtain j where j: "j < length os" "s = os ! j" by (rule reachable_row[OF os assms(3)]) (use g assms in auto)
  have "i = j"
    by (rule shape_one_active[OF coherent_shape[OF base_facts(4)[OF os]]]) (use i j assms(6,7) in auto)
  with i j show ?thesis by simp
qed

text \<open>C3: a committed saga has done every one of its steps, and so has one whose compensation is requested.\<close>
theorem committed_saga_all_done:
  assumes "reachable d" "g \<in> set (db_sagas d)"
    "Si_State g = SagaStateEnum_Committed \<or> Si_State g = SagaStateEnum_CompensationRequested"
    "r \<in> set (db_steps d)" "Ss_ClusterId r = Si_ClusterId g" "Ss_SagaInstanceId r = Si_InstanceId g"
  shows "Ss_State r = SagaStepStateEnum_ExecutionDone"
proof -
  obtain os where os: "base d g os" by (rule reachable_base[OF assms(1,2)])
  obtain i where i: "i < length os" "r = os ! i" by (rule reachable_row[OF os assms(4-6)])
  have "all_done (map Ss_State os)" using base_facts(4)[OF os] assms(3) by auto
  with i show ?thesis by (auto simp: all_done_def)
qed

text \<open>C4: once a saga is compensated no step of it counts as done or goes forward; and when
  no step is still compensating (an operator forced nothing) every step is settled, the first one compensated.\<close>
theorem compensated_saga_nothing_done:
  assumes "reachable d" "g \<in> set (db_sagas d)" "Si_State g = SagaStateEnum_Compensated"
  shows "(\<forall>r \<in> set (saga_steps (Si_ClusterId g) (Si_InstanceId g) d).
      Ss_State r \<noteq> SagaStepStateEnum_ExecutionDone \<and> Ss_State r \<noteq> SagaStepStateEnum_ExecutionPending \<and>
      \<not> fwd_active (Ss_State r)) \<and>
    ((\<exists>r \<in> set (saga_steps (Si_ClusterId g) (Si_InstanceId g) d). cmp_active (Ss_State r)) \<or>
     (\<forall>r \<in> set (saga_steps (Si_ClusterId g) (Si_InstanceId g) d).
        Ss_State r = SagaStepStateEnum_CompensationDone \<or> Ss_State r = SagaStepStateEnum_ExecutionAborted))"
proof -
  obtain os where os: "base d g os" by (rule reachable_base[OF assms(1,2)])
  let ?ss = "map Ss_State os"
  have set: "set (saga_steps (Si_ClusterId g) (Si_InstanceId g) d) = set os"
    using mset_eq_setD[OF base_facts(3)[OF os]] by (simp add: saga_rows_def saga_steps_def)
  have idx: "\<exists>i < length os. r = os ! i" if "r \<in> set os" for r using that by (metis in_set_conv_nth)
  have "compensated ?ss \<or> (\<exists>i. backward_at ?ss i)" using base_facts(4)[OF os] assms(3) by simp
  then show ?thesis
  proof
    assume c: "compensated ?ss"
    have two: "Ss_State r = SagaStepStateEnum_CompensationDone \<or> Ss_State r = SagaStepStateEnum_ExecutionAborted"
      if "r \<in> set os" for r
      using idx[OF that] c settled_nth[of ?ss 0] by (auto simp: compensated_def)
    have "Ss_State r \<noteq> SagaStepStateEnum_ExecutionDone \<and> Ss_State r \<noteq> SagaStepStateEnum_ExecutionPending \<and>
      \<not> fwd_active (Ss_State r)" if "r \<in> set os" for r
      using two[OF that] by (auto simp: fwd_active_def)
    with two show ?thesis unfolding set by blast
  next
    assume "\<exists>i. backward_at ?ss i"
    then obtain i where i: "backward_at ?ss i" ..
    have st: "Ss_State r \<in> {SagaStepStateEnum_CompensationPending, SagaStepStateEnum_CompensationDone,
        SagaStepStateEnum_ExecutionAborted} \<or> cmp_active (Ss_State r)" if r: "r \<in> set os" for r
    proof -
      obtain k where k: "k < length os" "r = os ! k" using idx[OF r] by blast
      show ?thesis using i k settled_nth[of ?ss "Suc i" k]
        by (cases k i rule: linorder_cases) (auto simp: backward_at_def)
    qed
    have "\<exists>r \<in> set os. cmp_active (Ss_State r)" using i by (auto simp: backward_at_def)
    moreover have "Ss_State r \<noteq> SagaStepStateEnum_ExecutionDone \<and> Ss_State r \<noteq> SagaStepStateEnum_ExecutionPending \<and>
      \<not> fwd_active (Ss_State r)" if "r \<in> set os" for r
      using st[OF that] by (auto simp: fwd_active_def cmp_active_def)
    ultimately show ?thesis unfolding set by blast
  qed
qed

text \<open>C5: no event makes the process panic or hang, whatever calls fail; the exception is a submission
  message without any payload.\<close>
theorem events_never_panic:
  assumes "reachable d" "admissible ev (goroutine e d)" "\<not> without_payload ev"
  shows "fst (run_event ev (goroutine e d)) = None"
  using run_event_safe[OF goroutine_idle[OF reachable_inv[OF assms(1)]] assms(2)] assms(3)
  by (cases "run_event ev (goroutine e d)") auto

text \<open>C6: a step that runs has an open entry at the end of its execution history, of the phase it runs in;
  one that never started has none, so the coordinator never finds a candidate with a history.\<close>
theorem history_fits_state:
  assumes "reachable d" "r \<in> set (db_steps d)"
  shows "(Ss_State r = SagaStepStateEnum_ExecutionCandidate \<or> Ss_State r = SagaStepStateEnum_ExecutionPending
            \<longrightarrow> Ss_ExecutionHistory r = []) \<and>
    (Ss_State r = SagaStepStateEnum_ExecutionRunning
            \<longrightarrow> Ss_ExecutionHistory r \<noteq> [] \<and> \<not> IsCompensation (last (Ss_ExecutionHistory r))) \<and>
    (Ss_State r = SagaStepStateEnum_CompensationRunning
            \<longrightarrow> Ss_ExecutionHistory r \<noteq> [] \<and> IsCompensation (last (Ss_ExecutionHistory r)))"
  using reachable_inv[OF assms(1)] assms(2) by (auto simp: db_inv_def step_ok_def Let_def)

section \<open>Witnesses\<close>

lemma ex_rows:
  assumes "summary d = ([(c, g, st)], [(c1, g1, s1), (c2, g2, s2)])"
  shows "hd (db_sagas d) \<in> set (db_sagas d)" "hd (db_steps d) \<in> set (db_steps d)"
    "Si_ClusterId (hd (db_sagas d)) = c" "Si_InstanceId (hd (db_sagas d)) = g" "Si_State (hd (db_sagas d)) = st"
    "Ss_ClusterId (hd (db_steps d)) = c1" "Ss_SagaInstanceId (hd (db_steps d)) = g1" "Ss_State (hd (db_steps d)) = s1"
  using assms by (auto simp: summary_def)

lemmas ex_submitted = ex_rows[OF exSubmitted_summary]
lemmas ex_committed = ex_rows[OF exCommitted_summary]
lemmas ex_compensated = ex_rows[OF exCompensated_summary]


lemma at_most_one_active_step_witness:
  "hd (filter (\<lambda>r. fwd_active (Ss_State r)) (db_steps exSubmitted)) = hd (db_steps exSubmitted)"
proof -
  let ?rs = "filter (\<lambda>r. fwd_active (Ss_State r)) (db_steps exSubmitted)"
  have a: "fwd_active (Ss_State (hd (db_steps exSubmitted)))" by (simp add: ex_submitted fwd_active_def)
  then have "?rs \<noteq> []" using ex_submitted(2) by (auto simp: filter_empty_conv)
  then have "hd ?rs \<in> set ?rs" by (rule hd_in_set)
  then have r: "hd ?rs \<in> set (db_steps exSubmitted)" "fwd_active (Ss_State (hd ?rs))" by simp_all
  have "Ss_ClusterId (hd ?rs) = ''c''" "Ss_SagaInstanceId (hd ?rs) = ''g''"
    using r(1) exSubmitted_summary by (auto simp: summary_def)
  then show ?thesis
    using at_most_one_active_step[OF ex_reachable(1) r(1) ex_submitted(2)] r(2) a by (simp add: ex_submitted)
qed

lemma committed_saga_all_done_witness: "Ss_State (hd (db_steps exCommitted)) = SagaStepStateEnum_ExecutionDone"
  by (rule committed_saga_all_done[OF ex_reachable(2) ex_committed(1)]) (simp_all add: ex_committed)

lemma compensated_saga_nothing_done_witness:
  "\<not> fwd_active (Ss_State (hd (saga_steps ''c'' ''g'' exCompensated)))"
proof -
  have "saga_steps ''c'' ''g'' exCompensated \<noteq> []"
    using exCompensated_summary by (auto simp: summary_def saga_steps_def)
  with compensated_saga_nothing_done[OF ex_reachable(3) ex_compensated(1,5)] show ?thesis
    unfolding ex_compensated by (meson hd_in_set)
qed

lemma events_never_panic_witness: "fst (run_event (exPoll exStep1) (goroutine (exEnv 5) exSubmitted)) = None"
  by (rule events_never_panic[OF ex_reachable(1)]) (simp_all add: exPoll_def)

lemma history_fits_state_witness: "Ss_ExecutionHistory (hd (db_steps exSubmitted)) = []"
  using history_fits_state[OF ex_reachable(1) ex_submitted(2)] ex_submitted(8) by simp

end
