(* ===== verification/Quiet_Rules.thy ===== *)
theory Quiet_Rules
  imports Saga_Safety
begin

text \<open>
  Total correctness for the handlers: in a quiet world, where no call fails and the clock stands still,
  every store call of a handler goes through, so a handler does what it is there to do.  The rules lift
  those of partial correctness: what a call does to the rows is known from there, and here only that it
  succeeds is added.
\<close>

section \<open>Quiet worlds\<close>

definition quiet :: "int \<Rightarrow> world \<Rightarrow> bool" where
  "quiet T w = (w_faults w = [] \<and> w_clock w = [] \<and> w_now w = T \<and> (w_tx w \<noteq> None \<longrightarrow> \<not> w_aborted w))"

text \<open>A call that succeeds in a quiet world, from the states P describes.\<close>
definition goes_through :: "int \<Rightarrow> (hstate \<Rightarrow> bool) \<Rightarrow> ('e, 'a) handler \<Rightarrow> bool" where
  "goes_through T P m = (\<forall>s. P s \<longrightarrow> quiet T (h_w s) \<longrightarrow> (\<exists>x s1. m s = (Inr x, s1) \<and> quiet T (h_w s1)))"

lemma goes_throughI:
  "(\<And>s. P s \<Longrightarrow> quiet T (h_w s) \<Longrightarrow> \<exists>x s1. m s = (Inr x, s1) \<and> quiet T (h_w s1)) \<Longrightarrow> goes_through T P m"
  by (simp add: goes_through_def)

text \<open>A handler that ends in \<open>return r\<close> with R.\<close>
definition returns :: "('e \<Rightarrow> hstate \<Rightarrow> bool) \<Rightarrow> 'e exit \<Rightarrow> hstate \<Rightarrow> bool" where
  "returns R e s = (case e of Return r \<Rightarrow> R r s | _ \<Rightarrow> False)"

lemma returns_simps [simp]:
  "returns R (Return r) s = R r s" "returns R (Abandon m r) s = False" "returns R (Died x) s = False"
  by (simp_all add: returns_def)

abbreviation never :: "'a \<Rightarrow> hstate \<Rightarrow> bool" where
  "never \<equiv> \<lambda>_ _. False"

text \<open>The lifting: what the call does is known, and that it succeeds.\<close>
lemma q_lift:
  assumes m: "hvalid P m B (\<lambda>_ _. True)" and g: "goes_through T P m"
    and k: "\<And>x. hvalid (\<lambda>s. B x s \<and> quiet T (h_w s)) (k x) Q E"
  shows "hvalid (\<lambda>s. P s \<and> quiet T (h_w s)) (hbind m k) Q E"
proof (rule hvalidI)
  fix s assume s: "P s \<and> quiet T (h_w s)"
  with g obtain x s1 where x: "m s = (Inr x, s1)" "quiet T (h_w s1)" unfolding goes_through_def by blast
  have "B x s1" by (rule hvalidD_val[OF m _ x(1)]) (use s in simp)
  with k[of x] x show "case hbind m k s of (Inl e, s1) \<Rightarrow> E e s1 | (Inr x, s1) \<Rightarrow> Q x s1"
    by (simp add: hbind_def hvalid_def)
qed

text \<open>The same for a call whose rule was stated with a continuation.\<close>
lemma q_lift_k:
  assumes "hvalid P (hbind m hreturn) B (\<lambda>_ _. True)" "goes_through T P m"
    "\<And>x. hvalid (\<lambda>s. B x s \<and> quiet T (h_w s)) (k x) Q E"
  shows "hvalid (\<lambda>s. P s \<and> quiet T (h_w s)) (hbind m k) Q E"
  using q_lift[of P m B T k Q E] assms by (simp add: hbind_hreturn)

section \<open>Calls in a quiet world\<close>

lemma quiet_fault [simp]: "quiet T w \<Longrightarrow> next_fault w = (Works, w)"
  by (simp add: quiet_def next_fault_def)

lemma quiet_exec [simp]: "quiet T w \<Longrightarrow> db_exec upd w = (Ok (), w\<lparr>w_db := upd (w_db w)\<rparr>)"
  by (auto simp: db_exec_def quiet_def next_fault_def)

lemma quiet_query [simp]: "quiet T w \<Longrightarrow> db_query q w = (Ok (q (w_db w)), w)"
  by (auto simp: db_query_def quiet_def next_fault_def)

lemma quiet_db [simp]: "quiet T (w\<lparr>w_db := d\<rparr>) = quiet T w"
  by (simp add: quiet_def)

lemma quiet_outbox [simp]: "quiet T (w\<lparr>w_outbox := b\<rparr>) = quiet T w"
  by (simp add: quiet_def)

lemma quiet_spawned [simp]: "quiet T (w\<lparr>w_spawned := b\<rparr>) = quiet T w"
  by (simp add: quiet_def)

lemma quiet_now [simp]: "quiet T w \<Longrightarrow> time_now w = (T, w)"
  by (simp add: quiet_def time_now_def)

lemma quiet_random: "quiet T w \<Longrightarrow> quiet T (snd (random_string w))"
  by (auto simp: quiet_def random_string_def split: list.splits)

lemma quiet_begin: "quiet T w \<Longrightarrow> w_tx w = None \<Longrightarrow>
    BeginTransaction w = (Ok (), w\<lparr>w_tx := Some (w_db w), w_aborted := False\<rparr>)"
  by (simp add: BeginTransaction_def)

lemma quiet_began [simp]: "quiet T w \<Longrightarrow> quiet T (w\<lparr>w_tx := Some d, w_aborted := False\<rparr>)"
  by (simp add: quiet_def)

lemma quiet_commit: "quiet T w \<Longrightarrow> w_tx w = Some d \<Longrightarrow> CommitTransaction w = (Ok (), w\<lparr>w_tx := None\<rparr>)"
  by (simp add: CommitTransaction_def) (simp add: quiet_def)

lemma quiet_committed [simp]: "quiet T w \<Longrightarrow> quiet T (w\<lparr>w_tx := None\<rparr>)"
  by (simp add: quiet_def)

lemma quiet_notify [simp]: "quiet T w \<Longrightarrow> quiet T (notify_step_event x st w)"
  by (simp add: notify_step_event_def)

lemma quiet_publish: "quiet T w \<Longrightarrow> \<exists>w1. mq_publish x rk msg w = (Ok (), w1) \<and> quiet T w1"
  by (simp add: mq_publish_def Let_def)

lemma quiet_context: "quiet T w \<Longrightarrow> context_done w = (Ok (), w)"
  by (simp add: context_done_def)

lemma quiet_list: "quiet T w \<Longrightarrow> ListSagaStepInstancesBySagaInstanceId c i w = (Ok (saga_steps c i (w_db w)), w)"
  by (simp add: ListSagaStepInstancesBySagaInstanceId_def)

lemma quiet_get_step: "quiet T w \<Longrightarrow> find_step c i (w_db w) = Some r \<Longrightarrow> GetSagaStepInstance c i w = (Ok r, w)"
  by (simp add: GetSagaStepInstance_def)

lemma quiet_get_saga: "quiet T w \<Longrightarrow> find_saga c i (w_db w) = Some r \<Longrightarrow> GetSagaInstance c i w = (Ok r, w)"
  by (simp add: GetSagaInstance_def)

lemma quiet_children: "quiet T w \<Longrightarrow> \<exists>cs. GetChildSagaInstances c i w = (Ok cs, w)"
  by (simp add: GetChildSagaInstances_def)

lemma quiet_update_history:
  "quiet T w \<Longrightarrow> \<exists>w1. UpdateSagaStepInstanceExecutionHistory x w = (Ok (), w1) \<and> quiet T w1"
  by (simp add: UpdateSagaStepInstanceExecutionHistory_def)

lemma quiet_update_saga:
  "quiet T w \<Longrightarrow> \<exists>w1 y. UpdateSagaState sg st w = (Ok y, w1) \<and> quiet T w1"
  by (simp add: UpdateSagaState_def)

text \<open>A call through \<open>hcall\<close> whose operation succeeds goes through.\<close>
lemma call_through:
  "(\<And>w. quiet T w \<Longrightarrow> (\<exists>s. P s \<and> h_w s = w) \<Longrightarrow> \<exists>x w1. op w = (Inr x, w1) \<and> quiet T w1) \<Longrightarrow>
   goes_through T P (hcall op onErr)"
  unfolding goes_through_def hcall_def by (fastforce split: sum.splits prod.splits)

lemma rollback_through:
  "goes_through T P (hcall op (\<lambda>_. Abandon False r)) \<Longrightarrow> goes_through T P (hcallRollback op r)"
  unfolding goes_through_def hcall_def hcallRollback_def by (fastforce split: sum.splits prod.splits)

section \<open>Rules\<close>

lemma find_step_updated:
  assumes "framed u" shows "find_step c i (update_step_rows c i u d) = map_option u (find_step c i d)"
proof -
  have "find (\<lambda>r. Ss_ClusterId r = c \<and> Ss_InstanceId r = i)
       (map (\<lambda>r. if Ss_ClusterId r = c \<and> Ss_InstanceId r = i then u r else r) xs) =
     map_option u (find (\<lambda>r. Ss_ClusterId r = c \<and> Ss_InstanceId r = i) xs)" for xs
    using assms by (induction xs) (auto simp: framed_def link_preserving_def)
  then show ?thesis by (simp add: find_step_def update_step_rows_def)
qed

lemma quiet_transit_step:
  assumes q: "quiet T w" and f: "find_step (Ss_ClusterId x) (Ss_InstanceId x) (w_db w) \<noteq> None"
    and c: "Si_ClusterId sg = Ss_ClusterId x"
  shows "\<exists>x' w'. transitSagaStepToState sg x target w = (TOk, x', w') \<and> quiet T w'"
proof -
  let ?u = "\<lambda>r. r\<lparr>Ss_State := target, Ss_UpdatedAt := w_dbtime w\<rparr>"
  let ?w1 = "w\<lparr>w_db := update_step_rows (Ss_ClusterId x) (Ss_InstanceId x) ?u (w_db w)\<rparr>"
  let ?w2 = "notify_step_event x target ?w1"
  obtain r where "find_step (Ss_ClusterId x) (Ss_InstanceId x) (w_db w) = Some r" using f by blast
  then have "find_step (Ss_ClusterId x) (Ss_InstanceId x) (w_db ?w2) = Some (?u r)"
    using find_step_updated[of ?u "Ss_ClusterId x" "Ss_InstanceId x" "w_db w"] framed_setState
    by (simp add: find_step_def notify_neutral)
  with q c show ?thesis
    by (simp add: transitSagaStepToState_def UpdateSagaStepState_def quiet_get_step[of T])
qed

lemma quiet_transit_saga:
  assumes q: "quiet T w" and f: "find_saga (Si_ClusterId sg) (Si_InstanceId sg) (w_db w) \<noteq> None"
  shows "\<exists>sg' w'. transitSagaToState sg target w = (TOk, sg', w') \<and> quiet T w'"
proof -
  let ?u = "setSagaState target (Si_CompensationReason sg) (w_dbtime w)"
  let ?w1 = "w\<lparr>w_db := update_saga_rows (Si_ClusterId sg) (Si_InstanceId sg) ?u (w_db w)\<rparr>"
  obtain r where "find_saga (Si_ClusterId sg) (Si_InstanceId sg) (w_db w) = Some r" using f by blast
  then have "find_saga (Si_ClusterId sg) (Si_InstanceId sg) (w_db ?w1) = Some (?u r)"
    using find_saga_updated[OF framed_setSagaState] by simp
  with q show ?thesis
    by (simp add: transitSagaToState_def UpdateSagaState_alt quiet_get_saga[of T])
qed

lemma view_find_step:
  assumes "base d g os" "view d g os t g' os' sg st s" "j < length os'" "step_key x = step_key (os' ! j)"
  shows "find_step (Ss_ClusterId x) (Ss_InstanceId x) (w_db (h_w s)) \<noteq> None"
  using inview_find_step[OF assms(1) view_w[OF assms(2)] assms(3)] assms(4) by simp

lemma q_history:
  assumes b: "base d g os" and j: "j < length os'" and key: "step_key x = step_key (os' ! j)"
    and k: "hvalid (\<lambda>s. view d g os t g' (upd_at {j} (setHistory (Ss_ExecutionId x) (Ss_ExecutionHistory x) t) os') sg st s \<and>
              quiet T (h_w s)) (k ()) Q E"
  shows "hvalid (\<lambda>s. view d g os t g' os' sg st s \<and> quiet T (h_w s))
    (hbind (hcall (UpdateSagaStepInstanceExecutionHistory x) onErr) k) Q E"
  by (rule q_lift_k[OF k_history[OF b j key _ hvalid_hreturn]])
     (use k quiet_update_history in \<open>auto intro!: call_through\<close>)

lemma q_history_rb:
  assumes b: "base d g os" and j: "j < length os'" and key: "step_key x = step_key (os' ! j)"
    and k: "hvalid (\<lambda>s. view d g os t g' (upd_at {j} (setHistory (Ss_ExecutionId x) (Ss_ExecutionHistory x) t) os') sg st s \<and>
              quiet T (h_w s)) (k ()) Q E"
  shows "hvalid (\<lambda>s. view d g os t g' os' sg st s \<and> quiet T (h_w s))
    (hbind (hcallRollback (UpdateSagaStepInstanceExecutionHistory x) r) k) Q E"
  by (rule q_lift_k[OF rb_history[OF b j key _ hvalid_hreturn]])
     (use k quiet_update_history in \<open>auto intro!: rollback_through call_through\<close>)

lemma step_through:
  assumes b: "base d g os" and j: "j < length os'" and key: "step_key st = step_key (os' ! j)"
    and c: "Si_ClusterId sg = Ss_ClusterId st"
  shows "goes_through T (view d g os t g' os' sg st) (hTransitStep target onErr)"
    "goes_through T (view d g os t g' os' sg st) (hTransitStepRollback target r)"
proof -
  have *: "\<exists>x' w'. transitSagaStepToState (h_saga s) (h_step s) target (h_w s) = (TOk, x', w') \<and> quiet T w'"
    if v: "view d g os t g' os' sg st s" and q: "quiet T (h_w s)" for s
    using quiet_transit_step[OF q view_find_step[OF b v j key] c, of target] v by (simp add: view_def)
  show "goes_through T (view d g os t g' os' sg st) (hTransitStep target onErr)"
    "goes_through T (view d g os t g' os' sg st) (hTransitStepRollback target r)"
    by (rule goes_throughI, drule (1) *, fastforce simp: hTransitStep_def hTransitStepRollback_def)+
qed

lemma q_transit_step:
  assumes b: "base d g os" and j: "j < length os'"
    and key: "step_key st = step_key (os' ! j)" and c: "Si_ClusterId sg = Ss_ClusterId st"
    and k: "hvalid (\<lambda>s. view d g os t g' (upd_at {j} (setState target t) os') sg (setState target t (os' ! j)) s \<and>
              quiet T (h_w s)) (k ()) Q E"
  shows "hvalid (\<lambda>s. view d g os t g' os' sg st s \<and> quiet T (h_w s)) (hbind (hTransitStep target onErr) k) Q E"
  by (rule q_lift_k[OF k_transit_step[OF b j key c _ hvalid_hreturn] step_through(1)[OF b j key c]])
     (use k in auto)

lemma q_transit_rb:
  assumes b: "base d g os" and j: "j < length os'"
    and key: "step_key st = step_key (os' ! j)" and c: "Si_ClusterId sg = Ss_ClusterId st"
    and k: "hvalid (\<lambda>s. view d g os t g' (upd_at {j} (setState target t) os') sg (setState target t (os' ! j)) s \<and>
              quiet T (h_w s)) (k ()) Q E"
  shows "hvalid (\<lambda>s. view d g os t g' os' sg st s \<and> quiet T (h_w s)) (hbind (hTransitStepRollback target r) k) Q E"
  by (rule q_lift_k[OF rb_transit[OF b j key c _ hvalid_hreturn] step_through(2)[OF b j key c]])
     (use k in auto)

lemma q_transit_other:
  assumes b: "base d g os" and j: "j < length os'"
    and key: "step_key x = step_key (os' ! j)" and c: "Si_ClusterId sg = Ss_ClusterId x"
    and k: "hvalid (\<lambda>s. view d g os t g' (upd_at {j} (setState target t) os') sg st s \<and> quiet T (h_w s))
              (k (setState target t (os' ! j))) Q E"
  shows "hvalid (\<lambda>s. view d g os t g' os' sg st s \<and> quiet T (h_w s)) (hbind (hTransitOther x target onErr) k) Q E"
proof (rule q_lift_k[where B = "\<lambda>y s. y = setState target t (os' ! j) \<and> view d g os t g' (upd_at {j} (setState target t) os') sg st s"])
  show "hvalid (view d g os t g' os' sg st) (hbind (hTransitOther x target onErr) hreturn)
      (\<lambda>y s. y = setState target t (os' ! j) \<and> view d g os t g' (upd_at {j} (setState target t) os') sg st s) (\<lambda>_ _. True)"
    by (rule k_transit_other[OF b j key c]) (auto simp: hvalid_def hreturn_def)
  show "goes_through T (view d g os t g' os' sg st) (hTransitOther x target onErr)"
  proof (rule goes_throughI)
    fix s assume v: "view d g os t g' os' sg st s" and q: "quiet T (h_w s)"
    show "\<exists>y s1. hTransitOther x target onErr s = (Inr y, s1) \<and> quiet T (h_w s1)"
      using quiet_transit_step[OF q view_find_step[OF b v j key] c, of target] v
      by (auto simp: view_def hTransitOther_def)
  qed
qed (use k in \<open>auto simp: hvalid_def\<close>)

lemma q_transit_saga:
  assumes b: "base d g os" and key: "saga_key sg = saga_key g"
    and k: "hvalid (\<lambda>s. view d g os t (setSagaState target (Si_CompensationReason sg) t g') os' (sg\<lparr>Si_State := target\<rparr>) st s \<and>
              quiet T (h_w s)) (k ()) Q E"
  shows "hvalid (\<lambda>s. view d g os t g' os' sg st s \<and> quiet T (h_w s)) (hbind (hTransitSaga target onErr) k) Q E"
proof (rule q_lift_k[OF k_transit_saga[OF b key _ hvalid_hreturn]])
  show "goes_through T (view d g os t g' os' sg st) (hTransitSaga target onErr)"
  proof (rule goes_throughI)
    fix s assume v: "view d g os t g' os' sg st s" and q: "quiet T (h_w s)"
    have "find_saga (Si_ClusterId sg) (Si_InstanceId sg) (w_db (h_w s)) \<noteq> None"
      using inview_find_saga[OF b view_w[OF v]] key by simp
    from quiet_transit_saga[OF q this, of target] v
    show "\<exists>y s1. hTransitSaga target onErr s = (Inr y, s1) \<and> quiet T (h_w s1)"
      by (auto simp: view_def hTransitSaga_def)
  qed
qed (use k in auto)

lemma q_update_saga:
  assumes b: "base d g os" and key: "saga_key sg' = saga_key g"
    and k: "hvalid (\<lambda>s. view d g os t (setSagaState target (Si_CompensationReason sg') t g') os' sg st s \<and> quiet T (h_w s))
              (k (sg'\<lparr>Si_State := target\<rparr>)) Q E"
  shows "hvalid (\<lambda>s. view d g os t g' os' sg st s \<and> quiet T (h_w s)) (hbind (hcall (UpdateSagaState sg' target) onErr) k) Q E"
proof (rule q_lift_k[where B = "\<lambda>y s. y = sg'\<lparr>Si_State := target\<rparr> \<and>
      view d g os t (setSagaState target (Si_CompensationReason sg') t g') os' sg st s"])
  show "hvalid (view d g os t g' os' sg st) (hbind (hcall (UpdateSagaState sg' target) onErr) hreturn)
      (\<lambda>y s. y = sg'\<lparr>Si_State := target\<rparr> \<and> view d g os t (setSagaState target (Si_CompensationReason sg') t g') os' sg st s)
      (\<lambda>_ _. True)"
    by (rule k_update_saga[OF b key]) (auto simp: hvalid_def hreturn_def)
  show "goes_through T (view d g os t g' os' sg st) (hcall (UpdateSagaState sg' target) onErr)"
    by (rule call_through) (use quiet_update_saga in blast)
qed (use k in \<open>auto simp: hvalid_def\<close>)

lemma q_get_step:
  "hvalid (\<lambda>s. view d g os t g' os' sg st s \<and> quiet T (h_w s)) (k st) Q E \<Longrightarrow>
   hvalid (\<lambda>s. view d g os t g' os' sg st s \<and> quiet T (h_w s)) (hbind (hget h_step) k) Q E"
  by (auto simp: hvalid_def hbind_def hget_def view_def)

lemma q_get_saga:
  "hvalid (\<lambda>s. view d g os t g' os' sg st s \<and> quiet T (h_w s)) (k sg) Q E \<Longrightarrow>
   hvalid (\<lambda>s. view d g os t g' os' sg st s \<and> quiet T (h_w s)) (hbind (hget h_saga) k) Q E"
  by (auto simp: hvalid_def hbind_def hget_def view_def)

lemma q_set_step:
  "hvalid (\<lambda>s. view d g os t g' os' sg (F sg st) s \<and> quiet T (h_w s)) (k ()) Q E \<Longrightarrow>
   hvalid (\<lambda>s. view d g os t g' os' sg st s \<and> quiet T (h_w s))
     (hbind (hmodify (\<lambda>s. s\<lparr>h_step := F (h_saga s) (h_step s)\<rparr>)) k) Q E"
  by (auto simp: hvalid_def hbind_def hmodify_def view_def)

lemma q_set_saga:
  "hvalid (\<lambda>s. view d g os t g' os' (F sg) st s \<and> quiet T (h_w s)) (k ()) Q E \<Longrightarrow>
   hvalid (\<lambda>s. view d g os t g' os' sg st s \<and> quiet T (h_w s))
     (hbind (hmodify (\<lambda>s. s\<lparr>h_saga := F (h_saga s)\<rparr>)) k) Q E"
  by (auto simp: hvalid_def hbind_def hmodify_def view_def)

lemma q_now:
  "hvalid (\<lambda>s. view d g os t g' os' sg st s \<and> quiet T (h_w s)) (k T) Q E \<Longrightarrow>
   hvalid (\<lambda>s. view d g os t g' os' sg st s \<and> quiet T (h_w s)) (hbind (hworld time_now) k) Q E"
  by (auto simp: hvalid_def hbind_def hworld_def)

lemma q_random:
  assumes "\<And>x. hvalid (\<lambda>s. view d g os t g' os' sg st s \<and> quiet T (h_w s)) (k x) Q E"
  shows "hvalid (\<lambda>s. view d g os t g' os' sg st s \<and> quiet T (h_w s)) (hbind (hworld random_string) k) Q E"
proof (rule q_lift_k[OF k_world[OF neutral_ops(1)]])
  show "\<And>x. hvalid (view d g os t g' os' sg st) (hreturn x) (\<lambda>_. view d g os t g' os' sg st) (\<lambda>_ _. True)"
    by (rule hvalid_hreturn)
  show "goes_through T (view d g os t g' os' sg st) (hworld random_string)"
    by (rule goes_throughI) (auto simp: hworld_def split: prod.splits dest: quiet_random)
qed (use assms in auto)

lemma q_message:
  assumes "\<And>msg. hvalid (\<lambda>s. view d g os t g' os' sg st s \<and> quiet T (h_w s)) (k msg) Q E"
  shows "hvalid (\<lambda>s. view d g os t g' os' sg st s \<and> quiet T (h_w s)) (hbind (hStepRequestMessage co ptype body) k) Q E"
  unfolding hStepRequestMessage_def handler_norm
  by (rule q_get_saga, rule q_get_step, rule q_random, rule q_random, rule q_random, rule q_now, rule assms)

lemma q_publish:
  assumes "hvalid (\<lambda>s. view d g os t g' os' sg st s \<and> quiet T (h_w s)) (k ()) Q E"
  shows "hvalid (\<lambda>s. view d g os t g' os' sg st s \<and> quiet T (h_w s)) (hbind (hcall (mq_publish x rk msg) onErr) k) Q E"
proof (rule q_lift_k[OF k_call[OF neutral_ops(4)]])
  show "\<And>y. hvalid (view d g os t g' os' sg st) (hreturn y) (\<lambda>_. view d g os t g' os' sg st) (\<lambda>_ _. True)"
    by (rule hvalid_hreturn)
  show "goes_through T (view d g os t g' os' sg st) (hcall (mq_publish x rk msg) onErr)"
    by (rule call_through) (use quiet_publish in blast)
qed (use assms in auto)

lemma q_ordered:
  assumes b: "base d g os" and key: "saga_key sg = saga_key g"
    and k: "\<And>rs. OrderSagaStepsInSequence rs = Some os' \<Longrightarrow>
       hvalid (\<lambda>s. view d g os t g' os' sg st s \<and> quiet T (h_w s)) (k rs) Q E"
  shows "hvalid (\<lambda>s. view d g os t g' os' sg st s \<and> quiet T (h_w s)) (hbind (hListSteps onErr) k) Q E"
proof (rule q_lift_k[where B = "\<lambda>rs s. OrderSagaStepsInSequence rs = Some os' \<and> view d g os t g' os' sg st s"])
  show "hvalid (view d g os t g' os' sg st) (hbind (hListSteps onErr) hreturn)
      (\<lambda>rs s. OrderSagaStepsInSequence rs = Some os' \<and> view d g os t g' os' sg st s) (\<lambda>_ _. True)"
    by (rule k_list_order[OF b key]) (auto simp: hvalid_def hreturn_def)
  show "goes_through T (view d g os t g' os' sg st) (hListSteps onErr)"
    by (rule goes_throughI) (simp add: hListSteps_def hbind_def hget_def hcall_def quiet_list[of T])
qed (use k in \<open>auto simp: hvalid_def\<close>)

lemma q_order:
  assumes "base d g os" "saga_key sg = saga_key g"
    "hvalid (\<lambda>s. view d g os t g' os' sg st s \<and> quiet T (h_w s)) (k os') Q E"
  shows "hvalid (\<lambda>s. view d g os t g' os' sg st s \<and> quiet T (h_w s))
     (hbind (hListSteps onErr) (\<lambda>allSteps. hbind (hOrder allSteps) k)) Q E"
  by (rule q_ordered[OF assms(1,2)], rule k_order, assumption, rule assms(3))

lemma q_commit:
  assumes b: "base d g os" and coh: "coherent (Si_State g') (map Ss_State os')" and ok: "\<And>j. j < length os' \<Longrightarrow> step_ok (os' ! j)"
    and k: "hvalid (\<lambda>s. settled g' os' t sg st s \<and> quiet T (h_w s)) (k ()) Q E"
  shows "hvalid (\<lambda>s. view d g os t g' os' sg st s \<and> quiet T (h_w s)) (hbind (hcall CommitTransaction onErr) k) Q E"
    "hvalid (\<lambda>s. view d g os t g' os' sg st s \<and> quiet T (h_w s)) (hbind (hcallRollback CommitTransaction r) k) Q E"
proof -
  have g: "goes_through T (view d g os t g' os' sg st) (hcall CommitTransaction onErr)" for onErr
    by (rule call_through) (auto simp: quiet_commit[of T _ d] dest!: view_tx)
  show "hvalid (\<lambda>s. view d g os t g' os' sg st s \<and> quiet T (h_w s)) (hbind (hcall CommitTransaction onErr) k) Q E"
    by (rule q_lift_k[OF k_commit[OF b coh ok _ hvalid_hreturn] g]) (use k in auto)
  show "hvalid (\<lambda>s. view d g os t g' os' sg st s \<and> quiet T (h_w s)) (hbind (hcallRollback CommitTransaction r) k) Q E"
    by (rule q_lift_k[OF rb_commit[OF b coh ok _ hvalid_hreturn] rollback_through[OF g]]) (use k in auto)
qed

lemma q_begin:
  assumes "\<And>d. base d g os \<Longrightarrow> hvalid (\<lambda>s. view d g os t g os sg st s \<and> quiet T (h_w s)) (k ()) Q E"
  shows "hvalid (\<lambda>s. settled g os t sg st s \<and> quiet T (h_w s)) (hbind (hcall BeginTransaction onErr) k) Q E"
proof (rule q_lift_k[where B = "\<lambda>_ s. \<exists>d. base d g os \<and> view d g os t g os sg st s"])
  show "hvalid (settled g os t sg st) (hbind (hcall BeginTransaction onErr) hreturn)
      (\<lambda>_ s. \<exists>d. base d g os \<and> view d g os t g os sg st s) (\<lambda>_ _. True)"
    by (rule k_begin) (auto simp: hvalid_def hreturn_def)
  show "goes_through T (settled g os t sg st) (hcall BeginTransaction onErr)"
    by (rule call_through) (auto simp: quiet_begin[of T] settled_def)
qed (use assms in \<open>fastforce simp: hvalid_def\<close>)

lemma q_deferred:
  "hvalid P body never (returns R) \<Longrightarrow> hvalid P (withDeferredRollback body) never (returns R)"
  unfolding hvalid_def withDeferredRollback_def returns_def
  by (fastforce split: prod.splits sum.splits exit.splits)

section \<open>Rules outside a transaction\<close>

lemma sq_base:
  "(\<And>d. base d g os \<Longrightarrow> hvalid (\<lambda>s. settled g os t sg st s \<and> quiet T (h_w s)) m Q E) \<Longrightarrow>
   hvalid (\<lambda>s. settled g os t sg st s \<and> quiet T (h_w s)) m Q E"
  unfolding hvalid_def by (metis settled_def)

lemma sq_exit:
  "(\<And>s. settled g os t sg st s \<Longrightarrow> quiet T (h_w s) \<Longrightarrow> R b s) \<Longrightarrow>
   hvalid (\<lambda>s. settled g os t sg st s \<and> quiet T (h_w s)) (hexit (Return b)) never (returns R)"
  by (simp add: hvalid_def hexit_def)

lemma sq_get_step:
  "hvalid (\<lambda>s. settled g os t sg st s \<and> quiet T (h_w s)) (k st) Q E \<Longrightarrow>
   hvalid (\<lambda>s. settled g os t sg st s \<and> quiet T (h_w s)) (hbind (hget h_step) k) Q E"
  by (auto simp: hvalid_def hbind_def hget_def settled_def)

lemma sq_get_saga:
  "hvalid (\<lambda>s. settled g os t sg st s \<and> quiet T (h_w s)) (k sg) Q E \<Longrightarrow>
   hvalid (\<lambda>s. settled g os t sg st s \<and> quiet T (h_w s)) (hbind (hget h_saga) k) Q E"
  by (auto simp: hvalid_def hbind_def hget_def settled_def)

lemma sq_set_step:
  "hvalid (\<lambda>s. settled g os t sg (F st) s \<and> quiet T (h_w s)) (k ()) Q E \<Longrightarrow>
   hvalid (\<lambda>s. settled g os t sg st s \<and> quiet T (h_w s)) (hbind (hmodify (\<lambda>s. s\<lparr>h_step := F (h_step s)\<rparr>)) k) Q E"
  by (auto simp: hvalid_def hbind_def hmodify_def settled_def)

lemma sq_now:
  "hvalid (\<lambda>s. settled g os t sg st s \<and> quiet T (h_w s)) (k T) Q E \<Longrightarrow>
   hvalid (\<lambda>s. settled g os t sg st s \<and> quiet T (h_w s)) (hbind (hworld time_now) k) Q E"
  by (auto simp: hvalid_def hbind_def hworld_def)

lemma sq_random:
  assumes "\<And>x. hvalid (\<lambda>s. settled g os t sg st s \<and> quiet T (h_w s)) (k x) Q E"
  shows "hvalid (\<lambda>s. settled g os t sg st s \<and> quiet T (h_w s)) (hbind (hworld random_string) k) Q E"
proof (rule q_lift_k[OF s_world[OF neutral_ops(1)]])
  show "\<And>x. hvalid (settled g os t sg st) (hreturn x) (\<lambda>_. settled g os t sg st) (\<lambda>_ _. True)"
    by (rule hvalid_hreturn)
  show "goes_through T (settled g os t sg st) (hworld random_string)"
    by (rule goes_throughI) (auto simp: hworld_def split: prod.splits dest: quiet_random)
qed (use assms in auto)

lemma sq_order:
  assumes key: "saga_key sg = saga_key g"
    and k: "hvalid (\<lambda>s. settled g os t sg st s \<and> quiet T (h_w s)) (k os) Q E"
  shows "hvalid (\<lambda>s. settled g os t sg st s \<and> quiet T (h_w s))
     (hbind (hListSteps onErr) (\<lambda>allSteps. hbind (hOrder allSteps) k)) Q E"
proof (rule q_lift_k[where B = "\<lambda>rs s. OrderSagaStepsInSequence rs = Some os \<and> settled g os t sg st s"])
  show "hvalid (settled g os t sg st) (hbind (hListSteps onErr) hreturn)
      (\<lambda>rs s. OrderSagaStepsInSequence rs = Some os \<and> settled g os t sg st s) (\<lambda>_ _. True)"
    by (rule s_list_order[OF key]) (auto simp: hvalid_def hreturn_def)
  show "goes_through T (settled g os t sg st) (hListSteps onErr)"
    by (rule goes_throughI) (simp add: hListSteps_def hbind_def hget_def hcall_def quiet_list[of T])
  show "\<And>x. hvalid (\<lambda>s. (OrderSagaStepsInSequence x = Some os \<and> settled g os t sg st s) \<and> quiet T (h_w s)) (hbind (hOrder x) k) Q E"
    using k by (auto simp: hvalid_def hOrder_def hbind_return)
qed

end
