(* ===== verification/Saga_Progress.thy ===== *)
theory Saga_Progress
  imports Quiet_Rules Saga_System
begin

text \<open>
  Progress: what each handler, each poll and each result achieves in a quiet world, and how these add up
  to a saga that reaches the end of its way.
\<close>

section \<open>The rows of a saga after a move\<close>

text \<open>The saga's steps are the same, in states ss.\<close>
definition moved :: "SagaStepInstance list \<Rightarrow> SagaStepInstance list \<Rightarrow> SagaStepStateEnum list \<Rightarrow> bool" where
  "moved os os' ss = (map step_key os' = map step_key os \<and> map Ss_State os' = ss)"

text \<open>Between two handlers: the saga and step objects agree with the committed rows.\<close>
definition standing :: "int \<Rightarrow> SagaInstance \<Rightarrow> SagaStepInstance list \<Rightarrow> SagaStepStateEnum list \<Rightarrow> nat \<Rightarrow>
    (SagaStepInstance \<Rightarrow> bool) \<Rightarrow> hstate \<Rightarrow> bool" where
  "standing T g os ss i F s = (\<exists>g' os' t sg st. settled g' os' t sg st s \<and> quiet T (h_w s) \<and> at_step g' os' i sg st \<and>
     saga_key g' = saga_key g \<and> Si_State g' = Si_State g \<and> moved os os' ss \<and> F st)"

text \<open>After the last one only the rows matter.\<close>
definition rested :: "int \<Rightarrow> SagaInstance \<Rightarrow> SagaStateEnum \<Rightarrow> SagaStepInstance list \<Rightarrow> SagaStepStateEnum list \<Rightarrow> hstate \<Rightarrow> bool" where
  "rested T g gs os ss s = (\<exists>g' os' t sg st. settled g' os' t sg st s \<and> quiet T (h_w s) \<and>
     saga_key g' = saga_key g \<and> Si_State g' = gs \<and> moved os os' ss)"

lemma moved_refl: "moved os os (map Ss_State os)"
  by (simp add: moved_def)

lemma moved_trans: "moved os os1 ss1 \<Longrightarrow> moved os1 os2 ss2 \<Longrightarrow> moved os os2 ss2"
  by (simp add: moved_def)

lemma moved_upd:
  assumes "\<And>r. step_key (u r) = step_key r" "\<And>j. j < length os \<Longrightarrow> j \<in> J \<Longrightarrow> Ss_State (u (os ! j)) = f j"
    "moved os0 os ss0" "length ss = length os" "\<And>j. j < length os \<Longrightarrow> ss ! j = (if j \<in> J then f j else ss0 ! j)"
  shows "moved os0 (upd_at J u os) ss"
proof -
  have m: "map step_key os = map step_key os0" "map Ss_State os = ss0" using assms(3) by (auto simp: moved_def)
  have "map step_key (upd_at J u os) = map step_key os"
    by (rule nth_equalityI) (use assms(1) in auto)
  moreover have "map Ss_State (upd_at J u os) = ss"
    by (rule nth_equalityI) (use assms(2,4,5) m(2) in auto)
  ultimately show ?thesis using m by (simp add: moved_def)
qed

lemma standing_state:
  "standing T g os ss i F s \<Longrightarrow> i < length ss \<and> length ss = length os \<and> quiet T (h_w s)"
  by (auto simp: standing_def at_step_def moved_def dest: map_eq_imp_length_eq)

section \<open>One handler\<close>

text \<open>EXECUTION\_CANDIDATE starts running with a fresh entry in its history.\<close>
definition just_started :: "int \<Rightarrow> bool \<Rightarrow> SagaStepInstance \<Rightarrow> bool" where
  "just_started T back st = (Ss_ExecutionHistory st \<noteq> [] \<and> last (Ss_ExecutionHistory st) = newExecutionLog T back)"

lemma candidate_goes:
  assumes a: "at_step g os i sg st" and X: "Ss_State st = SagaStepStateEnum_ExecutionCandidate"
  shows "hvalid (\<lambda>s. settled g os t sg st s \<and> quiet T (h_w s)) handleExecutionCandidate never
    (returns (\<lambda>b s. b \<and> standing T g os ((map Ss_State os)[i := SagaStepStateEnum_ExecutionRunning]) i
       (\<lambda>st'. Ss_State st' = SagaStepStateEnum_ExecutionRunning \<and> just_started T False st') s))"
proof (rule sq_base)
  fix d assume b: "base d g os"
  note A = at_step_facts[OF b a]
  have h: "Ss_ExecutionHistory st = []" using A X by (simp add: step_ok_def Let_def)
  have fw: "forward_at (map Ss_State os) i" by (rule current_forward[OF b a]) (simp add: X fwd_active_def)
  have prev: "\<not> (0 < i \<and> Ss_State (os ! (i - 1)) \<noteq> SagaStepStateEnum_ExecutionDone)"
    and nxt: "\<not> (Suc i < length os \<and> Ss_State (os ! Suc i) \<noteq> SagaStepStateEnum_ExecutionPending)"
    using fw by (cases i; auto simp: forward_at_def)+
  show "hvalid (\<lambda>s. settled g os t sg st s \<and> quiet T (h_w s)) handleExecutionCandidate never
    (returns (\<lambda>b s. b \<and> standing T g os ((map Ss_State os)[i := SagaStepStateEnum_ExecutionRunning]) i
       (\<lambda>st'. Ss_State st' = SagaStepStateEnum_ExecutionRunning \<and> just_started T False st') s))"
    unfolding handleExecutionCandidate_def
    apply (rule sq_get_step)
    apply (simp only: h simp_thms if_False)
    apply (rule sq_order[OF A(2)])
    apply (simp only: A(11) option.case prev nxt if_False)
    apply (rule sq_random)
    apply (rule sq_now)
    apply (rule sq_set_step)
    apply (rule q_begin)
    subgoal premises p
      apply (rule q_get_step)
      apply (rule q_history_rb[OF p, where j = i], simp add: A, simp add: A)
      apply (rule q_transit_rb[OF p, where j = i], simp add: A, simp add: A, simp add: A)
      apply (rule q_get_step)
      apply (rule q_history_rb[OF p, where j = i], simp add: A, simp add: A)
      apply (rule q_commit(2)[OF p])
      subgoal
        by (rule coherent_from_forward[OF A(14) fw, where k = i])
           (use fw in \<open>auto simp: forward_at_def fwd_active_def\<close>)
      subgoal for j
        by (cases "j = i", simp add: step_ok_def Let_def newExecutionLog_def A(1), simp add: A(16))
      apply (rule sq_exit)
      subgoal for s
        unfolding standing_def
        apply (intro conjI TrueI exI, assumption, assumption)
        subgoal using A(1,2,10) by (simp add: at_step_def agrees_def fresh_log_def newExecutionLog_def)
        subgoal by simp
        subgoal by simp
        subgoal using A(1) by (auto simp: moved_def intro!: nth_equalityI simp: nth_list_update)
        subgoal using A(1) by simp
        subgoal using A(1) by (simp add: just_started_def)
        done
      done
    done
qed

text \<open>The running states publish the request and stamp it.\<close>
lemma stamp_goes:
  assumes b: "base d g os" and a: "at_step g os i sg st" and run: "running st"
  shows "hvalid (\<lambda>s. view d g os t g os sg st s \<and> quiet T (h_w s)) (hPublishAndStamp co msg) never
    (returns (\<lambda>b s. \<not> b \<and> rested T g (Si_State g) os (map Ss_State os) s))"
proof -
  note A = at_step_facts[OF b a]
  note H = running_history[OF b a run]
  show ?thesis
    unfolding hPublishAndStamp_def
    apply (rule q_get_saga)
    apply (rule q_get_step)
    apply (rule q_publish)
    apply (rule q_now)
    apply (rule q_set_step)
    apply (rule q_get_step)
    apply (rule q_history[OF b, where j = i], simp add: A, simp add: A)
    apply (rule q_commit(1)[OF b])
    subgoal by (rule running_pattern[OF b a, where target = "Ss_State st"]) (use run A(8) in \<open>auto simp: running_def\<close>)
    subgoal for j
      using H A(13) by (cases "j = i", simp add: step_ok_def Let_def A(1) last_mapLast, simp add: A(16))
    apply (rule sq_exit)
    subgoal for s
      unfolding rested_def
      apply (intro conjI TrueI exI, simp, assumption, assumption)
      subgoal by simp
      subgoal by simp
      subgoal by (rule moved_upd[OF _ _ moved_refl, where f = "\<lambda>j. Ss_State (os ! j)"]) auto
      done
    done
qed

lemma just_started_times:
  assumes "just_started T back st"
  shows "\<not> awaitingResult T (last (Ss_ExecutionHistory st))" "\<not> requestTimedOut T (last (Ss_ExecutionHistory st))"
    "readyToSend T (last (Ss_ExecutionHistory st))" "Ss_ExecutionHistory st \<noteq> []"
    "IsCompensation (last (Ss_ExecutionHistory st)) = back"
  using assms by (auto simp: just_started_def newExecutionLog_def awaitingResult_def requestTimedOut_def readyToSend_def)

lemma collect_done:
  "\<forall>p \<in> set ps. Ss_State p = SagaStepStateEnum_ExecutionDone \<Longrightarrow> \<exists>m. collectPreviousResults ps input = Some m"
  by (induction ps arbitrary: input) auto

lemma before_step:
  assumes b: "base d g os" and a: "at_step g os i sg st"
  shows "takeWhile (\<lambda>s. Ss_InstanceId s \<noteq> Ss_InstanceId st) os = take i os"
proof -
  note A = at_step_facts[OF b a]
  have "Ss_InstanceId (os ! j) \<noteq> Ss_InstanceId (os ! i)" if "j < i" for j
    using base_facts(6)[OF b] that A(1) nth_eq_iff_index_eq[of "map Ss_InstanceId os" j i] by auto
  then show ?thesis using A(1,7) by (intro takeWhile_eq_take_P_nth) auto
qed

lemma execution_running_goes:
  assumes a: "at_step g os i sg st" and X: "Ss_State st = SagaStepStateEnum_ExecutionRunning"
    and fresh: "just_started T False st"
  shows "hvalid (\<lambda>s. settled g os t sg st s \<and> quiet T (h_w s)) (handleExecutionRunning co) never
    (returns (\<lambda>b s. \<not> b \<and> rested T g (Si_State g) os (map Ss_State os) s))"
proof (rule sq_base)
  fix d assume b: "base d g os"
  note A = at_step_facts[OF b a]
  have run: "running st" using X by (simp add: running_def)
  have fw: "forward_at (map Ss_State os) i" by (rule current_forward[OF b a]) (simp add: X fwd_active_def)
  obtain input where input: "collectPreviousResults (take i os) (Si_Input sg) = Some input"
    using collect_done[of "take i os" "Si_Input sg"] fw A(1) by (fastforce simp: in_set_conv_nth forward_at_def)
  show "hvalid (\<lambda>s. settled g os t sg st s \<and> quiet T (h_w s)) (handleExecutionRunning co) never
    (returns (\<lambda>b s. \<not> b \<and> rested T g (Si_State g) os (map Ss_State os) s))"
    unfolding handleExecutionRunning_def Let_def
    apply (rule sq_get_step)
    apply (simp only: just_started_times(4)[OF fresh] if_False)
    apply (rule sq_now)
    apply (simp only: just_started_times[OF fresh] if_False if_True)
    unfolding sendExecutionRequest_def
    apply (rule q_begin)
    subgoal premises p
      apply (rule q_deferred)
      apply (rule q_get_saga)
      apply (rule q_get_step)
      apply (rule q_ordered[OF p A(2)])
      subgoal premises q
        apply (simp only: getPreviousStepsInOrder_def q option.map option.case before_step[OF b a] input)
        apply (rule q_message)
        apply (rule stamp_goes[OF p a run])
        done
      done
    done
qed

text \<open>EXECUTION\_SUCCEEDED hands over to the next step, or commits the saga.\<close>
lemma execution_succeeded_goes:
  assumes a: "at_step g os i sg st" and X: "Ss_State st = SagaStepStateEnum_ExecutionSucceeded"
  shows "hvalid (\<lambda>s. settled g os t sg st s \<and> quiet T (h_w s)) handleExecutionSucceeded never
    (returns (\<lambda>b s. \<not> b \<and> (if Suc i < length os
       then rested T g (Si_State g) os ((map Ss_State os)[i := SagaStepStateEnum_ExecutionDone,
              Suc i := SagaStepStateEnum_ExecutionCandidate]) s
       else rested T g SagaStateEnum_Committed os ((map Ss_State os)[i := SagaStepStateEnum_ExecutionDone]) s)))"
    (is "hvalid _ _ _ ?R")
  unfolding handleExecutionSucceeded_def
  apply (rule q_begin)
  subgoal premises p for d
  proof (rule q_deferred)
    note A = at_step_facts[OF p a]
    have fw: "forward_at (map Ss_State os) i" by (rule current_forward[OF p a]) (simp add: X fwd_active_def)
    have last: "\<not> (\<exists>j < length os. j \<noteq> i \<and> Ss_State (os ! j) \<noteq> SagaStepStateEnum_ExecutionDone)" if "Suc i = length os"
      using fw by (auto simp: forward_at_def that[symmetric] less_Suc_eq)
    show "hvalid (\<lambda>s. view d g os t g os sg st s \<and> quiet T (h_w s)) executionSucceededBody never ?R"
      unfolding executionSucceededBody_def
      apply (rule q_get_step)
      apply (rule q_order[OF p A(2)])
      apply (simp only: A(11) option.case)
      apply (rule q_transit_step[OF p, where j = i], simp add: A, simp add: A, simp add: A)
      apply (cases "Suc i < length os")
      subgoal premises c
      proof -
        have n: "Ss_State (os ! Suc i) = SagaStepStateEnum_ExecutionPending" "Suc i \<noteq> length os"
          using fw c by (auto simp: forward_at_def)
        have h: "Ss_ExecutionHistory (os ! Suc i) = []" by (rule pending_history[OF A(16)[OF c] n(1)])
        show ?thesis
          apply (simp only: c n simp_thms if_True if_False handler_norm)
          apply (rule q_transit_other[OF p, where j = "Suc i"], simp add: c, simp add: c, simp add: A c)
          apply (rule q_commit(1)[OF p])
          subgoal
            by (rule coherent_from_forward[OF A(14) fw, where k = "Suc i"])
               (use fw c in \<open>auto simp: forward_at_def fwd_active_def less_Suc_eq\<close>)
          subgoal for j
            by (cases "j = Suc i", simp add: step_ok_def Let_def c h, cases "j = i",
                simp add: step_ok_def Let_def A(1), simp add: A(16))
          apply (rule sq_exit)
          subgoal for s
            unfolding rested_def
            apply (intro conjI TrueI exI, simp, assumption, assumption, simp, simp)
            by (auto simp: moved_def c A(1) nth_list_update intro!: nth_equalityI)
          done
      qed
      subgoal premises c
      proof -
        have n: "Suc i = length os" using c A(1) by simp
        show ?thesis
          apply (simp only: less_irrefl last[OF n] n simp_thms if_True if_False handler_norm)
          apply (rule q_get_step)
          apply (rule hvalid_if, simp)
          apply (rule q_transit_saga[OF p A(2)])
          apply (rule q_commit(1)[OF p])
          subgoal
            using fw by (auto simp: all_done_def in_set_conv_nth forward_at_def n[symmetric] less_Suc_eq)
          subgoal for j
            by (cases "j = i", simp add: step_ok_def Let_def A(1), simp add: A(16))
          apply (rule sq_exit)
          subgoal for s
            unfolding rested_def
            apply (intro conjI TrueI exI, simp, assumption, assumption, simp, simp)
            by (auto simp: moved_def c A(1) nth_list_update intro!: nth_equalityI)
          done
      qed
      done
  qed
  done

section \<open>One handler on the way back\<close>

lemma q_foreach_transit:
  assumes b: "base d g os" and c: "Si_ClusterId sg = Si_ClusterId g"
    and F: "\<And>j. j \<in> set js \<Longrightarrow> F (os ! j) = hbind (hTransitOther (os ! j) target onErr) (\<lambda>_. hreturn ())"
  shows "distinct js \<Longrightarrow> (\<And>j. j \<in> set js \<Longrightarrow> j < length os) \<Longrightarrow>
    length os' = length os \<Longrightarrow> (\<And>j. j < length os \<Longrightarrow> step_key (os' ! j) = step_key (os ! j)) \<Longrightarrow>
    hvalid (\<lambda>s. view d g os t g' (upd_at (set js) (setState target t) os') sg st s \<and> quiet T (h_w s)) (k ()) Q E \<Longrightarrow>
    hvalid (\<lambda>s. view d g os t g' os' sg st s \<and> quiet T (h_w s)) (hbind (hforeach F (map ((!) os) js)) k) Q E"
using F proof (induction js arbitrary: os')
  case Nil
  then show ?case by (simp add: handler_norm)
next
  case (Cons j js)
  have j: "j < length os" using Cons.prems(2) by simp
  have cl: "Ss_ClusterId (os ! j) = Si_ClusterId g" using base_facts(5)[OF b, of "os ! j"] j by simp
  have Fj: "F (os ! j) = hbind (hTransitOther (os ! j) target onErr) (\<lambda>_. hreturn ())"
    using Cons.prems(6) by simp
  have rest: "hvalid (\<lambda>s. view d g os t g' (upd_at {j} (setState target t) os') sg st s \<and> quiet T (h_w s))
      (hbind (hforeach F (map ((!) os) js)) k) Q E"
    by (rule Cons.IH) (use Cons.prems in \<open>auto simp: upd_at_insert\<close>)
  have key: "step_key (os ! j) = step_key (os' ! j)" using Cons.prems(4)[OF j] by simp
  show ?case
    unfolding list.map hforeach.simps handler_norm Fj
    by (rule q_transit_other[OF b _ key _ rest]) (use Cons.prems(3) j c cl in auto)
qed

text \<open>EXECUTION\_FAILED turns the saga round.\<close>
lemma execution_failed_goes:
  assumes a: "at_step g os i sg st" and X: "Ss_State st = SagaStepStateEnum_ExecutionFailed"
  shows "hvalid (\<lambda>s. settled g os t sg st s \<and> quiet T (h_w s)) handleExecutionFailed never
    (returns (\<lambda>b s. b \<and> standing T g os (replicate i SagaStepStateEnum_CompensationPending @
       SagaStepStateEnum_CompensationCandidate # replicate (length os - Suc i) SagaStepStateEnum_ExecutionAborted) i
       (\<lambda>st'. Ss_State st' = SagaStepStateEnum_CompensationCandidate) s))"
    (is "hvalid _ _ _ ?R")
  unfolding handleExecutionFailed_def
  apply (rule q_begin)
  subgoal premises p for d
  proof (rule q_deferred)
    note A = at_step_facts[OF p a]
    have fw: "forward_at (map Ss_State os) i" by (rule current_forward[OF p a]) (simp add: X fwd_active_def)
    have i: "i \<le> length os" using A(1) by simp
    have F1: "abortNextStep (os ! j) = hbind (hTransitOther (os ! j) SagaStepStateEnum_ExecutionAborted (Abandon False False)) (\<lambda>_. hreturn ())"
      if "j \<in> set [Suc i..<length os]" for j
      using fw that by (auto simp: abortNextStep_def forward_at_def)
    have F2: "pendPreviousStep (os ! j) = hbind (hTransitOther (os ! j) SagaStepStateEnum_CompensationPending (Abandon False False)) (\<lambda>_. hreturn ())"
      if "j \<in> set [0..<i]" for j
      using fw that by (auto simp: pendPreviousStep_def forward_at_def)
    show "hvalid (\<lambda>s. view d g os t g os sg st s \<and> quiet T (h_w s)) executionFailedBody never ?R"
      unfolding executionFailedBody_def
      apply (rule q_get_step)
      apply (rule q_order[OF p A(2)])
      apply (simp only: A(11) option.case drop_as_map take_as_map[OF i])
      apply (rule q_set_saga)
      apply (rule q_get_saga)
      apply (rule q_update_saga[OF p], simp add: A)
      apply (rule q_foreach_transit[OF p _ F1], simp add: A, assumption, simp, simp, simp, simp)
      apply (rule q_foreach_transit[OF p _ F2], simp add: A, assumption, simp, insert A(1), simp, simp, simp)
      apply (rule q_transit_step[OF p, where j = i], simp add: A, simp add: A, simp add: A)
      apply (rule q_commit(1)[OF p])
      subgoal
        by (rule coherent_from_forward[where ss = "map Ss_State os" and i = i and k = i])
           (use A(1,10,14) fw in \<open>auto simp: forward_at_def backward_at_def settled_from_def cmp_active_def\<close>)
      subgoal for j
        using fw pending_history[OF A(16), of j]
        by (cases "j < i", simp add: step_ok_def Let_def A(1), cases "j = i", simp add: step_ok_def Let_def A(1),
            simp add: step_ok_def Let_def forward_at_def)
      apply (rule sq_exit)
      subgoal for s
        unfolding standing_def
        apply (intro conjI TrueI exI, assumption, assumption)
        subgoal using A(1,2,10) by (simp add: at_step_def agrees_def fresh_log_def)
        subgoal by simp
        subgoal using A(10) by simp
        subgoal by (auto simp: moved_def nth_append nth_Cons' intro!: nth_equalityI)
        subgoal by simp
        done
      done
  qed
  done

text \<open>The child sagas a step waits for.\<close>
definition children_settled :: "string \<Rightarrow> string \<Rightarrow> db \<Rightarrow> bool" where
  "children_settled c gid d = (\<forall>x \<in> set (db_sagas d).
     Si_ClusterId x = c \<and> Si_ParentSagaInstanceId x = gid \<longrightarrow>
     Si_State x = SagaStateEnum_Compensated \<and> saga_key x \<noteq> (c, gid))"

lemma scan_settled_children:
  "\<forall>x \<in> set cs. Si_State x = SagaStateEnum_Compensated \<Longrightarrow> scanChildSagas sid cs = hreturn False"
  by (induction cs) auto

lemma hvalid_same:
  "hvalid P m Q E \<Longrightarrow> P s \<Longrightarrow> n s = m s \<Longrightarrow> case n s of (Inl e, s1) \<Rightarrow> E e s1 | (Inr x, s1) \<Rightarrow> Q x s1"
  unfolding hvalid_def by simp

text \<open>COMPENSATION\_CANDIDATE starts running once the step's children are compensated.\<close>
lemma compensation_candidate_goes:
  assumes a: "at_step g os i sg st" and X: "Ss_State st = SagaStepStateEnum_CompensationCandidate"
  shows "hvalid (\<lambda>s. (settled g os t sg st s \<and> quiet T (h_w s)) \<and> children_settled (Si_ClusterId g) (Si_InstanceId g) (w_db (h_w s)))
    handleCompensationCandidate never
    (returns (\<lambda>b s. b \<and> standing T g os ((map Ss_State os)[i := SagaStepStateEnum_CompensationRunning]) i
       (\<lambda>st'. Ss_State st' = SagaStepStateEnum_CompensationRunning \<and> just_started T True st') s))"
    (is "hvalid _ _ _ ?R")
proof (rule hvalidI)
  fix s assume s: "(settled g os t sg st s \<and> quiet T (h_w s)) \<and> children_settled (Si_ClusterId g) (Si_InstanceId g) (w_db (h_w s))"
  then obtain b: "base (w_db (h_w s)) g os" and hs: "h_saga s = sg" "h_step s = st" by (auto simp: settled_def)
  note A = at_step_facts[OF b a]
  have bw: "backward_at (map Ss_State os) i" by (rule current_backward[OF b a]) (simp add: X cmp_active_def)
  have prev: "\<not> (0 < i \<and> Ss_State (os ! (i - 1)) \<noteq> SagaStepStateEnum_CompensationPending)"
    using bw by (cases i) (auto simp: backward_at_def)
  have after: "list_all settledAfter (drop (Suc i) os)"
    unfolding list_all_length settledAfter_def
  proof (intro allI impI)
    fix n assume n: "n < length (drop (Suc i) os)"
    then show "Ss_State (drop (Suc i) os ! n) = SagaStepStateEnum_ExecutionAborted \<or>
        Ss_State (drop (Suc i) os ! n) = SagaStepStateEnum_CompensationDone"
      using bw settled_nth[of "map Ss_State os" "Suc i" "Suc i + n"] by (auto simp: backward_at_def)
  qed
  let ?rs = "saga_steps (Si_ClusterId sg) (Si_InstanceId sg) (w_db (h_w s))"
  have ord: "OrderSagaStepsInSequence ?rs = Some os"
    using b A(2) by (simp add: base_def ordered_def saga_rows_def saga_steps_def)
  let ?cs = "sort_key Si_CreatedAt (filter (\<lambda>r. Si_ClusterId r = Si_ClusterId sg \<and>
              Si_ParentSagaInstanceId r = Si_InstanceId sg \<and> Si_InstanceId sg \<noteq> '''') (db_sagas (w_db (h_w s))))"
  have kids: "GetChildSagaInstances (Si_ClusterId sg) (Si_InstanceId sg) (h_w s) = (Ok ?cs, h_w s)"
    by (simp add: GetChildSagaInstances_def quiet_query[OF conjunct2[OF conjunct1[OF s]]])
  have scan: "scanChildSagas (Ss_InstanceId st) ?cs = hreturn False"
    by (rule scan_settled_children) (use s A in \<open>auto simp: children_settled_def\<close>)
  let ?tail = "(hbind (hworld time_now) (\<lambda>now.
          let newExecutionHistory = Ss_ExecutionHistory st @ [newExecutionLog now True] in
          hbind (hcall BeginTransaction (\<lambda>_. Return False)) (\<lambda>_.
          hbind (hTransitStepRollback SagaStepStateEnum_CompensationRunning False) (\<lambda>_.
          hbind (hmodify (\<lambda>s. s\<lparr>h_step := (h_step s)\<lparr>Ss_ExecutionHistory := newExecutionHistory\<rparr>\<rparr>)) (\<lambda>_.
          hbind (hget h_step) (\<lambda>step1.
          hbind (hcallRollback (UpdateSagaStepInstanceExecutionHistory step1) False) (\<lambda>_.
          hbind (hcall CommitTransaction (\<lambda>_. Return False)) (\<lambda>_.
          hexit (Return True)))))))) :: (bool, unit) handler)"
  have eq: "handleCompensationCandidate s = ?tail s"
    using s unfolding handleCompensationCandidate_def
    by (simp add: hbind_def hget_def hcall_def hListSteps_def quiet_list[of T] ord hOrder_def hreturn_def hs A(11)
        prev after kids scan del: One_nat_def)
  have "hvalid (\<lambda>s. settled g os t sg st s \<and> quiet T (h_w s)) ?tail never ?R"
    unfolding Let_def
    apply (rule sq_now)
    apply (rule q_begin)
    subgoal premises p
      apply (rule q_transit_rb[OF p, where j = i], simp add: A, simp add: A, simp add: A)
      apply (rule q_set_step)
      apply (rule q_get_step)
      apply (rule q_history_rb[OF p, where j = i], simp add: A, simp add: A)
      apply (rule q_commit(1)[OF p])
      subgoal
        by (rule coherent_from_backward[OF A(14) bw, where k = i])
           (use bw in \<open>auto simp: backward_at_def settled_from_def cmp_active_def\<close>)
      subgoal for j
        by (cases "j = i", simp add: step_ok_def Let_def newExecutionLog_def A(1), simp add: A(16))
      apply (rule sq_exit)
      subgoal for s
        unfolding standing_def
        apply (intro conjI TrueI exI, assumption, assumption)
        subgoal using A(1,2,10) by (simp add: at_step_def agrees_def fresh_log_def newExecutionLog_def)
        subgoal by simp
        subgoal by simp
        subgoal using A(1) by (auto simp: moved_def intro!: nth_equalityI simp: nth_list_update)
        subgoal using A(1) by simp
        subgoal using A(1) by (simp add: just_started_def)
        done
      done
    done
  from hvalid_same[where n = handleCompensationCandidate and s = s, OF this conjunct1[OF s] eq]
  show "case handleCompensationCandidate s of (Inl e, s1) \<Rightarrow> ?R e s1 | (Inr x, s1) \<Rightarrow> never x s1" .
qed

lemma q_try_list:
  assumes b: "base d g os" and key: "saga_key sg = saga_key g"
    and ok: "\<And>rs. OrderSagaStepsInSequence rs = Some os' \<Longrightarrow>
      hvalid (\<lambda>s. view d g os t g' os' sg st s \<and> quiet T (h_w s)) (k (Inr rs)) Q E"
  shows "hvalid (\<lambda>s. view d g os t g' os' sg st s \<and> quiet T (h_w s))
     (hbind (htry (ListSagaStepInstancesBySagaInstanceId (Si_ClusterId sg) (Si_InstanceId sg))) k) Q E"
proof (rule hvalidI)
  fix s assume v: "view d g os t g' os' sg st s \<and> quiet T (h_w s)"
  have "OrderSagaStepsInSequence (saga_steps (Si_ClusterId sg) (Si_InstanceId sg) (w_db (h_w s))) = Some os'"
    using inview_rows[OF b view_w] v key by auto
  from ok[OF this] v show "case hbind (htry (ListSagaStepInstancesBySagaInstanceId (Si_ClusterId sg) (Si_InstanceId sg))) k s of
      (Inl e, s1) \<Rightarrow> E e s1 | (Inr x, s1) \<Rightarrow> Q x s1"
    by (simp add: hbind_def htry_def hvalid_def quiet_list[of T])
qed

lemma compensation_running_goes:
  assumes a: "at_step g os i sg st" and X: "Ss_State st = SagaStepStateEnum_CompensationRunning"
    and fresh: "just_started T True st"
  shows "hvalid (\<lambda>s. settled g os t sg st s \<and> quiet T (h_w s)) (handleCompensationRunning co) never
    (returns (\<lambda>b s. \<not> b \<and> rested T g (Si_State g) os (map Ss_State os) s))"
proof (rule sq_base)
  fix d assume b: "base d g os"
  note A = at_step_facts[OF b a]
  have run: "running st" using X by (simp add: running_def)
  show "hvalid (\<lambda>s. settled g os t sg st s \<and> quiet T (h_w s)) (handleCompensationRunning co) never
    (returns (\<lambda>b s. \<not> b \<and> rested T g (Si_State g) os (map Ss_State os) s))"
    unfolding handleCompensationRunning_def Let_def
    apply (rule sq_get_step)
    apply (simp only: just_started_times(4)[OF fresh] if_False)
    apply (rule sq_now)
    apply (simp only: just_started_times[OF fresh] if_False if_True simp_thms)
    unfolding sendCompensationRequest_def
    apply (rule q_begin)
    subgoal premises p
      apply (rule q_deferred)
      apply (rule q_get_saga)
      apply (rule q_get_step)
      apply (rule q_try_list[OF p A(2)])
      apply (simp only: sum.case handler_norm)
      apply (rule k_order, assumption)
      apply (rule q_message)
      apply (rule stamp_goes[OF p a run])
      done
    done
qed

text \<open>COMPENSATION\_SUCCEEDED hands back to the previous step, or compensates the saga.\<close>
lemma compensation_succeeded_goes:
  assumes a: "at_step g os i sg st" and X: "Ss_State st = SagaStepStateEnum_CompensationSucceeded"
  shows "hvalid (\<lambda>s. settled g os t sg st s \<and> quiet T (h_w s)) handleCompensationSucceeded never
    (returns (\<lambda>b s. b \<and> standing T
       (g\<lparr>Si_State := if i = 0 then SagaStateEnum_Compensated else Si_State g\<rparr>) os
       (if i = 0 then (map Ss_State os)[i := SagaStepStateEnum_CompensationDone]
        else (map Ss_State os)[i - 1 := SagaStepStateEnum_CompensationCandidate, i := SagaStepStateEnum_CompensationDone]) i
       (\<lambda>st'. Ss_State st' = SagaStepStateEnum_CompensationDone) s))"
    (is "hvalid _ _ _ ?R")
  unfolding handleCompensationSucceeded_def
  apply (rule q_begin)
  subgoal premises p for d
  proof (rule q_deferred)
    note A = at_step_facts[OF p a]
    have bw: "backward_at (map Ss_State os) i" by (rule current_backward[OF p a]) (simp add: X cmp_active_def)
    show "hvalid (\<lambda>s. view d g os t g os sg st s \<and> quiet T (h_w s)) compensationSucceededBody never ?R"
      unfolding compensationSucceededBody_def
      apply (rule q_get_step)
      apply (rule q_order[OF p A(2)])
      apply (simp only: A(11) option.case)
      apply (cases i)
      subgoal premises c
      proof -
        obtain m k where mk: "drop (Suc 0) (map Ss_State os) =
            replicate m SagaStepStateEnum_CompensationDone @ replicate k SagaStepStateEnum_ExecutionAborted"
          using bw settled_decompose c unfolding backward_at_def by blast
        have pat: "compensatedPattern False (map Ss_State (os[0 := setState SagaStepStateEnum_CompensationDone t (os ! 0)]))"
        proof -
          have "map Ss_State (os[0 := setState SagaStepStateEnum_CompensationDone t (os ! 0)]) =
              SagaStepStateEnum_CompensationDone # drop (Suc 0) (map Ss_State os)"
            using A(1) by (cases os) auto
          then show ?thesis using compensatedPattern_settled[of "Suc m" k] mk by simp
        qed
        show ?thesis
          apply (simp only: c less_irrefl simp_thms if_True if_False handler_norm)
          apply (rule q_transit_step[OF p, where j = 0], use A c in simp, use A c in simp, simp add: A)
          apply (rule q_get_step)
          apply (simp only: pat simp_thms if_True if_False)
          apply (rule hvalid_if, simp)
          apply (rule q_transit_saga[OF p A(2)])
          apply (rule q_commit(1)[OF p])
          subgoal
            unfolding Si_State_set coherent.simps
            by (rule disjI1, rule compensated_from_backward[of "map Ss_State os"]) (use bw c A(1) in auto)
          subgoal for j
            by (cases "j = 0", use A(1) in \<open>simp add: step_ok_def Let_def\<close>, simp add: A(16))
          apply (rule sq_exit)
          subgoal for s
            unfolding standing_def
            apply (intro conjI TrueI exI, assumption, assumption)
            subgoal using A(1,2,10) c by (simp add: at_step_def agrees_def fresh_log_def)
            subgoal by simp
            subgoal by simp
            subgoal
              by (rule moved_upd[OF _ _ moved_refl, where f = "\<lambda>_. SagaStepStateEnum_CompensationDone"])
                 (use A(1) c in \<open>simp_all add: nth_list_update\<close>)
            subgoal by simp
            done
          done
      qed
      subgoal premises c for m
      proof -
        have m: "0 < i" "i - 1 < length os" "m = i - 1" "i \<noteq> 0" using c A(1) by auto
        have prev: "Ss_State (os ! (i - 1)) = SagaStepStateEnum_CompensationPending"
          using bw m(1) by (auto simp: backward_at_def)
        show ?thesis
          apply (simp only: m(1,4) prev simp_thms if_True if_False handler_norm)
          apply (rule q_transit_other[OF p, where j = "i - 1"], simp add: m(2)[simplified], simp, use A m in simp)
          apply (rule q_transit_step[OF p, where j = i], use A m in simp, use A m in simp, simp add: A)
          apply (rule q_get_step)
          apply (rule q_commit(1)[OF p])
          subgoal
          proof (rule coherent_from_backward[OF A(14) bw, where k = "i - 1"])
            show "backward_at (map Ss_State (upd_at {i} (setState SagaStepStateEnum_CompensationDone t)
               (upd_at {i - 1} (setState SagaStepStateEnum_CompensationCandidate t) os))) (i - 1)" (is "backward_at ?ss _")
              unfolding backward_at_def
            proof (intro conjI)
              have "settled_from ?ss i"
                by (rule settled_extend[of "map Ss_State os"]) (use bw A(1) m(1) in \<open>auto simp: backward_at_def\<close>)
              then show "settled_from ?ss (Suc (i - 1))" using m by simp
            qed (use bw m A(1) in \<open>auto simp: backward_at_def cmp_active_def\<close>)
          qed
          subgoal for j
            by (cases "j = i", use A(1) m in \<open>simp add: step_ok_def Let_def\<close>, cases "j = i - 1",
                use m(2) in \<open>simp add: step_ok_def Let_def\<close>, simp add: A(16))
          apply (rule sq_exit)
          subgoal for s
            unfolding standing_def
            apply (intro conjI TrueI exI, assumption, assumption)
            subgoal using A(1,2,10) by (simp add: at_step_def agrees_def fresh_log_def)
            subgoal by simp
            subgoal using m by simp
            subgoal using A(1) m by (auto simp: moved_def nth_list_update intro!: nth_equalityI)
            subgoal by simp
            done
          done
      qed
      done
  qed
  done

lemma compensation_failed_goes:
  assumes a: "at_step g os i sg st" and X: "Ss_State st = SagaStepStateEnum_CompensationFailed"
  shows "hvalid (\<lambda>s. settled g os t sg st s \<and> quiet T (h_w s)) handleCompensationFailed never
    (returns (\<lambda>b s. \<not> b \<and>
      rested T g SagaStateEnum_Blocked os ((map Ss_State os)[i := SagaStepStateEnum_CompensationBlocked]) s))"
    (is "hvalid _ _ _ ?R")
  unfolding handleCompensationFailed_def
  apply (rule q_begin)
  subgoal premises p for d
  proof (rule q_deferred)
    note A = at_step_facts[OF p a]
    have bw: "backward_at (map Ss_State os) i" by (rule current_backward[OF p a]) (simp add: X cmp_active_def)
    have h: "Ss_ExecutionHistory (os ! i) \<noteq> []" "IsCompensation (last (Ss_ExecutionHistory (os ! i)))"
      using A(8,13) X by (auto simp: step_ok_def Let_def)
    show "hvalid (\<lambda>s. view d g os t g os sg st s \<and> quiet T (h_w s))
       (hbind (hTransitStep SagaStepStateEnum_CompensationBlocked (Abandon False False)) (\<lambda>_.
        hbind (hTransitSaga SagaStateEnum_Blocked (Abandon False False)) (\<lambda>_.
        hbind (hcall CommitTransaction (\<lambda>_. Abandon False False)) (\<lambda>_.
        hexit (Return False))))) never ?R"
      apply (rule q_transit_step[OF p, where j = i], simp add: A, simp add: A, simp add: A)
      apply (rule q_transit_saga[OF p A(2)])
      apply (rule q_commit(1)[OF p])
      subgoal
        unfolding Si_State_set coherent.simps
        by (rule exI[of _ i]) (use bw in \<open>auto simp: backward_at_def settled_from_def cmp_active_def\<close>)
      subgoal for j
        by (cases "j = i", simp add: step_ok_def Let_def A(1) h, simp add: A(16))
      apply (rule sq_exit)
      subgoal for s
        unfolding rested_def
        apply (intro conjI TrueI exI, simp, assumption, assumption, simp, simp)
        using A(1) by (auto simp: moved_def nth_list_update intro!: nth_equalityI)
      done
  qed
  done

end
