(* ===== verification/Saga_Children.thy ===== *)
theory Saga_Children
  imports Saga_Progress
begin

text \<open>
  The child sagas a saga waits for stay as they are while the saga itself is worked on: no handler writes
  another saga's row, except to ask a committed child to compensate.
\<close>

definition kids_ok :: "string \<Rightarrow> string \<Rightarrow> world \<Rightarrow> bool" where
  "kids_ok c gid w = (children_settled c gid (w_db w) \<and> (\<forall>d. w_tx w = Some d \<longrightarrow> children_settled c gid d))"

definition kids :: "string \<Rightarrow> string \<Rightarrow> hstate \<Rightarrow> bool" where
  "kids c gid s = (saga_key (h_saga s) = (c, gid) \<and> kids_ok c gid (h_w s))"

definition op_keeps :: "string \<Rightarrow> string \<Rightarrow> (world \<Rightarrow> 'a \<times> world) \<Rightarrow> bool" where
  "op_keeps c gid op = (\<forall>w. kids_ok c gid w \<longrightarrow> kids_ok c gid (snd (op w)))"

lemma op_keepsD: "op_keeps c gid op \<Longrightarrow> kids_ok c gid w \<Longrightarrow> op w = (r, w1) \<Longrightarrow> kids_ok c gid w1"
  by (metis op_keeps_def snd_conv)

section \<open>Store calls\<close>

lemma settled_steps [simp]: "children_settled c gid (update_step_rows c' i' u d) = children_settled c gid d"
  by (simp add: children_settled_def update_step_rows_def)

lemma settled_sagas:
  assumes "children_settled c gid d" "\<And>r. saga_key (u r) = saga_key r"
    "\<And>r. Si_ParentSagaInstanceId (u r) = Si_ParentSagaInstanceId r"
    "(c', i') = (c, gid) \<or> (\<forall>r. Si_State r = SagaStateEnum_Compensated \<longrightarrow> u r = r)"
  shows "children_settled c gid (update_saga_rows c' i' u d)"
proof -
  have "Si_State (u r) = SagaStateEnum_Compensated"
    if "Si_State r = SagaStateEnum_Compensated" "saga_key r \<noteq> (c, gid)" "saga_key r = (c', i')" for r
    using that assms(4) by auto
  then show ?thesis
    using assms(1,2,3) by (auto simp: children_settled_def update_saga_rows_def)
qed

lemma settled_same: "db_sagas d' = db_sagas d \<Longrightarrow> children_settled c gid d' = children_settled c gid d"
  by (simp add: children_settled_def)

lemma exec_keeps:
  "(\<And>d. children_settled c gid d \<Longrightarrow> children_settled c gid (upd d)) \<Longrightarrow> op_keeps c gid (db_exec upd)"
  unfolding op_keeps_def kids_ok_def
  using exec_any[of upd] by (metis surjective_pairing)

lemma neutral_keeps: "neutral op \<Longrightarrow> op_keeps c gid op"
  unfolding op_keeps_def kids_ok_def neutral_def by (metis settled_same)

lemma exec_dbtime_keeps:
  "(\<And>t d. children_settled c gid d \<Longrightarrow> children_settled c gid (F t d)) \<Longrightarrow> op_keeps c gid (\<lambda>w. db_exec (F (w_dbtime w)) w)"
  using exec_keeps[of c gid "F _"] by (simp add: op_keeps_def)

lemma notify_keeps: "kids_ok c gid w \<Longrightarrow> kids_ok c gid (notify_step_event x st w)"
  by (simp add: kids_ok_def notify_neutral settled_same[OF notify_neutral(4)])

lemma history_keeps: "op_keeps c gid (UpdateSagaStepInstanceExecutionHistory x)"
  unfolding UpdateSagaStepInstanceExecutionHistory_def[abs_def] by (rule exec_dbtime_keeps) simp

lemma result_keeps: "op_keeps c gid (UpdateSagaStepResult x)" "op_keeps c gid (UpdateSagaStepCompensationResult x)"
  unfolding UpdateSagaStepResult_def[abs_def] UpdateSagaStepCompensationResult_def[abs_def]
  by (rule exec_dbtime_keeps, simp)+

lemma saga_state_keeps:
  assumes "saga_key sg = (c, gid)" shows "op_keeps c gid (UpdateSagaState sg st)"
proof -
  have "op_keeps c gid (\<lambda>w. db_exec (update_saga_rows (Si_ClusterId sg) (Si_InstanceId sg)
      (setSagaState st (Si_CompensationReason sg) (w_dbtime w))) w)"
    by (rule exec_dbtime_keeps, rule settled_sagas) (use assms in auto)
  then show ?thesis
    by (auto simp: op_keeps_def UpdateSagaState_alt split: prod.splits sum.splits)
qed

lemma tx_keeps:
  "op_keeps c gid BeginTransaction" "op_keeps c gid CommitTransaction" "op_keeps c gid RollbackTransaction"
  by (auto simp: op_keeps_def kids_ok_def BeginTransaction_def CommitTransaction_def RollbackTransaction_def next_fault_def
      split: option.splits list.splits fault.splits)

lemma trigger_keeps: "op_keeps c gid (TriggerSagaCompensation c' i')"
proof -
  have "children_settled c gid (update_saga_rows c' i' (requestIfCommitted t) d)" if "children_settled c gid d" for t d
    by (rule settled_sagas[OF that]) (auto simp: requestIfCommitted_def)
  then show ?thesis
    using trigger_world[of c' i'] unfolding op_keeps_def kids_ok_def by (metis surjective_pairing)
qed

section \<open>Handlers\<close>

named_theorems kids_intros \<open>parts of handlers that leave the children alone\<close>

lemma kids_world: "kids c gid s \<Longrightarrow> kids_ok c gid w \<Longrightarrow> kids c gid (s\<lparr>h_w := w\<rparr>)"
  by (simp add: kids_def)

lemma kids_call [kids_intros]: "op_keeps c gid op \<Longrightarrow> hkeeps (kids c gid) (hcall op f)"
  unfolding hkeeps_def hcall_def kids_def by (auto split: prod.splits sum.splits dest: op_keepsD)

lemma kids_try [kids_intros]: "op_keeps c gid op \<Longrightarrow> hkeeps (kids c gid) (htry op)"
  unfolding hkeeps_def htry_def kids_def by (auto split: prod.splits dest: op_keepsD)

lemma kids_hworld [kids_intros]: "op_keeps c gid op \<Longrightarrow> hkeeps (kids c gid) (hworld op)"
  unfolding hkeeps_def hworld_def kids_def by (auto split: prod.splits dest: op_keepsD)

lemma kids_rollback [kids_intros]: "op_keeps c gid op \<Longrightarrow> hkeeps (kids c gid) (hcallRollback op r)"
  using tx_keeps(3)[of c gid] unfolding hkeeps_def hcallRollback_def kids_def op_keeps_def
  by (auto split: prod.splits sum.splits)

lemma kids_modify_step [kids_intros]: "hkeeps (kids c gid) (hmodify (\<lambda>s. s\<lparr>h_step := F s\<rparr>))"
  by (simp add: hkeeps_def hmodify_def kids_def)

lemma kids_modify_saga [kids_intros]:
  "(\<And>s. saga_key (F s) = saga_key (h_saga s)) \<Longrightarrow> hkeeps (kids c gid) (hmodify (\<lambda>s. s\<lparr>h_saga := F s\<rparr>))"
  by (simp add: hkeeps_def hmodify_def kids_def)

text \<open>The saga object a handler reads is the saga's own.\<close>
lemma kids_get_saga [kids_intros]:
  "(\<And>x. saga_key x = (c, gid) \<Longrightarrow> hkeeps (kids c gid) (k x)) \<Longrightarrow> hkeeps (kids c gid) (hbind (hget h_saga) k)"
  by (simp add: hkeeps_def hbind_def hget_def kids_def)

lemma transit_step_keeps:
  assumes "kids_ok c gid w" "transitSagaStepToState sg x target w = (out, x', w')" shows "kids_ok c gid w'"
proof -
  let ?op = "db_exec (update_step_rows (Ss_ClusterId x) (Ss_InstanceId x) (setState target (w_dbtime w)))"
  have e: "op_keeps c gid ?op" by (rule exec_keeps) simp
  obtain r w1 where w1: "?op w = (r, w1)" by fastforce
  have k1: "kids_ok c gid w1" by (rule op_keepsD[OF e assms(1) w1])
  have g: "op_keeps c gid (GetSagaStepInstance a b)" for a b by (rule neutral_keeps) simp
  show ?thesis
  proof (cases r)
    case (Inl e)
    then show ?thesis using assms(2) w1 k1 by (simp add: transitSagaStepToState_def UpdateSagaStepState_def)
  next
    case (Inr u)
    obtain r3 w3 where w3: "GetSagaStepInstance (Si_ClusterId sg) (Ss_InstanceId x) (notify_step_event x target w1) = (r3, w3)"
      by fastforce
    have "kids_ok c gid w3" by (rule op_keepsD[OF g notify_keeps[OF k1] w3])
    then show ?thesis using assms(2) w1 Inr w3
      by (auto simp: transitSagaStepToState_def UpdateSagaStepState_def split: sum.splits if_splits)
  qed
qed

lemma transit_saga_keeps:
  assumes "kids_ok c gid w" "saga_key sg = (c, gid)" "transitSagaToState sg target w = (out, sg', w')"
  shows "kids_ok c gid w' \<and> saga_key sg' = (c, gid)"
proof -
  obtain r w1 where w1: "UpdateSagaState sg target w = (r, w1)" by fastforce
  have k1: "kids_ok c gid w1" by (rule op_keepsD[OF saga_state_keeps[OF assms(2)] assms(1) w1])
  have g: "op_keeps c gid (GetSagaInstance a b)" for a b by (rule neutral_keeps) simp
  have sg: "saga_key sg1 = (c, gid)" if "r = Inr sg1" for sg1
    using w1 that assms(2) by (auto simp: UpdateSagaState_def split: prod.splits sum.splits)
  show ?thesis
    using assms(2,3) w1 k1 sg op_keepsD[OF g k1]
    by (auto simp: transitSagaToState_def split: sum.splits prod.splits if_splits)
qed

lemma kids_transit [kids_intros]:
  "hkeeps (kids c gid) (hTransitStep target e)" "hkeeps (kids c gid) (hTransitOther x target e)"
  "hkeeps (kids c gid) (hTransitSaga gs e)"
  unfolding hkeeps_def hTransitStep_def hTransitOther_def hTransitSaga_def kids_def
  by (auto split: prod.splits outcome.splits dest: transit_step_keeps transit_saga_keeps)

lemma kids_transit_rollback [kids_intros]: "hkeeps (kids c gid) (hTransitStepRollback target r)"
  unfolding hkeeps_def hTransitStepRollback_def kids_def
  using tx_keeps(3)[of c gid]
  by (auto split: prod.splits outcome.splits dest: transit_step_keeps simp: op_keeps_def)

lemma deferred_keeps:
  assumes "kids c gid s" "deferredRollback m s = (out, s1)" shows "kids c gid s1"
proof -
  let ?w1 = "snd (RollbackTransaction (h_w s))"
  have k1: "kids_ok c gid ?w1" and key: "saga_key (h_saga s) = (c, gid)"
    using assms(1) tx_keeps(3)[of c gid] by (auto simp: kids_def op_keeps_def)
  obtain r2 w2 where b: "BeginTransaction ?w1 = (r2, w2)" by fastforce
  have k2: "kids_ok c gid w2" by (rule op_keepsD[OF tx_keeps(1) k1 b])
  obtain o3 sg3 w3 where t: "transitSagaToState (h_saga s) SagaStateEnum_InvalidState w2 = (o3, sg3, w3)" by (metis prod_cases3)
  note k3 = transit_saga_keeps[OF k2 key t]
  obtain r4 w4 where ct: "CommitTransaction w3 = (r4, w4)" by fastforce
  have k4: "kids_ok c gid w4" by (rule op_keepsD[OF tx_keeps(2) _ ct]) (use k3 in blast)
  have rb: "kids_ok c gid (snd (RollbackTransaction w))" if "kids_ok c gid w" for w
    using that tx_keeps(3)[of c gid] by (simp add: op_keeps_def)
  have "h_w s1 \<in> {?w1, w2, w3, snd (RollbackTransaction w3), w4, snd (RollbackTransaction w4)} \<and>
      h_saga s1 \<in> {h_saga s, sg3}"
    using assms(2)
    by (auto simp: deferredRollback_def Let_def b t ct split: if_splits sum.splits outcome.splits)
  then show ?thesis
    unfolding kids_def using k1 key k2 k3 k4 rb by fastforce
qed

lemma kids_deferred [kids_intros]: "hkeeps (kids c gid) body \<Longrightarrow> hkeeps (kids c gid) (withDeferredRollback body)"
proof -
  assume b: "hkeeps (kids c gid) body"
  have d: "kids c gid (snd (deferredRollback m s))" if "kids c gid s" for m s
    using deferred_keeps[OF that] by (metis surjective_pairing)
  have "kids c gid (snd (withDeferredRollback body s))" if s: "kids c gid s" for s
  proof -
    obtain r s1 where r: "body s = (r, s1)" by fastforce
    have k1: "kids c gid s1" using b s r unfolding hkeeps_def by (metis snd_conv)
    show ?thesis
      using r k1 d[OF k1]
      by (auto simp: withDeferredRollback_def split: sum.splits exit.splits prod.splits option.splits) (metis snd_conv)+
  qed
  then show ?thesis by (simp add: hkeeps_def)
qed

lemmas kids_ops = history_keeps result_keeps tx_keeps trigger_keeps saga_state_keeps
  neutral_keeps[OF neutral_ops(1)] neutral_keeps[OF neutral_ops(2)] neutral_keeps[OF neutral_ops(3)]
  neutral_keeps[OF neutral_ops(4)] neutral_keeps[OF neutral_getters(1)] neutral_keeps[OF neutral_getters(2)]
  neutral_keeps[OF neutral_getters(3)] neutral_keeps[OF neutral_getters(4)]

lemma kids_parts [kids_intros]:
  "hkeeps (kids c gid) (hListSteps e)" "hkeeps (kids c gid) (hOrder rs)"
  "hkeeps (kids c gid) (hInvalidateAndReturn r)" "hkeeps (kids c gid) (hStepRequestMessage co pt body)"
  unfolding hListSteps_def hInvalidateAndReturn_def hStepRequestMessage_def hOrder_def
  by (assumption | rule kids_intros keeps_intros kids_ops | simp split: option.split)+

lemma kids_stamp [kids_intros]: "hkeeps (kids c gid) (hPublishAndStamp co msg)"
  unfolding hPublishAndStamp_def by (assumption | rule kids_intros keeps_intros kids_ops)+

lemma kids_scan [kids_intros]: "hkeeps (kids c gid) (scanChildSagas sid cs)"
proof (induction cs)
  case (Cons x cs)
  then show ?case
    by (cases "Si_State x") (simp_all, (assumption | rule conjI impI kids_intros keeps_intros kids_ops)+)
qed (simp add: keeps_intros)

lemma kids_handlers:
  "hkeeps (kids c gid) handleExecutionCandidate" "hkeeps (kids c gid) (handleTimeout now fs)"
  "hkeeps (kids c gid) handleExecutionSucceeded" "hkeeps (kids c gid) handleExecutionFailed"
  "hkeeps (kids c gid) handleCompensationCandidate" "hkeeps (kids c gid) handleCompensationSucceeded"
  "hkeeps (kids c gid) handleCompensationFailed"
  unfolding handleExecutionCandidate_def handleTimeout_def handleExecutionSucceeded_def executionSucceededBody_def
    handleExecutionFailed_def executionFailedBody_def abortNextStep_def pendPreviousStep_def
    handleCompensationCandidate_def handleCompensationSucceeded_def compensationSucceededBody_def
    handleCompensationFailed_def Let_def
  by (assumption | rule kids_intros keeps_intros kids_ops | simp)+

lemma kids_running:
  "hkeeps (kids c gid) (handleExecutionRunning co)" "hkeeps (kids c gid) (handleCompensationRunning co)"
  unfolding handleExecutionRunning_def handleCompensationRunning_def sendExecutionRequest_def sendCompensationRequest_def Let_def
  by (assumption | rule kids_handlers kids_intros keeps_intros kids_ops | simp)+

lemma kids_process: "hkeeps (kids c gid) (processSagaStep co)"
  unfolding processSagaStep_def
  by (rule hkeeps_bind, rule hkeeps_get, rename_tac st, case_tac "Ss_State st")
     (simp_all add: kids_handlers kids_running kids_intros keeps_intros kids_ops)

end
