(* ===== verification/Saga_Liveness.thy ===== *)
theory Saga_Liveness
  imports Saga_Children
begin

text \<open>
  What a poll and a result achieve on a goroutine nothing disturbs, and the schedules that bring a saga to
  its end.
\<close>

section \<open>Calls of the state machine in a row\<close>

lemma returns_value:
  assumes "hvalid P m never (returns R)" "P s"
  shows "\<exists>b s1. m s = (Inl (Return b), s1) \<and> R b s1"
proof -
  obtain r s1 where r: "m s = (r, s1)" by fastforce
  show ?thesis
  proof (cases r)
    case (Inl e)
    with hvalidD_exit[OF assms] r show ?thesis by (cases e) auto
  next
    case (Inr x)
    with hvalidD_val[OF assms] r show ?thesis by simp
  qed
qed

lemma with_kids:
  assumes "hvalid P m never (returns R)" "hkeeps K m"
  shows "hvalid (\<lambda>s. P s \<and> K s) m never (returns (\<lambda>b s. R b s \<and> K s))"
proof (rule hvalidI)
  fix s assume s: "P s \<and> K s"
  obtain r s1 where r: "m s = (r, s1)" by fastforce
  have "K s1" using assms(2) s r unfolding hkeeps_def by (metis snd_conv)
  then show "case m s of (Inl e, s1) \<Rightarrow> returns (\<lambda>b s. R b s \<and> K s) e s1 | (Inr x, s1) \<Rightarrow> never x s1"
    using returns_value[OF assms(1), of s] s r by auto
qed

lemma loop_last:
  assumes "hvalid P (processSagaStep co) never (returns (\<lambda>b s. \<not> b \<and> R s))" "P s"
  shows "\<exists>s1. processLoop (Suc n) co s = (None, s1) \<and> R s1"
  using returns_value[OF assms] by auto

lemma loop_more:
  assumes "hvalid P (processSagaStep co) never (returns (\<lambda>b s. b \<and> P' s))" "P s"
    "\<And>s. P' s \<Longrightarrow> \<exists>s1. processLoop n co s = (None, s1) \<and> R s1"
  shows "\<exists>s1. processLoop (Suc n) co s = (None, s1) \<and> R s1"
  using returns_value[OF assms(1,2)] assms(3) by fastforce

text \<open>The case of the switch a state selects.\<close>
lemma process_case:
  assumes "hvalid (\<lambda>s. settled g os t sg st s \<and> quiet T (h_w s)) m never R"
    "case Ss_State st of SagaStepStateEnum_ExecutionCandidate \<Rightarrow> m = handleExecutionCandidate
      | SagaStepStateEnum_ExecutionRunning \<Rightarrow> m = handleExecutionRunning co
      | SagaStepStateEnum_ExecutionSucceeded \<Rightarrow> m = handleExecutionSucceeded
      | SagaStepStateEnum_ExecutionFailed \<Rightarrow> m = handleExecutionFailed
      | SagaStepStateEnum_CompensationRunning \<Rightarrow> m = handleCompensationRunning co
      | SagaStepStateEnum_CompensationSucceeded \<Rightarrow> m = handleCompensationSucceeded
      | SagaStepStateEnum_CompensationFailed \<Rightarrow> m = handleCompensationFailed
      | SagaStepStateEnum_CompensationDone \<Rightarrow> m = hexit (Return False)
      | _ \<Rightarrow> False"
  shows "hvalid (\<lambda>s. settled g os t sg st s \<and> quiet T (h_w s)) (processSagaStep co) never R"
  unfolding processSagaStep_def
  by (rule sq_get_step) (use assms in \<open>auto split: SagaStepStateEnum.splits\<close>)

text \<open>What a later call sees of the saga is what the first one left.\<close>
lemma rested_from:
  "rested T g' gs os' ss s \<Longrightarrow> moved os os' ss' \<Longrightarrow> saga_key g' = saga_key g \<Longrightarrow> rested T g gs os ss s"
  unfolding rested_def by (metis moved_trans)

lemma running_loop:
  assumes s: "standing T g os ss i (\<lambda>st. Ss_State st = x \<and> just_started T back st) s"
    and x: "x = (if back then SagaStepStateEnum_CompensationRunning else SagaStepStateEnum_ExecutionRunning)"
  shows "\<exists>s1. processLoop (Suc n) co s = (None, s1) \<and> rested T g (Si_State g) os ss s1"
proof -
  obtain g' os' t sg st where p: "settled g' os' t sg st s" "quiet T (h_w s)" "at_step g' os' i sg st"
      "saga_key g' = saga_key g" "Si_State g' = Si_State g" "moved os os' ss" "Ss_State st = x" "just_started T back st"
    using s unfolding standing_def by blast
  let ?m = "if back then handleCompensationRunning co else handleExecutionRunning co"
  have m: "hvalid (\<lambda>s. settled g' os' t sg st s \<and> quiet T (h_w s)) ?m never
      (returns (\<lambda>b s. \<not> b \<and> rested T g' (Si_State g') os' (map Ss_State os') s))"
    using execution_running_goes[OF p(3)] compensation_running_goes[OF p(3)] p(7,8) x by (cases "back") auto
  have "hvalid (\<lambda>s. settled g' os' t sg st s \<and> quiet T (h_w s)) (processSagaStep co) never
      (returns (\<lambda>b s. \<not> b \<and> rested T g' (Si_State g') os' (map Ss_State os') s))"
    by (rule process_case[OF m]) (use p(7) x in auto)
  from loop_last[OF this, of s n] p(1,2) obtain s1 where
    s1: "processLoop (Suc n) co s = (None, s1)" "rested T g' (Si_State g') os' (map Ss_State os') s1" by blast
  moreover have "map Ss_State os' = ss" using p(6) by (simp add: moved_def)
  ultimately show ?thesis using rested_from[OF _ p(6,4)] p(5) by auto
qed

lemma candidate_loop:
  assumes s: "settled g os t sg st s" "quiet T (h_w s)" and a: "at_step g os i sg st"
    and X: "Ss_State st = SagaStepStateEnum_ExecutionCandidate"
  shows "\<exists>s1. processLoop (Suc (Suc n)) co s = (None, s1) \<and>
    rested T g (Si_State g) os ((map Ss_State os)[i := SagaStepStateEnum_ExecutionRunning]) s1"
proof (rule loop_more[OF process_case[OF candidate_goes[OF a X]]])
  show "settled g os t sg st s \<and> quiet T (h_w s)" using s by simp
  fix sa assume "standing T g os ((map Ss_State os)[i := SagaStepStateEnum_ExecutionRunning]) i
       (\<lambda>st'. Ss_State st' = SagaStepStateEnum_ExecutionRunning \<and> just_started T False st') sa"
  from running_loop[OF this] show "\<exists>s1. processLoop (Suc n) co sa = (None, s1) \<and>
    rested T g (Si_State g) os ((map Ss_State os)[i := SagaStepStateEnum_ExecutionRunning]) s1" by simp
qed (use X in simp)

lemma succeeded_loop:
  assumes s: "settled g os t sg st s" "quiet T (h_w s)" and a: "at_step g os i sg st"
    and X: "Ss_State st = SagaStepStateEnum_ExecutionSucceeded"
  shows "\<exists>s1. processLoop (Suc n) co s = (None, s1) \<and> (if Suc i < length os
       then rested T g (Si_State g) os ((map Ss_State os)[i := SagaStepStateEnum_ExecutionDone,
              Suc i := SagaStepStateEnum_ExecutionCandidate]) s1
       else rested T g SagaStateEnum_Committed os ((map Ss_State os)[i := SagaStepStateEnum_ExecutionDone]) s1)"
  by (rule loop_last[OF process_case[OF execution_succeeded_goes[OF a X]]]) (use s X in auto)

lemma compensation_failed_loop:
  assumes s: "settled g os t sg st s" "quiet T (h_w s)" and a: "at_step g os i sg st"
    and X: "Ss_State st = SagaStepStateEnum_CompensationFailed"
  shows "\<exists>s1. processLoop (Suc n) co s = (None, s1) \<and>
      rested T g SagaStateEnum_Blocked os ((map Ss_State os)[i := SagaStepStateEnum_CompensationBlocked]) s1"
  by (rule loop_last[OF process_case[OF compensation_failed_goes[OF a X]]]) (use s X in auto)

lemma done_loop:
  assumes s: "standing T g os ss i (\<lambda>st. Ss_State st = SagaStepStateEnum_CompensationDone) s"
  shows "\<exists>s1. processLoop (Suc n) co s = (None, s1) \<and> rested T g (Si_State g) os ss s1"
proof -
  obtain g' os' t sg st where p: "settled g' os' t sg st s" "quiet T (h_w s)"
      "saga_key g' = saga_key g" "Si_State g' = Si_State g" "moved os os' ss"
      "Ss_State st = SagaStepStateEnum_CompensationDone"
    using s unfolding standing_def by blast
  have "hvalid (\<lambda>s. settled g' os' t sg st s \<and> quiet T (h_w s)) (hexit (Return False)) never
      (returns (\<lambda>b s. \<not> b \<and> rested T g (Si_State g) os ss s))"
    by (rule sq_exit) (use p in \<open>simp only: rested_def, blast\<close>)
  from loop_last[OF process_case[OF this]] p show ?thesis by simp
qed

lemma compensation_succeeded_loop:
  assumes s: "settled g os t sg st s" "quiet T (h_w s)" and a: "at_step g os i sg st"
    and X: "Ss_State st = SagaStepStateEnum_CompensationSucceeded"
  shows "\<exists>s1. processLoop (Suc (Suc n)) co s = (None, s1) \<and>
    rested T g (if i = 0 then SagaStateEnum_Compensated else Si_State g) os
       (if i = 0 then (map Ss_State os)[i := SagaStepStateEnum_CompensationDone]
        else (map Ss_State os)[i - 1 := SagaStepStateEnum_CompensationCandidate, i := SagaStepStateEnum_CompensationDone]) s1"
proof (rule loop_more[OF process_case[OF compensation_succeeded_goes[OF a X]]])
  show "settled g os t sg st s \<and> quiet T (h_w s)" using s by simp
  fix sa assume "standing T (g\<lparr>Si_State := if i = 0 then SagaStateEnum_Compensated else Si_State g\<rparr>) os
       (if i = 0 then (map Ss_State os)[i := SagaStepStateEnum_CompensationDone]
        else (map Ss_State os)[i - 1 := SagaStepStateEnum_CompensationCandidate, i := SagaStepStateEnum_CompensationDone]) i
       (\<lambda>st'. Ss_State st' = SagaStepStateEnum_CompensationDone) sa"
  from done_loop[OF this, of n co] show "\<exists>s1. processLoop (Suc n) co sa = (None, s1) \<and>
    rested T g (if i = 0 then SagaStateEnum_Compensated else Si_State g) os
       (if i = 0 then (map Ss_State os)[i := SagaStepStateEnum_CompensationDone]
        else (map Ss_State os)[i - 1 := SagaStepStateEnum_CompensationCandidate, i := SagaStepStateEnum_CompensationDone]) s1"
    by (simp add: rested_def del: processLoop.simps)
qed (use X in simp)

section \<open>Events nothing disturbs\<close>

definition quiet_env :: "env \<Rightarrow> bool" where
  "quiet_env e = (env_faults e = [] \<and> env_clock e = [])"

text \<open>A saga in state gs whose steps, in execution order, have these ids and states.\<close>
definition saga_at :: "db \<Rightarrow> string \<Rightarrow> string \<Rightarrow> SagaStateEnum \<Rightarrow> string list \<Rightarrow> SagaStepStateEnum list \<Rightarrow> bool" where
  "saga_at d c gid gs ids ss = (\<exists>g os. base d g os \<and> saga_key g = (c, gid) \<and> Si_State g = gs \<and>
     map Ss_InstanceId os = ids \<and> map Ss_State os = ss)"

lemma saga_atE:
  assumes "saga_at d c gid gs ids ss"
  obtains g os where "base d g os" "Si_ClusterId g = c" "Si_InstanceId g = gid" "Si_State g = gs"
    "map Ss_InstanceId os = ids" "map Ss_State os = ss" "length os = length ids" "length ss = length ids"
  using assms unfolding saga_at_def by (metis length_map prod.inject)

lemma goroutine_quiet: "quiet_env e \<Longrightarrow> quiet (env_now e) (goroutine e d)"
  by (simp add: quiet_env_def quiet_def goroutine_def)

lemma goroutine_simps [simp]:
  "w_db (goroutine e d) = d" "w_tx (goroutine e d) = None" "w_dbtime (goroutine e d) = env_dbtime e"
  by (simp_all add: goroutine_def)

lemma rested_saga_at:
  assumes "rested T g gs os ss s" shows "w_tx (h_w s) = None \<and>
    saga_at (durable (h_w s)) (Si_ClusterId g) (Si_InstanceId g) gs (map Ss_InstanceId os) ss"
proof -
  obtain g' os' t sg st where p: "settled g' os' t sg st s" "saga_key g' = saga_key g" "Si_State g' = gs" "moved os os' ss"
    using assms unfolding rested_def by blast
  have "map snd (map step_key os') = map snd (map step_key os)" using p(4) by (simp only: moved_def)
  then have "map Ss_InstanceId os' = map Ss_InstanceId os" by (simp add: comp_def)
  with p show ?thesis by (auto simp: settled_def durable_def saga_at_def moved_def)
qed

lemma base_find:
  assumes b: "base d g os"
  shows "find_saga (Si_ClusterId g) (Si_InstanceId g) d = Some g"
    "i < length os \<Longrightarrow> find (\<lambda>s. Ss_InstanceId s = Ss_InstanceId (os ! i)) (saga_steps (Si_ClusterId g) (Si_InstanceId g) d) = Some (os ! i)"
    "i < length os \<Longrightarrow> find_step (Si_ClusterId g) (Ss_InstanceId (os ! i)) d = Some (os ! i)"
proof -
  note B = base_facts[OF b]
  show "find_saga (Si_ClusterId g) (Si_InstanceId g) d = Some g"
    unfolding find_saga_def by (rule find_unique[where key = saga_key, OF B(2)]) (use b in \<open>auto simp: base_def\<close>)
  assume i: "i < length os"
  have m: "mset (saga_steps (Si_ClusterId g) (Si_InstanceId g) d) = mset os"
    using B(3) by (simp add: saga_rows_def saga_steps_def)
  show "find (\<lambda>s. Ss_InstanceId s = Ss_InstanceId (os ! i)) (saga_steps (Si_ClusterId g) (Si_InstanceId g) d) = Some (os ! i)"
    by (rule find_unique[where key = Ss_InstanceId])
       (use m i B(6) in \<open>auto simp: mset_eq_setD[OF m] distinct_map dest: mset_eq_imp_distinct_iff\<close>)
  show "find_step (Si_ClusterId g) (Ss_InstanceId (os ! i)) d = Some (os ! i)"
    unfolding find_step_def by (rule find_unique[where key = step_key, OF B(1)]) (use i B(5)[of "os ! i"] in auto)
qed

lemma base_valid:
  assumes b: "base (w_db w) g os" and i: "i < length os" and q: "quiet T w"
    and a: "fwd_active (Ss_State (os ! i)) \<or> cmp_active (Ss_State (os ! i))"
    and n: "Ss_State (os ! i) \<noteq> SagaStepStateEnum_ExecutionBlocked"
  shows "isSagaStateValid g (os ! i) w = (Some True, w)"
proof -
  let ?ss = "map Ss_State os"
  let ?rs = "saga_steps (Si_ClusterId g) (Si_InstanceId g) (w_db w)"
  note B = base_facts[OF b]
  have ord: "OrderSagaStepsInSequence ?rs = Some os"
    using b by (simp add: base_def ordered_def saga_rows_def saga_steps_def)
  have idx: "indexOfStep (os ! i) os = Some i"
    unfolding indexOfStep_def by (rule find_index_nth_distinct[OF B(6) i])
  have "forward_at ?ss i \<or> backward_at ?ss i"
    using a i shape_fwd_at[OF coherent_shape[OF B(4)]] shape_cmp_at[OF coherent_shape[OF B(4)]] by auto
  then have "if list_ex isCompensationState ?ss then validateCompensatingMode ?ss i else validateNonCompensatingMode ?ss i"
    using forward_at_valid[of ?ss i] backward_at_valid[of ?ss i] n i by auto
  then show ?thesis
    by (simp add: isSagaStateValid_def quiet_list[OF q] ord idx Let_def)
qed

lemma kids_loop: "kids c gid s \<Longrightarrow> kids c gid (snd (processLoop n co s))"
proof (induction n arbitrary: s)
  case (Suc n)
  obtain r s1 where r: "processSagaStep co s = (r, s1)" by fastforce
  have "kids c gid s1" using kids_process Suc.prems r unfolding hkeeps_def by (metis snd_conv)
  with Suc.IH r show ?case by (auto split: sum.splits exit.splits bool.splits)
qed simp

lemma poll_event:
  assumes b: "base d g os" and i: "i < length os" and e: "quiet_env e"
    and g: "Si_ClusterId g = c" "Si_InstanceId g = gid" "Si_State g = SagaStateEnum_Running"
    and x: "\<not> pollSkip (Ss_State (os ! i))" "fwd_active (Ss_State (os ! i)) \<or> cmp_active (Ss_State (os ! i))"
      "Ss_State (os ! i) \<noteq> SagaStepStateEnum_ExecutionBlocked"
    and loop: "\<And>s. \<lbrakk> settled g os (env_dbtime e) g (os ! i) s; quiet (env_now e) (h_w s); at_step g os i g (os ! i);
        h_w s = goroutine e d; h_saga s = g \<rbrakk>
      \<Longrightarrow> \<exists>s1. processLoop maxLoopCount co s = (None, s1) \<and> rested (env_now e) g gs os ss s1"
  shows "\<exists>w. run_event (PollerTakes co c gid (Ss_InstanceId (os ! i))) (goroutine e d) = (None, w) \<and>
    saga_at (durable w) c gid gs (map Ss_InstanceId os) ss \<and>
    (children_settled c gid d \<longrightarrow> children_settled c gid (durable w))"
proof -
  let ?w = "goroutine e d"
  note q = goroutine_quiet[OF e, of d]
  note F = base_find[OF b]
  have ref: "refreshSagaAndStep c gid (Ss_InstanceId (os ! i)) ?w = (Some (g, os ! i), ?w)"
    using F(1) F(2)[OF i] g by (simp add: refreshSagaAndStep_def quiet_get_saga[OF q] quiet_list[OF q])
  let ?s = "\<lparr>h_saga = g, h_step = os ! i, h_w = ?w\<rparr>"
  have st: "settled g os (env_dbtime e) g (os ! i) ?s" using b by (simp add: settled_def)
  have "\<not> running (os ! i)" using x(1) by (auto simp: running_def pollSkip_def)
  then have at: "at_step g os i g (os ! i)" by (rule base_at_step[OF b i])
  obtain s1 where s1: "processLoop maxLoopCount co ?s = (None, s1)" "rested (env_now e) g gs os ss s1"
    using loop[OF st _ at] q by auto
  have v: "isSagaStateValid g (os ! i) ?w = (Some True, ?w)"
    by (rule base_valid[OF _ i q x(2,3)]) (use b in simp)
  have "pollStep co c gid (Ss_InstanceId (os ! i)) ?w = (None, h_w s1)"
    using ref g(3) x(1) v s1(1) by (simp add: pollStep_def validateAndProcess_def)
  moreover have "children_settled c gid (durable (h_w s1))" if "children_settled c gid d"
  proof -
    have "kids c gid ?s" using that g by (simp add: kids_def kids_ok_def)
    from kids_loop[OF this, of maxLoopCount co] s1(1) have "kids c gid s1" by simp
    then show ?thesis using rested_saga_at[OF s1(2)] by (simp add: kids_def kids_ok_def durable_def)
  qed
  ultimately show ?thesis using rested_saga_at[OF s1(2)] g by auto
qed

text \<open>The outcome of a poll, by the state of the step it takes.\<close>
lemma poll_at:
  assumes s: "saga_at d c gid SagaStateEnum_Running ids ss" and i: "i < length ids" and e: "quiet_env e"
    and x: "\<not> pollSkip (ss ! i)" "fwd_active (ss ! i) \<or> cmp_active (ss ! i)" "ss ! i \<noteq> SagaStepStateEnum_ExecutionBlocked"
    and loop: "\<And>g os s. \<lbrakk> base d g os; settled g os (env_dbtime e) g (os ! i) s; quiet (env_now e) (h_w s);
        at_step g os i g (os ! i); h_w s = goroutine e d; h_saga s = g; saga_key g = (c, gid);
        Si_State g = SagaStateEnum_Running; map Ss_State os = ss; Ss_State (os ! i) = ss ! i; length os = length ids \<rbrakk>
      \<Longrightarrow> \<exists>s1. processLoop maxLoopCount co s = (None, s1) \<and> rested (env_now e) g gs os ss' s1"
  shows "\<exists>w. run_event (PollerTakes co c gid (ids ! i)) (goroutine e d) = (None, w) \<and>
    saga_at (durable w) c gid gs ids ss' \<and>
    (children_settled c gid d \<longrightarrow> children_settled c gid (durable w))"
  using s
proof (rule saga_atE)
  fix g os assume p: "base d g os" "Si_ClusterId g = c" "Si_InstanceId g = gid" "Si_State g = SagaStateEnum_Running"
    "map Ss_InstanceId os = ids" "map Ss_State os = ss" "length os = length ids" "length ss = length ids"
  have i': "i < length os" and x': "Ss_State (os ! i) = ss ! i" "ids ! i = Ss_InstanceId (os ! i)"
    using p i by auto
  have "\<exists>w. run_event (PollerTakes co c gid (Ss_InstanceId (os ! i))) (goroutine e d) = (None, w) \<and>
    saga_at (durable w) c gid gs (map Ss_InstanceId os) ss' \<and>
    (children_settled c gid d \<longrightarrow> children_settled c gid (durable w))"
    by (rule poll_event[OF p(1) i' e p(2-4)]) (use x x'(1) loop[OF p(1)] p in simp_all)
  then show ?thesis using x'(2) p(5) by simp
qed

lemma eleven_calls: "maxLoopCount = Suc (Suc (Suc 8))"
  by (simp add: maxLoopCount_def)

lemma poll_candidate:
  assumes "saga_at d c gid SagaStateEnum_Running ids ss" "i < length ids" "quiet_env e"
    and x: "ss ! i = SagaStepStateEnum_ExecutionCandidate"
  shows "\<exists>w. run_event (PollerTakes co c gid (ids ! i)) (goroutine e d) = (None, w) \<and>
    saga_at (durable w) c gid SagaStateEnum_Running ids (ss[i := SagaStepStateEnum_ExecutionRunning]) \<and>
    (children_settled c gid d \<longrightarrow> children_settled c gid (durable w))"
  apply (rule poll_at[OF assms(1-3)])
  apply (simp_all only: x pollSkip_def fwd_active_def, simp_all del: processLoop.simps)
  subgoal for g os s
    using candidate_loop[of g os "env_dbtime e" g "os ! i" s "env_now e" i 9 co]
    by (simp add: eleven_calls del: processLoop.simps)
  done

lemma poll_succeeded:
  assumes "saga_at d c gid SagaStateEnum_Running ids ss" "i < length ids" "quiet_env e"
    and x: "ss ! i = SagaStepStateEnum_ExecutionSucceeded"
  shows "\<exists>w. run_event (PollerTakes co c gid (ids ! i)) (goroutine e d) = (None, w) \<and>
    saga_at (durable w) c gid (if Suc i < length ids then SagaStateEnum_Running else SagaStateEnum_Committed) ids
      (if Suc i < length ids then ss[i := SagaStepStateEnum_ExecutionDone, Suc i := SagaStepStateEnum_ExecutionCandidate]
       else ss[i := SagaStepStateEnum_ExecutionDone]) \<and>
    (children_settled c gid d \<longrightarrow> children_settled c gid (durable w))"
  apply (rule poll_at[OF assms(1-3)])
  apply (simp_all only: x pollSkip_def fwd_active_def, simp_all del: processLoop.simps)
  subgoal for g os s
    using succeeded_loop[of g os "env_dbtime e" g "os ! i" s "env_now e" i 10 co]
    by (auto simp: eleven_calls simp del: processLoop.simps)
  done

lemma poll_compensation_succeeded:
  assumes "saga_at d c gid SagaStateEnum_Running ids ss" "i < length ids" "quiet_env e"
    and x: "ss ! i = SagaStepStateEnum_CompensationSucceeded"
  shows "\<exists>w. run_event (PollerTakes co c gid (ids ! i)) (goroutine e d) = (None, w) \<and>
    saga_at (durable w) c gid (if i = 0 then SagaStateEnum_Compensated else SagaStateEnum_Running) ids
      (if i = 0 then ss[i := SagaStepStateEnum_CompensationDone]
       else ss[i - 1 := SagaStepStateEnum_CompensationCandidate, i := SagaStepStateEnum_CompensationDone]) \<and>
    (children_settled c gid d \<longrightarrow> children_settled c gid (durable w))"
  apply (rule poll_at[OF assms(1-3)])
  apply (simp_all only: x pollSkip_def cmp_active_def, simp_all del: processLoop.simps)
  subgoal for g os s
    using compensation_succeeded_loop[of g os "env_dbtime e" g "os ! i" s "env_now e" i 9 co]
    by (cases i) (simp_all add: eleven_calls del: processLoop.simps)
  done

lemma poll_compensation_failed:
  assumes "saga_at d c gid SagaStateEnum_Running ids ss" "i < length ids" "quiet_env e"
    and x: "ss ! i = SagaStepStateEnum_CompensationFailed"
  shows "\<exists>w. run_event (PollerTakes co c gid (ids ! i)) (goroutine e d) = (None, w) \<and>
    saga_at (durable w) c gid SagaStateEnum_Blocked ids (ss[i := SagaStepStateEnum_CompensationBlocked]) \<and>
    (children_settled c gid d \<longrightarrow> children_settled c gid (durable w))"
  apply (rule poll_at[OF assms(1-3)])
  apply (simp_all only: x pollSkip_def cmp_active_def, simp_all del: processLoop.simps)
  subgoal for g os s
    using compensation_failed_loop[of g os "env_dbtime e" g "os ! i" s "env_now e" i 10 co]
    by (simp add: eleven_calls del: processLoop.simps)
  done

text \<open>The two states that look at the children first.\<close>
lemma compensation_candidate_loop:
  assumes s: "settled g os t sg st s" "quiet T (h_w s)" and a: "at_step g os i sg st"
    and X: "Ss_State st = SagaStepStateEnum_CompensationCandidate"
    and kids: "children_settled (Si_ClusterId g) (Si_InstanceId g) (w_db (h_w s))"
  shows "\<exists>s1. processLoop (Suc (Suc n)) co s = (None, s1) \<and>
    rested T g (Si_State g) os ((map Ss_State os)[i := SagaStepStateEnum_CompensationRunning]) s1"
proof (rule loop_more)
  let ?P = "\<lambda>s. (settled g os t sg st s \<and> quiet T (h_w s)) \<and> children_settled (Si_ClusterId g) (Si_InstanceId g) (w_db (h_w s))"
  let ?Q = "\<lambda>s. standing T g os ((map Ss_State os)[i := SagaStepStateEnum_CompensationRunning]) i
       (\<lambda>st'. Ss_State st' = SagaStepStateEnum_CompensationRunning \<and> just_started T True st') s"
  have eq: "processSagaStep co s = handleCompensationCandidate s" if "?P s" for s
    using that X by (auto simp: processSagaStep_def hbind_def hget_def settled_def)
  show "hvalid ?P (processSagaStep co) never (returns (\<lambda>b s. b \<and> ?Q s))"
  proof (rule hvalidI)
    fix s assume P: "?P s"
    show "case processSagaStep co s of (Inl e, s1) \<Rightarrow> returns (\<lambda>b s. b \<and> ?Q s) e s1 | (Inr x, s1) \<Rightarrow> never x s1"
      by (rule hvalid_same[where n = "processSagaStep co" and s = s,
            OF compensation_candidate_goes[OF a X, where T = T and t = t] P eq[OF P]])
  qed
  show "?P s" using s kids by simp
  fix sa assume "?Q sa"
  from running_loop[OF this] show "\<exists>s1. processLoop (Suc n) co sa = (None, s1) \<and>
    rested T g (Si_State g) os ((map Ss_State os)[i := SagaStepStateEnum_CompensationRunning]) s1" by simp
qed

lemma poll_compensation_candidate:
  assumes "saga_at d c gid SagaStateEnum_Running ids ss" "i < length ids" "quiet_env e"
    and x: "ss ! i = SagaStepStateEnum_CompensationCandidate" and k: "children_settled c gid d"
  shows "\<exists>w. run_event (PollerTakes co c gid (ids ! i)) (goroutine e d) = (None, w) \<and>
    saga_at (durable w) c gid SagaStateEnum_Running ids (ss[i := SagaStepStateEnum_CompensationRunning]) \<and>
    (children_settled c gid d \<longrightarrow> children_settled c gid (durable w))"
  apply (rule poll_at[OF assms(1-3)])
  apply (simp_all only: x pollSkip_def cmp_active_def, simp_all del: processLoop.simps)
  subgoal for g os s
    using compensation_candidate_loop[of g os "env_dbtime e" g "os ! i" s "env_now e" i 9 co] k
    by (simp add: eleven_calls del: processLoop.simps)
  done

text \<open>The states the steps have once the step at position i has failed.\<close>
definition turned :: "nat \<Rightarrow> nat \<Rightarrow> SagaStepStateEnum \<Rightarrow> SagaStepStateEnum list" where
  "turned i n x = replicate i SagaStepStateEnum_CompensationPending @
     x # replicate (n - Suc i) SagaStepStateEnum_ExecutionAborted"

lemma turned_update: "(turned i n x)[i := y] = turned i n y"
  by (simp add: turned_def list_update_append)

lemma execution_failed_loop:
  assumes s: "settled g os t g st s" "quiet T (h_w s)" and a: "at_step g os i g st"
    and X: "Ss_State st = SagaStepStateEnum_ExecutionFailed"
    and kids: "kids (Si_ClusterId g) (Si_InstanceId g) s"
  shows "\<exists>s1. processLoop (Suc (Suc (Suc n))) co s = (None, s1) \<and>
    rested T g (Si_State g) os (turned i (length os) SagaStepStateEnum_CompensationRunning) s1"
proof (rule loop_more)
  let ?K = "kids (Si_ClusterId g) (Si_InstanceId g)"
  let ?ss = "turned i (length os) SagaStepStateEnum_CompensationCandidate"
  let ?Q = "\<lambda>s. standing T g os ?ss i (\<lambda>st'. Ss_State st' = SagaStepStateEnum_CompensationCandidate) s \<and> ?K s"
  have "hvalid (\<lambda>s. settled g os t g st s \<and> quiet T (h_w s)) (processSagaStep co) never
      (returns (\<lambda>b s. b \<and> standing T g os ?ss i (\<lambda>st'. Ss_State st' = SagaStepStateEnum_CompensationCandidate) s))"
    unfolding turned_def by (rule process_case[OF execution_failed_goes[OF a X]]) (use X in simp)
  from with_kids[OF this kids_process]
  show "hvalid (\<lambda>s. (settled g os t g st s \<and> quiet T (h_w s)) \<and> ?K s) (processSagaStep co) never (returns (\<lambda>b s. b \<and> ?Q s))"
    by (simp add: conj_assoc)
  show "(settled g os t g st s \<and> quiet T (h_w s)) \<and> ?K s" using s kids by simp
  fix sa assume q: "?Q sa"
  then obtain g' os' t' sg' st' where p: "settled g' os' t' sg' st' sa" "quiet T (h_w sa)" "at_step g' os' i sg' st'"
      "saga_key g' = saga_key g" "Si_State g' = Si_State g" "moved os os' ?ss"
      "Ss_State st' = SagaStepStateEnum_CompensationCandidate"
    unfolding standing_def by blast
  have "children_settled (Si_ClusterId g') (Si_InstanceId g') (w_db (h_w sa))"
    using q p(4) by (simp add: kids_def kids_ok_def)
  from compensation_candidate_loop[OF p(1-3,7) this, of n co] obtain s1 where
    s1: "processLoop (Suc (Suc n)) co sa = (None, s1)"
      "rested T g' (Si_State g') os' ((map Ss_State os')[i := SagaStepStateEnum_CompensationRunning]) s1" by blast
  have "map Ss_State os' = ?ss" using p(6) by (simp add: moved_def)
  then have "rested T g (Si_State g) os (turned i (length os) SagaStepStateEnum_CompensationRunning) s1"
    using rested_from[OF s1(2) p(6,4)] p(5) by (simp add: turned_update)
  with s1(1) show "\<exists>s1. processLoop (Suc (Suc n)) co sa = (None, s1) \<and>
    rested T g (Si_State g) os (turned i (length os) SagaStepStateEnum_CompensationRunning) s1" by blast
qed

lemma poll_failed:
  assumes "saga_at d c gid SagaStateEnum_Running ids ss" "i < length ids" "quiet_env e"
    and x: "ss ! i = SagaStepStateEnum_ExecutionFailed" and k: "children_settled c gid d"
  shows "\<exists>w. run_event (PollerTakes co c gid (ids ! i)) (goroutine e d) = (None, w) \<and>
    saga_at (durable w) c gid SagaStateEnum_Running ids (turned i (length ids) SagaStepStateEnum_CompensationRunning) \<and>
    (children_settled c gid d \<longrightarrow> children_settled c gid (durable w))"
  apply (rule poll_at[OF assms(1-3)])
  apply (simp_all only: x pollSkip_def fwd_active_def, simp_all del: processLoop.simps)
  subgoal for g os s
    using execution_failed_loop[of g os "env_dbtime e" "os ! i" s "env_now e" i 8 co] k
    by (simp add: eleven_calls kids_def kids_ok_def del: processLoop.simps)
  done

end
