(* ===== verification/Result_Progress.thy ===== *)
theory Result_Progress
  imports Saga_Liveness
begin

text \<open>
  A result that arrives for a running step, on a goroutine nothing disturbs, moves the step and touches no
  saga row.
\<close>

lemma q_not_cancelled:
  "hvalid (\<lambda>s. view d g os t g' os' sg st s \<and> quiet T (h_w s)) (k ()) Q E \<Longrightarrow>
   hvalid (\<lambda>s. view d g os t g' os' sg st s \<and> quiet T (h_w s)) (hbind hNotCancelled k) Q E"
  by (auto simp: hvalid_def hNotCancelled_def hbind_def hcall_def quiet_context[of T])

lemma q_get_saga_call:
  assumes b: "base d g os" and key: "c = Si_ClusterId g" "i = Si_InstanceId g"
    and k: "hvalid (\<lambda>s. view d g os t g' os' sg st s \<and> quiet T (h_w s)) (k g') Q E"
  shows "hvalid (\<lambda>s. view d g os t g' os' sg st s \<and> quiet T (h_w s)) (hbind (hcall (GetSagaInstance c i) onErr) k) Q E"
proof (rule hvalidI)
  fix s assume v: "view d g os t g' os' sg st s \<and> quiet T (h_w s)"
  have "GetSagaInstance c i (h_w s) = (Ok g', h_w s)"
    using quiet_get_saga[of T "h_w s" c i g'] v inview_find_saga[OF b view_w] key by auto
  then show "case hbind (hcall (GetSagaInstance c i) onErr) k s of (Inl e, s1) \<Rightarrow> E e s1 | (Inr x, s1) \<Rightarrow> Q x s1"
    using k v by (simp add: hbind_def hcall_def hvalid_def)
qed

lemma q_exec_step:
  assumes b: "base d g os" and j: "j < length os'" and u: "framed u"
    and key: "c = Ss_ClusterId (os' ! j)" "i = Ss_InstanceId (os' ! j)"
    and op: "\<And>w. op w = db_exec (update_step_rows c i u) w \<or> w_dbtime w \<noteq> t"
    and k: "hvalid (\<lambda>s. view d g os t g' (upd_at {j} u os') sg st s \<and> quiet T (h_w s)) (k ()) Q E"
  shows "hvalid (\<lambda>s. view d g os t g' os' sg st s \<and> quiet T (h_w s)) (hbind (hcall op onErr) k) Q E"
proof (rule q_lift_k[OF k_exec_step[OF b j u key op _ hvalid_hreturn]])
  show "goes_through T (view d g os t g' os' sg st) (hcall op onErr)"
  proof (rule call_through)
    fix w assume q: "quiet T w" and "\<exists>s. view d g os t g' os' sg st s \<and> h_w s = w"
    then have "w_dbtime w = t" by (auto simp: view_def inview_def)
    then have "op w = db_exec (update_step_rows c i u) w" using op[of w] by simp
    then show "\<exists>x w1. op w = (Inr x, w1) \<and> quiet T w1" using q by simp
  qed
qed (use k in auto)

lemma q_store_result:
  assumes b: "base d g os" and i: "i < length os"
    and k: "\<And>u st. (\<And>r. Ss_State (u r) = Ss_State r \<and> Ss_ExecutionHistory (u r) = Ss_ExecutionHistory r \<and> step_key (u r) = step_key r) \<Longrightarrow>
        step_key st = step_key (os ! i) \<Longrightarrow> Ss_ExecutionHistory st = Ss_ExecutionHistory (os ! i) \<Longrightarrow>
        hvalid (\<lambda>s. view d g os t g (upd_at {i} u os) sg st s \<and> quiet T (h_w s)) (k ()) Q E"
  shows "hvalid (\<lambda>s. view d g os t g os sg (os ! i) s \<and> quiet T (h_w s)) (hbind (storeResult er) k) Q E"
  unfolding storeResult_def handler_norm
  apply (rule q_get_step)
  apply (rule hvalid_if)
  subgoal
    apply (rule q_set_step[where F = "\<lambda>_ _. _"])
    apply (rule q_get_step)
    apply (rule q_exec_step[OF b i, where c = "Ss_ClusterId (os ! i)" and i = "Ss_InstanceId (os ! i)"
        and u = "\<lambda>r. r\<lparr>Ss_CompensationResult := Er_ExecutionResult er, Ss_UpdatedAt := t\<rparr>"])
    apply (simp_all add: framed_def link_preserving_def UpdateSagaStepCompensationResult_def)
    apply blast
    apply (rule k; simp)
    done
  subgoal
    apply (rule q_set_step[where F = "\<lambda>_ _. _"])
    apply (rule q_get_step)
    apply (rule q_exec_step[OF b i, where c = "Ss_ClusterId (os ! i)" and i = "Ss_InstanceId (os ! i)"
        and u = "\<lambda>r. r\<lparr>Ss_Result := Er_ExecutionResult er, Ss_UpdatedAt := t\<rparr>"])
    apply (simp_all add: framed_def link_preserving_def UpdateSagaStepResult_def)
    apply blast
    apply (rule k; simp)
    done
  done

lemma q_spawn:
  "hvalid (\<lambda>s. view d g os t g' os' sg st s \<and> quiet T (h_w s)) (k ()) Q E \<Longrightarrow>
   hvalid (\<lambda>s. view d g os t g' os' sg st s \<and> quiet T (h_w s)) (hbind (hSpawnProcessing er) k) Q E"
proof (rule hvalidI)
  fix s assume k: "hvalid (\<lambda>s. view d g os t g' os' sg st s \<and> quiet T (h_w s)) (k ()) Q E"
    and v: "view d g os t g' os' sg st s \<and> quiet T (h_w s)"
  let ?w1 = "(h_w s)\<lparr>w_spawned := w_spawned (h_w s) @
     [(Si_ClusterId (h_saga s), Er_SagaInstanceId er, Er_SagaStepInstanceId er)]\<rparr>"
  have "view d g os t g' os' sg st (s\<lparr>h_w := ?w1\<rparr>)"
    using v by (auto simp: view_def elim!: inview_same)
  then show "case hbind (hSpawnProcessing er) k s of (Inl e, s1) \<Rightarrow> E e s1 | (Inr x, s1) \<Rightarrow> Q x s1"
    using k v by (simp add: hbind_def hSpawnProcessing_def hmodify_def hvalid_def)
qed

text \<open>A transaction that leaves the saga's own row alone leaves every saga row alone.\<close>
lemma view_same_sagas:
  assumes b: "base d g os" and v: "view d g os t g os' sg st s"
  shows "db_sagas (w_db (h_w s)) = db_sagas d"
proof -
  obtain h where h: "\<forall>x \<in> set (db_sagas d). saga_key x \<noteq> saga_key g \<longrightarrow> h x = x"
    "db_sagas (w_db (h_w s)) = map h (db_sagas d)" "g = h g"
    using view_w[OF v] unfolding inview_def by blast
  have "h x = x" if "x \<in> set (db_sagas d)" for x
    using h(1,3) that base_facts(8)[OF b that] by metis
  then show ?thesis using h(2) by (simp add: map_idI)
qed

lemma q_commit_same:
  assumes b: "base d g os" and coh: "coherent (Si_State g) (map Ss_State os')" and ok: "\<And>j. j < length os' \<Longrightarrow> step_ok (os' ! j)"
    and k: "hvalid (\<lambda>s. (settled g os' t sg st s \<and> db_sagas (w_db (h_w s)) = db_sagas d) \<and> quiet T (h_w s)) (k ()) Q E"
  shows "hvalid (\<lambda>s. view d g os t g os' sg st s \<and> quiet T (h_w s)) (hbind (hcall CommitTransaction onErr) k) Q E"
proof (rule q_lift[where B = "\<lambda>_ s. settled g os' t sg st s \<and> db_sagas (w_db (h_w s)) = db_sagas d"])
  show "hvalid (view d g os t g os' sg st) (hcall CommitTransaction onErr)
      (\<lambda>_ s. settled g os' t sg st s \<and> db_sagas (w_db (h_w s)) = db_sagas d) (\<lambda>_ _. True)"
  proof (rule hvalidI)
    fix s assume v: "view d g os t g os' sg st s"
    have c: "hvalid (view d g os t g os' sg st) (hcall CommitTransaction onErr) (\<lambda>_. settled g os' t sg st) (\<lambda>_ _. True)"
      using k_commit[OF b coh ok, of "\<lambda>_ _. True" onErr t sg st hreturn "\<lambda>_. settled g os' t sg st"]
      by (simp add: hbind_hreturn hvalid_hreturn)
    obtain r w1 where r: "CommitTransaction (h_w s) = (r, w1)" by fastforce
    note w = commit_world[OF view_tx[OF v] r]
    have d: "db_sagas (w_db w1) = db_sagas d" using w view_same_sagas[OF b v] by (cases r) auto
    show "case hcall CommitTransaction onErr s of (Inl e, s1) \<Rightarrow> True
      | (Inr x, s1) \<Rightarrow> settled g os' t sg st s1 \<and> db_sagas (w_db (h_w s1)) = db_sagas d"
      using hvalidD_val[OF c v, of "()" "s\<lparr>h_w := w1\<rparr>"] d r by (cases r) (simp_all add: hcall_def)
  qed
  show "goes_through T (view d g os t g os' sg st) (hcall CommitTransaction onErr)"
    by (rule call_through) (auto simp: quiet_commit[of T _ d] dest!: view_tx)
qed (use k in auto)

lemma result_goes:
  assumes b: "base d g os" and i: "i < length os" and c: "Si_ClusterId g = c" and er: "Er_SagaInstanceId er = Si_InstanceId g"
    and run: "running (os ! i)"
    and tgt: "resultTarget (Ss_State (os ! i) = SagaStepStateEnum_CompensationRunning) (Er_Status er) = Some target"
  shows "hvalid (\<lambda>s. view d g os t g os sg st s \<and> quiet T (h_w s)) (executionResultOnStep c er (os ! i)) never
    (returns (\<lambda>r s. r = None \<and> rested T g (Si_State g) os ((map Ss_State os)[i := target]) s \<and>
       db_sagas (w_db (h_w s)) = db_sagas d))"
proof -
  have ok: "\<And>j. j < length os \<Longrightarrow> step_ok (os ! j)" using base_facts(7)[OF b] by auto
  have late: "\<not> lateResultState (Ss_State (os ! i))" using run by (auto simp: running_def lateResultState_def)
  have h: "Ss_ExecutionHistory (os ! i) \<noteq> []"
    "IsCompensation (last (Ss_ExecutionHistory (os ! i))) = (Ss_State (os ! i) = SagaStepStateEnum_CompensationRunning)"
    using ok[OF i] run by (auto simp: running_def step_ok_def Let_def)
  note tgt' = tgt[folded h(2)]
  have cl: "Ss_ClusterId (os ! i) = c" using base_facts(5)[OF b, of "os ! i"] i c by simp
  show ?thesis
    unfolding executionResultOnStep_def
    apply (rule q_set_step[where F = "\<lambda>_ _. _"])
    apply (rule q_not_cancelled)
    apply (simp only: late if_False)
    apply (rule q_get_saga_call[OF b], simp add: c, simp add: er)
    apply (rule q_set_saga[where F = "\<lambda>_. _"])
    apply (rule q_not_cancelled)
    apply (rule q_store_result[OF b i])
    apply (simp only: h if_False simp_thms)
    subgoal premises u for u st1
      apply (rule q_now)
      apply (rule q_set_step)
      apply (rule q_get_step)
      apply (rule q_history[OF b, where j = i], simp add: i, use u i in simp)
      apply (rule q_not_cancelled)
      unfolding applyResult_def handler_norm
      apply (rule q_get_step)
      subgoal
      proof -
        let ?upd = "\<lambda>l. l\<lparr>ExecutionResultReceivedTs := T, ExecutionResult := Er_ExecutionResult er, LogConclusionTs := T\<rparr>"
        have ic: "IsCompensation (last (Ss_ExecutionHistory (st1\<lparr>Ss_ExecutionHistory := mapLast ?upd (Ss_ExecutionHistory st1)\<rparr>)))
            = IsCompensation (last (Ss_ExecutionHistory (os ! i)))"
          using u h(1) by (simp add: last_mapLast)
        show ?thesis
          unfolding ic
          apply (simp only: tgt' option.case handler_norm)
          apply (rule q_transit_step[OF b, where j = i], simp add: i, use u i in simp, use c cl u in simp)
          apply (rule q_spawn)
          apply (rule q_not_cancelled)
          apply (rule q_commit_same[OF b])
          subgoal by (rule result_coherent[OF b i late h(1), where target = target]) (use u i tgt' in auto)
          subgoal for j
            by (cases "j = i", rule result_step_ok[OF b i late h(1), where status = "Er_Status er"],
                use u i tgt' h(1) in \<open>simp_all add: last_mapLast ok\<close>)
          apply (rule k_exit)
          subgoal for s
            unfolding returns_simps rested_def
            apply (intro conjI TrueI exI, simp, blast, blast, simp, simp)
            subgoal using i u by (auto simp: moved_def nth_list_update intro!: nth_equalityI)
            subgoal by blast
            done
          done
      qed
      done
    done
qed

section \<open>Results\<close>

text \<open>A message that brings this result of this step.\<close>
definition brings_result :: "string \<Rightarrow> string \<Rightarrow> string \<Rightarrow> ExecutionResultStatusEnum \<Rightarrow> event \<Rightarrow> bool" where
  "brings_result c gid sid status ev = (\<exists>mt body er. ev = ResultArrives c mt body \<and> resultOfMessage mt body = Some er \<and>
     Er_SagaInstanceId er = gid \<and> Er_SagaStepInstanceId er = sid \<and> Er_Status er = status)"

lemma result_event:
  assumes s: "saga_at d c gid gs ids ss" and i: "i < length ids" and e: "quiet_env e"
    and x: "ss ! i \<in> {SagaStepStateEnum_ExecutionRunning, SagaStepStateEnum_CompensationRunning}"
    and a: "brings_result c gid (ids ! i) status ev"
    and tgt: "resultTarget (ss ! i = SagaStepStateEnum_CompensationRunning) status = Some target"
  shows "\<exists>w. run_event ev (goroutine e d) = (None, w) \<and> saga_at (durable w) c gid gs ids (ss[i := target]) \<and>
    (children_settled c gid d \<longrightarrow> children_settled c gid (durable w))"
  using s
proof (rule saga_atE)
  fix g os assume p: "base d g os" "Si_ClusterId g = c" "Si_InstanceId g = gid" "Si_State g = gs"
    "map Ss_InstanceId os = ids" "map Ss_State os = ss" "length os = length ids" "length ss = length ids"
  obtain mt body er where r: "ev = ResultArrives c mt body" "resultOfMessage mt body = Some er"
     "Er_SagaInstanceId er = gid" "Er_SagaStepInstanceId er = ids ! i" "Er_Status er = status"
    using a unfolding brings_result_def by blast
  have i': "i < length os" and st: "Ss_State (os ! i) = ss ! i" and id: "ids ! i = Ss_InstanceId (os ! i)"
    using p i by auto
  let ?T = "env_now e"
  let ?v = "goroutine e d"
  let ?u = "\<lparr>h_saga = zeroSagaInstance, h_step = zeroStepInstance, h_w = ?v\<rparr>"
  let ?w = "?v\<lparr>w_tx := Some d, w_aborted := False\<rparr>"
  let ?s = "?u\<lparr>h_w := ?w\<rparr>"
  note q0 = goroutine_quiet[OF e, of d]
  have q: "quiet ?T ?w" using q0 by simp
  have fs: "GetSagaStepInstance c (ids ! i) ?w = (Ok (os ! i), ?w)"
    by (rule quiet_get_step[OF q]) (use base_find(3)[OF p(1) i'] id p(2) in simp)
  have v: "view d g os (env_dbtime e) g os zeroSagaInstance zeroStepInstance ?s"
    by (simp add: view_def inview_start)
  let ?R = "\<lambda>r s. r = None \<and> rested ?T g (Si_State g) os ((map Ss_State os)[i := target]) s \<and>
       db_sagas (w_db (h_w s)) = db_sagas d"
  have "hvalid (\<lambda>s. view d g os (env_dbtime e) g os zeroSagaInstance zeroStepInstance s \<and> quiet ?T (h_w s))
      (withDeferredRollback (executionResultOnStep c er (os ! i))) never (returns ?R)"
    by (rule q_deferred, rule result_goes[OF p(1) i' p(2)]) (use r p x st tgt in \<open>auto simp: running_def\<close>)
  from returns_value[OF this, of ?s] v q obtain b s1 where
    s1: "withDeferredRollback (executionResultOnStep c er (os ! i)) ?s = (Inl (Return b), s1)" "?R b s1" by auto
  have "withDeferredRollback (executionResultBody c er) ?s = (Inl (Return b), s1)"
    using s1(1) fs r(4) by (simp add: withDeferredRollback_def executionResultBody_def hbind_def hcall_def)
  moreover have "BeginTransaction ?v = (Ok (), ?w)" using quiet_begin[OF q0] by simp
  ultimately have "consumeResult c mt body ?u = (Inl (Return b), s1)"
    using r(2) quiet_context[OF q]
    by (simp add: consumeResult_def processSagaStepExecutionResult_def hbind_def hcall_def)
  then have run: "run_event ev ?v = (None, h_w s1)" using r(1) by simp
  have sag: "w_tx (h_w s1) = None" "saga_at (durable (h_w s1)) c gid gs ids (ss[i := target])"
    using rested_saga_at[of ?T g "Si_State g" os _ s1] s1(2) p by auto
  moreover have "children_settled c gid d \<longrightarrow> children_settled c gid (durable (h_w s1))"
    using s1(2) sag(1) settled_same[of "w_db (h_w s1)" d] by (simp add: durable_def)
  ultimately show ?thesis using run by blast
qed

end
