(* ===== verification/Saga_Completion.thy ===== *)
theory Saga_Completion
  imports Result_Progress Saga_System
begin

text \<open>
  A saga reaches its end: forward when its steps succeed, back when one has failed and the compensations
  succeed, and from wherever it stands there is a way.
\<close>

section \<open>Schedules\<close>

text \<open>For each step a poll, the executor's success, and a poll, by whichever coordinator and at whatever
  time, on goroutines nothing disturbs.\<close>
fun rounds :: "string \<Rightarrow> string \<Rightarrow> string list \<Rightarrow> (event \<times> env) list \<Rightarrow> bool" where
  "rounds c gid [] evs = (evs = [])"
| "rounds c gid (sid # sids) evs = (\<exists>co e1 ev e2 co' e3 rest.
     evs = (PollerTakes co c gid sid, e1) # (ev, e2) # (PollerTakes co' c gid sid, e3) # rest \<and>
     quiet_env e1 \<and> quiet_env e2 \<and> quiet_env e3 \<and> brings_result c gid sid ExecutionResultStatusEnum_Success ev \<and>
     rounds c gid sids rest)"

lemma rounds_step:
  assumes "rounds c gid (sid # sids) evs"
  obtains co e1 ev e2 co' e3 rest where
    "evs = (PollerTakes co c gid sid, e1) # (ev, e2) # (PollerTakes co' c gid sid, e3) # rest"
    "quiet_env e1" "quiet_env e2" "quiet_env e3" "brings_result c gid sid ExecutionResultStatusEnum_Success ev"
    "rounds c gid sids rest"
  using assms by auto

section \<open>Going forward\<close>

definition going :: "nat \<Rightarrow> nat \<Rightarrow> SagaStepStateEnum \<Rightarrow> SagaStepStateEnum list" where
  "going i n x = replicate i SagaStepStateEnum_ExecutionDone @ x # replicate (n - Suc i) SagaStepStateEnum_ExecutionPending"

lemma going_nth [simp]: "going i n x ! i = x"
  by (simp add: going_def nth_append)

lemma going_update [simp]: "(going i n x)[i := y] = going i n y"
  by (simp add: going_def list_update_append)

lemma going_next:
  assumes "Suc i < n"
  shows "(going i n SagaStepStateEnum_ExecutionDone)[Suc i := x] = going (Suc i) n x"
proof -
  obtain m where m: "n - Suc i = Suc m" "n - Suc (Suc i) = m"
    using assms by (metis Suc_diff_Suc)
  show ?thesis
    by (simp add: going_def m list_update_append) (simp add: replicate_app_Cons_same)
qed

lemma going_end: "n = Suc i \<Longrightarrow> going i n SagaStepStateEnum_ExecutionDone = replicate n SagaStepStateEnum_ExecutionDone"
  by (simp add: going_def replicate_append_same)

lemma forward_going: "forward_at ss i \<Longrightarrow> ss = going i (length ss) (ss ! i)"
  by (rule nth_equalityI) (auto simp: going_def forward_at_def nth_append nth_Cons')

text \<open>What follows a step's success.\<close>
lemma forward_success:
  assumes s: "saga_at d c gid SagaStateEnum_Running ids (going i (length ids) SagaStepStateEnum_ExecutionSucceeded)"
    and i: "i < length ids" and e: "quiet_env e"
  shows "\<exists>w. run_event (PollerTakes co c gid (ids ! i)) (goroutine e d) = (None, w) \<and>
    (if Suc i < length ids then saga_at (durable w) c gid SagaStateEnum_Running ids (going (Suc i) (length ids) SagaStepStateEnum_ExecutionCandidate)
     else saga_at (durable w) c gid SagaStateEnum_Committed ids (replicate (length ids) SagaStepStateEnum_ExecutionDone))"
  using poll_succeeded[OF s i e, of co] going_next[of i "length ids" SagaStepStateEnum_ExecutionCandidate]
    going_end[of "length ids" i] i by (auto split: if_splits simp: not_less_eq less_Suc_eq)

lemma forward_answer:
  assumes s: "saga_at d c gid SagaStateEnum_Running ids (going i (length ids) SagaStepStateEnum_ExecutionRunning)"
    and i: "i < length ids" and e: "quiet_env e" and a: "brings_result c gid (ids ! i) ExecutionResultStatusEnum_Success ev"
  shows "\<exists>w. run_event ev (goroutine e d) = (None, w) \<and>
    saga_at (durable w) c gid SagaStateEnum_Running ids (going i (length ids) SagaStepStateEnum_ExecutionSucceeded)"
  using result_event[OF s i e _ a] by (auto simp: resultTarget_def)

lemma forward_candidate:
  assumes s: "saga_at d c gid SagaStateEnum_Running ids (going i (length ids) SagaStepStateEnum_ExecutionCandidate)"
    and i: "i < length ids" and e: "quiet_env e"
  shows "\<exists>w. run_event (PollerTakes co c gid (ids ! i)) (goroutine e d) = (None, w) \<and>
    saga_at (durable w) c gid SagaStateEnum_Running ids (going i (length ids) SagaStepStateEnum_ExecutionRunning)"
  using poll_candidate[OF s i e, of co] by auto

lemma forward_rounds:
  "\<lbrakk> saga_at d c gid SagaStateEnum_Running ids (going i (length ids) SagaStepStateEnum_ExecutionCandidate);
     i < length ids; rounds c gid (drop i ids) evs \<rbrakk> \<Longrightarrow>
   saga_at (run_all evs d) c gid SagaStateEnum_Committed ids (replicate (length ids) SagaStepStateEnum_ExecutionDone)"
proof (induction "length ids - i" arbitrary: i d evs)
  case (Suc m)
  have "drop i ids = ids ! i # drop (Suc i) ids" using Suc.prems(2) by (simp add: Cons_nth_drop_Suc)
  with Suc.prems(3) obtain co e1 ev e2 co' e3 rest where
    evs: "evs = (PollerTakes co c gid (ids ! i), e1) # (ev, e2) # (PollerTakes co' c gid (ids ! i), e3) # rest"
    and q: "quiet_env e1" "quiet_env e2" "quiet_env e3" and a: "brings_result c gid (ids ! i) ExecutionResultStatusEnum_Success ev"
    and r: "rounds c gid (drop (Suc i) ids) rest" by (auto elim: rounds_step)
  obtain w1 where w1: "run_event (PollerTakes co c gid (ids ! i)) (goroutine e1 d) = (None, w1)"
    "saga_at (durable w1) c gid SagaStateEnum_Running ids (going i (length ids) SagaStepStateEnum_ExecutionRunning)"
    using forward_candidate[OF Suc.prems(1,2) q(1)] by blast
  obtain w2 where w2: "run_event ev (goroutine e2 (durable w1)) = (None, w2)"
    "saga_at (durable w2) c gid SagaStateEnum_Running ids (going i (length ids) SagaStepStateEnum_ExecutionSucceeded)"
    using forward_answer[OF w1(2) Suc.prems(2) q(2) a] by blast
  obtain w3 where w3: "run_event (PollerTakes co' c gid (ids ! i)) (goroutine e3 (durable w2)) = (None, w3)"
    "if Suc i < length ids then saga_at (durable w3) c gid SagaStateEnum_Running ids (going (Suc i) (length ids) SagaStepStateEnum_ExecutionCandidate)
     else saga_at (durable w3) c gid SagaStateEnum_Committed ids (replicate (length ids) SagaStepStateEnum_ExecutionDone)"
    using forward_success[OF w2(2) Suc.prems(2) q(3)] by blast
  have run: "run_all evs d = run_all rest (durable w3)" using w1(1) w2(1) w3(1) by (simp add: evs del: run_event.simps)
  show ?case
  proof (cases "Suc i < length ids")
    case True
    have "m = length ids - Suc i" using Suc.hyps(2) by simp
    from Suc.hyps(1)[OF this _ True r] w3(2) run True show ?thesis by simp
  next
    case False
    then have "drop (Suc i) ids = []" by simp
    with r w3(2) run False show ?thesis by simp
  qed
qed simp

section \<open>Going back\<close>

definition backing :: "nat \<Rightarrow> SagaStepStateEnum \<Rightarrow> SagaStepStateEnum list \<Rightarrow> SagaStepStateEnum list" where
  "backing i x rest = replicate i SagaStepStateEnum_CompensationPending @ x # rest"

lemma backing_nth [simp]: "backing i x rest ! i = x"
  by (simp add: backing_def nth_append)

lemma backing_update [simp]: "(backing i x rest)[i := y] = backing i y rest"
  by (simp add: backing_def list_update_append)

lemma backing_back:
  "0 < i \<Longrightarrow> (backing i x rest)[i - 1 := y, i := z] = backing (i - 1) y (z # rest)"
  by (cases i) (simp_all add: backing_def list_update_append replicate_append_same[symmetric])

lemma turned_backing: "turned i n x = backing i x (replicate (n - Suc i) SagaStepStateEnum_ExecutionAborted)"
  by (simp add: turned_def backing_def)

lemma backward_backing: "i < length ss \<Longrightarrow> \<forall>j < i. ss ! j = SagaStepStateEnum_CompensationPending \<Longrightarrow>
   ss = backing i (ss ! i) (drop (Suc i) ss)"
  by (rule nth_equalityI) (auto simp: backing_def nth_append nth_Cons')

definition settled_states :: "SagaStepStateEnum list \<Rightarrow> bool" where
  "settled_states ss = (\<forall>st \<in> set ss. st = SagaStepStateEnum_CompensationDone \<or> st = SagaStepStateEnum_ExecutionAborted)"

lemma back_answer:
  assumes s: "saga_at d c gid SagaStateEnum_Running ids (backing i SagaStepStateEnum_CompensationRunning rest)"
    and i: "i < length ids" and e: "quiet_env e" and a: "brings_result c gid (ids ! i) ExecutionResultStatusEnum_Success ev"
    and k: "children_settled c gid d"
  shows "\<exists>w. run_event ev (goroutine e d) = (None, w) \<and> children_settled c gid (durable w) \<and>
    saga_at (durable w) c gid SagaStateEnum_Running ids (backing i SagaStepStateEnum_CompensationSucceeded rest)"
  using result_event[OF s i e _ a] k by (auto simp: resultTarget_def)

lemma back_success:
  assumes s: "saga_at d c gid SagaStateEnum_Running ids (backing i SagaStepStateEnum_CompensationSucceeded rest)"
    and i: "i < length ids" and e: "quiet_env e" and k: "children_settled c gid d"
  shows "\<exists>w. run_event (PollerTakes co c gid (ids ! i)) (goroutine e d) = (None, w) \<and> children_settled c gid (durable w) \<and>
    (if i = 0 then saga_at (durable w) c gid SagaStateEnum_Compensated ids (SagaStepStateEnum_CompensationDone # rest)
     else saga_at (durable w) c gid SagaStateEnum_Running ids
       (backing (i - 1) SagaStepStateEnum_CompensationCandidate (SagaStepStateEnum_CompensationDone # rest)))"
proof (cases "i = 0")
  case True
  then show ?thesis using poll_compensation_succeeded[OF s i e, of co] k by (auto simp: backing_def)
next
  case False
  then have "0 < i" by simp
  from backing_back[OF this] show ?thesis
    using poll_compensation_succeeded[OF s i e, of co] k False by auto
qed

lemma back_candidate:
  assumes s: "saga_at d c gid SagaStateEnum_Running ids (backing i SagaStepStateEnum_CompensationCandidate rest)"
    and i: "i < length ids" and e: "quiet_env e" and k: "children_settled c gid d"
  shows "\<exists>w. run_event (PollerTakes co c gid (ids ! i)) (goroutine e d) = (None, w) \<and> children_settled c gid (durable w) \<and>
    saga_at (durable w) c gid SagaStateEnum_Running ids (backing i SagaStepStateEnum_CompensationRunning rest)"
  using poll_compensation_candidate[OF s i e _ k, of co] k by auto

lemma back_failed:
  assumes s: "saga_at d c gid SagaStateEnum_Running ids (going i (length ids) SagaStepStateEnum_ExecutionFailed)"
    and i: "i < length ids" and e: "quiet_env e" and k: "children_settled c gid d"
  shows "\<exists>w. run_event (PollerTakes co c gid (ids ! i)) (goroutine e d) = (None, w) \<and> children_settled c gid (durable w) \<and>
    saga_at (durable w) c gid SagaStateEnum_Running ids (backing i SagaStepStateEnum_CompensationRunning
      (replicate (length ids - Suc i) SagaStepStateEnum_ExecutionAborted))"
  using poll_failed[OF s i e _ k, of co] k by (auto simp: turned_backing)

text \<open>One round, from the two states it can start in.\<close>
lemma back_round:
  assumes s: "ss = backing i SagaStepStateEnum_CompensationCandidate rest \<or>
       ss = going i (length ids) SagaStepStateEnum_ExecutionFailed \<and>
       rest = replicate (length ids - Suc i) SagaStepStateEnum_ExecutionAborted"
      "saga_at d c gid SagaStateEnum_Running ids ss"
    and i: "i < length ids" and q: "quiet_env e1" "quiet_env e2" "quiet_env e3"
    and a: "brings_result c gid (ids ! i) ExecutionResultStatusEnum_Success ev" and k: "children_settled c gid d"
  shows "\<exists>d'. run_all ((PollerTakes co c gid (ids ! i), e1) # (ev, e2) # (PollerTakes co' c gid (ids ! i), e3) # evs) d = run_all evs d' \<and>
    children_settled c gid d' \<and>
    (if i = 0 then saga_at d' c gid SagaStateEnum_Compensated ids (SagaStepStateEnum_CompensationDone # rest)
     else saga_at d' c gid SagaStateEnum_Running ids
       (backing (i - 1) SagaStepStateEnum_CompensationCandidate (SagaStepStateEnum_CompensationDone # rest)))"
proof -
  obtain w1 where w1: "run_event (PollerTakes co c gid (ids ! i)) (goroutine e1 d) = (None, w1)" "children_settled c gid (durable w1)"
    "saga_at (durable w1) c gid SagaStateEnum_Running ids (backing i SagaStepStateEnum_CompensationRunning rest)"
    using s back_candidate[OF _ i q(1) k, of rest co] back_failed[OF _ i q(1) k, of co] by blast
  obtain w2 where w2: "run_event ev (goroutine e2 (durable w1)) = (None, w2)" "children_settled c gid (durable w2)"
    "saga_at (durable w2) c gid SagaStateEnum_Running ids (backing i SagaStepStateEnum_CompensationSucceeded rest)"
    using back_answer[OF w1(3) i q(2) a w1(2)] by blast
  obtain w3 where w3: "run_event (PollerTakes co' c gid (ids ! i)) (goroutine e3 (durable w2)) = (None, w3)" "children_settled c gid (durable w3)"
    "if i = 0 then saga_at (durable w3) c gid SagaStateEnum_Compensated ids (SagaStepStateEnum_CompensationDone # rest)
     else saga_at (durable w3) c gid SagaStateEnum_Running ids
       (backing (i - 1) SagaStepStateEnum_CompensationCandidate (SagaStepStateEnum_CompensationDone # rest))"
    using back_success[OF w2(3) i q(3) w2(2), of co'] by blast
  then show ?thesis using w1(1) w2(1) by (intro exI[of _ "durable w3"]) (simp del: run_event.simps)
qed

lemma back_rounds:
  "\<lbrakk> saga_at d c gid SagaStateEnum_Running ids ss; i < length ids; rounds c gid (rev (take (Suc i) ids)) evs;
     children_settled c gid d;
     ss = backing i SagaStepStateEnum_CompensationCandidate rest \<or>
       ss = going i (length ids) SagaStepStateEnum_ExecutionFailed \<and>
       rest = replicate (length ids - Suc i) SagaStepStateEnum_ExecutionAborted \<rbrakk> \<Longrightarrow>
   saga_at (run_all evs d) c gid SagaStateEnum_Compensated ids (replicate (Suc i) SagaStepStateEnum_CompensationDone @ rest)"
proof (induction i arbitrary: d evs ss rest)
  case 0
  have "take (Suc 0) ids = [ids ! 0]" using 0(2) by (cases ids) auto
  with 0(3) obtain co e1 ev e2 co' e3 where
    evs: "evs = [(PollerTakes co c gid (ids ! 0), e1), (ev, e2), (PollerTakes co' c gid (ids ! 0), e3)]"
    and q: "quiet_env e1" "quiet_env e2" "quiet_env e3" and a: "brings_result c gid (ids ! 0) ExecutionResultStatusEnum_Success ev"
    by (auto elim: rounds_step)
  from back_round[OF 0(5,1,2) q a 0(4), of co co' "[]"] show ?case by (auto simp: evs)
next
  case (Suc i)
  have "rev (take (Suc (Suc i)) ids) = ids ! Suc i # rev (take (Suc i) ids)"
    using Suc.prems(2) by (simp add: take_Suc_conv_app_nth)
  with Suc.prems(3) obtain co e1 ev e2 co' e3 more where
    evs: "evs = (PollerTakes co c gid (ids ! Suc i), e1) # (ev, e2) # (PollerTakes co' c gid (ids ! Suc i), e3) # more"
    and q: "quiet_env e1" "quiet_env e2" "quiet_env e3" and a: "brings_result c gid (ids ! Suc i) ExecutionResultStatusEnum_Success ev"
    and r: "rounds c gid (rev (take (Suc i) ids)) more" by (auto elim: rounds_step)
  from back_round[OF Suc.prems(5,1,2) q a Suc.prems(4), of co co' more] obtain d' where
    d': "run_all evs d = run_all more d'" "children_settled c gid d'"
      "saga_at d' c gid SagaStateEnum_Running ids
        (backing i SagaStepStateEnum_CompensationCandidate (SagaStepStateEnum_CompensationDone # rest))"
    by (auto simp: evs)
  have "i < length ids" using Suc.prems(2) by simp
  from Suc.IH[OF d'(3) this r d'(2) disjI1[OF refl]]
  show ?case by (simp add: d'(1) replicate_app_Cons_same)
qed

end
