(* ===== verification/Saga_Liveness_Guarantees.thy ===== *)
theory Saga_Liveness_Guarantees
  imports Saga_Completion Saga_Example
begin

text \<open>
  The promises of progress, over every reachable database.
\<close>

lemma reachable_saga_at:
  assumes "reachable d" "find_saga c gid d = Some g" "OrderSagaStepsInSequence (saga_steps c gid d) = Some os"
  shows "saga_at d c gid (Si_State g) (map Ss_InstanceId os) (map Ss_State os)"
    and "coherent (Si_State g) (map Ss_State os)"
proof -
  have g: "g \<in> set (db_sagas d)" "Si_ClusterId g = c" "Si_InstanceId g = gid"
    using assms(2) by (auto simp: find_saga_def dest: find_someD)
  have b: "base d g os"
    using reachable_inv[OF assms(1)] g assms(3) by (simp add: base_def ordered_def saga_rows_def saga_steps_def)
  then show "saga_at d c gid (Si_State g) (map Ss_InstanceId os) (map Ss_State os)"
    using g by (auto simp: saga_at_def)
  show "coherent (Si_State g) (map Ss_State os)" by (rule base_facts(4)[OF b])
qed

lemma saga_at_rows:
  assumes "saga_at d c gid gs ids ss"
  shows "\<exists>g. find_saga c gid d = Some g \<and> Si_State g = gs"
    "\<exists>os. OrderSagaStepsInSequence (saga_steps c gid d) = Some os \<and> map Ss_State os = ss \<and> map Ss_InstanceId os = ids"
    "\<forall>r \<in> set (saga_steps c gid d). Ss_State r \<in> set ss"
proof -
  obtain g os where p: "base d g os" "Si_ClusterId g = c" "Si_InstanceId g = gid" "Si_State g = gs"
    "map Ss_InstanceId os = ids" "map Ss_State os = ss" by (rule saga_atE[OF assms])
  show "\<exists>g. find_saga c gid d = Some g \<and> Si_State g = gs" using base_find(1)[OF p(1)] p by auto
  show "\<exists>os. OrderSagaStepsInSequence (saga_steps c gid d) = Some os \<and> map Ss_State os = ss \<and> map Ss_InstanceId os = ids"
    using p by (auto simp: base_def ordered_def saga_rows_def saga_steps_def)
  have "set (saga_steps c gid d) = set os"
    using mset_eq_setD[OF base_facts(3)[OF p(1)]] p(2,3) by (simp add: saga_rows_def saga_steps_def)
  then show "\<forall>r \<in> set (saga_steps c gid d). Ss_State r \<in> set ss" using p(6) by auto
qed

lemma candidate_going:
  assumes "reachable d" "find_saga c gid d = Some g"
    "OrderSagaStepsInSequence (saga_steps c gid d) = Some os" "i < length os" "fwd_active (Ss_State (os ! i))"
  shows "map Ss_State os = going i (length os) (Ss_State (os ! i))"
  using forward_going[OF shape_fwd_at[OF coherent_shape[OF reachable_saga_at(2)[OF assms(1-3)]], of i]] assms(4,5)
  by simp

text \<open>C7: a saga whose steps succeed is committed. From any reachable database in which a RUNNING saga's
  step at position i waits to be executed: when each remaining step is polled, answered with a success and polled
  again, by any coordinators at any times, the saga ends COMMITTED with every step DONE.\<close>
theorem saga_commits:
  assumes "reachable d" "find_saga c gid d = Some g" "Si_State g = SagaStateEnum_Running"
    "OrderSagaStepsInSequence (saga_steps c gid d) = Some os" "i < length os"
    "Ss_State (os ! i) = SagaStepStateEnum_ExecutionCandidate"
    "rounds c gid (map Ss_InstanceId (drop i os)) evs"
  shows "(\<exists>g'. find_saga c gid (run_all evs d) = Some g' \<and> Si_State g' = SagaStateEnum_Committed) \<and>
    (\<forall>r \<in> set (saga_steps c gid (run_all evs d)). Ss_State r = SagaStepStateEnum_ExecutionDone)"
proof -
  have "map Ss_State os = going i (length os) SagaStepStateEnum_ExecutionCandidate"
    using candidate_going[OF assms(1,2,4,5)] assms(6) by (simp add: fwd_active_def)
  then have s: "saga_at d c gid SagaStateEnum_Running (map Ss_InstanceId os)
      (going i (length (map Ss_InstanceId os)) SagaStepStateEnum_ExecutionCandidate)"
    using reachable_saga_at(1)[OF assms(1,2,4)] assms(3) by simp
  from forward_rounds[OF s] assms(5,7) have
    "saga_at (run_all evs d) c gid SagaStateEnum_Committed (map Ss_InstanceId os) (replicate (length os) SagaStepStateEnum_ExecutionDone)"
    by (simp add: drop_map)
  from saga_at_rows(1,3)[OF this] show ?thesis by fastforce
qed

text \<open>C8: a saga one of whose steps has failed is compensated. When the step at position i of a RUNNING saga
  has failed and the sagas it spawned are compensated: with a poll, a successful compensation and a poll for that step
  and then for each earlier one, last to first, the saga ends COMPENSATED, those steps compensated and the later
  ones aborted.\<close>
theorem failed_saga_compensates:
  assumes "reachable d" "find_saga c gid d = Some g" "Si_State g = SagaStateEnum_Running"
    "OrderSagaStepsInSequence (saga_steps c gid d) = Some os" "i < length os"
    "Ss_State (os ! i) = SagaStepStateEnum_ExecutionFailed" "children_settled c gid d"
    "rounds c gid (map Ss_InstanceId (rev (take (Suc i) os))) evs"
  shows "(\<exists>g'. find_saga c gid (run_all evs d) = Some g' \<and> Si_State g' = SagaStateEnum_Compensated) \<and>
    (\<exists>os'. OrderSagaStepsInSequence (saga_steps c gid (run_all evs d)) = Some os' \<and>
       map Ss_InstanceId os' = map Ss_InstanceId os \<and>
       map Ss_State os' = replicate (Suc i) SagaStepStateEnum_CompensationDone @
         replicate (length os - Suc i) SagaStepStateEnum_ExecutionAborted)"
proof -
  have g: "map Ss_State os = going i (length (map Ss_InstanceId os)) SagaStepStateEnum_ExecutionFailed"
    using candidate_going[OF assms(1,2,4,5)] assms(6) by (simp add: fwd_active_def)
  have s: "saga_at d c gid SagaStateEnum_Running (map Ss_InstanceId os) (map Ss_State os)"
    using reachable_saga_at(1)[OF assms(1,2,4)] assms(3) by simp
  have r: "rounds c gid (rev (take (Suc i) (map Ss_InstanceId os))) evs"
    using assms(8) by (simp add: take_map rev_map)
  have "saga_at (run_all evs d) c gid SagaStateEnum_Compensated (map Ss_InstanceId os)
     (replicate (Suc i) SagaStepStateEnum_CompensationDone @
      replicate (length (map Ss_InstanceId os) - Suc i) SagaStepStateEnum_ExecutionAborted)"
    by (rule back_rounds[OF s _ r assms(7)]) (use g assms(5) in simp_all)
  from saga_at_rows(1,2)[OF this] show ?thesis by auto
qed

section \<open>No running saga is stuck\<close>

text \<open>The executor's answer as a message.\<close>
definition successEvent :: "string \<Rightarrow> string \<Rightarrow> string \<Rightarrow> event" where
  "successEvent c gid sid = ResultArrives c ExecutionPipelineMessageTypeEnum_Trax
     (Some (AddPayload (jsonPayload SagaPayloadType_SagaStepExecutionResult (SagaStepExecutionResultBody
        \<lparr>Er_SagaSubmitterId = '''', Er_SagaInstanceId = gid, Er_SagaStepInstanceId = sid, Er_ZoneId = '''',
         Er_Status = ExecutionResultStatusEnum_Success, Er_ExecutionResult = Map.empty\<rparr>))
        (NewTraxMessageBuilder '''' '''' '''' 0)))"

lemma success_brings: "brings_result c gid sid ExecutionResultStatusEnum_Success (successEvent c gid sid)"
  by (auto simp: brings_result_def successEvent_def resultOfMessage_def AddPayload_def jsonPayload_def NewTraxMessageBuilder_def)

definition calmEnv :: env where
  "calmEnv = \<lparr>env_faults = [], env_clock = [], env_now = 0, env_rand = [], env_dbtime = 0\<rparr>"

lemma calm_quiet: "quiet_env calmEnv"
  by (simp add: calmEnv_def quiet_env_def)

text \<open>What the environment does: it polls the saga's steps and executors succeed, undisturbed.\<close>
definition cooperative :: "string \<Rightarrow> string \<Rightarrow> event \<times> env \<Rightarrow> bool" where
  "cooperative c gid p = (quiet_env (snd p) \<and> (\<exists>sid. (\<exists>co. fst p = PollerTakes co c gid sid) \<or>
     brings_result c gid sid ExecutionResultStatusEnum_Success (fst p)))"

definition can_reach :: "string \<Rightarrow> string \<Rightarrow> db \<Rightarrow> (db \<Rightarrow> bool) \<Rightarrow> bool" where
  "can_reach c gid d P = (\<exists>evs. list_all (cooperative c gid) evs \<and> P (run_all evs d))"

lemma can_here: "P d \<Longrightarrow> can_reach c gid d P"
  unfolding can_reach_def by (rule exI[of _ "[]"]) simp

lemma can_event:
  assumes "run_event ev (goroutine e d) = (r, w)" "cooperative c gid (ev, e)" "can_reach c gid (durable w) P"
  shows "can_reach c gid d P"
proof -
  obtain evs where "list_all (cooperative c gid) evs" "P (run_all evs (durable w))"
    using assms(3) unfolding can_reach_def by blast
  then show ?thesis using assms(1,2) unfolding can_reach_def by (intro exI[of _ "(ev, e) # evs"]) (simp del: run_event.simps)
qed

lemma rounds_exist: "\<exists>evs. rounds c gid sids evs \<and> list_all (cooperative c gid) evs"
proof (induction sids)
  case (Cons sid sids)
  then obtain evs where e: "rounds c gid sids evs" "list_all (cooperative c gid) evs" by blast
  let ?p = "(PollerTakes undefined c gid sid, calmEnv)"
  have "rounds c gid (sid # sids) (?p # (successEvent c gid sid, calmEnv) # ?p # evs)"
    using e(1) calm_quiet success_brings by auto
  moreover have "list_all (cooperative c gid) (?p # (successEvent c gid sid, calmEnv) # ?p # evs)"
    using e(2) calm_quiet success_brings unfolding list.pred_inject cooperative_def fst_conv snd_conv by blast
  ultimately show ?case by blast
qed simp

lemma can_poll: "cooperative c gid (PollerTakes co c gid sid, calmEnv)"
  using calm_quiet unfolding cooperative_def by auto

lemma can_answer: "cooperative c gid (successEvent c gid sid, calmEnv)"
  using calm_quiet success_brings unfolding cooperative_def fst_conv snd_conv by blast

definition finished :: "string \<Rightarrow> string \<Rightarrow> db \<Rightarrow> bool" where
  "finished c gid d = (\<exists>g. find_saga c gid d = Some g \<and>
     Si_State g \<in> {SagaStateEnum_Committed, SagaStateEnum_Compensated, SagaStateEnum_Blocked})"

lemma finished_at:
  "saga_at d c gid gs ids ss \<Longrightarrow> gs \<in> {SagaStateEnum_Committed, SagaStateEnum_Compensated, SagaStateEnum_Blocked} \<Longrightarrow>
   finished c gid d"
  using saga_at_rows(1)[of d c gid gs ids ss] by (auto simp: finished_def)

lemma can_candidate:
  assumes "saga_at d c gid SagaStateEnum_Running ids (going i (length ids) SagaStepStateEnum_ExecutionCandidate)" "i < length ids"
  shows "can_reach c gid d (finished c gid)"
proof -
  obtain evs where "rounds c gid (drop i ids) evs" "list_all (cooperative c gid) evs" using rounds_exist by blast
  with forward_rounds[OF assms, of evs] show ?thesis unfolding can_reach_def by (auto intro: finished_at)
qed

lemma can_back:
  assumes "saga_at d c gid SagaStateEnum_Running ids ss" "i < length ids" "children_settled c gid d"
    "ss = backing i SagaStepStateEnum_CompensationCandidate rest \<or>
       ss = going i (length ids) SagaStepStateEnum_ExecutionFailed \<and>
       rest = replicate (length ids - Suc i) SagaStepStateEnum_ExecutionAborted"
  shows "can_reach c gid d (finished c gid)"
proof -
  obtain evs where "rounds c gid (rev (take (Suc i) ids)) evs" "list_all (cooperative c gid) evs" using rounds_exist by blast
  with back_rounds[OF assms(1,2) _ assms(3,4), of evs] show ?thesis unfolding can_reach_def by (auto intro: finished_at)
qed

text \<open>From each state an active step can be in.\<close>
lemma can_forward:
  assumes s: "saga_at d c gid SagaStateEnum_Running ids (going i (length ids) x)" and i: "i < length ids"
    and k: "children_settled c gid d" and x: "fwd_active x" "x \<noteq> SagaStepStateEnum_ExecutionBlocked"
  shows "can_reach c gid d (finished c gid)"
proof -
  have succeeded: "can_reach c gid d (finished c gid)"
    if s: "saga_at d c gid SagaStateEnum_Running ids (going i (length ids) SagaStepStateEnum_ExecutionSucceeded)" for d
  proof -
    obtain w where w: "run_event (PollerTakes undefined c gid (ids ! i)) (goroutine calmEnv d) = (None, w)"
      "if Suc i < length ids then saga_at (durable w) c gid SagaStateEnum_Running ids (going (Suc i) (length ids) SagaStepStateEnum_ExecutionCandidate)
       else saga_at (durable w) c gid SagaStateEnum_Committed ids (replicate (length ids) SagaStepStateEnum_ExecutionDone)"
      using forward_success[OF s i calm_quiet] by blast
    have "can_reach c gid (durable w) (finished c gid)"
      using w(2) by (auto split: if_splits intro: can_candidate can_here finished_at)
    with can_event[OF w(1) can_poll] show ?thesis .
  qed
  consider "x = SagaStepStateEnum_ExecutionCandidate" | "x = SagaStepStateEnum_ExecutionRunning"
    | "x = SagaStepStateEnum_ExecutionSucceeded" | "x = SagaStepStateEnum_ExecutionFailed"
    using x by (auto simp: fwd_active_def)
  then show ?thesis
  proof cases
    case 1
    then show ?thesis using can_candidate s i by simp
  next
    case 2
    obtain w where w: "run_event (successEvent c gid (ids ! i)) (goroutine calmEnv d) = (None, w)"
      "saga_at (durable w) c gid SagaStateEnum_Running ids (going i (length ids) SagaStepStateEnum_ExecutionSucceeded)"
      using forward_answer[OF s[unfolded 2] i calm_quiet success_brings] by blast
    from can_event[OF w(1) can_answer succeeded[OF w(2)]] show ?thesis .
  next
    case 3
    then show ?thesis using succeeded s by simp
  next
    case 4
    then show ?thesis using can_back[OF s i k] by blast
  qed
qed

lemma can_backward:
  assumes s: "saga_at d c gid SagaStateEnum_Running ids (backing i x rest)" and i: "i < length ids"
    and k: "children_settled c gid d" and x: "cmp_active x" "x \<noteq> SagaStepStateEnum_CompensationBlocked"
  shows "can_reach c gid d (finished c gid)"
proof -
  have succeeded: "can_reach c gid d (finished c gid)"
    if s: "saga_at d c gid SagaStateEnum_Running ids (backing i SagaStepStateEnum_CompensationSucceeded rest)"
      and k: "children_settled c gid d" for d
  proof -
    obtain w where w: "run_event (PollerTakes undefined c gid (ids ! i)) (goroutine calmEnv d) = (None, w)"
      "children_settled c gid (durable w)"
      "if i = 0 then saga_at (durable w) c gid SagaStateEnum_Compensated ids (SagaStepStateEnum_CompensationDone # rest)
       else saga_at (durable w) c gid SagaStateEnum_Running ids
         (backing (i - 1) SagaStepStateEnum_CompensationCandidate (SagaStepStateEnum_CompensationDone # rest))"
      using back_success[OF s i calm_quiet k] by blast
    have "can_reach c gid (durable w) (finished c gid)"
    proof (cases "i = 0")
      case True
      then show ?thesis using w(3) by (auto intro: can_here finished_at)
    next
      case False
      then have "i - 1 < length ids" using i by simp
      from can_back[OF _ this w(2) disjI1[OF refl]] w(3) False show ?thesis by simp
    qed
    with can_event[OF w(1) can_poll] show ?thesis .
  qed
  consider "x = SagaStepStateEnum_CompensationCandidate" | "x = SagaStepStateEnum_CompensationRunning"
    | "x = SagaStepStateEnum_CompensationSucceeded" | "x = SagaStepStateEnum_CompensationFailed"
    using x by (auto simp: cmp_active_def)
  then show ?thesis
  proof cases
    case 1
    then show ?thesis using can_back[OF s i k] by blast
  next
    case 2
    obtain w where w: "run_event (successEvent c gid (ids ! i)) (goroutine calmEnv d) = (None, w)" "children_settled c gid (durable w)"
      "saga_at (durable w) c gid SagaStateEnum_Running ids (backing i SagaStepStateEnum_CompensationSucceeded rest)"
      using back_answer[OF s[unfolded 2] i calm_quiet success_brings k] by blast
    from can_event[OF w(1) can_answer succeeded[OF w(3,2)]] show ?thesis .
  next
    case 3
    then show ?thesis using succeeded s k by simp
  next
    case 4
    obtain w where w: "run_event (PollerTakes undefined c gid (ids ! i)) (goroutine calmEnv d) = (None, w)"
      "saga_at (durable w) c gid SagaStateEnum_Blocked ids ((backing i x rest)[i := SagaStepStateEnum_CompensationBlocked])"
      using poll_compensation_failed[OF s i calm_quiet] 4 by auto
    have "finished c gid (durable w)" by (rule finished_at[OF w(2)]) simp
    from can_event[OF w(1) can_poll can_here[where P = "finished c gid", OF this]] show ?thesis .
  qed
qed

text \<open>C9: no running saga is stuck. From every reachable database, polls and successful answers can bring a
  RUNNING saga that has steps, none of them blocked, to COMMITTED, COMPENSATED or BLOCKED, once the sagas it
  spawned are compensated.\<close>
theorem running_saga_can_finish:
  assumes "reachable d" "find_saga c gid d = Some g" "Si_State g = SagaStateEnum_Running"
    "saga_steps c gid d \<noteq> []" "children_settled c gid d"
    "\<forall>r \<in> set (saga_steps c gid d). Ss_State r \<noteq> SagaStepStateEnum_ExecutionBlocked \<and>
       Ss_State r \<noteq> SagaStepStateEnum_CompensationBlocked"
  shows "\<exists>evs. list_all (cooperative c gid) evs \<and> finished c gid (run_all evs d)"
proof -
  have g: "g \<in> set (db_sagas d)" "Si_ClusterId g = c" "Si_InstanceId g = gid"
    using assms(2) by (auto simp: find_saga_def dest: find_someD)
  obtain os where os: "OrderSagaStepsInSequence (saga_steps c gid d) = Some os" "mset os = mset (saga_steps c gid d)"
    using reachable_inv[OF assms(1)] g by (auto simp: db_inv_def saga_wf_def ordered_def saga_rows_def saga_steps_def)
  note r = reachable_saga_at[OF assms(1,2) os(1)]
  have set: "set os = set (saga_steps c gid d)" by (rule mset_eq_setD[OF os(2)])
  then have "map Ss_State os \<noteq> []" using assms(4) by auto
  then obtain i where i: "forward_at (map Ss_State os) i \<or> backward_at (map Ss_State os) i"
    using r(2) assms(3) by (auto simp: in_flight_def)
  then have l: "i < length os" by (auto simp: forward_at_def backward_at_def)
  have nb: "Ss_State (os ! i) \<noteq> SagaStepStateEnum_ExecutionBlocked \<and> Ss_State (os ! i) \<noteq> SagaStepStateEnum_CompensationBlocked"
    using assms(6) set l nth_mem by blast
  from i have "can_reach c gid d (finished c gid)"
  proof
    assume f: "forward_at (map Ss_State os) i"
    have "map Ss_State os = going i (length (map Ss_InstanceId os)) (Ss_State (os ! i))"
      using forward_going[OF f] l by simp
    then have "saga_at d c gid SagaStateEnum_Running (map Ss_InstanceId os)
        (going i (length (map Ss_InstanceId os)) (Ss_State (os ! i)))" using r(1) assms(3) by metis
    then show ?thesis
      by (rule can_forward[OF _ _ assms(5)]) (use f l nb in \<open>auto simp: forward_at_def\<close>)
  next
    assume f: "backward_at (map Ss_State os) i"
    have "map Ss_State os = backing i (Ss_State (os ! i)) (drop (Suc i) (map Ss_State os))"
      using backward_backing[of i "map Ss_State os"] f l by (auto simp: backward_at_def)
    then have "saga_at d c gid SagaStateEnum_Running (map Ss_InstanceId os)
        (backing i (Ss_State (os ! i)) (drop (Suc i) (map Ss_State os)))" using r(1) assms(3) by metis
    then show ?thesis
      by (rule can_backward[OF _ _ assms(5)]) (use f l nb in \<open>auto simp: backward_at_def\<close>)
  qed
  then show ?thesis unfolding can_reach_def .
qed

section \<open>A step nobody answers for\<close>

lemma query_db: "w_db (snd (db_query q w)) = w_db w \<and> w_tx (snd (db_query q w)) = w_tx w"
  by (auto simp: db_query_def next_fault_def split: list.splits fault.splits)

lemma refresh_db: "w_db (snd (refreshSagaAndStep c gid sid w)) = w_db w \<and> w_tx (snd (refreshSagaAndStep c gid sid w)) = w_tx w"
proof -
  have g: "w_db (snd (GetSagaInstance c gid w)) = w_db w \<and> w_tx (snd (GetSagaInstance c gid w)) = w_tx w" for w
    using query_db[of "find_saga c gid" w] by (auto simp: GetSagaInstance_def split: prod.splits sum.splits option.splits)
  have l: "w_db (snd (ListSagaStepInstancesBySagaInstanceId c gid w)) = w_db w \<and>
      w_tx (snd (ListSagaStepInstancesBySagaInstanceId c gid w)) = w_tx w" for w
    using query_db[of "saga_steps c gid" w] by (auto simp: ListSagaStepInstancesBySagaInstanceId_def split: prod.splits sum.splits)
  show ?thesis
    using g[of w] l[of "snd (GetSagaInstance c gid w)"]
    by (auto simp: refreshSagaAndStep_def split: prod.splits sum.splits)
qed

lemma refresh_rows:
  assumes "refreshSagaAndStep c gid sid w = (Some (g, st), w1)"
  shows "find_saga c gid (w_db w) = Some g" "st \<in> set (saga_steps c gid (w_db w))" "Ss_InstanceId st = sid"
proof -
  obtain w2 rs w3 where p: "GetSagaInstance c gid w = (Ok g, w2)" "ListSagaStepInstancesBySagaInstanceId c gid w2 = (Ok rs, w3)"
    "find (\<lambda>s. Ss_InstanceId s = sid) rs = Some st"
    using assms by (auto simp: refreshSagaAndStep_def split: prod.splits sum.splits)
  show "find_saga c gid (w_db w) = Some g" by (rule getters_read(1)[OF p(1)])
  have "rs = saga_steps c gid (w_db w)"
    using getters_read(3)[OF p(2)] neutralD[OF neutral_getters(1) p(1)] by (simp add: saga_steps_def)
  then show "st \<in> set (saga_steps c gid (w_db w))" "Ss_InstanceId st = sid" using find_someD[OF p(3)] by auto
qed

text \<open>Polls of the saga, and immediate processing of the step.\<close>
definition looks_at :: "string \<Rightarrow> string \<Rightarrow> string \<Rightarrow> event \<Rightarrow> bool" where
  "looks_at c gid sid ev = (\<exists>co. (\<exists>sid'. ev = PollerTakes co c gid sid') \<or> ev = ImmediateProcessing co c gid sid)"

lemma running_all_skipped:
  assumes "reachable d" "r \<in> set (saga_steps c gid d)" "running r" "s \<in> set (saga_steps c gid d)"
  shows "pollSkip (Ss_State s)"
proof -
  have rs: "r \<in> set (db_steps d)" "Ss_ClusterId r = c" "Ss_SagaInstanceId r = gid"
      "s \<in> set (db_steps d)" "Ss_ClusterId s = c" "Ss_SagaInstanceId s = gid"
    using assms(2,4) by (auto simp: saga_steps_def)
  obtain g where g: "g \<in> set (db_sagas d)" "saga_key g = (Ss_ClusterId r, Ss_SagaInstanceId r)"
    using reachable_inv[OF assms(1)] rs(1) unfolding db_inv_def by blast
  obtain os where b: "base d g os" using idle_base[of "goroutine calmEnv d" g] goroutine_idle[OF reachable_inv[OF assms(1)]] g(1)
    by (auto simp: goroutine_def)
  obtain i where i: "i < length os" "r = os ! i" using base_member[OF b rs(1)] g(2) by auto
  obtain j where j: "j < length os" "s = os ! j" using base_member[OF b rs(4)] g(2) rs by auto
  have sh: "shape (map Ss_State os)" by (rule coherent_shape[OF base_facts(4)[OF b]])
  from assms(3) consider "Ss_State r = SagaStepStateEnum_ExecutionRunning" | "Ss_State r = SagaStepStateEnum_CompensationRunning"
    by (auto simp: running_def)
  then show ?thesis
  proof cases
    case 1
    then have "forward_at (map Ss_State os) i" using shape_fwd_at[OF sh, of i] i by (simp add: fwd_active_def)
    then show ?thesis using i j 1 by (cases i j rule: linorder_cases) (auto simp: forward_at_def pollSkip_def)
  next
    case 2
    then have "backward_at (map Ss_State os) i" using shape_cmp_at[OF sh, of i] i by (simp add: cmp_active_def)
    then show ?thesis using i j 2 settled_nth[of "map Ss_State os" "Suc i" j]
      by (cases i j rule: linorder_cases) (auto simp: backward_at_def pollSkip_def)
  qed
qed

lemma looks_change_nothing:
  assumes r: "reachable d" "find_saga c gid d = Some g" "Si_State g = SagaStateEnum_Running"
    "r \<in> set (saga_steps c gid d)" "running r" and l: "looks_at c gid (Ss_InstanceId r) ev"
  shows "durable (snd (run_event ev (goroutine e d))) = d"
proof -
  let ?w = "goroutine e d"
  have id: "s = r" if "s \<in> set (saga_steps c gid d)" "Ss_InstanceId s = Ss_InstanceId r" for s
    using that r(4) reachable_inv[OF r(1)] by (auto simp: saga_steps_def db_inv_def distinct_map inj_on_def)
  have ref: "\<exists>x w1. refreshSagaAndStep c gid sid ?w = (x, w1) \<and> w_db w1 = d \<and> w_tx w1 = None \<and>
      (\<forall>g' st. x = Some (g', st) \<longrightarrow> g' = g \<and> st \<in> set (saga_steps c gid d) \<and> Ss_InstanceId st = sid)" for sid
  proof -
    obtain x w1 where x: "refreshSagaAndStep c gid sid ?w = (x, w1)" by fastforce
    with refresh_db[of c gid sid ?w] refresh_rows[of c gid sid ?w _ _ w1] r(2) show ?thesis by fastforce
  qed
  from l obtain co sid where "ev = PollerTakes co c gid sid \<or> ev = ImmediateProcessing co c gid (Ss_InstanceId r)"
    unfolding looks_at_def by blast
  then show ?thesis
  proof
    assume ev: "ev = PollerTakes co c gid sid"
    obtain x w1 where x: "refreshSagaAndStep c gid sid ?w = (x, w1)" "w_db w1 = d" "w_tx w1 = None"
      "\<forall>g' st. x = Some (g', st) \<longrightarrow> g' = g \<and> st \<in> set (saga_steps c gid d) \<and> Ss_InstanceId st = sid"
      using ref by blast
    then show ?thesis
      using running_all_skipped[OF r(1,4,5)] r(3)
      by (cases x) (auto simp: ev pollStep_def durable_def)
  next
    assume ev: "ev = ImmediateProcessing co c gid (Ss_InstanceId r)"
    obtain x w1 where x: "refreshSagaAndStep c gid (Ss_InstanceId r) ?w = (x, w1)" "w_db w1 = d" "w_tx w1 = None"
      "\<forall>g' st. x = Some (g', st) \<longrightarrow> g' = g \<and> st \<in> set (saga_steps c gid d) \<and> Ss_InstanceId st = Ss_InstanceId r"
      using ref by blast
    show ?thesis
    proof (cases x)
      case (Some p)
      obtain g' st where p: "p = (g', st)" by fastforce
      with x(4) Some id have "st = r" by blast
      then have "immediateSkip (Ss_State st)" using r(5) by (auto simp: immediateSkip_def running_def)
      then show ?thesis using x(1-3) Some p by (simp add: ev processStepWithMutex_def durable_def)
    qed (use x(1-3) in \<open>simp add: ev processStepWithMutex_def durable_def\<close>)
  qed
qed

text \<open>C10: a step whose request or result is lost waits for ever. While a step of a RUNNING saga is
  executing or compensating, no number of polls of any of the saga's steps, nor immediate processing of that
  step, changes anything in the database, whatever the clock shows: the timeouts recorded with the request never
  take effect, and only a result moves the saga.\<close>
theorem lost_request_waits_forever:
  assumes "reachable d" "find_saga c gid d = Some g" "Si_State g = SagaStateEnum_Running"
    "r \<in> set (saga_steps c gid d)"
    "Ss_State r = SagaStepStateEnum_ExecutionRunning \<or> Ss_State r = SagaStepStateEnum_CompensationRunning"
    "\<forall>p \<in> set evs. looks_at c gid (Ss_InstanceId r) (fst p)"
  shows "run_all evs d = d"
  using assms(6)
proof (induction evs)
  case (Cons p evs)
  obtain ev e where p: "p = (ev, e)" by fastforce
  have "running r" using assms(5) by (auto simp: running_def)
  from looks_change_nothing[OF assms(1-4) this, of ev e] Cons p show ?case by (simp del: run_event.simps)
qed simp

section \<open>Witnesses\<close>

definition exFailed :: db where
  "exFailed = run_all (exRun [exPoll exStep1, exResult exStep1 ExecutionResultStatusEnum_Success, exPoll exStep1,
     exPoll exStep2, exResult exStep2 ExecutionResultStatusEnum_Failed]) exDb"

definition exRunningStep :: db where "exRunningStep = run_all (exRun [exPoll exStep1]) exDb"

definition probe :: "db \<Rightarrow> SagaStateEnum option \<times> (string \<times> SagaStepStateEnum) list option \<times> (string \<times> string) list" where
  "probe d = (map_option Si_State (find_saga ''c'' ''g'' d),
     map_option (map (\<lambda>r. (Ss_InstanceId r, Ss_State r))) (OrderSagaStepsInSequence (saga_steps ''c'' ''g'' d)),
     map (\<lambda>x. (Si_InstanceId x, Si_ParentSagaInstanceId x)) (db_sagas d))"

lemma exSubmitted_probe: "probe exSubmitted = (Some SagaStateEnum_Running,
   Some [(exStep1, SagaStepStateEnum_ExecutionCandidate), (exStep2, SagaStepStateEnum_ExecutionPending)], [(''g'', '''')])"
  unfolding exSubmitted_def by code_simp

lemma exFailed_probe: "probe exFailed = (Some SagaStateEnum_Running,
   Some [(exStep1, SagaStepStateEnum_ExecutionDone), (exStep2, SagaStepStateEnum_ExecutionFailed)], [(''g'', '''')])"
  unfolding exFailed_def by code_simp

lemma exRunningStep_probe: "probe exRunningStep = (Some SagaStateEnum_Running,
   Some [(exStep1, SagaStepStateEnum_ExecutionRunning), (exStep2, SagaStepStateEnum_ExecutionPending)], [(''g'', '''')])"
  unfolding exRunningStep_def by code_simp

lemma probe_facts:
  assumes "probe d = (Some gs, Some ps, [(''g'', '''')])"
  obtains g os where "find_saga ''c'' ''g'' d = Some g" "Si_State g = gs"
    "OrderSagaStepsInSequence (saga_steps ''c'' ''g'' d) = Some os" "map Ss_InstanceId os = map fst ps"
    "map Ss_State os = map snd ps" "children_settled ''c'' ''g'' d" "length os = length ps"
proof -
  obtain g os where p: "find_saga ''c'' ''g'' d = Some g" "Si_State g = gs"
    "OrderSagaStepsInSequence (saga_steps ''c'' ''g'' d) = Some os" "map (\<lambda>r. (Ss_InstanceId r, Ss_State r)) os = ps"
    "map (\<lambda>x. (Si_InstanceId x, Si_ParentSagaInstanceId x)) (db_sagas d) = [(''g'', '''')]"
    using assms by (auto simp: probe_def)
  have "children_settled ''c'' ''g'' d" using p(5) by (auto simp: children_settled_def)
  moreover have "map Ss_InstanceId os = map fst ps" "map Ss_State os = map snd ps" "length os = length ps"
    using p(4) by auto
  ultimately show thesis using that p(1-3) by blast
qed

lemma ex_more_reachable: "reachable exFailed" "reachable exRunningStep"
proof -
  have d: "reachable exDb" by (rule reachable_init) (simp_all add: exDb_def)
  show "reachable exFailed" "reachable exRunningStep"
    unfolding exFailed_def exRunningStep_def
    by (rule reachable_run[OF d], rule exRun_admissible, simp add: ex_events_admissible)+
qed

lemma ex_quiet: "quiet_env (exEnv n)"
  by (simp add: exEnv_def quiet_env_def)

lemma ex_brings: "brings_result ''c'' ''g'' sid status (exResult sid status)" if "status \<noteq> ExecutionResultStatusEnum_InExecution"
  using that by (auto simp: brings_result_def exResult_def resultOfMessage_def AddPayload_def jsonPayload_def NewTraxMessageBuilder_def)

lemma ex_round:
  "rounds ''c'' ''g'' sids (map (\<lambda>ev. (ev, exEnv 5)) evs) \<Longrightarrow>
   rounds ''c'' ''g'' (sid # sids) (map (\<lambda>ev. (ev, exEnv 5))
     (exPoll sid # exResult sid ExecutionResultStatusEnum_Success # exPoll sid # evs))"
  using ex_quiet ex_brings[of ExecutionResultStatusEnum_Success sid] by (auto simp: exPoll_def)

lemma saga_commits_witness:
  "\<exists>g. find_saga ''c'' ''g'' (run_all (map (\<lambda>ev. (ev, exEnv 5)) exForward) exSubmitted) = Some g \<and>
     Si_State g = SagaStateEnum_Committed"
proof -
  obtain g os where p: "find_saga ''c'' ''g'' exSubmitted = Some g" "Si_State g = SagaStateEnum_Running"
    "OrderSagaStepsInSequence (saga_steps ''c'' ''g'' exSubmitted) = Some os" "map Ss_InstanceId os = [exStep1, exStep2]"
    "map Ss_State os = [SagaStepStateEnum_ExecutionCandidate, SagaStepStateEnum_ExecutionPending]"
    by (rule probe_facts[OF exSubmitted_probe]) auto
  have "rounds ''c'' ''g'' (map Ss_InstanceId (drop 0 os)) (map (\<lambda>ev. (ev, exEnv 5)) exForward)"
    unfolding exForward_def drop_0 p(4) by (intro ex_round) simp
  from saga_commits[OF ex_reachable(1) p(1-3) _ _ this] p(5) show ?thesis by auto
qed

lemma failed_saga_compensates_witness:
  "\<exists>g. find_saga ''c'' ''g'' (run_all (map (\<lambda>ev. (ev, exEnv 5))
       [exPoll exStep2, exResult exStep2 ExecutionResultStatusEnum_Success, exPoll exStep2,
        exPoll exStep1, exResult exStep1 ExecutionResultStatusEnum_Success, exPoll exStep1]) exFailed) = Some g \<and>
     Si_State g = SagaStateEnum_Compensated"
proof -
  obtain g os where p: "find_saga ''c'' ''g'' exFailed = Some g" "Si_State g = SagaStateEnum_Running"
    "OrderSagaStepsInSequence (saga_steps ''c'' ''g'' exFailed) = Some os" "map Ss_InstanceId os = [exStep1, exStep2]"
    "map Ss_State os = [SagaStepStateEnum_ExecutionDone, SagaStepStateEnum_ExecutionFailed]"
    "children_settled ''c'' ''g'' exFailed" "length os = 2"
    by (rule probe_facts[OF exFailed_probe]) auto
  have "rev (map Ss_InstanceId os) = [exStep2, exStep1]" by (simp add: p(4))
  then have "map Ss_InstanceId (rev (take (Suc 1) os)) = [exStep2, exStep1]" using p(7) by (simp add: rev_map)
  then have "rounds ''c'' ''g'' (map Ss_InstanceId (rev (take (Suc 1) os))) (map (\<lambda>ev. (ev, exEnv 5))
       [exPoll exStep2, exResult exStep2 ExecutionResultStatusEnum_Success, exPoll exStep2,
        exPoll exStep1, exResult exStep1 ExecutionResultStatusEnum_Success, exPoll exStep1])"
    by (simp only:) (intro ex_round, simp)
  from failed_saga_compensates[OF ex_more_reachable(1) p(1-3) _ _ p(6) this] p(5) show ?thesis by auto
qed

lemma running_saga_can_finish_witness:
  "\<exists>evs. list_all (cooperative ''c'' ''g'') evs \<and> finished ''c'' ''g'' (run_all evs exRunningStep)"
proof -
  obtain g os where p: "find_saga ''c'' ''g'' exRunningStep = Some g" "Si_State g = SagaStateEnum_Running"
    "OrderSagaStepsInSequence (saga_steps ''c'' ''g'' exRunningStep) = Some os"
    "map Ss_State os = [SagaStepStateEnum_ExecutionRunning, SagaStepStateEnum_ExecutionPending]"
    "children_settled ''c'' ''g'' exRunningStep"
    by (rule probe_facts[OF exRunningStep_probe]) auto
  note s = saga_at_rows(3)[OF reachable_saga_at(1)[OF ex_more_reachable(2) p(1,3)]]
  have "saga_steps ''c'' ''g'' exRunningStep \<noteq> []" using p(3,4) by auto
  moreover have "\<forall>r \<in> set (saga_steps ''c'' ''g'' exRunningStep). Ss_State r \<noteq> SagaStepStateEnum_ExecutionBlocked \<and>
       Ss_State r \<noteq> SagaStepStateEnum_CompensationBlocked" using s p(4) by fastforce
  ultimately show ?thesis by (rule running_saga_can_finish[OF ex_more_reachable(2) p(1,2) _ p(5)])
qed

lemma lost_request_waits_forever_witness:
  "run_all [(exPoll exStep1, exEnv 5), (exPoll exStep2, exEnv 9)] exRunningStep = exRunningStep"
proof -
  obtain g os where p: "find_saga ''c'' ''g'' exRunningStep = Some g" "Si_State g = SagaStateEnum_Running"
    "OrderSagaStepsInSequence (saga_steps ''c'' ''g'' exRunningStep) = Some os"
    "map Ss_State os = [SagaStepStateEnum_ExecutionRunning, SagaStepStateEnum_ExecutionPending]"
    by (rule probe_facts[OF exRunningStep_probe]) auto
  have r: "hd os \<in> set (saga_steps ''c'' ''g'' exRunningStep)" "Ss_State (hd os) = SagaStepStateEnum_ExecutionRunning"
    using order_set[OF p(3)] p(4) by (cases os; auto)+
  show ?thesis
    by (rule lost_request_waits_forever[OF ex_more_reachable(2) p(1,2) r(1)])
       (use r(2) in \<open>auto simp: looks_at_def exPoll_def\<close>)
qed

end
