(* ===== verification/Step_Executor.thy ===== *)
theory Step_Executor
  imports Coordinator_Results Go_Strings
begin

text \<open>
  The saga step executor (\<open>pkg/trax/executor.go\<close>) and the step configuration it reads
  (\<open>step_configuration.go\<close>).  A message callback runs in its own goroutine: it takes the in-flight guard,
  may run the user's service for a long time, removes the guard and publishes a reply.  Each of these
  points is an event, so that callbacks and detached executions interleave freely; what the service
  answers is part of the events.
\<close>

section \<open>Step configuration\<close>

record StepConfiguration =
  ExecutionTimeoutMsec :: int
  CompensationTimeoutMsec :: int

definition StepConfigurationMetadataKey :: string where
  "StepConfigurationMetadataKey = ''step_configuration''"

definition DefaultStepTimeoutMsec :: int where
  "DefaultStepTimeoutMsec = 180000"

text \<open>\<open>encoding/json\<close>'s decoding of the entry into the two integer fields (0 when absent) is an argument;
  \<open>None\<close> is its error.\<close>
definition ParseStepConfiguration :: "(string \<Rightarrow> StepConfiguration option) \<Rightarrow> smap \<Rightarrow> StepConfiguration" where
  "ParseStepConfiguration decode metadata =
     (let cfg = \<lparr>ExecutionTimeoutMsec = DefaultStepTimeoutMsec, CompensationTimeoutMsec = DefaultStepTimeoutMsec\<rparr>
      in case metadata StepConfigurationMetadataKey of
           None \<Rightarrow> cfg
         | Some raw \<Rightarrow>
             if strings_TrimSpace raw = '''' then cfg
             else (case decode raw of
                None \<Rightarrow> cfg
              | Some parsed \<Rightarrow>
                  \<lparr>ExecutionTimeoutMsec = (if ExecutionTimeoutMsec parsed > 0 then ExecutionTimeoutMsec parsed
                                           else ExecutionTimeoutMsec cfg),
                   CompensationTimeoutMsec = (if CompensationTimeoutMsec parsed > 0 then CompensationTimeoutMsec parsed
                                              else CompensationTimeoutMsec cfg)\<rparr>))"

section \<open>Executor\<close>

datatype SagaIdempotencyKeyStatusEnum =
    SagaIdempotencyKeyStatusEnum_Unknown
  | SagaIdempotencyKeyStatusEnum_NotSeen
  | SagaIdempotencyKeyStatusEnum_InProgress
  | SagaIdempotencyKeyStatusEnum_Completed

text \<open>What \<open>ExecuteSync\<close> and \<open>CompensateSync\<close> return: an error, a result with an error, or a result.\<close>
datatype serviceOutcome = CallError string | ResultError string | Completed smap

record sagaStepExecutor =
  ex_clusterId :: string
  ex_sagaTemplateId :: string
  ex_sagaStepTemplateId :: string
  ex_sagaSubmitter :: bool
  ex_traxCtrlURL :: string
  ex_subComponent :: string

definition isSubSagaExecutor :: "sagaStepExecutor \<Rightarrow> bool" where
  "isSubSagaExecutor e = (ex_sagaSubmitter e \<and> ex_traxCtrlURL e \<noteq> '''')"

text \<open>A callback between two of its points: the service is running for a key, or a reply is to be published.\<close>
datatype executor_task =
    Serving (t_comp: bool) (t_detached: bool) (t_key: string) (t_msg: TraxMessage) (t_req: SagaStepRequestPayload)
  | Replying (t_comp: bool) (t_detached: bool) (t_msg: TraxMessage) (t_req: SagaStepRequestPayload)
      (t_status: ExecutionResultStatusEnum) (t_result: smap)

record executor_state =
  inFlightExec :: "string list"
  inFlightComp :: "string list"
  tasks :: "executor_task list"
  sent :: "published list"
  nacked :: nat

definition executorKey :: "sagaStepExecutor \<Rightarrow> SagaStepRequestPayload \<Rightarrow> string" where
  "executorKey e req = getSagaStepIdempotencyKey (ex_clusterId e) (Rq_CoordinatorAffinity req) (ex_sagaTemplateId e)
     (ex_sagaStepTemplateId e) (Rq_SagaInstanceId req)"

definition serviceReply :: "bool \<Rightarrow> string \<Rightarrow> serviceOutcome \<Rightarrow> ExecutionResultStatusEnum \<times> smap" where
  "serviceReply isComp key outcome =
     (case outcome of
        CallError err \<Rightarrow> (ExecutionResultStatusEnum_Error,
          [''error'' \<mapsto> (if isComp then ''failed to compensate saga step instance with idempotent key ''
                      else ''failed to execute saga step instance with idempotent key '') @ quoted key @ '': '' @ err])
      | ResultError err \<Rightarrow> (ExecutionResultStatusEnum_Failed,
          [''error'' \<mapsto> (if isComp then ''compensation error in saga step instance with idempotent key ''
                      else ''execution error in saga step instance with idempotent key '') @ quoted key @ '': '' @ err])
      | Completed result \<Rightarrow> (ExecutionResultStatusEnum_Success, result))"

text \<open>The message both publish functions build; the random ids and the clock are arguments.\<close>
definition resultMessage ::
    "sagaStepExecutor \<Rightarrow> TraxMessage \<Rightarrow> SagaStepRequestPayload \<Rightarrow> ExecutionResultStatusEnum \<Rightarrow> smap \<Rightarrow>
     string \<Rightarrow> int \<Rightarrow> TraxMessage" where
  "resultMessage e msg req status result mid ts =
     AddPayload (jsonPayload SagaPayloadType_SagaStepExecutionResult (SagaStepExecutionResultBody
       \<lparr>Er_SagaSubmitterId = Tm_Submitter msg, Er_SagaInstanceId = Rq_SagaInstanceId req,
        Er_SagaStepInstanceId = Rq_SagaStepInstanceId req, Er_ZoneId = Rq_ZoneId req,
        Er_Status = status, Er_ExecutionResult = result\<rparr>))
     ((NewTraxMessageBuilder mid (Tm_TraceId msg) (Tm_ExecutionId msg) ts)
        \<lparr>Tm_RefMessageId := Tm_MessageId msg, Tm_ClusterId := Tm_ClusterId msg, Tm_Origin := Tm_Origin msg,
         Tm_Issuer := ex_subComponent e, Tm_Referrer := '''', Tm_Submitter := ex_subComponent e,
         Tm_SubmitterAffinityGroup := Rq_CoordinatorAffinity req, Tm_Session := Tm_Session msg\<rparr>)"

definition publishExecutionResult ::
    "sagaStepExecutor \<Rightarrow> TraxMessage \<Rightarrow> SagaStepRequestPayload \<Rightarrow> ExecutionResultStatusEnum \<Rightarrow> smap \<Rightarrow>
     string \<Rightarrow> int \<Rightarrow> published" where
  "publishExecutionResult e msg req status result mid ts =
     \<lparr>pub_exchange = getStepTopicExchangeName (ex_clusterId e),
      pub_routingKey = getStepResponseRoutingKey (ex_clusterId e) (Rq_CoordinatorAffinity req)
        (ex_sagaTemplateId e) (ex_sagaStepTemplateId e),
      pub_message = resultMessage e msg req status result mid ts\<rparr>"

definition publishCompensationResult ::
    "sagaStepExecutor \<Rightarrow> TraxMessage \<Rightarrow> SagaStepRequestPayload \<Rightarrow> ExecutionResultStatusEnum \<Rightarrow> smap \<Rightarrow>
     string \<Rightarrow> int \<Rightarrow> published" where
  "publishCompensationResult e msg req status result mid ts =
     \<lparr>pub_exchange = getStepTopicExchangeName (ex_clusterId e),
      pub_routingKey = getStepResponseRoutingKey (ex_clusterId e) (Rq_CoordinatorAffinity req)
        (ex_sagaTemplateId e) (ex_sagaStepTemplateId e),
      pub_message = resultMessage e msg req status result mid ts\<rparr>"

abbreviation inExecution :: "bool \<Rightarrow> TraxMessage \<Rightarrow> SagaStepRequestPayload \<Rightarrow> executor_task" where
  "inExecution isComp msg req \<equiv> Replying isComp False msg req ExecutionResultStatusEnum_InExecution Map.empty"

text \<open>An execution request up to the in-flight guard.\<close>
definition onExecutionRequest ::
    "sagaStepExecutor \<Rightarrow> TraxMessage \<Rightarrow> SagaStepRequestPayload \<Rightarrow> SagaIdempotencyKeyStatusEnum result \<Rightarrow>
     executor_state \<Rightarrow> executor_state" where
  "onExecutionRequest e msg req status s =
     (let key = executorKey e req in
      case status of
        Inl err \<Rightarrow> s\<lparr>tasks := tasks s @ [Replying False False msg req ExecutionResultStatusEnum_Error
          [''error'' \<mapsto> ''failed to check if saga step instance with idempotent key '' @ quoted key @
                      '' has already been executed: '' @ err]]\<rparr>
      | Inr st \<Rightarrow>
          if st = SagaIdempotencyKeyStatusEnum_Unknown \<or> key \<in> set (inFlightExec s)
          then s\<lparr>tasks := tasks s @ [inExecution False msg req]\<rparr>
          else if st = SagaIdempotencyKeyStatusEnum_InProgress \<and> \<not> isSubSagaExecutor e
          then s\<lparr>tasks := tasks s @ [inExecution False msg req]\<rparr>
          else if isSubSagaExecutor e
          then s\<lparr>inFlightExec := key # inFlightExec s,
                 tasks := tasks s @ [Serving False True key msg req, inExecution False msg req]\<rparr>
          else s\<lparr>inFlightExec := key # inFlightExec s, tasks := tasks s @ [Serving False False key msg req]\<rparr>)"

definition onCompensationRequest ::
    "sagaStepExecutor \<Rightarrow> TraxMessage \<Rightarrow> SagaStepRequestPayload \<Rightarrow> SagaIdempotencyKeyStatusEnum result \<Rightarrow>
     executor_state \<Rightarrow> executor_state" where
  "onCompensationRequest e msg req status s =
     (let key = executorKey e req in
      case status of
        Inl err \<Rightarrow> s\<lparr>tasks := tasks s @ [Replying True False msg req ExecutionResultStatusEnum_Error
          [''error'' \<mapsto> ''failed to check if saga step instance with idempotent key '' @ quoted key @
                      '' has already been compensated: '' @ err]]\<rparr>
      | Inr st \<Rightarrow>
          if st = SagaIdempotencyKeyStatusEnum_Unknown \<or> key \<in> set (inFlightComp s) \<or>
             st = SagaIdempotencyKeyStatusEnum_InProgress
          then s\<lparr>tasks := tasks s @ [inExecution True msg req]\<rparr>
          else s\<lparr>inFlightComp := key # inFlightComp s, tasks := tasks s @ [Serving True False key msg req]\<rparr>)"

text \<open>The inbox callback: empty messages and unknown payload types are dropped.\<close>
definition onInboxMessage ::
    "sagaStepExecutor \<Rightarrow> TraxMessage \<Rightarrow> SagaIdempotencyKeyStatusEnum result \<Rightarrow> executor_state \<Rightarrow> executor_state" where
  "onInboxMessage e msg status s =
     (case Tm_Payloads msg of
        [] \<Rightarrow> s
      | p # _ \<Rightarrow>
          if P_Type p = SagaPayloadType_SagaStepExecutionRequest
          then (case P_Data p of SagaStepExecutionRequestBody req \<Rightarrow> onExecutionRequest e msg req status s | _ \<Rightarrow> s)
          else if P_Type p = SagaPayloadType_SagaStepCompensationRequest
          then (case P_Data p of SagaStepCompensationRequestBody req \<Rightarrow> onCompensationRequest e msg req status s | _ \<Rightarrow> s)
          else s)"

text \<open>The service returns: the guard is removed and the reply is ready.\<close>
definition onServiceReturn :: "nat \<Rightarrow> serviceOutcome \<Rightarrow> executor_state \<Rightarrow> executor_state" where
  "onServiceReturn i outcome s =
     (if i < length (tasks s) then
        (case tasks s ! i of
           Serving isComp detached key msg req \<Rightarrow>
             (case serviceReply isComp key outcome of (status, result) \<Rightarrow>
                (if isComp then s\<lparr>inFlightComp := remove1 key (inFlightComp s)\<rparr>
                 else s\<lparr>inFlightExec := remove1 key (inFlightExec s)\<rparr>)
                \<lparr>tasks := (tasks s)[i := Replying isComp detached msg req status result]\<rparr>)
         | Replying _ _ _ _ _ _ \<Rightarrow> s)
      else s)"

text \<open>A reply is published and its callback ends; a failure of an undetached callback has the message
  redelivered.\<close>
definition onPublish :: "sagaStepExecutor \<Rightarrow> nat \<Rightarrow> fault \<Rightarrow> string \<Rightarrow> int \<Rightarrow> executor_state \<Rightarrow> executor_state" where
  "onPublish e i f mid ts s =
     (if i < length (tasks s) then
        (case tasks s ! i of
           Replying isComp detached msg req status result \<Rightarrow>
             (let p = (if isComp then publishCompensationResult e msg req status result mid ts
                       else publishExecutionResult e msg req status result mid ts)
              in s\<lparr>tasks := take i (tasks s) @ drop (Suc i) (tasks s),
                   sent := (if f = Fails then sent s else sent s @ [p]),
                   nacked := (if f \<noteq> Works \<and> \<not> detached then Suc (nacked s) else nacked s)\<rparr>)
         | Serving _ _ _ _ _ \<Rightarrow> s)
      else s)"

datatype executor_event =
    Deliver TraxMessage "SagaIdempotencyKeyStatusEnum result"
  | ServiceReturns nat serviceOutcome
  | Publish nat fault string int

fun executorStep :: "sagaStepExecutor \<Rightarrow> executor_event \<Rightarrow> executor_state \<Rightarrow> executor_state" where
  "executorStep e (Deliver msg status) s = onInboxMessage e msg status s"
| "executorStep e (ServiceReturns i outcome) s = onServiceReturn i outcome s"
| "executorStep e (Publish i f mid ts) s = onPublish e i f mid ts s"

definition newExecutorState :: executor_state where
  "newExecutorState = \<lparr>inFlightExec = [], inFlightComp = [], tasks = [], sent = [], nacked = 0\<rparr>"

definition runExecutor :: "sagaStepExecutor \<Rightarrow> executor_event list \<Rightarrow> executor_state" where
  "runExecutor e evs = fold (executorStep e) evs newExecutorState"

section \<open>The in-flight guard\<close>

text \<open>The keys of the services running now.\<close>
fun servingKey :: "bool \<Rightarrow> executor_task \<Rightarrow> string list" where
  "servingKey isComp (Serving c d key m r) = (if c = isComp then [key] else [])"
| "servingKey isComp (Replying c d m r st res) = []"

definition servingKeys :: "bool \<Rightarrow> executor_state \<Rightarrow> string list" where
  "servingKeys isComp s = concat (map (servingKey isComp) (tasks s))"

definition guard_inv :: "executor_state \<Rightarrow> bool" where
  "guard_inv s = (mset (servingKeys False s) = mset (inFlightExec s) \<and> distinct (inFlightExec s) \<and>
     mset (servingKeys True s) = mset (inFlightComp s) \<and> distinct (inFlightComp s))"

lemma servingKeys_append:
  "servingKeys c (s\<lparr>tasks := tasks s @ ts\<rparr>) = servingKeys c s @ concat (map (servingKey c) ts)"
  by (simp add: servingKeys_def)

lemma concat_update:
  "i < length xs \<Longrightarrow> mset (concat (map f (xs[i := y]))) + mset (f (xs ! i)) = mset (concat (map f xs)) + mset (f y)"
  by (induction xs arbitrary: i) (auto simp: nth_Cons' ac_simps split: nat.splits)

lemma concat_remove:
  assumes "i < length xs" and "f (xs ! i) = []"
  shows "concat (map f (take i xs @ drop (Suc i) xs)) = concat (map f xs)"
proof -
  have "concat (map f xs) = concat (map f (take i xs @ xs ! i # drop (Suc i) xs))"
    using id_take_nth_drop[OF assms(1)] by simp
  then show ?thesis using assms(2) by simp
qed

lemma guard_inv_new: "guard_inv newExecutorState"
  by (simp add: guard_inv_def newExecutorState_def servingKeys_def)

lemma guard_inv_request:
  assumes "guard_inv s"
  shows "guard_inv (onExecutionRequest e msg req status s)" and "guard_inv (onCompensationRequest e msg req status s)"
  using assms by (auto simp: guard_inv_def onExecutionRequest_def onCompensationRequest_def Let_def servingKeys_def
      split: sum.splits)

lemma guard_inv_inbox: "guard_inv s \<Longrightarrow> guard_inv (onInboxMessage e msg status s)"
  using guard_inv_request by (auto simp: onInboxMessage_def split: list.splits PayloadBody.splits)

lemma guard_inv_return:
  assumes "guard_inv s"
  shows "guard_inv (onServiceReturn i outcome s)"
proof (cases "i < length (tasks s)")
  case True
  show ?thesis
  proof (cases "tasks s ! i")
    case (Serving isComp detached key msg req)
    obtain st res where r: "serviceReply isComp key outcome = (st, res)" by fastforce
    let ?t = "(tasks s)[i := Replying isComp detached msg req st res]"
    have k: "mset (concat (map (servingKey c) ?t)) = mset (servingKeys c s) - mset (servingKey c (tasks s ! i))" for c
      using concat_update[OF True, of "servingKey c" "Replying isComp detached msg req st res"]
      by (metis add_diff_cancel_right' append_Nil2 mset_append servingKey.simps(2) servingKeys_def)
    show ?thesis
      using assms Serving r True k[of True] k[of False]
      by (cases isComp) (auto simp: guard_inv_def onServiceReturn_def servingKeys_def)
  next
    case (Replying isComp detached msg req st res)
    then show ?thesis using assms True by (simp add: onServiceReturn_def)
  qed
next
  case False
  then show ?thesis using assms by (simp add: onServiceReturn_def)
qed

lemma guard_inv_publish:
  assumes "guard_inv s"
  shows "guard_inv (onPublish e i f mid ts s)"
proof (cases "i < length (tasks s)")
  case True
  show ?thesis
  proof (cases "tasks s ! i")
    case (Serving isComp detached key msg req)
    then show ?thesis using assms True by (simp add: onPublish_def)
  next
    case (Replying isComp detached msg req st res)
    then have "concat (map (servingKey c) (take i (tasks s) @ drop (Suc i) (tasks s))) = servingKeys c s" for c
      using concat_remove[OF True, of "servingKey c"] by (simp add: servingKeys_def)
    then show ?thesis using assms Replying True by (simp add: guard_inv_def onPublish_def Let_def servingKeys_def)
  qed
next
  case False
  then show ?thesis using assms by (simp add: onPublish_def)
qed

lemma guard_inv_step: "guard_inv s \<Longrightarrow> guard_inv (executorStep e ev s)"
  by (cases ev) (simp_all add: guard_inv_inbox guard_inv_return guard_inv_publish)

lemma run_invariant:
  assumes "P newExecutorState" and "\<And>s ev. P s \<Longrightarrow> P (executorStep e ev s)"
  shows "P (runExecutor e evs)"
proof -
  have "P s \<Longrightarrow> P (fold (executorStep e) evs s)" for s by (induction evs arbitrary: s) (simp_all add: assms(2))
  then show ?thesis using assms(1) by (simp add: runExecutor_def)
qed


section \<open>Replies\<close>

text \<open>The request a message carries, and whether it asks for a compensation.\<close>
definition carries :: "TraxMessage \<Rightarrow> bool \<Rightarrow> SagaStepRequestPayload \<Rightarrow> bool" where
  "carries msg isComp req = (\<exists>p ps. Tm_Payloads msg = p # ps \<and>
     (if isComp then P_Type p = SagaPayloadType_SagaStepCompensationRequest \<and> P_Data p = SagaStepCompensationRequestBody req
      else P_Type p = SagaPayloadType_SagaStepExecutionRequest \<and> P_Data p = SagaStepExecutionRequestBody req))"

text \<open>A reply answers a request that was delivered: a Success carries what the service returned.\<close>
definition answers ::
    "executor_event list \<Rightarrow> bool \<Rightarrow> TraxMessage \<Rightarrow> SagaStepRequestPayload \<Rightarrow> ExecutionResultStatusEnum \<Rightarrow> smap \<Rightarrow> bool" where
  "answers evs isComp msg req status result =
     ((\<exists>st. Deliver msg st \<in> set evs) \<and> carries msg isComp req \<and>
      (status = ExecutionResultStatusEnum_Success \<longrightarrow> (\<exists>i. ServiceReturns i (Completed result) \<in> set evs)))"

definition task_ok :: "executor_event list \<Rightarrow> executor_task \<Rightarrow> bool" where
  "task_ok evs t = (case t of
     Serving isComp d key msg req \<Rightarrow> (\<exists>st. Deliver msg st \<in> set evs) \<and> carries msg isComp req
   | Replying isComp d msg req status result \<Rightarrow> answers evs isComp msg req status result)"

definition sent_ok :: "sagaStepExecutor \<Rightarrow> executor_event list \<Rightarrow> published \<Rightarrow> bool" where
  "sent_ok e evs p = (\<exists>isComp msg req status result mid ts. answers evs isComp msg req status result \<and>
     p = publishExecutionResult e msg req status result mid ts)"

definition replies_inv :: "sagaStepExecutor \<Rightarrow> executor_event list \<Rightarrow> executor_state \<Rightarrow> bool" where
  "replies_inv e evs s = ((\<forall>t \<in> set (tasks s). task_ok evs t) \<and> (\<forall>p \<in> set (sent s). sent_ok e evs p))"

lemma publish_same: "publishCompensationResult = publishExecutionResult"
  by (intro ext) (simp add: publishCompensationResult_def publishExecutionResult_def)

lemma answers_mono: "set evs \<subseteq> set evs' \<Longrightarrow> answers evs c m r st res \<Longrightarrow> answers evs' c m r st res"
  by (auto simp: answers_def)

lemma task_ok_mono: "set evs \<subseteq> set evs' \<Longrightarrow> task_ok evs t \<Longrightarrow> task_ok evs' t"
  using answers_mono by (cases t) (auto simp: task_ok_def)

lemma sent_ok_mono: "set evs \<subseteq> set evs' \<Longrightarrow> sent_ok e evs p \<Longrightarrow> sent_ok e evs' p"
  using answers_mono unfolding sent_ok_def by blast

lemma replies_request:
  assumes "carries msg isComp req" and "Deliver msg st \<in> set evs" and "replies_inv e evs s"
  shows "isComp = False \<Longrightarrow> replies_inv e evs (onExecutionRequest e msg req st s)"
    and "isComp = True \<Longrightarrow> replies_inv e evs (onCompensationRequest e msg req st s)"
  using assms
  by (auto simp: replies_inv_def onExecutionRequest_def onCompensationRequest_def Let_def task_ok_def answers_def
      split: sum.splits)

lemma replies_inbox:
  "Deliver msg st \<in> set evs \<Longrightarrow> replies_inv e evs s \<Longrightarrow> replies_inv e evs (onInboxMessage e msg st s)"
  using replies_request[of msg False _ st evs e s] replies_request[of msg True _ st evs e s]
  by (auto simp: onInboxMessage_def carries_def split: list.splits PayloadBody.splits)

lemma serviceReply_Success:
  "serviceReply isComp key outcome = (ExecutionResultStatusEnum_Success, result) \<Longrightarrow> outcome = Completed result"
  by (auto simp: serviceReply_def split: serviceOutcome.splits)

lemma replies_return:
  assumes "ServiceReturns i outcome \<in> set evs" and "replies_inv e evs s"
  shows "replies_inv e evs (onServiceReturn i outcome s)"
proof (cases "i < length (tasks s) \<and> (\<exists>c d key msg req. tasks s ! i = Serving c d key msg req)")
  case True
  then obtain isComp d key msg req where t: "i < length (tasks s)" "tasks s ! i = Serving isComp d key msg req" by blast
  obtain st res where r: "serviceReply isComp key outcome = (st, res)" by fastforce
  have "task_ok evs (tasks s ! i)" using assms(2) t(1) by (simp add: replies_inv_def)
  then have "answers evs isComp msg req st res"
    using t(2) r assms(1) serviceReply_Success[of isComp key outcome res] by (auto simp: task_ok_def answers_def)
  then have "task_ok evs (Replying isComp d msg req st res)" by (simp add: task_ok_def)
  moreover have "set ((tasks s)[i := Replying isComp d msg req st res]) \<subseteq> insert (Replying isComp d msg req st res) (set (tasks s))"
    by (rule set_update_subset_insert)
  ultimately show ?thesis
    using assms(2) t r by (auto simp: replies_inv_def onServiceReturn_def)
next
  case False
  then show ?thesis using assms(2) by (auto simp: onServiceReturn_def split: executor_task.splits)
qed

lemma replies_publish:
  assumes "replies_inv e evs s"
  shows "replies_inv e evs (onPublish e i f mid ts s)"
proof (cases "i < length (tasks s) \<and> (\<exists>c d msg req st res. tasks s ! i = Replying c d msg req st res)")
  case True
  then obtain isComp d msg req st res where t: "i < length (tasks s)" "tasks s ! i = Replying isComp d msg req st res" by blast
  have "task_ok evs (tasks s ! i)" using assms t(1) by (simp add: replies_inv_def)
  then have "answers evs isComp msg req st res" using t(2) by (simp add: task_ok_def)
  then have "sent_ok e evs (publishExecutionResult e msg req st res mid ts)" unfolding sent_ok_def by blast
  then show ?thesis
    using assms t by (auto simp: replies_inv_def onPublish_def Let_def publish_same dest: in_set_takeD in_set_dropD)
next
  case False
  then show ?thesis using assms by (auto simp: onPublish_def split: executor_task.splits)
qed

lemma run_replies: "replies_inv e evs (runExecutor e evs)"
proof (induction evs rule: rev_induct)
  case Nil
  then show ?case by (simp add: runExecutor_def newExecutorState_def replies_inv_def)
next
  case (snoc ev evs)
  have i: "replies_inv e (evs @ [ev]) (runExecutor e evs)"
  proof -
    have m: "set evs \<subseteq> set (evs @ [ev])" by auto
    show ?thesis using snoc task_ok_mono[OF m] sent_ok_mono[OF m] unfolding replies_inv_def by blast
  qed
  have "replies_inv e (evs @ [ev]) (executorStep e ev (runExecutor e evs))"
    using i replies_inbox replies_return replies_publish by (cases ev) auto
  then show ?case by (simp add: runExecutor_def)
qed

text \<open>C21: Every message the executor publishes answers a request it was delivered: it names that request's saga and
  step instance and refers to its message, and a Success carries a result the service returned.\<close>
theorem executor_replies_answer_requests:
  assumes "p \<in> set (sent (runExecutor e evs))"
  shows "\<exists>msg st isComp req status result. Deliver msg st \<in> set evs \<and> carries msg isComp req \<and>
    Tm_RefMessageId (pub_message p) = Tm_MessageId msg \<and>
    Tm_Payloads (pub_message p) = [jsonPayload SagaPayloadType_SagaStepExecutionResult (SagaStepExecutionResultBody
      \<lparr>Er_SagaSubmitterId = Tm_Submitter msg, Er_SagaInstanceId = Rq_SagaInstanceId req,
       Er_SagaStepInstanceId = Rq_SagaStepInstanceId req, Er_ZoneId = Rq_ZoneId req,
       Er_Status = status, Er_ExecutionResult = result\<rparr>)] \<and>
    pub_routingKey p = getStepResponseRoutingKey (ex_clusterId e) (Rq_CoordinatorAffinity req)
      (ex_sagaTemplateId e) (ex_sagaStepTemplateId e) \<and>
    (status = ExecutionResultStatusEnum_Success \<longrightarrow> (\<exists>i. ServiceReturns i (Completed result) \<in> set evs))"
proof -
  have "sent_ok e evs p" using run_replies[of e evs] assms by (simp add: replies_inv_def)
  then obtain isComp msg req status result mid ts where a: "answers evs isComp msg req status result"
    and p: "p = publishExecutionResult e msg req status result mid ts"
    unfolding sent_ok_def by blast
  have "Tm_RefMessageId (pub_message p) = Tm_MessageId msg"
    "Tm_Payloads (pub_message p) = [jsonPayload SagaPayloadType_SagaStepExecutionResult (SagaStepExecutionResultBody
      \<lparr>Er_SagaSubmitterId = Tm_Submitter msg, Er_SagaInstanceId = Rq_SagaInstanceId req,
       Er_SagaStepInstanceId = Rq_SagaStepInstanceId req, Er_ZoneId = Rq_ZoneId req,
       Er_Status = status, Er_ExecutionResult = result\<rparr>)]"
    "pub_routingKey p = getStepResponseRoutingKey (ex_clusterId e) (Rq_CoordinatorAffinity req)
      (ex_sagaTemplateId e) (ex_sagaStepTemplateId e)"
    by (simp_all add: p publishExecutionResult_def resultMessage_def AddPayload_def NewTraxMessageBuilder_def)
  then show ?thesis using a unfolding answers_def by blast
qed

definition exExecutor :: sagaStepExecutor where
  "exExecutor = \<lparr>ex_clusterId = ''c1'', ex_sagaTemplateId = ''t'', ex_sagaStepTemplateId = ''s'', ex_sagaSubmitter = False,
     ex_traxCtrlURL = '''', ex_subComponent = ''svc''\<rparr>"

definition exStepRequest :: SagaStepRequestPayload where
  "exStepRequest = \<lparr>Rq_SagaSubmitterId = ''sub'', Rq_SagaInstanceId = ''i1'', Rq_SagaStepInstanceId = ''i1s1'', Rq_ZoneId = ''z'',
     Rq_CoordinatorAffinity = ''a'', Rq_Input = Map.empty, Rq_Extra = Map.empty, Rq_Metadata = Map.empty,
     Rq_RootSagaInstanceId = '''', Rq_SagaDepth = 0\<rparr>"

definition exExecutionMessage :: TraxMessage where
  "exExecutionMessage = AddPayload (jsonPayload SagaPayloadType_SagaStepExecutionRequest (SagaStepExecutionRequestBody exStepRequest))
     (NewTraxMessageBuilder ''m1'' ''t1'' ''e1'' 5)"

text \<open>A request delivered twice: the redelivery is answered while the service runs.\<close>
definition exExecutorEvents :: "executor_event list" where
  "exExecutorEvents = [Deliver exExecutionMessage (Ok SagaIdempotencyKeyStatusEnum_NotSeen),
     Deliver exExecutionMessage (Ok SagaIdempotencyKeyStatusEnum_InProgress),
     ServiceReturns 0 (Completed [''x'' \<mapsto> ''1'']), Publish 0 Works ''r1'' 9]"

lemma exExecutor_sent:
  "sent (runExecutor exExecutor exExecutorEvents) =
     [publishExecutionResult exExecutor exExecutionMessage exStepRequest ExecutionResultStatusEnum_Success [''x'' \<mapsto> ''1''] ''r1'' 9]"
  by (simp add: runExecutor_def exExecutorEvents_def newExecutorState_def onInboxMessage_def exExecutionMessage_def
      AddPayload_def NewTraxMessageBuilder_def jsonPayload_def onExecutionRequest_def Let_def isSubSagaExecutor_def
      exExecutor_def onServiceReturn_def serviceReply_def onPublish_def)

theorem executor_replies_answer_requests_witness:
  "\<exists>p \<in> set (sent (runExecutor exExecutor exExecutorEvents)). \<exists>msg st isComp req.
    Deliver msg st \<in> set exExecutorEvents \<and> carries msg isComp req \<and> Tm_RefMessageId (pub_message p) = Tm_MessageId msg"
proof -
  let ?p = "publishExecutionResult exExecutor exExecutionMessage exStepRequest ExecutionResultStatusEnum_Success [''x'' \<mapsto> ''1''] ''r1'' 9"
  have p: "?p \<in> set (sent (runExecutor exExecutor exExecutorEvents))" by (simp add: exExecutor_sent)
  from executor_replies_answer_requests[OF this] show ?thesis using p by blast
qed

section \<open>Routing\<close>



section \<open>Timeouts\<close>

text \<open>Whatever the metadata of a step holds, both timeouts are positive; without a usable entry they are the
  default of 180 seconds.\<close>
theorem step_timeouts_positive:
  "0 < ExecutionTimeoutMsec (ParseStepConfiguration decode metadata) \<and>
   0 < CompensationTimeoutMsec (ParseStepConfiguration decode metadata) \<and>
   ((metadata StepConfigurationMetadataKey = None \<or> (\<forall>raw. decode raw = None)) \<longrightarrow>
     ParseStepConfiguration decode metadata = \<lparr>ExecutionTimeoutMsec = 180000, CompensationTimeoutMsec = 180000\<rparr>)"
  by (auto simp: ParseStepConfiguration_def DefaultStepTimeoutMsec_def Let_def split: option.splits)

theorem step_timeouts_positive_witness:
  "ParseStepConfiguration (\<lambda>_. None) [StepConfigurationMetadataKey \<mapsto> ''{''] =
    \<lparr>ExecutionTimeoutMsec = 180000, CompensationTimeoutMsec = 180000\<rparr>"
  using step_timeouts_positive[of "\<lambda>_. None"] by simp

end
