(* ===== verification/Saga_Listing.thy ===== *)
theory Saga_Listing
  imports Query_Clauses "HOL-Library.Word"
begin

text \<open>
  The listing request of the control daemon (\<open>traxctrl/api/v1/saga-instances_post_list.go\<close>): how the
  wire-level request becomes the \<open>QueryOptions\<close> the store is given.
\<close>

record sortFieldRequest =
  Sf_Field :: string
  Sf_Direction :: string

record listSagaInstancesRequest =
  Lr_ClusterId :: string
  Lr_PageNr :: "int option"
  Lr_PageSize :: "int option"
  Lr_Search :: string
  Lr_SortFields :: "sortFieldRequest list"
  Lr_State :: string
  Lr_SagaTemplateId :: string
  Lr_SagaSubmitterId :: string

definition requestedOr :: "int option \<Rightarrow> int \<Rightarrow> int" where
  "requestedOr v dflt = (case v of Some n \<Rightarrow> if n > 0 then n else dflt | None \<Rightarrow> dflt)"

definition requestPageSize :: "listSagaInstancesRequest \<Rightarrow> int" where
  "requestPageSize req = min 500 (requestedOr (Lr_PageSize req) 50)"

fun requestSortColumns :: "sortFieldRequest list \<Rightarrow> SortColumn list result" where
  "requestSortColumns [] = Ok []"
| "requestSortColumns (sf # rest) =
     (let field = strings_TrimSpace (Sf_Field sf)
      in if field = '''' then Err ''sort_fields contains an entry with empty field''
         else case SagaInstancesSortableFields field of
                None \<Rightarrow> Err (''sort_fields['' @ CHR 0x22 # field @ CHR 0x22 # ''] is not a sortable column on saga_instances'')
              | Some col \<Rightarrow>
                  let dir = (if strings_EqualFold (Sf_Direction sf) ''desc'' then ''DESC'' else ''ASC'')
                  in case requestSortColumns rest of
                       Err e \<Rightarrow> Err e
                     | Ok cols \<Rightarrow> Ok (\<lparr>Sc_Column = col, Sc_Direction = dir\<rparr> # cols))"

definition requestFilters :: "listSagaInstancesRequest \<Rightarrow> (string \<times> string) list" where
  "requestFilters req =
     (if Lr_State req \<noteq> '''' then [(''state'', Lr_State req)] else []) @
     (if Lr_SagaTemplateId req \<noteq> '''' then [(''saga_template_id'', Lr_SagaTemplateId req)] else []) @
     (if Lr_SagaSubmitterId req \<noteq> '''' then [(''saga_submitter_id'', Lr_SagaSubmitterId req)] else [])"

text \<open>Go's \<open>int\<close> product, which wraps at 64 bits.\<close>
definition mulInt64 :: "int \<Rightarrow> int \<Rightarrow> int" where
  "mulInt64 a b = sint ((word_of_int a * word_of_int b) :: 64 word)"

definition buildSagaListQueryOptions :: "listSagaInstancesRequest \<Rightarrow> QueryOptions result" where
  "buildSagaListQueryOptions req =
     (let pageNr = requestedOr (Lr_PageNr req) 1; pageSize = requestPageSize req
      in case requestSortColumns (Lr_SortFields req) of
           Err e \<Rightarrow> Err e
         | Ok cols \<Rightarrow> Ok (emptyQueryOptions\<lparr>Qo_Offset := mulInt64 (pageNr - 1) pageSize, Qo_Limit := pageSize,
             Qo_Search := Lr_Search req, Qo_SortBy := cols, Qo_Filters := requestFilters req\<rparr>))"

lemma requestPageSize_range: "1 \<le> requestPageSize req \<and> requestPageSize req \<le> 500"
  by (auto simp: requestPageSize_def requestedOr_def split: option.splits)

lemma sortable_field: "SagaInstancesSortableFields f = Some c \<Longrightarrow> SagaInstancesSortableFields c = Some c"
  by (auto simp: SagaInstancesSortableFields_def split: if_splits)

lemma requestSortColumns_safe:
  "requestSortColumns sfs = Ok cols \<Longrightarrow> col \<in> set cols \<Longrightarrow>
   SagaInstancesSortableFields (Sc_Column col) = Some (Sc_Column col) \<and> Sc_Direction col \<in> {''ASC'', ''DESC''}"
proof (induction sfs arbitrary: cols)
  case Nil
  then show ?case by simp
next
  case (Cons sf sfs)
  obtain c rest where c: "SagaInstancesSortableFields (strings_TrimSpace (Sf_Field sf)) = Some c"
    "requestSortColumns sfs = Inr rest"
    "cols = \<lparr>Sc_Column = c, Sc_Direction = (if strings_EqualFold (Sf_Direction sf) ''desc'' then ''DESC'' else ''ASC'')\<rparr> # rest"
    using Cons.prems(1) by (auto simp: Let_def split: if_splits option.splits sum.splits)
  show ?case
  proof (cases "col \<in> set rest")
    case True
    then show ?thesis using Cons.IH[OF c(2)] by blast
  next
    case False
    then show ?thesis using Cons.prems(2) c sortable_field[OF c(1)] by auto
  qed
qed

lemma request_filters:
  "distinct (map fst (requestFilters req))" "p \<in> set (requestFilters req) \<Longrightarrow> sagaInstancesAllowedFilters (fst p)"
  by (auto simp: requestFilters_def sagaInstancesAllowedFilters_def split: if_splits)

text \<open>Whatever the request asks for, the options the store is given keep the listing contract: at
  least 1 and at most 500 rows a page, only sortable columns in the \<open>ORDER BY\<close>, only \<open>ASC\<close> or \<open>DESC\<close> as the
  direction, and only filterable columns, each at most once.\<close>
theorem listing_request_contract:
  assumes "buildSagaListQueryOptions req = Ok q"
  shows "1 \<le> Qo_Limit q \<and> Qo_Limit q \<le> 500 \<and>
    (\<forall>c \<in> set (Qo_SortBy q). SagaInstancesSortableFields (Sc_Column c) = Some (Sc_Column c) \<and>
       Sc_Direction c \<in> {''ASC'', ''DESC''}) \<and>
    distinct (map fst (Qo_Filters q)) \<and> (\<forall>p \<in> set (Qo_Filters q). sagaInstancesAllowedFilters (fst p))"
proof -
  obtain cols where c: "requestSortColumns (Lr_SortFields req) = Ok cols" and
    q: "Qo_Limit q = requestPageSize req" "Qo_SortBy q = cols" "Qo_Filters q = requestFilters req"
    using assms by (auto simp: buildSagaListQueryOptions_def Let_def split: sum.splits)
  show ?thesis
    unfolding q using requestSortColumns_safe[OF c] requestPageSize_range request_filters by blast
qed

definition exListing :: listSagaInstancesRequest where
  "exListing = \<lparr>Lr_ClusterId = ''c1'', Lr_PageNr = Some 3, Lr_PageSize = Some 9000, Lr_Search = '''',
     Lr_SortFields = [\<lparr>Sf_Field = '' state '', Sf_Direction = ''DeSc''\<rparr>], Lr_State = ''RUNNING'',
     Lr_SagaTemplateId = '''', Lr_SagaSubmitterId = ''''\<rparr>"

lemma exListing_options:
  "buildSagaListQueryOptions exListing = Ok (emptyQueryOptions\<lparr>Qo_Offset := 1000, Qo_Limit := 500,
     Qo_SortBy := [\<lparr>Sc_Column = ''state'', Sc_Direction = ''DESC''\<rparr>], Qo_Filters := [(''state'', ''RUNNING'')]\<rparr>)"
  by code_simp

theorem listing_request_contract_witness:
  "\<exists>q. buildSagaListQueryOptions exListing = Ok q \<and> 1 \<le> Qo_Limit q \<and> Qo_Limit q \<le> 500"
  using listing_request_contract[OF exListing_options] exListing_options by blast

lemma mulInt64_exact:
  "- (2 ^ 63) \<le> a * b \<Longrightarrow> a * b < 2 ^ 63 \<Longrightarrow> mulInt64 a b = a * b"
proof -
  assume "- (2 ^ 63) \<le> a * b" "a * b < 2 ^ 63"
  moreover have "mulInt64 a b = signed_take_bit 63 (a * b)"
    unfolding mulInt64_def of_int_mult[symmetric] by (simp add: sint_sbintrunc' del: of_int_mult)
  ultimately show ?thesis by (simp add: signed_take_bit_int_eq_self)
qed

text \<open>The pages of a listing are contiguous: as long as the product stays below 2^63, page n starts
  exactly where the n - 1 pages before it end.\<close>
theorem listing_pages_contiguous:
  assumes "Lr_PageNr req = Some n" and "0 < n" and "n * requestPageSize req < 2 ^ 63"
    and "buildSagaListQueryOptions req = Ok q" and "buildSagaListQueryOptions (req\<lparr>Lr_PageNr := Some (n + 1)\<rparr>) = Ok q'"
  shows "Qo_Offset q' = Qo_Offset q + Qo_Limit q \<and> 0 \<le> Qo_Offset q \<and> (n = 1 \<longrightarrow> Qo_Offset q = 0)"
proof -
  have p: "1 \<le> requestPageSize req" using requestPageSize_range by blast
  have s: "requestPageSize (req\<lparr>Lr_PageNr := v\<rparr>) = requestPageSize req" for v by (simp add: requestPageSize_def)
  have n: "0 \<le> (n - 1) * requestPageSize req" "(n - 1) * requestPageSize req < 2 ^ 63"
    using assms(2,3) p by (auto simp: left_diff_distrib)
  have m: "mulInt64 (n - 1) (requestPageSize req) = (n - 1) * requestPageSize req"
    "mulInt64 n (requestPageSize req) = n * requestPageSize req"
    using n assms(2,3) p by (auto intro!: mulInt64_exact intro: order_trans[of _ 0])
  show ?thesis using assms m s n
    by (auto simp: buildSagaListQueryOptions_def requestedOr_def Let_def left_diff_distrib split: sum.splits)
qed

lemma exListing_next_options:
  "buildSagaListQueryOptions (exListing\<lparr>Lr_PageNr := Some (3 + 1)\<rparr>) = Ok (emptyQueryOptions\<lparr>Qo_Offset := 1500, Qo_Limit := 500,
     Qo_SortBy := [\<lparr>Sc_Column = ''state'', Sc_Direction = ''DESC''\<rparr>], Qo_Filters := [(''state'', ''RUNNING'')]\<rparr>)"
  by code_simp

theorem listing_pages_contiguous_witness: "\<exists>q. buildSagaListQueryOptions exListing = Ok q \<and> 0 \<le> Qo_Offset q"
proof -
  have "Lr_PageNr exListing = Some 3" "(3 :: int) * requestPageSize exListing < 2 ^ 63"
    by (simp_all add: exListing_def requestPageSize_def requestedOr_def)
  then show ?thesis
    using listing_pages_contiguous[OF _ _ _ exListing_options exListing_next_options] exListing_options by fastforce
qed

end
