(* ===== verification/Store_Inmem.thy ===== *)
theory Store_Inmem
  imports Saga_Registry Query_Clauses "HOL-Library.AList"
begin

text \<open>
  The in-memory store (\<open>pkg/trax/store_inmem.go\<close>).  Its maps hold pointers: a saga or step it was given
  stays shared with the caller, and the update operations write through the pointer they are handed.
  So sagas and steps live in a heap and the maps hold addresses; templates, clusters and annexes are
  never written in place and are kept by value.  A Go map is an association list whose order is the
  order a \<open>range\<close> over it happens to take.  Methods that return no error and touch nothing
  (\<open>Init\<close>, \<open>Close\<close>, \<open>HealthCheck\<close>, the three transaction methods, \<open>Notify\<close>) have no definition.
\<close>

type_synonym addr = nat

record inMemoryStore =
  sagaTemplates :: "(string \<times> SagaTemplate) list"
  sagaStepTemplates :: "(string \<times> SagaStepTemplate) list"
  sagaInstances :: "(string \<times> addr) list"
  sagaStepInstances :: "(string \<times> addr) list"
  clusters :: "(string \<times> Cluster) list"
  sagaAnnexes :: "(string \<times> SagaAnnex) list"
  sagaHeap :: "addr \<Rightarrow> SagaInstance"
  stepHeap :: "addr \<Rightarrow> SagaStepInstance"

definition NewInMemoryStore :: "(addr \<Rightarrow> SagaInstance) \<Rightarrow> (addr \<Rightarrow> SagaStepInstance) \<Rightarrow> inMemoryStore" where
  "NewInMemoryStore sh th =
     \<lparr>sagaTemplates = [], sagaStepTemplates = [], sagaInstances = [], sagaStepInstances = [],
      clusters = [], sagaAnnexes = [], sagaHeap = sh, stepHeap = th\<rparr>"

definition Im_Listen :: "string \<Rightarrow> unit result" where
  "Im_Listen channel = Err ''LISTEN/NOTIFY not supported for in-memory store''"

definition Im_Unlisten :: "string \<Rightarrow> unit result" where
  "Im_Unlisten channel = Err ''UNLISTEN not supported for in-memory store''"

section \<open>Sagas\<close>

definition Im_SaveSagaInstanceIdempotently :: "addr \<Rightarrow> inMemoryStore \<Rightarrow> bool result \<times> inMemoryStore" where
  "Im_SaveSagaInstanceIdempotently saga s =
     (let key = SagaInstance_SagaIdempotencyKey (sagaHeap s saga)
      in case map_of (sagaInstances s) key of
           Some _ \<Rightarrow> (Ok False, s)
         | None \<Rightarrow> (Ok True, s\<lparr>sagaInstances := AList.update key saga (sagaInstances s)\<rparr>))"

definition Im_UpdateSagaState :: "addr \<Rightarrow> SagaStateEnum \<Rightarrow> inMemoryStore \<Rightarrow> unit result \<times> inMemoryStore" where
  "Im_UpdateSagaState saga state s =
     (case map_of (sagaInstances s) (SagaInstance_SagaIdempotencyKey (sagaHeap s saga)) of
        None \<Rightarrow> (Err ErrSagaInstanceNotFound, s)
      | Some _ \<Rightarrow> (Ok (), s\<lparr>sagaHeap := (sagaHeap s)(saga := (sagaHeap s saga)\<lparr>Si_State := state\<rparr>)\<rparr>))"

text \<open>The sagas in the order of the loop over the map.\<close>
abbreviation sagaRange :: "inMemoryStore \<Rightarrow> addr list" where
  "sagaRange s \<equiv> map snd (sagaInstances s)"

abbreviation stepRange :: "inMemoryStore \<Rightarrow> addr list" where
  "stepRange s \<equiv> map snd (sagaStepInstances s)"

definition Im_GetSagaInstance :: "string \<Rightarrow> string \<Rightarrow> inMemoryStore \<Rightarrow> addr result" where
  "Im_GetSagaInstance clusterId instanceId s =
     (case find (\<lambda>a. Si_InstanceId (sagaHeap s a) = instanceId) (sagaRange s) of
        Some a \<Rightarrow> Ok a
      | None \<Rightarrow> Err ErrSagaInstanceNotFound)"

definition Im_ListSagaInstances :: "string \<Rightarrow> inMemoryStore \<Rightarrow> addr list" where
  "Im_ListSagaInstances clusterId s = filter (\<lambda>a. Si_ClusterId (sagaHeap s a) = clusterId) (sagaRange s)"

definition Im_ListSagaInstanceIds :: "string \<Rightarrow> inMemoryStore \<Rightarrow> string list" where
  "Im_ListSagaInstanceIds clusterId s =
     map (\<lambda>a. Si_InstanceId (sagaHeap s a)) (filter (\<lambda>a. Si_ClusterId (sagaHeap s a) = clusterId) (sagaRange s))"

definition Im_GetChildSagaInstances :: "string \<Rightarrow> string \<Rightarrow> inMemoryStore \<Rightarrow> addr list" where
  "Im_GetChildSagaInstances clusterId parentSagaInstanceId s =
     filter (\<lambda>a. Si_ClusterId (sagaHeap s a) = clusterId \<and>
       Si_ParentSagaInstanceId (sagaHeap s a) = parentSagaInstanceId) (sagaRange s)"

definition Im_GetSagaHierarchy :: "string \<Rightarrow> string \<Rightarrow> inMemoryStore \<Rightarrow> addr list" where
  "Im_GetSagaHierarchy clusterId rootSagaInstanceId s =
     filter (\<lambda>a. Si_ClusterId (sagaHeap s a) = clusterId \<and>
       Si_RootSagaInstanceId (sagaHeap s a) = rootSagaInstanceId) (sagaRange s)"

definition Im_TriggerSagaCompensation :: "string \<Rightarrow> string \<Rightarrow> inMemoryStore \<Rightarrow> unit result \<times> inMemoryStore" where
  "Im_TriggerSagaCompensation clusterId sagaInstanceId s =
     (case find (\<lambda>a. Si_ClusterId (sagaHeap s a) = clusterId \<and> Si_InstanceId (sagaHeap s a) = sagaInstanceId)
             (sagaRange s) of
        None \<Rightarrow> (Err ErrSagaInstanceNotFound, s)
      | Some a \<Rightarrow>
          if Si_State (sagaHeap s a) \<noteq> SagaStateEnum_Committed
          then (Err (''saga instance '' @ sagaInstanceId @ '' is not in COMMITTED state (current: '' @
                 sagaStateString (Si_State (sagaHeap s a)) @ '')''), s)
          else (Ok (), s\<lparr>sagaHeap := (sagaHeap s)(a := (sagaHeap s a)\<lparr>Si_State := SagaStateEnum_CompensationRequested\<rparr>)\<rparr>))"

definition Im_ForceMarkSagaCompensated ::
    "string \<Rightarrow> string \<Rightarrow> string \<Rightarrow> inMemoryStore \<Rightarrow> unit result \<times> inMemoryStore" where
  "Im_ForceMarkSagaCompensated clusterId sagaInstanceId reason s =
     (if reason = '''' then (Err ''reason is required for force-mark compensated'', s)
      else case find (\<lambda>a. Si_ClusterId (sagaHeap s a) = clusterId \<and> Si_InstanceId (sagaHeap s a) = sagaInstanceId)
             (sagaRange s) of
        None \<Rightarrow> (Err ErrSagaInstanceNotFound, s)
      | Some a \<Rightarrow>
          if Si_State (sagaHeap s a) \<noteq> SagaStateEnum_Blocked
          then (Err (''saga instance '' @ sagaInstanceId @ '' is not in BLOCKED state (current: '' @
                 sagaStateString (Si_State (sagaHeap s a)) @ '')''), s)
          else (Ok (), s\<lparr>sagaHeap := (sagaHeap s)(a := (sagaHeap s a)\<lparr>Si_State := SagaStateEnum_Compensated,
                  Si_CompensationReason := ''[FORCE-MARKED] '' @ reason\<rparr>)\<rparr>))"

section \<open>Steps\<close>

definition Im_SaveSagaStepInstanceIdempotently :: "addr \<Rightarrow> inMemoryStore \<Rightarrow> bool result \<times> inMemoryStore" where
  "Im_SaveSagaStepInstanceIdempotently step s =
     (let key = SagaStepInstance_SagaIdempotencyKey (stepHeap s step)
      in case map_of (sagaStepInstances s) key of
           Some _ \<Rightarrow> (Ok False, s)
         | None \<Rightarrow> (Ok True, s\<lparr>sagaStepInstances := AList.update key step (sagaStepInstances s)\<rparr>))"

definition Im_UpdateSagaStepState :: "addr \<Rightarrow> SagaStepStateEnum \<Rightarrow> inMemoryStore \<Rightarrow> unit result \<times> inMemoryStore" where
  "Im_UpdateSagaStepState step state s =
     (case map_of (sagaStepInstances s) (SagaStepInstance_SagaIdempotencyKey (stepHeap s step)) of
        None \<Rightarrow> (Err ErrSagaStepInstanceNotFound, s)
      | Some _ \<Rightarrow> (Ok (), s\<lparr>stepHeap := (stepHeap s)(step := (stepHeap s step)\<lparr>Ss_State := state\<rparr>)\<rparr>))"

text \<open>\<open>UpdateSagaStepResult\<close>, \<open>UpdateSagaStepCompensationResult\<close> and
  \<open>UpdateSagaStepInstanceExecutionHistory\<close>: the object is the caller's already.\<close>
definition Im_UpdateSagaStepInPlace :: "addr \<Rightarrow> inMemoryStore \<Rightarrow> unit result" where
  "Im_UpdateSagaStepInPlace step s =
     (case map_of (sagaStepInstances s) (SagaStepInstance_SagaIdempotencyKey (stepHeap s step)) of
        None \<Rightarrow> Err ErrSagaStepInstanceNotFound
      | Some _ \<Rightarrow> Ok ())"

definition Im_GetSagaStepInstance :: "string \<Rightarrow> string \<Rightarrow> inMemoryStore \<Rightarrow> addr result" where
  "Im_GetSagaStepInstance clusterId instanceId s =
     (case find (\<lambda>a. Ss_ClusterId (stepHeap s a) = clusterId \<and> Ss_InstanceId (stepHeap s a) = instanceId) (stepRange s) of
        Some a \<Rightarrow> Ok a
      | None \<Rightarrow> Err ErrSagaStepInstanceNotFound)"

definition Im_GetSagaStepBySagaIdempotencyKey :: "string \<Rightarrow> inMemoryStore \<Rightarrow> addr result" where
  "Im_GetSagaStepBySagaIdempotencyKey key s =
     (case map_of (sagaStepInstances s) key of Some a \<Rightarrow> Ok a | None \<Rightarrow> Err ErrSagaStepInstanceNotFound)"

definition Im_GetSagaStepInstancesByStates ::
    "string \<Rightarrow> SagaStateEnum list \<Rightarrow> SagaStepStateEnum list \<Rightarrow> inMemoryStore \<Rightarrow> addr list" where
  "Im_GetSagaStepInstancesByStates affinity sagaStates stepStates s =
     filter (\<lambda>a. Ss_Affinity (stepHeap s a) = affinity \<and>
       (case find (\<lambda>g. Si_InstanceId (sagaHeap s g) = Ss_SagaInstanceId (stepHeap s a)) (sagaRange s) of
          None \<Rightarrow> False
        | Some g \<Rightarrow> Si_State (sagaHeap s g) \<in> set sagaStates \<and> Ss_State (stepHeap s a) \<in> set stepStates)) (stepRange s)"

definition Im_ListSagaStepInstances :: "string \<Rightarrow> inMemoryStore \<Rightarrow> addr list" where
  "Im_ListSagaStepInstances clusterId s = filter (\<lambda>a. Ss_ClusterId (stepHeap s a) = clusterId) (stepRange s)"

definition Im_ListSagaStepInstanceIds :: "string \<Rightarrow> inMemoryStore \<Rightarrow> string list" where
  "Im_ListSagaStepInstanceIds clusterId s =
     map (\<lambda>a. Ss_InstanceId (stepHeap s a)) (filter (\<lambda>a. Ss_ClusterId (stepHeap s a) = clusterId) (stepRange s))"

definition Im_ListSagaStepInstancesBySagaInstanceId :: "string \<Rightarrow> string \<Rightarrow> inMemoryStore \<Rightarrow> addr list" where
  "Im_ListSagaStepInstancesBySagaInstanceId clusterId sagaInstanceId s =
     filter (\<lambda>a. Ss_ClusterId (stepHeap s a) = clusterId \<and> Ss_SagaInstanceId (stepHeap s a) = sagaInstanceId) (stepRange s)"

section \<open>Templates and clusters\<close>

definition Im_SaveSagaTemplateIdempotently :: "SagaTemplate \<Rightarrow> inMemoryStore \<Rightarrow> bool result \<times> inMemoryStore" where
  "Im_SaveSagaTemplateIdempotently t s =
     (case map_of (sagaTemplates s) (St_TemplateId t) of
        Some _ \<Rightarrow> (Ok False, s)
      | None \<Rightarrow> (Ok True, s\<lparr>sagaTemplates := AList.update (St_TemplateId t) t (sagaTemplates s)\<rparr>))"

definition Im_GetSagaTemplate :: "string \<Rightarrow> inMemoryStore \<Rightarrow> SagaTemplate result" where
  "Im_GetSagaTemplate tid s =
     (case map_of (sagaTemplates s) tid of Some t \<Rightarrow> Ok t | None \<Rightarrow> Err ''saga template not found'')"

definition Im_SaveSagaStepTemplateIdempotently :: "SagaStepTemplate \<Rightarrow> inMemoryStore \<Rightarrow> bool result \<times> inMemoryStore" where
  "Im_SaveSagaStepTemplateIdempotently t s =
     (case map_of (sagaStepTemplates s) (Sst_TemplateId t) of
        Some _ \<Rightarrow> (Ok False, s)
      | None \<Rightarrow> (Ok True, s\<lparr>sagaStepTemplates := AList.update (Sst_TemplateId t) t (sagaStepTemplates s)\<rparr>))"

definition Im_GetSagaStepTemplate :: "string \<Rightarrow> inMemoryStore \<Rightarrow> SagaStepTemplate result" where
  "Im_GetSagaStepTemplate tid s =
     (case map_of (sagaStepTemplates s) tid of Some t \<Rightarrow> Ok t | None \<Rightarrow> Err ''saga step template not found'')"

definition Im_ListSagaTemplates :: "inMemoryStore \<Rightarrow> SagaTemplate list" where
  "Im_ListSagaTemplates s = map snd (sagaTemplates s)"

definition Im_ListSagaTemplateIds :: "inMemoryStore \<Rightarrow> string list" where
  "Im_ListSagaTemplateIds s = map fst (sagaTemplates s)"

definition Im_ListSagaStepTemplates :: "inMemoryStore \<Rightarrow> SagaStepTemplate list" where
  "Im_ListSagaStepTemplates s = map snd (sagaStepTemplates s)"

definition Im_ListSagaStepTemplateIds :: "inMemoryStore \<Rightarrow> string list" where
  "Im_ListSagaStepTemplateIds s = map fst (sagaStepTemplates s)"

definition Im_UpdateSagaTemplate :: "SagaTemplate \<Rightarrow> inMemoryStore \<Rightarrow> unit result \<times> inMemoryStore" where
  "Im_UpdateSagaTemplate t s =
     (case map_of (sagaTemplates s) (St_TemplateId t) of
        None \<Rightarrow> (Err (''saga template not found: '' @ St_TemplateId t), s)
      | Some _ \<Rightarrow> (Ok (), s\<lparr>sagaTemplates := AList.update (St_TemplateId t) t (sagaTemplates s)\<rparr>))"

definition Im_DeleteSagaTemplate :: "string \<Rightarrow> inMemoryStore \<Rightarrow> unit result \<times> inMemoryStore" where
  "Im_DeleteSagaTemplate tid s =
     (case map_of (sagaTemplates s) tid of
        None \<Rightarrow> (Err (''saga template not found: '' @ tid), s)
      | Some _ \<Rightarrow> (Ok (), s\<lparr>sagaStepTemplates := filter (\<lambda>p. Sst_SagaTemplateId (snd p) \<noteq> tid) (sagaStepTemplates s),
                           sagaTemplates := AList.delete tid (sagaTemplates s)\<rparr>))"

definition Im_UpdateSagaStepTemplate :: "SagaStepTemplate \<Rightarrow> inMemoryStore \<Rightarrow> unit result \<times> inMemoryStore" where
  "Im_UpdateSagaStepTemplate t s =
     (case map_of (sagaStepTemplates s) (Sst_TemplateId t) of
        None \<Rightarrow> (Err (''saga step template not found: '' @ Sst_TemplateId t), s)
      | Some _ \<Rightarrow> (Ok (), s\<lparr>sagaStepTemplates := AList.update (Sst_TemplateId t) t (sagaStepTemplates s)\<rparr>))"

definition Im_DeleteSagaStepTemplate :: "string \<Rightarrow> inMemoryStore \<Rightarrow> unit result \<times> inMemoryStore" where
  "Im_DeleteSagaStepTemplate tid s =
     (case map_of (sagaStepTemplates s) tid of
        None \<Rightarrow> (Err (''saga step template not found: '' @ tid), s)
      | Some _ \<Rightarrow> (Ok (), s\<lparr>sagaStepTemplates := AList.delete tid (sagaStepTemplates s)\<rparr>))"

definition Im_SaveClusterIdempotently :: "Cluster \<Rightarrow> inMemoryStore \<Rightarrow> bool result \<times> inMemoryStore" where
  "Im_SaveClusterIdempotently c s =
     (case map_of (clusters s) (Cl_Id c) of
        Some _ \<Rightarrow> (Ok False, s)
      | None \<Rightarrow> (Ok True, s\<lparr>clusters := AList.update (Cl_Id c) c (clusters s)\<rparr>))"

definition Im_GetCluster :: "string \<Rightarrow> inMemoryStore \<Rightarrow> Cluster result" where
  "Im_GetCluster cid s = (case map_of (clusters s) cid of Some c \<Rightarrow> Ok c | None \<Rightarrow> Err ''cluster not found'')"

definition Im_UpdateCluster :: "Cluster \<Rightarrow> inMemoryStore \<Rightarrow> unit result \<times> inMemoryStore" where
  "Im_UpdateCluster c s =
     (case map_of (clusters s) (Cl_Id c) of
        None \<Rightarrow> (Err ''cluster not found'', s)
      | Some _ \<Rightarrow> (Ok (), s\<lparr>clusters := AList.update (Cl_Id c) c (clusters s)\<rparr>))"

definition Im_DeleteCluster :: "string \<Rightarrow> inMemoryStore \<Rightarrow> unit result \<times> inMemoryStore" where
  "Im_DeleteCluster cid s =
     (case map_of (clusters s) cid of
        None \<Rightarrow> (Err ''cluster not found'', s)
      | Some _ \<Rightarrow> (Ok (), s\<lparr>clusters := AList.delete cid (clusters s)\<rparr>))"

definition Im_ListClusters :: "inMemoryStore \<Rightarrow> Cluster list" where
  "Im_ListClusters s = map snd (clusters s)"

definition Im_ListClusterIds :: "inMemoryStore \<Rightarrow> string list" where
  "Im_ListClusterIds s = map fst (clusters s)"

section \<open>Annexes\<close>

definition Im_CreateSagaAnnex :: "SagaAnnex option \<Rightarrow> inMemoryStore \<Rightarrow> unit result \<times> inMemoryStore" where
  "Im_CreateSagaAnnex annex s =
     (case annex of
        None \<Rightarrow> (Err ''annex iid and saga_instance_id are required'', s)
      | Some a \<Rightarrow>
          if An_Iid a = '''' \<or> An_SagaInstanceId a = ''''
          then (Err ''annex iid and saga_instance_id are required'', s)
          else case map_of (sagaInstances s) (An_SagaInstanceId a) of
                 None \<Rightarrow> (Err (''saga instance not found: '' @ An_SagaInstanceId a), s)
               | Some g \<Rightarrow>
                   if Si_ClusterId (sagaHeap s g) \<noteq> An_ClusterId a
                   then (Err (''saga instance not found: '' @ An_SagaInstanceId a), s)
                   else let cp = (if An_ContentLength a = 0
                                  then a\<lparr>An_ContentLength := int (length (An_ContentData a))\<rparr> else a);
                            saga = sagaHeap s g
                        in (Ok (), s\<lparr>sagaAnnexes := AList.update (An_Iid cp) cp (sagaAnnexes s),
                              sagaHeap := (sagaHeap s)(g := saga\<lparr>Si_AnnexIids := Si_AnnexIids saga @ [An_Iid cp]\<rparr>)\<rparr>))"

definition Im_ListSagaAnnexes :: "string \<Rightarrow> string \<Rightarrow> inMemoryStore \<Rightarrow> SagaAnnex list" where
  "Im_ListSagaAnnexes clusterId sagaInstanceId s =
     map (\<lambda>a. a\<lparr>An_ContentData := ''''\<rparr>)
       (filter (\<lambda>a. An_ClusterId a = clusterId \<and> An_SagaInstanceId a = sagaInstanceId) (map snd (sagaAnnexes s)))"

definition Im_GetSagaAnnexBytes :: "string \<Rightarrow> string \<Rightarrow> inMemoryStore \<Rightarrow> SagaAnnex result" where
  "Im_GetSagaAnnexBytes clusterId annexIid s =
     (case map_of (sagaAnnexes s) annexIid of
        None \<Rightarrow> Err (''annex not found: '' @ annexIid)
      | Some a \<Rightarrow> if An_ClusterId a \<noteq> clusterId then Err (''annex not found: '' @ annexIid) else Ok a)"

section \<open>The contract of the saga table\<close>

definition im_contents :: "inMemoryStore \<Rightarrow> SagaInstance list" where
  "im_contents s = map (sagaHeap s) (sagaRange s)"

text \<open>Every saga is filed under its own idempotency key.\<close>
definition im_wf :: "inMemoryStore \<Rightarrow> bool" where
  "im_wf s = (distinct (map fst (sagaInstances s)) \<and> distinct (map sagaIdent (im_contents s)) \<and>
     (\<forall>(k, a) \<in> set (sagaInstances s). k = SagaInstance_SagaIdempotencyKey (sagaHeap s a)))"

definition im_view :: "inMemoryStore \<Rightarrow> string \<times> string \<rightharpoonup> SagaInstance" where
  "im_view s k = map_option unstamped (find (\<lambda>r. sagaIdent r = k) (im_contents s))"

text \<open>Idempotency keys join ids with dots, so two clusters can produce the same key.\<close>
definition im_admits :: "inMemoryStore \<Rightarrow> SagaInstance \<Rightarrow> bool" where
  "im_admits s g = (\<forall>r \<in> set (im_contents s).
     SagaInstance_SagaIdempotencyKey r = SagaInstance_SagaIdempotencyKey g \<longrightarrow> Si_ClusterId r = Si_ClusterId g)"

text \<open>A caller allocates the saga and hands the store its pointer.\<close>
definition freshAddr :: "inMemoryStore \<Rightarrow> addr" where
  "freshAddr s = Suc (sum_list (sagaRange s))"

definition im_save :: "SagaInstance \<Rightarrow> inMemoryStore \<Rightarrow> bool result \<times> inMemoryStore" where
  "im_save g s = (let a = freshAddr s
     in Im_SaveSagaInstanceIdempotently a (s\<lparr>sagaHeap := (sagaHeap s)(a := g)\<rparr>))"

lemma freshAddr_new: "freshAddr s \<notin> set (sagaRange s)"
  using member_le_sum_list[of "freshAddr s" "sagaRange s"] by (auto simp: freshAddr_def)

lemma im_contents_fresh: "im_contents (s\<lparr>sagaHeap := (sagaHeap s)(freshAddr s := g)\<rparr>) = im_contents s"
  using freshAddr_new[of s] by (force simp: im_contents_def)

lemma AList_update_fresh: "map_of xs k = None \<Longrightarrow> AList.update k v xs = xs @ [(k, v)]"
  by (induction xs) (auto split: if_splits)

lemma im_view_Some:
  "im_wf s \<Longrightarrow> im_view s k = Some x \<longleftrightarrow> (\<exists>r \<in> set (im_contents s). sagaIdent r = k \<and> x = unstamped r)"
  by (auto simp: im_view_def im_wf_def find_ident_iff)

lemma im_ran: "im_wf s \<Longrightarrow> ran (im_view s) = unstamped ` set (im_contents s)"
  by (auto simp: ran_def im_view_Some) (metis surj_pair)

lemma im_keys: "im_wf s \<Longrightarrow> map fst (sagaInstances s) = map SagaInstance_SagaIdempotencyKey (im_contents s)"
  by (auto simp: im_wf_def im_contents_def)

lemma im_keyed:
  assumes "im_wf s"
  shows "keyed_in (im_view s) g \<Longrightarrow> map_of (sagaInstances s) (SagaInstance_SagaIdempotencyKey g) \<noteq> None"
    and "\<not> keyed_in (im_view s) g \<Longrightarrow> im_admits s g \<Longrightarrow>
      map_of (sagaInstances s) (SagaInstance_SagaIdempotencyKey g) = None"
proof -
  have k: "(map_of (sagaInstances s) key = None) = (key \<notin> SagaInstance_SagaIdempotencyKey ` set (im_contents s))" for key
    using arg_cong[OF im_keys[OF assms], of set] by (simp add: map_of_eq_None_iff)
  show "keyed_in (im_view s) g \<Longrightarrow> map_of (sagaInstances s) (SagaInstance_SagaIdempotencyKey g) \<noteq> None"
    unfolding k by (auto simp: keyed_in_def im_ran[OF assms] intro: rev_image_eqI)
  show "\<not> keyed_in (im_view s) g \<Longrightarrow> im_admits s g \<Longrightarrow>
      map_of (sagaInstances s) (SagaInstance_SagaIdempotencyKey g) = None"
    unfolding k by (auto simp: keyed_in_def im_ran[OF assms] im_admits_def)
qed

lemma im_wf_fresh: "im_wf s \<Longrightarrow> im_wf (s\<lparr>sagaHeap := (sagaHeap s)(freshAddr s := g)\<rparr>)"
  using freshAddr_new[of s] im_contents_fresh[of s g] by (force simp: im_wf_def)

lemma im_save_known:
  assumes "im_wf s" and "keyed_in (im_view s) g"
  shows "\<exists>s'. im_save g s = (Ok False, s') \<and> im_wf s' \<and> im_view s' = im_view s"
  using im_keyed(1)[OF assms] im_wf_fresh[OF assms(1)] im_contents_fresh[of s g]
  by (auto simp: im_save_def Im_SaveSagaInstanceIdempotently_def Let_def im_view_def fun_eq_iff)

lemma im_save_fresh:
  assumes "im_wf s" and "\<not> keyed_in (im_view s) g" and "im_view s (sagaIdent g) = None" and "im_admits s g"
  shows "\<exists>s'. im_save g s = (Ok True, s') \<and> im_wf s' \<and> im_view s' = (im_view s)(sagaIdent g \<mapsto> unstamped g)"
proof -
  let ?a = "freshAddr s" and ?k = "SagaInstance_SagaIdempotencyKey g"
  let ?h = "s\<lparr>sagaHeap := (sagaHeap s)(?a := g)\<rparr>"
  let ?s = "?h\<lparr>sagaInstances := sagaInstances s @ [(?k, ?a)]\<rparr>"
  have none: "map_of (sagaInstances s) ?k = None" using im_keyed(2)[OF assms(1,2,4)] .
  have c: "im_contents ?s = im_contents s @ [g]"
    using im_contents_fresh[of s g] by (simp add: im_contents_def)
  have nf: "find (\<lambda>r. sagaIdent r = sagaIdent g) (im_contents s) = None"
    using assms(3) by (simp add: im_view_def)
  have "im_save g s = (Ok True, ?s)"
    by (simp add: im_save_def Im_SaveSagaInstanceIdempotently_def none AList_update_fresh Let_def)
  moreover have "im_wf ?s"
    using assms(1) im_wf_fresh[OF assms(1), of g] none nf
    by (auto simp: im_wf_def c im_contents_fresh find_None_iff map_of_eq_None_iff image_iff)
  moreover have "im_view ?s k = ((im_view s)(sagaIdent g \<mapsto> unstamped g)) k" for k
    using nf by (auto simp: im_view_def c find_snoc split: option.splits)
  ultimately show ?thesis by blast
qed

text \<open>Writing through the pointer a loop found is a guarded update of the row with that identity.\<close>
lemma im_contents_write:
  assumes "im_wf s" and "a \<in> set (sagaRange s)" and "sagaIdent (sagaHeap s a) = k"
  shows "im_contents (s\<lparr>sagaHeap := (sagaHeap s)(a := f (sagaHeap s a))\<rparr>) =
    map (\<lambda>r. if sagaIdent r = k then f r else r) (im_contents s)"
proof -
  have "inj_on (\<lambda>b. sagaIdent (sagaHeap s b)) (set (sagaRange s))"
    using assms(1) by (auto simp: im_wf_def im_contents_def distinct_map comp_def inj_on_def)
  then have "(sagaIdent (sagaHeap s b) = k) = (b = a)" if "b \<in> set (sagaRange s)" for b
    using assms(2,3) that by (auto dest: inj_onD)
  then show ?thesis by (auto simp: im_contents_def)
qed

lemma im_write_wf:
  assumes "im_wf s" and "a \<in> set (sagaRange s)" and "sagaIdent (sagaHeap s a) = k"
    and "\<And>r. sagaIdent (f r) = sagaIdent r"
    and "\<And>r. SagaInstance_SagaIdempotencyKey (f r) = SagaInstance_SagaIdempotencyKey r"
    and "\<And>r. unstamped (f r) = unstamped (f (unstamped r))"
  shows "im_wf (s\<lparr>sagaHeap := (sagaHeap s)(a := f (sagaHeap s a))\<rparr>)"
    and "im_view (s\<lparr>sagaHeap := (sagaHeap s)(a := f (sagaHeap s a))\<rparr>) =
      (im_view s)(k \<mapsto> unstamped (f (unstamped (sagaHeap s a))))"
proof -
  let ?s = "s\<lparr>sagaHeap := (sagaHeap s)(a := f (sagaHeap s a))\<rparr>"
  have c: "im_contents ?s = map (\<lambda>r. if sagaIdent r = k then f r else r) (im_contents s)"
    by (rule im_contents_write[OF assms(1-3)])
  have "map sagaIdent (im_contents ?s) = map sagaIdent (im_contents s)" using assms(4) by (simp add: c)
  then show "im_wf ?s" using assms(1,5) by (auto simp: im_wf_def)
  have f: "find (\<lambda>r. sagaIdent r = k) (im_contents s) = Some (sagaHeap s a)"
    using assms(1,2,3) find_ident_iff[of "im_contents s" k] by (auto simp: im_wf_def im_contents_def)
  show "im_view ?s = (im_view s)(k \<mapsto> unstamped (f (unstamped (sagaHeap s a))))"
  proof
    show "im_view ?s j = ((im_view s)(k \<mapsto> unstamped (f (unstamped (sagaHeap s a))))) j" for j
      using f assms(6)[of "sagaHeap s a"]
      by (cases "find (\<lambda>r. sagaIdent r = j) (im_contents s)")
        (auto simp: im_view_def c find_updated[of f, OF assms(4)])
  qed
qed

lemma im_find:
  assumes "im_wf s"
  shows "find (\<lambda>a. Si_ClusterId (sagaHeap s a) = c \<and> Si_InstanceId (sagaHeap s a) = i) (sagaRange s) = None \<longleftrightarrow>
      im_view s (c, i) = None"
    and "find (\<lambda>a. Si_ClusterId (sagaHeap s a) = c \<and> Si_InstanceId (sagaHeap s a) = i) (sagaRange s) = Some a \<Longrightarrow>
      a \<in> set (sagaRange s) \<and> sagaIdent (sagaHeap s a) = (c, i) \<and> im_view s (c, i) = Some (unstamped (sagaHeap s a))"
proof -
  show "find (\<lambda>a. Si_ClusterId (sagaHeap s a) = c \<and> Si_InstanceId (sagaHeap s a) = i) (sagaRange s) = None \<longleftrightarrow>
      im_view s (c, i) = None"
    by (auto simp: im_view_def im_contents_def find_None_iff sagaIdent_def)
  assume "find (\<lambda>a. Si_ClusterId (sagaHeap s a) = c \<and> Si_InstanceId (sagaHeap s a) = i) (sagaRange s) = Some a"
  then have "a \<in> set (sagaRange s)" "sagaIdent (sagaHeap s a) = (c, i)"
    by (auto simp: find_Some_iff sagaIdent_def)
  then show "a \<in> set (sagaRange s) \<and> sagaIdent (sagaHeap s a) = (c, i) \<and> im_view s (c, i) = Some (unstamped (sagaHeap s a))"
    using im_view_Some[OF assms, of "(c, i)"] by (auto simp: im_contents_def)
qed

lemma im_trigger:
  assumes "im_wf s"
  shows "(\<And>x. im_view s (c, i) = Some x \<Longrightarrow> Si_State x \<noteq> SagaStateEnum_Committed) \<Longrightarrow>
      \<exists>e s'. Im_TriggerSagaCompensation c i s = (Err e, s') \<and> im_wf s' \<and> im_view s' = im_view s"
    and "im_view s (c, i) = Some x \<Longrightarrow> Si_State x = SagaStateEnum_Committed \<Longrightarrow>
      \<exists>s'. Im_TriggerSagaCompensation c i s = (Ok (), s') \<and> im_wf s' \<and>
        im_view s' = (im_view s)((c, i) \<mapsto> x\<lparr>Si_State := SagaStateEnum_CompensationRequested\<rparr>)"
proof -
  let ?f = "\<lambda>r. r\<lparr>Si_State := SagaStateEnum_CompensationRequested\<rparr>"
  have f: "sagaIdent (?f r) = sagaIdent r" "unstamped (?f r) = unstamped (?f (unstamped r))"
    "SagaInstance_SagaIdempotencyKey (?f r) = SagaInstance_SagaIdempotencyKey r" for r
    by (simp_all add: sagaIdent_def unstamped_def SagaInstance_SagaIdempotencyKey_def)
  show "\<exists>e s'. Im_TriggerSagaCompensation c i s = (Err e, s') \<and> im_wf s' \<and> im_view s' = im_view s"
    if "\<And>x. im_view s (c, i) = Some x \<Longrightarrow> Si_State x \<noteq> SagaStateEnum_Committed"
    using that assms im_find(2)[OF assms, of c i]
    by (auto simp: Im_TriggerSagaCompensation_def split: option.splits)
  show "\<exists>s'. Im_TriggerSagaCompensation c i s = (Ok (), s') \<and> im_wf s' \<and>
        im_view s' = (im_view s)((c, i) \<mapsto> x\<lparr>Si_State := SagaStateEnum_CompensationRequested\<rparr>)"
    if x: "im_view s (c, i) = Some x" "Si_State x = SagaStateEnum_Committed"
  proof -
    obtain a where a: "find (\<lambda>a. Si_ClusterId (sagaHeap s a) = c \<and> Si_InstanceId (sagaHeap s a) = i) (sagaRange s) = Some a"
      using x(1) im_find(1)[OF assms, of c i] by fastforce
    note m = im_find(2)[OF assms a]
    have "unstamped (?f (unstamped (sagaHeap s a))) = ?f x"
      using m x(1) by (simp add: unstamped_def)
    then show ?thesis
      using im_write_wf[of s a "(c, i)" ?f, OF assms _ _ f(1,3,2)] m x a by (simp add: Im_TriggerSagaCompensation_def)
  qed
qed

lemma im_force:
  assumes "im_wf s"
  shows "r = '''' \<or> (\<forall>x. im_view s (c, i) = Some x \<longrightarrow> Si_State x \<noteq> SagaStateEnum_Blocked) \<Longrightarrow>
      \<exists>e s'. Im_ForceMarkSagaCompensated c i r s = (Err e, s') \<and> im_wf s' \<and> im_view s' = im_view s"
    and "r \<noteq> '''' \<Longrightarrow> im_view s (c, i) = Some x \<Longrightarrow> Si_State x = SagaStateEnum_Blocked \<Longrightarrow>
      \<exists>s'. Im_ForceMarkSagaCompensated c i r s = (Ok (), s') \<and> im_wf s' \<and>
        im_view s' = (im_view s)((c, i) \<mapsto> x\<lparr>Si_State := SagaStateEnum_Compensated,
                                              Si_CompensationReason := ''[FORCE-MARKED] '' @ r\<rparr>)"
proof -
  let ?f = "\<lambda>x. x\<lparr>Si_State := SagaStateEnum_Compensated, Si_CompensationReason := ''[FORCE-MARKED] '' @ r\<rparr>"
  have f: "sagaIdent (?f y) = sagaIdent y" "unstamped (?f y) = unstamped (?f (unstamped y))"
    "SagaInstance_SagaIdempotencyKey (?f y) = SagaInstance_SagaIdempotencyKey y" for y
    by (simp_all add: sagaIdent_def unstamped_def SagaInstance_SagaIdempotencyKey_def)
  show "\<exists>e s'. Im_ForceMarkSagaCompensated c i r s = (Err e, s') \<and> im_wf s' \<and> im_view s' = im_view s"
    if "r = '''' \<or> (\<forall>x. im_view s (c, i) = Some x \<longrightarrow> Si_State x \<noteq> SagaStateEnum_Blocked)"
    using that assms im_find(2)[OF assms, of c i]
    by (auto simp: Im_ForceMarkSagaCompensated_def split: option.splits)
  show "\<exists>s'. Im_ForceMarkSagaCompensated c i r s = (Ok (), s') \<and> im_wf s' \<and>
        im_view s' = (im_view s)((c, i) \<mapsto> x\<lparr>Si_State := SagaStateEnum_Compensated,
                                              Si_CompensationReason := ''[FORCE-MARKED] '' @ r\<rparr>)"
    if r: "r \<noteq> ''''" and x: "im_view s (c, i) = Some x" "Si_State x = SagaStateEnum_Blocked"
  proof -
    obtain a where a: "find (\<lambda>a. Si_ClusterId (sagaHeap s a) = c \<and> Si_InstanceId (sagaHeap s a) = i) (sagaRange s) = Some a"
      using x(1) im_find(1)[OF assms, of c i] by fastforce
    note m = im_find(2)[OF assms a]
    have "unstamped (?f (unstamped (sagaHeap s a))) = ?f x"
      using m x(1) by (simp add: unstamped_def)
    then show ?thesis
      using im_write_wf[of s a "(c, i)" ?f, OF assms _ _ f(1,3,2)] m x a r by (simp add: Im_ForceMarkSagaCompensated_def)
  qed
qed

interpretation inmem: saga_registry im_wf im_view im_admits im_save
  Im_TriggerSagaCompensation Im_ForceMarkSagaCompensated
proof unfold_locales
  show "sagaIdent x = k" if "im_wf s" "im_view s k = Some x" for s k x
    using that by (auto simp: im_view_Some)
qed (fact im_save_known im_save_fresh im_trigger im_force)+

section \<open>Properties\<close>

text \<open>Submitting a saga to the in-memory store twice stores it once: the first call reports that it
  saved the saga, the second that it was there, and the store shows exactly the one new saga.\<close>
theorem inmem_save_idempotent:
  assumes "im_wf s" and "\<not> keyed_in (im_view s) g" and "im_view s (sagaIdent g) = None" and "im_admits s g"
  shows "\<exists>s1 s2. im_save g s = (Ok True, s1) \<and> im_save g s1 = (Ok False, s2) \<and> im_wf s2 \<and>
    im_view s2 = (im_view s)(sagaIdent g \<mapsto> unstamped g)"
  by (rule inmem.save_twice[OF assms])

definition exEmptyStore :: inMemoryStore where
  "exEmptyStore = NewInMemoryStore (\<lambda>_. zeroSagaInstance) (\<lambda>_. zeroStepInstance)"

theorem inmem_save_idempotent_witness:
  "\<exists>s1 s2. im_save zeroSagaInstance exEmptyStore = (Ok True, s1) \<and> im_save zeroSagaInstance s1 = (Ok False, s2)"
proof -
  have "im_wf exEmptyStore" "\<not> keyed_in (im_view exEmptyStore) zeroSagaInstance"
    "im_view exEmptyStore (sagaIdent zeroSagaInstance) = None" "im_admits exEmptyStore zeroSagaInstance"
    by (simp_all add: exEmptyStore_def NewInMemoryStore_def im_wf_def im_view_def im_admits_def im_contents_def keyed_in_def ran_def)
  from inmem_save_idempotent[OF this] show ?thesis by blast
qed

text \<open>The in-memory store never attaches an annex to a saga: it looks the saga up by its instance id
  in a map whose keys are idempotency keys, which all contain a colon, so an annex for any saga with a
  colon-free instance id is refused and the store is unchanged.\<close>
theorem inmem_annex_always_refused:
  assumes "im_wf s" and "CHR '':'' \<notin> set (An_SagaInstanceId a)"
  shows "\<exists>e. Im_CreateSagaAnnex (Some a) s = (Err e, s)"
proof -
  have "map_of (sagaInstances s) (An_SagaInstanceId a) = None"
  proof (rule ccontr)
    assume "map_of (sagaInstances s) (An_SagaInstanceId a) \<noteq> None"
    then obtain b where "(An_SagaInstanceId a, b) \<in> set (sagaInstances s)" by (auto dest: map_of_SomeD)
    then have "An_SagaInstanceId a = SagaInstance_SagaIdempotencyKey (sagaHeap s b)"
      using assms(1) by (auto simp: im_wf_def)
    then show False
      using assms(2) by (simp add: SagaInstance_SagaIdempotencyKey_def getSagaIdempotencyKey_def)
  qed
  then show ?thesis by (auto simp: Im_CreateSagaAnnex_def)
qed

definition exAnnex :: SagaAnnex where
  "exAnnex = \<lparr>An_Iid = ''a1'', An_ClusterId = '''', An_SagaInstanceId = ''i1'', An_ContentType = ''text/plain'',
     An_ContentLength = 0, An_Notes = '''', An_ContentData = ''x'', An_CreatedAt = 0, An_UpdatedAt = 0\<rparr>"

theorem inmem_annex_always_refused_witness:
  "\<exists>s e. im_view s ('''', ''i1'') \<noteq> None \<and> Im_CreateSagaAnnex (Some exAnnex) s = (Err e, s)"
proof -
  let ?g = "zeroSagaInstance\<lparr>Si_InstanceId := ''i1''\<rparr>"
  have id: "sagaIdent ?g = ('''', ''i1'')" by (simp add: sagaIdent_def zeroSagaInstance_def)
  have "im_wf exEmptyStore" "\<not> keyed_in (im_view exEmptyStore) ?g"
    "im_view exEmptyStore (sagaIdent ?g) = None" "im_admits exEmptyStore ?g"
    by (simp_all add: exEmptyStore_def NewInMemoryStore_def im_wf_def im_view_def im_admits_def im_contents_def keyed_in_def ran_def)
  then obtain s where s: "im_wf s" "im_view s = (im_view exEmptyStore)(sagaIdent ?g \<mapsto> unstamped ?g)"
    using im_save_fresh by blast
  then have "im_view s ('''', ''i1'') \<noteq> None" by (simp add: id)
  moreover have "CHR '':'' \<notin> set (An_SagaInstanceId exAnnex)" by (simp add: exAnnex_def)
  ultimately show ?thesis using inmem_annex_always_refused[OF s(1)] by blast
qed

end
