(* ===== verification/Inmem_Listing.thy ===== *)
theory Inmem_Listing
  imports Store_Inmem
begin

text \<open>
  The paginated saga listing of the in-memory store (\<open>store_inmem.go\<close>): filters, search, primary sort
  column and page.  \<open>json.Marshal\<close> of a map and of a list are arguments: a Go map's keys are enumerated
  there, and the search only looks for a substring of what they return.
\<close>

definition inMemorySagaSortKey :: "SagaInstance \<Rightarrow> string \<Rightarrow> string" where
  "inMemorySagaSortKey g column =
     (if column = ''instance_id'' then Si_InstanceId g
      else if column = ''created_at'' then itoa (Si_CreatedAt g)
      else if column = ''updated_at'' then itoa (Si_UpdatedAt g)
      else if column = ''state'' then sagaStateString (Si_State g)
      else if column = ''saga_template_id'' then Si_SagaTemplateId g
      else if column = ''saga_submitter_id'' then Si_SagaSubmitterId g
      else if column = ''trace_id'' then Si_TraceId g
      else if column = ''execution_id'' then Si_ExecutionId g
      else if column = ''zone_id'' then Si_ZoneId g
      else '''')"

text \<open>\<open>opts.Filters[key]\<close> reads \<open>""\<close> for an absent key.\<close>
definition filterValue :: "QueryOptions \<Rightarrow> string \<Rightarrow> string" where
  "filterValue q key = (case map_of (Qo_Filters q) key of Some v \<Rightarrow> v | None \<Rightarrow> '''')"

definition searchHaystack :: "(smap \<Rightarrow> string) \<Rightarrow> (string list \<Rightarrow> string) \<Rightarrow> SagaInstance \<Rightarrow> string" where
  "searchHaystack marshalMap marshalList g =
     strings_ToLower (strings_Join
       [Si_InstanceId g, Si_ZoneId g, Si_TraceId g, Si_ExecutionId g, Si_SagaSubmitterId g, Si_Origin g,
        Si_OriginIdempotencyKey g, marshalMap (Si_Labels g), marshalList (Si_Tags g), marshalMap (Si_Metadata g),
        marshalMap (Si_Input g), sagaStateString (Si_State g), Si_SagaTemplateId g, Si_ParentSagaInstanceId g,
        Si_ParentSagaStepInstanceId g, Si_RootSagaInstanceId g, Si_CompensationReason g] '' '')"

definition listedSaga ::
    "(smap \<Rightarrow> string) \<Rightarrow> (string list \<Rightarrow> string) \<Rightarrow> string \<Rightarrow> QueryOptions \<Rightarrow> SagaInstance \<Rightarrow> bool" where
  "listedSaga marshalMap marshalList clusterId q g =
     (let needle = strings_ToLower (strings_TrimSpace (Qo_Search q));
          stateFilter = filterValue q ''state'';
          templateFilter = filterValue q ''saga_template_id'';
          submitterFilter = filterValue q ''saga_submitter_id''
      in Si_ClusterId g = clusterId \<and>
         (stateFilter = '''' \<or> sagaStateString (Si_State g) = stateFilter) \<and>
         (templateFilter = '''' \<or> Si_SagaTemplateId g = templateFilter) \<and>
         (submitterFilter = '''' \<or> Si_SagaSubmitterId g = submitterFilter) \<and>
         (needle = '''' \<or> strings_Contains (searchHaystack marshalMap marshalList g) needle))"

text \<open>\<open>sort.SliceStable\<close> with \<open>a < b\<close>, or \<open>a > b\<close> when descending: both keep equal keys in order.\<close>
definition sortedByPrimary :: "QueryOptions \<Rightarrow> (addr \<Rightarrow> SagaInstance) \<Rightarrow> addr list \<Rightarrow> addr list" where
  "sortedByPrimary q heap as =
     (case Qo_SortBy q of
        [] \<Rightarrow> as
      | primary # _ \<Rightarrow>
          if strings_EqualFold (Sc_Direction primary) ''DESC''
          then rev (sort_key (\<lambda>a. inMemorySagaSortKey (heap a) (Sc_Column primary)) (rev as))
          else sort_key (\<lambda>a. inMemorySagaSortKey (heap a) (Sc_Column primary)) as)"

definition Im_ListSagaInstancesPaginated ::
    "(smap \<Rightarrow> string) \<Rightarrow> (string list \<Rightarrow> string) \<Rightarrow> string \<Rightarrow> QueryOptions option \<Rightarrow> inMemoryStore \<Rightarrow> addr list \<times> int" where
  "Im_ListSagaInstancesPaginated marshalMap marshalList clusterId opts s =
     (let q = (case opts of None \<Rightarrow> emptyQueryOptions | Some q \<Rightarrow> q);
          all = sortedByPrimary q (sagaHeap s)
                  (filter (\<lambda>a. listedSaga marshalMap marshalList clusterId q (sagaHeap s a)) (sagaRange s));
          totalCount = int (length all);
          offset = (if Qo_Offset q < 0 then 0 else Qo_Offset q);
          limit = Qo_Limit q
      in if offset \<ge> totalCount then ([], totalCount)
         else let upto = (if limit > 0 \<and> offset + limit < totalCount then offset + limit else totalCount)
              in (take (nat upto - nat offset) (drop (nat offset) all), totalCount))"

definition unpaged :: "QueryOptions \<Rightarrow> QueryOptions" where
  "unpaged q = q\<lparr>Qo_Offset := 0, Qo_Limit := 0\<rparr>"

lemma listed_unpaged:
  "listedSaga mm ml c (q\<lparr>Qo_Offset := o', Qo_Limit := l\<rparr>) = listedSaga mm ml c q"
  "sortedByPrimary (q\<lparr>Qo_Offset := o', Qo_Limit := l\<rparr>) = sortedByPrimary q"
  by (auto simp: fun_eq_iff listedSaga_def filterValue_def sortedByPrimary_def)

lemma page_is_slice:
  assumes "0 < l"
  shows "fst (Im_ListSagaInstancesPaginated mm ml c (Some (q\<lparr>Qo_Offset := int k, Qo_Limit := int l\<rparr>)) s) =
    take l (drop k (fst (Im_ListSagaInstancesPaginated mm ml c (Some (unpaged q)) s)))"
  using assms by (auto simp: Im_ListSagaInstancesPaginated_def unpaged_def listed_unpaged Let_def nat_add_distrib)

lemma slices_concat: "concat (map (\<lambda>i. take l (drop (i * l) xs)) [0..<n]) = take (n * l) xs"
proof (induction n)
  case 0
  then show ?case by simp
next
  case (Suc n)
  have "take (Suc n * l) xs = take (n * l) xs @ take l (drop (n * l) xs)"
    using take_add[of "n * l" l xs] by (simp add: add.commute)
  then show ?case using Suc by simp
qed

text \<open>Walking the pages of a listing gives the unpaginated listing: every match is on exactly one page
  and in the same order.\<close>
theorem inmem_pages_cover:
  assumes "0 < l" and "length (fst (Im_ListSagaInstancesPaginated mm ml c (Some (unpaged q)) s)) \<le> n * l"
  shows "concat (map (\<lambda>i. fst (Im_ListSagaInstancesPaginated mm ml c
      (Some (q\<lparr>Qo_Offset := int (i * l), Qo_Limit := int l\<rparr>)) s)) [0..<n]) =
    fst (Im_ListSagaInstancesPaginated mm ml c (Some (unpaged q)) s)"
  using assms by (simp add: page_is_slice slices_concat del: of_nat_mult)



definition exListed :: inMemoryStore where
  "exListed = exEmptyStore\<lparr>sagaInstances := [(''k1'', 1), (''k2'', 2), (''k3'', 3)]\<rparr>"

theorem inmem_pages_cover_witness:
  "concat (map (\<lambda>i. fst (Im_ListSagaInstancesPaginated (\<lambda>_. '''') (\<lambda>_. '''') ''''
      (Some (emptyQueryOptions\<lparr>Qo_Offset := int (i * 2), Qo_Limit := int 2\<rparr>)) exListed)) [0..<2]) = [1, 2, 3]"
proof -
  have a: "fst (Im_ListSagaInstancesPaginated (\<lambda>_. '''') (\<lambda>_. '''') '''' (Some (unpaged emptyQueryOptions)) exListed) = [1, 2, 3]"
    by code_simp
  show ?thesis using inmem_pages_cover[where l = 2 and n = 2 and s = exListed] a by simp
qed

end
