(* ===== verification/Lease_Lock.thy ===== *)
theory Lease_Lock
  imports Prelude
begin

text \<open>
  What the users of the distributed locks of \<open>pkg/cache\<close> rely on, as a locale: a lock is a lease that a
  successful attempt takes until a deadline, that a live lease refuses every other attempt and that only
  a release or the deadline ends it.  The PostgreSQL and the Redis lock are interpretations.
\<close>

datatype lease = Unlocked | Until int | Forever

fun live :: "lease \<Rightarrow> int \<Rightarrow> bool" where
  "live Unlocked now = False"
| "live (Until e) now = (now < e)"
| "live Forever now = True"

datatype ('k, 'a, 'r) lock_op = Attempt 'k 'a | Free 'r

text \<open>A run of timed operations by any number of clients; the results of the attempts in order.\<close>
primrec lock_run :: "('k \<Rightarrow> 'a \<Rightarrow> int \<Rightarrow> 's \<Rightarrow> bool \<times> 's) \<Rightarrow> ('r \<Rightarrow> int \<Rightarrow> 's \<Rightarrow> 's) \<Rightarrow>
    (int \<times> ('k, 'a, 'r) lock_op) list \<Rightarrow> 's \<Rightarrow> ('k \<times> bool) list \<times> 's" where
  "lock_run attempt release [] s = ([], s)"
| "lock_run attempt release (x # xs) s =
     (case snd x of
        Attempt k a \<Rightarrow> (case attempt k a (fst x) s of (b, s1) \<Rightarrow>
                         (case lock_run attempt release xs s1 of (rs, s2) \<Rightarrow> ((k, b) # rs, s2)))
      | Free r \<Rightarrow> lock_run attempt release xs (release r (fst x) s))"

locale lease_lock =
  fixes leased :: "'s \<Rightarrow> 'k \<Rightarrow> lease"
    and attempt :: "'k \<Rightarrow> 'a \<Rightarrow> int \<Rightarrow> 's \<Rightarrow> bool \<times> 's"
    and deadline :: "'a \<Rightarrow> int \<Rightarrow> lease"
    and release :: "'r \<Rightarrow> int \<Rightarrow> 's \<Rightarrow> 's"
    and frees :: "'s \<Rightarrow> 'r \<Rightarrow> int \<Rightarrow> 'k \<Rightarrow> bool"
    and wf :: "'s \<Rightarrow> bool"
  assumes attempt_live: "wf s \<Longrightarrow> live (leased s k) now \<Longrightarrow> attempt k a now s = (False, s)"
    and attempt_free: "wf s \<Longrightarrow> \<not> live (leased s k) now \<Longrightarrow>
      \<exists>s'. attempt k a now s = (True, s') \<and> wf s' \<and> leased s' = (leased s)(k := deadline a now)"
    and release_frees: "wf s \<Longrightarrow> wf (release r now s)"
      "wf s \<Longrightarrow> leased (release r now s) k = (if frees s r now k then Unlocked else leased s k)"
begin

text \<open>No release in the run frees the key.\<close>
primrec unreleased :: "'k \<Rightarrow> (int \<times> ('k, 'a, 'r) lock_op) list \<Rightarrow> 's \<Rightarrow> bool" where
  "unreleased k [] s = True"
| "unreleased k (x # xs) s =
     (case snd x of
        Attempt j a \<Rightarrow> unreleased k xs (snd (attempt j a (fst x) s))
      | Free r \<Rightarrow> \<not> frees s r (fst x) k \<and> unreleased k xs (release r (fst x) s))"

lemma attempt_wf: "wf s \<Longrightarrow> wf (snd (attempt k a now s))"
  using attempt_live attempt_free by (metis snd_conv)

lemma attempt_other: "wf s \<Longrightarrow> live (leased s k) now \<or> j \<noteq> k \<Longrightarrow> leased (snd (attempt j a now s)) k = leased s k"
  using attempt_live[of s j now a] attempt_free[of s j now a] by (cases "live (leased s j) now") fastforce+

text \<open>While a lease is live, every attempt on its key fails, whoever makes it.\<close>
lemma run_excluded:
  "\<lbrakk> wf s; \<forall>x \<in> set xs. live (leased s k) (fst x); unreleased k xs s \<rbrakk> \<Longrightarrow>
   (k, True) \<notin> set (fst (lock_run attempt release xs s)) \<and> leased (snd (lock_run attempt release xs s)) k = leased s k"
proof (induction xs arbitrary: s)
  case Nil
  then show ?case by simp
next
  case (Cons x xs)
  show ?case
  proof (cases "snd x")
    case (Attempt j a)
    let ?s = "snd (attempt j a (fst x) s)"
    have l: "leased ?s k = leased s k" using attempt_other Cons.prems by simp
    have "j = k \<Longrightarrow> fst (attempt j a (fst x) s) = False" using attempt_live Cons.prems by simp
    moreover have "(k, True) \<notin> set (fst (lock_run attempt release xs ?s)) \<and> leased (snd (lock_run attempt release xs ?s)) k = leased ?s k"
      by (rule Cons.IH) (use Cons.prems Attempt l attempt_wf in auto)
    ultimately show ?thesis using Attempt l by (auto simp: case_prod_beta)
  next
    case (Free r)
    let ?s = "release r (fst x) s"
    have l: "leased ?s k = leased s k" using release_frees(2) Cons.prems Free by simp
    have "(k, True) \<notin> set (fst (lock_run attempt release xs ?s)) \<and> leased (snd (lock_run attempt release xs ?s)) k = leased ?s k"
      by (rule Cons.IH) (use Cons.prems Free l release_frees(1) in auto)
    then show ?thesis using Free l by simp
  qed
qed

text \<open>Mutual exclusion: between taking a lease and its deadline, without a release, nobody else takes it.\<close>
lemma leases_do_not_overlap:
  assumes "wf s" and "attempt k a now s = (True, s1)" and "\<forall>x \<in> set xs. live (deadline a now) (fst x)"
    and "unreleased k xs s1"
  shows "(k, True) \<notin> set (fst (lock_run attempt release xs s1))"
proof -
  have "\<not> live (leased s k) now" using assms(1,2) attempt_live by fastforce
  then have s1: "wf s1" "leased s1 k = deadline a now" using assms(1,2) attempt_free[of s k now a] by auto
  show ?thesis using run_excluded[OF s1(1), of xs k] assms(3,4) s1(2) by simp
qed

text \<open>No lock is lost for ever: after the deadline the next attempt takes it.\<close>
lemma expired_can_be_taken:
  "wf s \<Longrightarrow> \<not> live (leased s k) now \<Longrightarrow> fst (attempt k a now s)"
  using attempt_free[of s k now a] by auto

end

end
