(* ===== verification/Keyed_Lock.thy ===== *)
theory Keyed_Lock
  imports Lease_Lock
begin

text \<open>
  The keyed lock backed by a PostgreSQL table (\<open>pkg/cache/pgsql_keyed_lock.go\<close>).  Times are milliseconds of
  the server's clock; a Go \<open>time.Duration\<close> is nanoseconds.  A statement that fails on the connection
  leaves the table as it is and is left out.
\<close>

record lock_row =
  lock_key :: string
  holder_id :: string
  acquired_at :: int
  expires_at :: int

type_synonym lock_table = "lock_row list"

definition DefaultKeyedLockTTL :: int where
  "DefaultKeyedLockTTL = 5 * 60 * 1000000000"

text \<open>\<open>ttl.Milliseconds()\<close> truncates; a ttl that is not positive is the default.\<close>
definition ttlMillis :: "int \<Rightarrow> int" where
  "ttlMillis ttl = (if ttl \<le> 0 then DefaultKeyedLockTTL else ttl) div 1000000"

definition ErrKeyedLockHeld :: string where
  "ErrKeyedLockHeld = ''cache.KeyedLockStore: another holder owns the lock for this key''"

text \<open>\<open>INSERT ... ON CONFLICT (lock_key) DO UPDATE ... WHERE expires_at <= NOW()\<close>, with the rows affected.\<close>
definition sqlKeyedLockAcquire :: "string \<Rightarrow> string \<Rightarrow> int \<Rightarrow> int \<Rightarrow> lock_table \<Rightarrow> nat \<times> lock_table" where
  "sqlKeyedLockAcquire key holderID millis now t =
     (let row = \<lparr>lock_key = key, holder_id = holderID, acquired_at = now, expires_at = now + millis\<rparr>
      in case find (\<lambda>r. lock_key r = key) t of
           None \<Rightarrow> (1, t @ [row])
         | Some r \<Rightarrow> if expires_at r \<le> now then (1, map (\<lambda>r. if lock_key r = key then row else r) t) else (0, t))"

definition Acquire :: "string \<Rightarrow> string \<Rightarrow> int \<Rightarrow> int \<Rightarrow> lock_table \<Rightarrow> unit result \<times> lock_table" where
  "Acquire key holderID ttl now t =
     (case sqlKeyedLockAcquire key holderID (ttlMillis ttl) now t of
        (n, t') \<Rightarrow> if n = 0 then (Err ErrKeyedLockHeld, t') else (Ok (), t'))"

definition Release :: "string \<Rightarrow> lock_table \<Rightarrow> int result \<times> lock_table" where
  "Release holderID t =
     (Ok (int (length (filter (\<lambda>r. holder_id r = holderID) t))), filter (\<lambda>r. holder_id r \<noteq> holderID) t)"

definition Refresh :: "string \<Rightarrow> int \<Rightarrow> int \<Rightarrow> lock_table \<Rightarrow> int result \<times> lock_table" where
  "Refresh holderID ttl now t =
     (Ok (int (length (filter (\<lambda>r. holder_id r = holderID) t))),
      map (\<lambda>r. if holder_id r = holderID then r\<lparr>expires_at := now + ttlMillis ttl\<rparr> else r) t)"

definition IsHeldBy :: "string \<Rightarrow> int \<Rightarrow> lock_table \<Rightarrow> bool result" where
  "IsHeldBy holderID now t = Ok (\<exists>r \<in> set t. holder_id r = holderID \<and> expires_at r > now)"

definition ReapExpired :: "int \<Rightarrow> lock_table \<Rightarrow> int result \<times> lock_table" where
  "ReapExpired now t =
     (Ok (int (length (filter (\<lambda>r. expires_at r \<le> now) t))), filter (\<lambda>r. \<not> expires_at r \<le> now) t)"

section \<open>The table as a lease lock\<close>

definition keyed_wf :: "lock_table \<Rightarrow> bool" where
  "keyed_wf t = distinct (map lock_key t)"

definition keyed_lease :: "lock_table \<Rightarrow> string \<Rightarrow> lease" where
  "keyed_lease t k = (case find (\<lambda>r. lock_key r = k) t of None \<Rightarrow> Unlocked | Some r \<Rightarrow> Until (expires_at r))"

definition keyed_attempt :: "string \<Rightarrow> string \<times> int \<Rightarrow> int \<Rightarrow> lock_table \<Rightarrow> bool \<times> lock_table" where
  "keyed_attempt k a now t = (case Acquire k (fst a) (snd a) now t of (r, t') \<Rightarrow> (r = Ok (), t'))"

definition keyed_deadline :: "string \<times> int \<Rightarrow> int \<Rightarrow> lease" where
  "keyed_deadline a now = Until (now + ttlMillis (snd a))"

datatype keyed_release = ReleaseOf string | Reap

definition keyed_release :: "keyed_release \<Rightarrow> int \<Rightarrow> lock_table \<Rightarrow> lock_table" where
  "keyed_release r now t = (case r of ReleaseOf h \<Rightarrow> snd (Release h t) | Reap \<Rightarrow> snd (ReapExpired now t))"

definition keyed_frees :: "lock_table \<Rightarrow> keyed_release \<Rightarrow> int \<Rightarrow> string \<Rightarrow> bool" where
  "keyed_frees t r now k = (\<exists>x \<in> set t. lock_key x = k \<and>
     (case r of ReleaseOf h \<Rightarrow> holder_id x = h | Reap \<Rightarrow> expires_at x \<le> now))"

lemma find_key_iff:
  "keyed_wf t \<Longrightarrow> find (\<lambda>r. lock_key r = k) t = Some r \<longleftrightarrow> r \<in> set t \<and> lock_key r = k"
  by (induction t) (auto simp: keyed_wf_def)

lemma replace_row_keys:
  "lock_key row = k \<Longrightarrow> map lock_key (map (\<lambda>r. if lock_key r = k then row else r) t) = map lock_key t"
  by (induction t) auto

lemma find_replaced:
  "lock_key row = k \<Longrightarrow> find (\<lambda>r. lock_key r = j) (map (\<lambda>r. if lock_key r = k then row else r) t) =
   (if j = k then map_option (\<lambda>_. row) (find (\<lambda>r. lock_key r = k) t) else find (\<lambda>r. lock_key r = j) t)"
  by (induction t) auto

lemma find_appended:
  "find P t = None \<Longrightarrow> find P (t @ [x]) = (if P x then Some x else None)"
  by (induction t) (auto split: if_splits)

lemma find_appended_other: "\<not> P x \<Longrightarrow> find P (t @ [x]) = find P t"
  by (induction t) auto

lemma keyed_attempt_free:
  assumes "keyed_wf t" and "\<not> live (keyed_lease t k) now"
  shows "\<exists>t'. keyed_attempt k a now t = (True, t') \<and> keyed_wf t' \<and>
    keyed_lease t' = (keyed_lease t)(k := keyed_deadline a now)"
proof -
  let ?row = "\<lparr>lock_key = k, holder_id = fst a, acquired_at = now, expires_at = now + ttlMillis (snd a)\<rparr>"
  show ?thesis
  proof (cases "find (\<lambda>r. lock_key r = k) t")
    case None
    then have "k \<notin> lock_key ` set t" by (auto simp: find_None_iff)
    moreover have "keyed_lease (t @ [?row]) j = ((keyed_lease t)(k := keyed_deadline a now)) j" for j
      using None by (auto simp: keyed_lease_def keyed_deadline_def find_appended find_appended_other)
    ultimately show ?thesis using assms(1) None
      by (auto simp: keyed_attempt_def Acquire_def sqlKeyedLockAcquire_def keyed_wf_def)
  next
    case (Some r)
    let ?t = "map (\<lambda>r. if lock_key r = k then ?row else r) t"
    have "keyed_wf ?t" using assms(1) by (simp add: keyed_wf_def replace_row_keys del: map_map)
    moreover have "keyed_lease ?t j = ((keyed_lease t)(k := keyed_deadline a now)) j" for j
      using Some find_replaced[of ?row k j t] by (simp add: keyed_lease_def keyed_deadline_def)
    moreover have "keyed_attempt k a now t = (True, ?t)"
      using Some assms(2) by (simp add: keyed_attempt_def Acquire_def sqlKeyedLockAcquire_def keyed_lease_def)
    ultimately show ?thesis by blast
  qed
qed

lemma keyed_filtered_lease:
  assumes "keyed_wf t"
  shows "keyed_lease (filter (\<lambda>r. \<not> P r) t) k =
    (if \<exists>x \<in> set t. lock_key x = k \<and> P x then Unlocked else keyed_lease t k)"
proof -
  have w: "keyed_wf (filter (\<lambda>r. \<not> P r) t)" using assms by (simp add: keyed_wf_def distinct_map_filter)
  show ?thesis
  proof (cases "find (\<lambda>r. lock_key r = k) t")
    case None
    then have "find (\<lambda>r. lock_key r = k) (filter (\<lambda>r. \<not> P r) t) = None" by (auto simp: find_None_iff)
    then show ?thesis using None by (auto simp: keyed_lease_def)
  next
    case (Some r)
    then have r: "r \<in> set t" "lock_key r = k" using find_key_iff[OF assms, of k] by auto
    have u: "x = r" if "x \<in> set t" "lock_key x = k" for x
      using that Some find_key_iff[OF assms, of k x] by simp
    show ?thesis
    proof (cases "P r")
      case True
      then have "find (\<lambda>r. lock_key r = k) (filter (\<lambda>r. \<not> P r) t) = None" using u by (auto simp: find_None_iff)
      then show ?thesis using r True by (auto simp: keyed_lease_def)
    next
      case False
      then have "find (\<lambda>r. lock_key r = k) (filter (\<lambda>r. \<not> P r) t) = Some r" using r find_key_iff[OF w] by simp
      then show ?thesis using Some False u by (auto simp: keyed_lease_def)
    qed
  qed
qed

lemma keyed_release_lease:
  "keyed_wf t \<Longrightarrow> keyed_wf (keyed_release r now t)"
  "keyed_wf t \<Longrightarrow> keyed_lease (keyed_release r now t) k = (if keyed_frees t r now k then Unlocked else keyed_lease t k)"
proof -
  show "keyed_wf t \<Longrightarrow> keyed_wf (keyed_release r now t)"
    by (cases r) (simp_all add: keyed_release_def Release_def ReapExpired_def keyed_wf_def distinct_map_filter)
  assume w: "keyed_wf t"
  show "keyed_lease (keyed_release r now t) k = (if keyed_frees t r now k then Unlocked else keyed_lease t k)"
  proof (cases r)
    case (ReleaseOf h)
    then show ?thesis using keyed_filtered_lease[OF w, of "\<lambda>x. holder_id x = h" k]
      by (simp add: keyed_release_def Release_def keyed_frees_def)
  next
    case Reap
    then show ?thesis using keyed_filtered_lease[OF w, of "\<lambda>x. expires_at x \<le> now" k]
      by (simp add: keyed_release_def ReapExpired_def keyed_frees_def)
  qed
qed

interpretation keyed: lease_lock keyed_lease keyed_attempt keyed_deadline keyed_release keyed_frees keyed_wf
proof unfold_locales
  show "keyed_attempt k a now t = (False, t)" if "keyed_wf t" "live (keyed_lease t k) now" for t k now a
    using that by (auto simp: keyed_attempt_def Acquire_def sqlKeyedLockAcquire_def keyed_lease_def split: option.splits)
qed (fact keyed_attempt_free keyed_release_lease)+

section \<open>Mutual exclusion\<close>

lemma keyed_attempt_keeps_row:
  assumes "keyed_wf t" and "r \<in> set t" and "now < expires_at r"
  shows "r \<in> set (snd (keyed_attempt k a now t))"
proof (cases "lock_key r = k")
  case True
  then have "live (keyed_lease t k) now"
    using assms find_key_iff[OF assms(1), of k r] True by (simp add: keyed_lease_def)
  then show ?thesis using keyed.attempt_live assms by simp
next
  case False
  then show ?thesis using assms(2)
    by (cases "find (\<lambda>r. lock_key r = k) t")
      (auto simp: keyed_attempt_def Acquire_def sqlKeyedLockAcquire_def Let_def image_iff)
qed

lemma keyed_unreleased:
  "\<lbrakk> keyed_wf t; r \<in> set t; lock_key r = k; \<forall>x \<in> set xs. fst x < expires_at r;
     \<forall>x \<in> set xs. snd x \<noteq> Free (ReleaseOf (holder_id r)) \<rbrakk> \<Longrightarrow> keyed.unreleased k xs t"
proof (induction xs arbitrary: t)
  case Nil
  then show ?case by simp
next
  case (Cons x xs)
  show ?case
  proof (cases "snd x")
    case (Attempt j a)
    then show ?thesis
      using Cons keyed_attempt_keeps_row[of t r "fst x" j a] keyed.attempt_wf by simp
  next
    case (Free q)
    have x: "fst x < expires_at r" "q \<noteq> ReleaseOf (holder_id r)" using Cons.prems(4,5) Free by auto
    have u: "y = r" if "y \<in> set t" "lock_key y = k" for y
      using find_key_iff[OF Cons.prems(1), of k] that Cons.prems(2,3) by (metis option.inject)
    have "\<not> keyed_frees t q (fst x) k"
      using u x by (cases q) (auto simp: keyed_frees_def)
    moreover have "r \<in> set (keyed_release q (fst x) t)"
      using Cons.prems(2) x by (cases q) (auto simp: keyed_release_def Release_def ReapExpired_def)
    moreover have "keyed_wf (keyed_release q (fst x) t)" using keyed_release_lease(1) Cons.prems(1) by blast
    ultimately have "keyed.unreleased k xs (keyed_release q (fst x) t)"
      using Cons.IH Cons.prems(3,4,5) by simp
    then show ?thesis using Free \<open>\<not> keyed_frees t q (fst x) k\<close> by simp
  qed
qed

text \<open>C24: Mutual exclusion of the keyed lock: after a holder acquired a key, no attempt by anyone on that key
  succeeds before the lease ends, whatever acquisitions, releases by other holders and reaper runs
  happen meanwhile.\<close>
theorem keyed_mutual_exclusion:
  assumes "keyed_wf t" and "Acquire k h ttl now t = (Ok (), t1)"
    and "\<forall>x \<in> set xs. fst x < now + ttlMillis ttl" and "\<forall>x \<in> set xs. snd x \<noteq> Free (ReleaseOf h)"
  shows "(k, True) \<notin> set (fst (lock_run keyed_attempt keyed_release xs t1))"
proof -
  let ?row = "\<lparr>lock_key = k, holder_id = h, acquired_at = now, expires_at = now + ttlMillis ttl\<rparr>"
  have a: "keyed_attempt k (h, ttl) now t = (True, t1)" using assms(2) by (simp add: keyed_attempt_def)
  have "?row \<in> set t1"
  proof (cases "find (\<lambda>r. lock_key r = k) t")
    case None
    then show ?thesis using assms(2) by (auto simp: Acquire_def sqlKeyedLockAcquire_def Let_def)
  next
    case (Some r)
    then have "r \<in> set t \<and> lock_key r = k" using find_key_iff[OF assms(1)] by simp
    then show ?thesis using Some assms(2)
      by (auto simp: Acquire_def sqlKeyedLockAcquire_def Let_def image_iff split: if_splits)
  qed
  moreover have "keyed_wf t1" using keyed.attempt_wf[OF assms(1), of k "(h, ttl)" now] a by simp
  ultimately have "keyed.unreleased k xs t1"
    using keyed_unreleased[of t1 ?row k xs] assms(3,4) by simp
  then show ?thesis
    using keyed.leases_do_not_overlap[OF assms(1) a] assms(3) by (simp add: keyed_deadline_def)
qed

theorem keyed_mutual_exclusion_witness:
  "\<exists>t1. Acquire ''vault'' ''saga1'' 60000000000 1000 [] = (Ok (), t1) \<and>
    (''vault'', True) \<notin> set (fst (lock_run keyed_attempt keyed_release
      [(2000, Attempt ''vault'' (''saga2'', 0)), (3000, Free Reap), (60999, Attempt ''vault'' (''saga1'', 0))] t1))"
proof -
  have a: "Acquire ''vault'' ''saga1'' 60000000000 1000 [] = (Ok (),
      [\<lparr>lock_key = ''vault'', holder_id = ''saga1'', acquired_at = 1000, expires_at = 61000\<rparr>])"
    by (simp add: Acquire_def sqlKeyedLockAcquire_def ttlMillis_def)
  show ?thesis
    using keyed_mutual_exclusion[OF _ a, of "[(2000, Attempt ''vault'' (''saga2'', 0)), (3000, Free Reap),
        (60999, Attempt ''vault'' (''saga1'', 0))]"] a
    by (simp add: keyed_wf_def ttlMillis_def)
qed

text \<open>A lock cannot be lost for ever: an operation whose lease has ended blocks nobody, the next attempt
  takes the key over without a reaper or a release.\<close>
theorem keyed_expired_stolen:
  assumes "keyed_wf t" and "\<forall>r \<in> set t. lock_key r = k \<longrightarrow> expires_at r \<le> now"
  shows "fst (Acquire k h ttl now t) = Ok ()"
proof -
  have "\<not> live (keyed_lease t k) now"
    using assms(2) find_key_iff[OF assms(1), of k] by (auto simp: keyed_lease_def split: option.splits)
  from keyed.expired_can_be_taken[OF assms(1) this, of "(h, ttl)"] show ?thesis
    by (simp add: keyed_attempt_def case_prod_beta)
qed

theorem keyed_expired_stolen_witness:
  "fst (Acquire ''vault'' ''saga2'' 0 61000
     [\<lparr>lock_key = ''vault'', holder_id = ''saga1'', acquired_at = 1000, expires_at = 61000\<rparr>]) = Ok ()"
  by (rule keyed_expired_stolen) (simp_all add: keyed_wf_def)

end
