(* ===== verification/Redis_Lock.thy ===== *)
theory Redis_Lock
  imports Lease_Lock
begin

text \<open>
  The Redis mutexes of \<open>pkg/cache/redis_impl.go\<close>: one key (\<open>Mutex\<close>), several keys in a fixed order
  (\<open>MultiMutex\<close>, \<open>AcquireMultiLock\<close>, \<open>ReleaseMultiLock\<close>).  The server is the lease of every key, in
  seconds of its clock.  A waiting loop is driven by a script of rounds: what the call does, what the
  two clocks read, and what other clients did to the server since the last round; a script that ends
  while the loop still waits gives \<open>None\<close>.
\<close>

type_synonym redis = "string \<Rightarrow> lease"

record lock_round =
  rd_others :: "redis \<Rightarrow> redis"
  rd_fault :: fault
  rd_server :: int
  rd_clock :: int

section \<open>One key\<close>

text \<open>\<open>SETNX\<close> with an expiration: zero seconds is no expiration, a negative one is refused.\<close>
definition setNX :: "string \<Rightarrow> int \<Rightarrow> int \<Rightarrow> redis \<Rightarrow> bool \<times> redis" where
  "setNX key ttlSec now m =
     (if live (m key) now then (False, m)
      else (True, m(key := if ttlSec = 0 then Forever else Until (now + ttlSec))))"

definition lockMutex :: "string \<Rightarrow> int \<Rightarrow> fault \<Rightarrow> int \<Rightarrow> redis \<Rightarrow> bool result \<times> redis" where
  "lockMutex key ttlSec f now m =
     (if ttlSec < 0 then (Err ''ERR invalid expire time in set'', m)
      else case f of
             Works \<Rightarrow> (case setNX key ttlSec now m of (acquired, m') \<Rightarrow> (Ok acquired, m'))
           | Fails \<Rightarrow> (Err ''redis: connection error'', m)
           | LostAck \<Rightarrow> (Err ''redis: connection error'', snd (setNX key ttlSec now m)))"

definition unlockMutex :: "string \<Rightarrow> fault \<Rightarrow> redis \<Rightarrow> unit result \<times> redis" where
  "unlockMutex key f m =
     (case f of
        Works \<Rightarrow> (Ok (), m(key := Unlocked))
      | Fails \<Rightarrow> (Err ''redis: connection error'', m)
      | LostAck \<Rightarrow> (Err ''redis: connection error'', m(key := Unlocked)))"

text \<open>The loop of \<open>Mutex\<close> and of each key of the multi-locks: \<open>timeoutSec\<close> 0 gives up at once, a positive
  one when the clock says so, a negative one never.  What is left of the script comes back.\<close>
fun waitForLock ::
    "string \<Rightarrow> string \<Rightarrow> int \<Rightarrow> int \<Rightarrow> int \<Rightarrow> lock_round list \<Rightarrow> redis \<Rightarrow> (unit result \<times> redis \<times> lock_round list) option" where
  "waitForLock what key ttlSec timeoutSec startTs [] m = None"
| "waitForLock what key ttlSec timeoutSec startTs (r # rs) m =
     (case lockMutex key ttlSec (rd_fault r) (rd_server r) (rd_others r m) of (res, m1) \<Rightarrow>
        if (\<exists>e. res = Inl e) \<and> timeoutSec = 0 then Some (Err (what @ ''error while locking '' @ key), m1, rs)
        else if res = Ok True then Some (Ok (), m1, rs)
        else if timeoutSec = 0 then Some (Err (what @ ''lock already held for '' @ key), m1, rs)
        else if timeoutSec > 0 \<and> rd_clock r - startTs \<ge> timeoutSec
        then Some (Err (what @ ''timeout while locking '' @ key), m1, rs)
        else waitForLock what key ttlSec timeoutSec startTs rs m1)"

text \<open>\<open>Mutex\<close>: the callback is a function on the caller's state and the server changes under it.\<close>
definition Mutex ::
    "string \<Rightarrow> int \<Rightarrow> int \<Rightarrow> int \<Rightarrow> lock_round list \<Rightarrow> ('w \<times> redis \<Rightarrow> 'w \<times> redis) \<Rightarrow> fault \<Rightarrow> 'w \<times> redis \<Rightarrow>
     (unit result \<times> 'w \<times> redis) option" where
  "Mutex key ttlSec timeoutSec startTs rounds cb unlockFault s =
     (case waitForLock ''mutex '' key ttlSec timeoutSec startTs rounds (snd s) of
        None \<Rightarrow> None
      | Some (Inl e, m1, _) \<Rightarrow> Some (Err e, fst s, m1)
      | Some (Inr _, m1, _) \<Rightarrow>
          (case cb (fst s, m1) of (w2, m2) \<Rightarrow> Some (Ok (), w2, snd (unlockMutex key unlockFault m2))))"

section \<open>The order of several keys\<close>

text \<open>\<open>sortStrings\<close>: the two nested loops over indices, swapping in place.\<close>
definition swap :: "nat \<Rightarrow> nat \<Rightarrow> 'a list \<Rightarrow> 'a list" where
  "swap i j s = s[i := s ! j, j := s ! i]"

function sortInner :: "nat \<Rightarrow> nat \<Rightarrow> string list \<Rightarrow> string list" where
  "sortInner i j s =
     (if j < length s then sortInner i (Suc j) (if s ! i > s ! j then swap i j s else s) else s)"
  by pat_completeness auto
termination
  by (relation "measure (\<lambda>(i, j, s). length s - j)") (auto simp: swap_def)

function sortOuter :: "nat \<Rightarrow> string list \<Rightarrow> string list" where
  "sortOuter i s = (if Suc i < length s then sortOuter (Suc i) (sortInner i (Suc i) s) else s)"
  by pat_completeness auto

lemma length_sortInner [simp]: "length (sortInner i j s) = length s"
proof (induction i j s rule: sortInner.induct)
  case (1 i j s)
  show ?case
  proof (cases "j < length s")
    case True
    then show ?thesis using 1 by (subst sortInner.simps) (simp add: swap_def del: sortInner.simps)
  next
    case False
    then show ?thesis by (subst sortInner.simps) (simp del: sortInner.simps)
  qed
qed

termination sortOuter
  by (relation "measure (\<lambda>(i, s). length s - i)") (auto simp del: sortInner.simps)

declare sortInner.simps [simp del] sortOuter.simps [simp del]

definition sortStrings :: "string list \<Rightarrow> string list" where
  "sortStrings s = sortOuter 0 s"

text \<open>The loop that drops a key equal to the one before it.\<close>
definition uniqueKeys :: "string list \<Rightarrow> string list" where
  "uniqueKeys sortedKeys =
     map ((!) sortedKeys) (filter (\<lambda>i. i = 0 \<or> sortedKeys ! i \<noteq> sortedKeys ! (i - 1)) [0..<length sortedKeys])"

definition lockOrder :: "string list \<Rightarrow> string list" where
  "lockOrder keys = uniqueKeys (sortStrings keys)"

section \<open>Several keys\<close>

text \<open>\<open>releaseAll\<close>: in reverse order, a failure is only logged.  One fault per call, none left means it works.\<close>
fun releaseAll :: "string list \<Rightarrow> fault list \<Rightarrow> redis \<Rightarrow> redis" where
  "releaseAll [] fs m = m"
| "releaseAll (k # ks) fs m =
     releaseAll ks (tl fs) (snd (unlockMutex k (case fs of [] \<Rightarrow> Works | f # _ \<Rightarrow> f) m))"

text \<open>The acquisition loop: the keys still to take, and the locks taken so far (last one first).\<close>
fun acquireLocks ::
    "string \<Rightarrow> int \<Rightarrow> int \<Rightarrow> int \<Rightarrow> fault list \<Rightarrow> string list \<Rightarrow> string list \<Rightarrow> lock_round list \<Rightarrow> redis \<Rightarrow>
     (unit result \<times> string list \<times> redis) option" where
  "acquireLocks what ttlSec timeoutSec startTs fs [] acquired rounds m = Some (Ok (), acquired, m)"
| "acquireLocks what ttlSec timeoutSec startTs fs (k # ks) acquired rounds m =
     (case waitForLock what k ttlSec timeoutSec startTs rounds m of
        None \<Rightarrow> None
      | Some (Inl e, m1, _) \<Rightarrow> Some (Err e, [], releaseAll acquired fs m1)
      | Some (Inr _, m1, rounds1) \<Rightarrow> acquireLocks what ttlSec timeoutSec startTs fs ks (k # acquired) rounds1 m1)"

definition AcquireMultiLock ::
    "string list \<Rightarrow> int \<Rightarrow> int \<Rightarrow> int \<Rightarrow> fault list \<Rightarrow> lock_round list \<Rightarrow> redis \<Rightarrow> (unit result \<times> redis) option" where
  "AcquireMultiLock keys ttlSec timeoutSec startTs fs rounds m =
     (if keys = [] then Some (Ok (), m)
      else map_option (\<lambda>(r, _, m'). (r, m'))
        (acquireLocks ''AcquireMultiLock: '' ttlSec timeoutSec startTs fs (lockOrder keys) [] rounds m))"

definition MultiMutex ::
    "string list \<Rightarrow> int \<Rightarrow> int \<Rightarrow> int \<Rightarrow> fault list \<Rightarrow> lock_round list \<Rightarrow> ('w \<times> redis \<Rightarrow> 'w \<times> redis) \<Rightarrow> 'w \<times> redis \<Rightarrow>
     (unit result \<times> 'w \<times> redis) option" where
  "MultiMutex keys ttlSec timeoutSec startTs fs rounds cb s =
     (if keys = [] then Some (case cb s of (w', m') \<Rightarrow> (Ok (), w', m'))
      else case acquireLocks ''mutex '' ttlSec timeoutSec startTs fs (lockOrder keys) [] rounds (snd s) of
             None \<Rightarrow> None
           | Some (Inl e, _, m1) \<Rightarrow> Some (Err e, fst s, m1)
           | Some (Inr _, acquired, m1) \<Rightarrow>
               (case cb (fst s, m1) of (w2, m2) \<Rightarrow> Some (Ok (), w2, releaseAll acquired fs m2)))"

text \<open>\<open>ReleaseMultiLock\<close>: every key is tried, the last error is returned.\<close>
fun releaseKeys :: "string list \<Rightarrow> fault list \<Rightarrow> unit result \<Rightarrow> redis \<Rightarrow> unit result \<times> redis" where
  "releaseKeys [] fs lastErr m = (lastErr, m)"
| "releaseKeys (k # ks) fs lastErr m =
     (case unlockMutex k (case fs of [] \<Rightarrow> Works | f # _ \<Rightarrow> f) m of (r, m1) \<Rightarrow>
        releaseKeys ks (tl fs) (case r of Inl e \<Rightarrow> Err e | Inr _ \<Rightarrow> lastErr) m1)"

definition ReleaseMultiLock :: "string list \<Rightarrow> fault list \<Rightarrow> redis \<Rightarrow> unit result \<times> redis" where
  "ReleaseMultiLock keys fs m = releaseKeys keys fs (Ok ()) m"

section \<open>The mutex as a lease lock\<close>

interpretation redis: lease_lock "\<lambda>m :: redis. m" "\<lambda>k ttl now m. setNX k ttl now m"
  "\<lambda>ttl now. if ttl = 0 then Forever else Until (now + ttl)"
  "\<lambda>k now m. snd (unlockMutex k Works m)" "\<lambda>m r now k. k = r" "\<lambda>m. True"
  by unfold_locales (auto simp: setNX_def unlockMutex_def)

section \<open>Sorting\<close>

lemma mset_swap: "i < length s \<Longrightarrow> j < length s \<Longrightarrow> mset (swap i j s) = mset s"
  by (simp add: swap_def mset_swap)

text \<open>The inner loop brings the least of the rest to index i.\<close>
lemma sortInner_selects:
  "\<lbrakk> i < j; j \<le> length s; \<forall>k. i < k \<and> k < j \<longrightarrow> s ! i \<le> s ! k \<rbrakk> \<Longrightarrow>
   mset (sortInner i j s) = mset s \<and> take i (sortInner i j s) = take i s \<and>
   (\<forall>k. i < k \<and> k < length s \<longrightarrow> sortInner i j s ! i \<le> sortInner i j s ! k)"
proof (induction i j s rule: sortInner.induct)
  case (1 i j s)
  show ?case
  proof (cases "j < length s")
    case True
    let ?s = "if s ! i > s ! j then swap i j s else s"
    have l: "length ?s = length s" by (simp add: swap_def)
    have least: "\<forall>k. i < k \<and> k < Suc j \<longrightarrow> ?s ! i \<le> ?s ! k"
      using 1(2,4) True by (auto simp: swap_def nth_list_update less_Suc_eq)
    have "mset ?s = mset s" using mset_swap[of i s j] 1(2) True by simp
    moreover have "take i ?s = take i s" using 1(2) by (simp add: swap_def)
    moreover have "mset (sortInner i (Suc j) ?s) = mset ?s \<and> take i (sortInner i (Suc j) ?s) = take i ?s \<and>
        (\<forall>k. i < k \<and> k < length ?s \<longrightarrow> sortInner i (Suc j) ?s ! i \<le> sortInner i (Suc j) ?s ! k)"
      by (rule 1(1)[OF True]) (use 1(2) True l least in simp_all)
    moreover have "sortInner i j s = sortInner i (Suc j) ?s" using True by (subst sortInner.simps) simp
    ultimately show ?thesis using l by simp
  next
    case False
    then have "sortInner i j s = s" by (subst sortInner.simps) simp
    then show ?thesis using 1(3,4) False by simp
  qed
qed

lemma sortOuter_sorts:
  "\<lbrakk> sorted (take i s); \<forall>x \<in> set (take i s). \<forall>y \<in> set (drop i s). x \<le> y \<rbrakk> \<Longrightarrow>
   sorted (sortOuter i s) \<and> mset (sortOuter i s) = mset s"
proof (induction i s rule: sortOuter.induct)
  case (1 i s)
  show ?case
  proof (cases "Suc i < length s")
    case True
    let ?s = "sortInner i (Suc i) s"
    have sel: "mset ?s = mset s" "take i ?s = take i s" "\<And>k. i < k \<Longrightarrow> k < length s \<Longrightarrow> ?s ! i \<le> ?s ! k"
    proof -
      have "\<forall>k. i < k \<and> k < Suc i \<longrightarrow> s ! i \<le> s ! k" by (auto simp: less_Suc_eq)
      from sortInner_selects[OF _ _ this] True show "mset ?s = mset s" "take i ?s = take i s"
        "\<And>k. i < k \<Longrightarrow> k < length s \<Longrightarrow> ?s ! i \<le> ?s ! k" by simp_all
    qed
    have split: "mset (drop i ?s) = mset (drop i s)"
      using sel(1,2) by (metis append_take_drop_id mset_append add_left_cancel)
    have i: "i < length ?s" using True by simp
    have d: "drop i ?s = ?s ! i # drop (Suc i) ?s" using i by (simp add: Cons_nth_drop_Suc)
    have t: "take (Suc i) ?s = take i s @ [?s ! i]" using i sel(2) by (simp add: take_Suc_conv_app_nth)
    have below: "\<forall>x \<in> set (take i s). \<forall>y \<in> set (drop i ?s). x \<le> y"
      using 1(3) mset_eq_setD[OF split] by auto
    have min: "\<forall>y \<in> set (drop (Suc i) ?s). ?s ! i \<le> y"
      using sel(3) by (auto simp: in_set_conv_nth)
    have "sorted (take (Suc i) ?s)" using 1(2) below d by (simp add: t sorted_append)
    moreover have "\<forall>x \<in> set (take (Suc i) ?s). \<forall>y \<in> set (drop (Suc i) ?s). x \<le> y"
      using below min d by (auto simp: t)
    ultimately have "sorted (sortOuter (Suc i) ?s) \<and> mset (sortOuter (Suc i) ?s) = mset ?s"
      by (rule 1(1)[OF True])
    moreover have "sortOuter i s = sortOuter (Suc i) ?s" using True by (subst sortOuter.simps) simp
    ultimately show ?thesis using sel(1) by simp
  next
    case False
    then have "sortOuter i s = s" by (subst sortOuter.simps) simp
    moreover have "sorted s"
    proof -
      have "length (drop i s) \<le> 1" using False by simp
      then have "sorted (drop i s)" by (metis le_Suc_eq One_nat_def length_0_conv le_zero_eq sorted0 sorted1 length_Suc_conv)
      then have "sorted (take i s @ drop i s)" using 1(2,3) by (simp only: sorted_append)
      then show ?thesis by simp
    qed
    ultimately show ?thesis by simp
  qed
qed

text \<open>The hand-written exchange sort of the lock keys is the library's sort.\<close>
theorem sortStrings_is_sort: "sortStrings keys = sort keys"
  using sortOuter_sorts[of 0 keys] by (auto simp: sortStrings_def intro: properties_for_sort[symmetric])

section \<open>Lock order\<close>

lemma uniqueKeys_sorted:
  assumes "sorted s"
  shows "sorted_wrt (<) (uniqueKeys s)" and "set (uniqueKeys s) = set s"
proof -
  let ?P = "\<lambda>i. i = 0 \<or> s ! i \<noteq> s ! (i - 1)"
  have less: "s ! i < s ! j" if "i < j" "j < length s" "?P j" for i j
  proof -
    have "s ! i \<le> s ! (j - 1)" "s ! (j - 1) \<le> s ! j" using assms that by (auto intro: sorted_nth_mono)
    then show ?thesis using that by auto
  qed
  have "sorted_wrt (<) (filter ?P [0..<length s])" by (simp add: sorted_wrt_filter)
  then have "sorted_wrt (\<lambda>i j. s ! i < s ! j) (filter ?P [0..<length s])"
    by (rule sorted_wrt_mono_rel[rotated]) (use less in auto)
  then show "sorted_wrt (<) (uniqueKeys s)" by (simp add: uniqueKeys_def sorted_wrt_map)
  show "set (uniqueKeys s) = set s"
  proof
    show "set (uniqueKeys s) \<subseteq> set s" by (auto simp: uniqueKeys_def)
    show "set s \<subseteq> set (uniqueKeys s)"
    proof
      fix x assume "x \<in> set s"
      then have ex: "\<exists>i. i < length s \<and> s ! i = x" by (simp add: in_set_conv_nth)
      define i where "i = (LEAST i. i < length s \<and> s ! i = x)"
      have i: "i < length s" "s ! i = x" using LeastI_ex[OF ex] by (simp_all add: i_def)
      have "s ! (i - 1) \<noteq> x" if "i \<noteq> 0"
        using not_less_Least[of "i - 1" "\<lambda>i. i < length s \<and> s ! i = x"] that i by (auto simp: i_def[symmetric])
      then show "x \<in> set (uniqueKeys s)" using i by (auto simp: uniqueKeys_def)
    qed
  qed
qed

lemma lockOrder_strict: "sorted_wrt (<) (lockOrder keys)" "set (lockOrder keys) = set keys"
proof -
  have "sorted (sortStrings keys)" "set (sortStrings keys) = set keys"
    using sortOuter_sorts[of 0 keys] by (auto simp: sortStrings_def dest: mset_eq_setD)
  then show "sorted_wrt (<) (lockOrder keys)" "set (lockOrder keys) = set keys"
    using uniqueKeys_sorted[of "sortStrings keys"] by (simp_all add: lockOrder_def)
qed

text \<open>A process is its keys in lock order and how many of them it holds.\<close>
definition waitsFor :: "string list \<times> nat \<Rightarrow> string option" where
  "waitsFor p = (if snd p < length (lockOrder (fst p)) then Some (lockOrder (fst p) ! snd p) else None)"

definition holdsLocks :: "string list \<times> nat \<Rightarrow> string list" where
  "holdsLocks p = take (snd p) (lockOrder (fst p))"

lemma held_below_waited:
  assumes "waitsFor p = Some k" and "h \<in> set (holdsLocks p)"
  shows "h < k"
proof -
  have n: "snd p < length (lockOrder (fst p))" and k: "k = lockOrder (fst p) ! snd p"
    using assms(1) by (auto simp: waitsFor_def split: if_splits)
  obtain i where "i < snd p" "h = lockOrder (fst p) ! i"
    using assms(2) n by (auto simp: holdsLocks_def in_set_conv_nth)
  then show ?thesis using sorted_wrt_nth_less[OF lockOrder_strict(1)] n k by blast
qed


definition exProcesses :: "(string list \<times> nat) set" where
  "exProcesses = {([''b'', ''a'', ''b''], 1), ([''b'', ''c''], 0)}"


section \<open>All or nothing\<close>

lemma releaseAll_frees:
  "set fs \<subseteq> {Works, LostAck} \<Longrightarrow> releaseAll ks fs m j = (if j \<in> set ks then Unlocked else m j)"
proof (induction ks fs m rule: releaseAll.induct)
  case (1 fs m)
  then show ?case by simp
next
  case (2 k ks fs m)
  have s: "snd (unlockMutex k (case fs of [] \<Rightarrow> Works | f # _ \<Rightarrow> f) m) = m(k := Unlocked)"
    using 2(2) by (cases fs) (auto simp: unlockMutex_def)
  have "set (tl fs) \<subseteq> {Works, LostAck}" using 2(2) by (cases fs) auto
  from 2(1)[OF this, unfolded s] show ?case unfolding releaseAll.simps s by (simp add: fun_upd_def)
qed

text \<open>The rounds in which no other client and no fault interferes.\<close>
definition quietRound :: "lock_round \<Rightarrow> bool" where
  "quietRound r = (rd_others r = id \<and> rd_fault r \<noteq> LostAck)"

lemma waitForLock_quiet:
  "\<lbrakk> waitForLock what k ttl timeout st rs m = Some (res, m1, rs1); list_all quietRound rs \<rbrakk> \<Longrightarrow>
   list_all quietRound rs1 \<and> (case res of Inl e \<Rightarrow> m1 = m | Inr _ \<Rightarrow> \<exists>l. m1 = m(k := l) \<and> l \<noteq> Unlocked)"
proof (induction what k ttl timeout st rs m rule: waitForLock.induct)
  case (1 what key ttlSec timeoutSec startTs m)
  then show ?case by simp
next
  case (2 what key ttlSec timeoutSec startTs r rs m)
  obtain res0 m0 where l: "lockMutex key ttlSec (rd_fault r) (rd_server r) m = (res0, m0)" by fastforce
  have q: "rd_others r = id" "rd_fault r \<noteq> LostAck" "list_all quietRound rs"
    using 2(3) by (simp_all add: quietRound_def[of r])
  have lk: "res0 \<noteq> Ok True \<longrightarrow> m0 = m" "res0 = Ok True \<longrightarrow> (\<exists>l. m0 = m(key := l) \<and> l \<noteq> Unlocked)"
    using l q(2) by (auto simp: lockMutex_def setNX_def split: if_splits fault.splits)
  show ?case
    using 2 l q lk by (auto simp: id_def split: if_splits)
qed

text \<open>What the locks of a client look like before and after.\<close>
lemma acquireLocks_all_or_nothing:
  "\<lbrakk> acquireLocks what ttl timeout st fs ks acquired rs m = Some (res, got, m1); list_all quietRound rs;
     set fs \<subseteq> {Works, LostAck}; distinct (ks @ acquired) \<rbrakk> \<Longrightarrow>
   (case res of Inr _ \<Rightarrow> got = rev ks @ acquired \<and> (\<forall>j. j \<notin> set ks \<longrightarrow> m1 j = m j) \<and> (\<forall>j \<in> set ks. m1 j \<noteq> Unlocked)
    | Inl e \<Rightarrow> \<forall>j. m1 j = Unlocked \<or> (j \<notin> set acquired \<and> m1 j = m j))"
proof (induction what ttl timeout st fs ks acquired rs m rule: acquireLocks.induct)
  case (1 what ttlSec timeoutSec startTs fs acquired rounds m)
  then show ?case by auto
next
  case (2 what ttlSec timeoutSec startTs fs k ks acquired rounds m)
  obtain r m0 rs0 where w: "waitForLock what k ttlSec timeoutSec startTs rounds m = Some (r, m0, rs0)"
    using 2(2) by (auto split: option.splits)
  note q = waitForLock_quiet[OF w 2(3)]
  show ?case
  proof (cases r)
    case (Inl e)
    then have "res = Err e" "m1 = releaseAll acquired fs m0" "m0 = m" using 2(2) w q by auto
    then show ?thesis using releaseAll_frees[OF 2(4)] by auto
  next
    case (Inr u)
    then obtain l where l: "m0 = m(k := l)" "l \<noteq> Unlocked" using q by auto
    have a: "acquireLocks what ttlSec timeoutSec startTs fs ks (k # acquired) rs0 m0 = Some (res, got, m1)"
      using 2(2) w Inr by simp
    have ih: "case res of Inr _ \<Rightarrow> got = rev ks @ k # acquired \<and> (\<forall>j. j \<notin> set ks \<longrightarrow> m1 j = m0 j) \<and> (\<forall>j \<in> set ks. m1 j \<noteq> Unlocked)
        | Inl e \<Rightarrow> \<forall>j. m1 j = Unlocked \<or> (j \<notin> set (k # acquired) \<and> m1 j = m0 j)"
      by (rule 2(1)[OF w _ _ _ a]) (use Inr q 2(4,5) in auto)
    show ?thesis using ih l 2(5) by (cases res) auto
  qed
qed

text \<open>A multi-lock is all or nothing: when it succeeds every key asked for is leased and no other key has
  changed; when it fails it holds nothing, every key is free or as it was before the call.\<close>
theorem multilock_all_or_nothing:
  assumes "AcquireMultiLock keys ttl timeout st fs rounds m = Some (res, m1)" and "list_all quietRound rounds"
    and "set fs \<subseteq> {Works, LostAck}"
  shows "if res = Ok () then (\<forall>j. j \<notin> set keys \<longrightarrow> m1 j = m j) \<and> (\<forall>j \<in> set keys. m1 j \<noteq> Unlocked)
    else (\<forall>j. m1 j = Unlocked \<or> m1 j = m j)"
proof (cases "keys = []")
  case True
  then show ?thesis using assms(1) by (auto simp: AcquireMultiLock_def)
next
  case False
  then obtain got where a: "acquireLocks ''AcquireMultiLock: '' ttl timeout st fs (lockOrder keys) [] rounds m = Some (res, got, m1)"
    using assms(1) by (auto simp: AcquireMultiLock_def)
  have "distinct (lockOrder keys @ [])"
    using strict_sorted_iff[of "lockOrder keys"] lockOrder_strict(1)[of keys] by simp
  from acquireLocks_all_or_nothing[OF a assms(2,3) this] show ?thesis
    using lockOrder_strict(2)[of keys] by (cases res) auto
qed

definition exRounds :: "lock_round list" where
  "exRounds = [\<lparr>rd_others = id, rd_fault = Works, rd_server = 100, rd_clock = 50\<rparr>,
     \<lparr>rd_others = id, rd_fault = Works, rd_server = 100, rd_clock = 50\<rparr>]"

text \<open>A call that takes \<open>a\<close> and finds \<open>b\<close> held.\<close>
theorem multilock_all_or_nothing_witness:
  "\<exists>e m1. AcquireMultiLock [''b'', ''a''] 30 0 50 [] exRounds ((\<lambda>_. Unlocked)(''b'' := Until 200)) = Some (Err e, m1) \<and>
    (\<forall>j. m1 j = Unlocked \<or> m1 j = ((\<lambda>_. Unlocked)(''b'' := Until 200)) j)"
proof -
  have s: "sortStrings [''b'', ''a''] = [''a'', ''b'']"
    by (simp add: sortStrings_def sortOuter.simps sortInner.simps swap_def less_char_def less_eq_char_def)
  have o: "lockOrder [''b'', ''a''] = [''a'', ''b'']"
    by (simp add: lockOrder_def s uniqueKeys_def upt_rec)
  obtain e m1 where a: "AcquireMultiLock [''b'', ''a''] 30 0 50 [] exRounds ((\<lambda>_. Unlocked)(''b'' := Until 200)) = Some (Err e, m1)"
    by (simp add: AcquireMultiLock_def o exRounds_def lockMutex_def setNX_def)
  have q: "list_all quietRound exRounds" by (simp add: exRounds_def quietRound_def)
  show ?thesis using multilock_all_or_nothing[OF a q] a by simp
qed

section \<open>A round always ends the wait without a timeout\<close>

text \<open>Waiting ends: with a zero timeout the first round decides, with a positive one the loop is over at
  the latest in the first round whose clock shows that the time is up.\<close>
theorem waitForLock_terminates:
  assumes "0 \<le> timeout" and "r \<in> set rounds" and "timeout \<le> rd_clock r - st"
  shows "waitForLock what key ttl timeout st rounds m \<noteq> None"
  using assms
proof (induction what key ttl timeout st rounds m rule: waitForLock.induct)
  case (1 what key ttlSec timeoutSec startTs m)
  then show ?case by simp
next
  case (2 what key ttlSec timeoutSec startTs x rs m)
  obtain res m0 where l: "lockMutex key ttlSec (rd_fault x) (rd_server x) (rd_others x m) = (res, m0)" by fastforce
  show ?case using 2 l by (cases "x = r") (auto split: if_splits)
qed

theorem waitForLock_terminates_witness:
  "waitForLock ''mutex '' ''k'' 30 2 50 [\<lparr>rd_others = id, rd_fault = Works, rd_server = 100, rd_clock = 51\<rparr>,
     \<lparr>rd_others = id, rd_fault = Fails, rd_server = 101, rd_clock = 52\<rparr>] (\<lambda>_. Forever) \<noteq> None"
  by (rule waitForLock_terminates[of _ "\<lparr>rd_others = id, rd_fault = Fails, rd_server = 101, rd_clock = 52\<rparr>"]) simp_all

section \<open>Unlocking does not check the owner\<close>

text \<open>The callback of \<open>Mutex\<close> runs only when the lock was taken; but when it outlives the time to live, the
  unlock that follows frees whatever lease the key has by then, also one another client took
  meanwhile.\<close>
lemma mutex_unlock_frees_successor:
  assumes "waitForLock ''mutex '' key ttl timeout st rounds (snd s) = Some (Ok (), m1, rs)"
    and "cb (fst s, m1) = (w2, m2)" and "m2 key = Until later"
  shows "\<exists>m3. Mutex key ttl timeout st rounds cb Works s = Some (Ok (), w2, m3) \<and> m3 key = Unlocked"
  using assms by (simp add: Mutex_def unlockMutex_def)

end
