(* ===== verification/Cache_Read.thy ===== *)
theory Cache_Read
  imports Prelude
begin

text \<open>
  The read-through cache of \<open>pkg/cache/redis_impl.go\<close> (\<open>cacheRead\<close> and its three entry points).  Redis's
  \<open>GET\<close> of an absent key reads as the empty string, so the database is a function from keys to strings;
  time to live is left out: an expired key is an absent one.
\<close>

type_synonym cache_db = "string \<Rightarrow> string"

definition redisGet :: "fault \<Rightarrow> string \<Rightarrow> cache_db \<Rightarrow> string result" where
  "redisGet f key d = (if f = Works then Ok (d key) else Err ''redis: connection error'')"

definition redisSet :: "fault \<Rightarrow> string \<Rightarrow> string \<Rightarrow> cache_db \<Rightarrow> unit result \<times> cache_db" where
  "redisSet f key v d =
     (case f of Works \<Rightarrow> (Ok (), d(key := v))
      | Fails \<Rightarrow> (Err ''redis: connection error'', d)
      | LostAck \<Rightarrow> (Err ''redis: connection error'', d(key := v)))"

text \<open>The hit callback answers (readOnly, newValue, invalidate).\<close>
definition cacheRead ::
    "fault \<Rightarrow> fault \<Rightarrow> fault \<Rightarrow> string \<Rightarrow> string result \<Rightarrow> (string \<Rightarrow> (bool \<times> string \<times> bool) result) option \<Rightarrow> cache_db \<Rightarrow>
     string result \<times> cache_db" where
  "cacheRead getFault delFault setFault key miss hitCb d =
     (case redisGet getFault key d of
        Inl e \<Rightarrow> (Err e, d)
      | Inr value \<Rightarrow>
          if value \<noteq> '''' then
            (case hitCb of
               None \<Rightarrow> (Ok value, d)
             | Some cb \<Rightarrow>
                 (case cb value of
                    Inl e \<Rightarrow> (Err e, d)
                  | Inr (readOnly, newValue, invalidate) \<Rightarrow>
                      if readOnly then (Ok value, d)
                      else let d1 = (if invalidate \<and> delFault \<noteq> Fails then d(key := '''') else d)
                           in if value \<noteq> newValue
                              then (case redisSet setFault key value d1 of
                                      (Inl e, d2) \<Rightarrow> (Err e, d2)
                                    | (Inr _, d2) \<Rightarrow> (Ok value, d2))
                              else (Ok value, d1)))
          else (case miss of
                  Inl e \<Rightarrow> (Err e, d)
                | Inr v \<Rightarrow> (case redisSet setFault key v d of
                              (Inl e, d2) \<Rightarrow> (Err e, d2)
                            | (Inr _, d2) \<Rightarrow> (Ok v, d2))))"

definition CacheRead :: "fault \<Rightarrow> fault \<Rightarrow> fault \<Rightarrow> string \<Rightarrow> string result \<Rightarrow> cache_db \<Rightarrow> string result \<times> cache_db" where
  "CacheRead getFault delFault setFault key miss d = cacheRead getFault delFault setFault key miss None d"

text \<open>The read-through cache returns what the cache holds, or what the miss callback computes and then
  holds exactly that; a second read returns the same value without the callback.\<close>
theorem cache_read_through:
  assumes "v \<noteq> ''''" and "d key = ''''"
  shows "\<exists>d1. CacheRead Works Works Works key (Ok v) d = (Ok v, d1) \<and>
    CacheRead Works Works Works key miss d1 = (Ok v, d1) \<and> (\<forall>k. k \<noteq> key \<longrightarrow> d1 k = d k)"
  using assms by (simp add: CacheRead_def cacheRead_def redisGet_def redisSet_def)

theorem cache_read_through_witness:
  "\<exists>d1. CacheRead Works Works Works ''k'' (Ok ''v'') (\<lambda>_. '''') = (Ok ''v'', d1)"
  using cache_read_through[of "''v''" "\<lambda>_. ''''" "''k''"] by auto

text \<open>A hit callback cannot change the cached value: whatever new value it returns, the cache keeps the
  old one (the update writes the value it read), and a request to invalidate is undone when the new value
  differs from the old.\<close>
theorem cache_hit_update_lost:
  assumes "d key = value" and "value \<noteq> ''''" and "newValue \<noteq> value"
  shows "cacheRead Works Works Works key miss (Some (\<lambda>_. Ok (False, newValue, invalidate))) d = (Ok value, d)"
  using assms by (auto simp: cacheRead_def redisGet_def redisSet_def Let_def fun_eq_iff)

theorem cache_hit_update_lost_witness:
  "cacheRead Works Works Works ''k'' (Ok ''m'') (Some (\<lambda>_. Ok (False, ''new'', True))) (\<lambda>_. ''old'') =
    (Ok ''old'', \<lambda>_. ''old'')"
  by (rule cache_hit_update_lost) simp_all

end
