(* ===== verification/Coordinator_Loop.thy ===== *)
theory Coordinator_Loop
  imports Coordinator_Poll
begin

text \<open>
  The polling loop of a cluster (\<open>processSagaSteps\<close> in \<open>coordinator.go\<close>) up to the workers it starts, and
  the circuit breaker it consults: what wakes it, how long it sleeps, and when it stays away from the
  database.  Times are milliseconds.
\<close>

section \<open>Circuit breaker\<close>

record health =
  dbHealthy :: bool
  consecutiveDbErrors :: nat
  lastDbErrorTime :: "int option"
  lastHealthCheckTime :: "int option"

definition newHealth :: health where
  "newHealth = \<lparr>dbHealthy = True, consecutiveDbErrors = 0, lastDbErrorTime = None, lastHealthCheckTime = None\<rparr>"

definition dbHealthCheckInterval :: int where
  "dbHealthCheckInterval = 5000"

text \<open>The store's \<open>HealthCheck\<close>: a ping and a trivial query.\<close>
definition HealthCheck :: "world \<Rightarrow> unit result \<times> world" where
  "HealthCheck w =
     (case next_fault w of
        (Works, w1) \<Rightarrow>
          (case next_fault w1 of
             (Works, w2) \<Rightarrow> (Ok (), w2)
           | (_, w2) \<Rightarrow> (Err (''database query failed: '' @ sql_error), w2))
      | (_, w1) \<Rightarrow> (Err (''database ping failed: '' @ sql_error), w1))"

text \<open>What a failed check and a failed operation have in common.\<close>
definition countDbError :: "int \<Rightarrow> health \<Rightarrow> health" where
  "countDbError now h =
     (let n = Suc (consecutiveDbErrors h)
      in h\<lparr>consecutiveDbErrors := n, lastDbErrorTime := Some now,
           dbHealthy := (if 3 \<le> n \<and> dbHealthy h then False else dbHealthy h)\<rparr>)"

definition checkDatabaseHealth :: "health \<Rightarrow> world \<Rightarrow> health \<times> world" where
  "checkDatabaseHealth h w =
     (case time_now w of (t, w1) \<Rightarrow>
        if (case lastHealthCheckTime h of None \<Rightarrow> False | Some t0 \<Rightarrow> t - t0 < dbHealthCheckInterval)
        then (h, w1)
        else
        (case time_now w1 of (t1, w2) \<Rightarrow>
           let h1 = h\<lparr>lastHealthCheckTime := Some t1\<rparr> in
           (case HealthCheck w2 of
              (Inl e, w3) \<Rightarrow> (case time_now w3 of (t2, w4) \<Rightarrow> (countDbError t2 h1, w4))
            | (Inr _, w3) \<Rightarrow> (h1\<lparr>dbHealthy := True, consecutiveDbErrors := 0\<rparr>, w3))))"

definition recordDatabaseError :: "health \<Rightarrow> world \<Rightarrow> health \<times> world" where
  "recordDatabaseError h w = (case time_now w of (t, w1) \<Rightarrow> (countDbError t h, w1))"

definition IsReady :: "bool \<Rightarrow> health \<Rightarrow> bool \<Rightarrow> bool" where
  "IsReady isRunning h mqHealthy = (isRunning \<and> dbHealthy h \<and> mqHealthy)"

section \<open>The loop\<close>

datatype wake = Cancelled | Notified | NotificationsClosed | TimerFired

record poll_loop =
  pl_interval :: int
  pl_listening :: bool
  pl_health :: health

definition minInterval :: int where "minInterval = 500"
definition maxInterval :: int where "maxInterval = 3000"

definition newPollLoop :: poll_loop where
  "newPollLoop = \<lparr>pl_interval = minInterval, pl_listening = True, pl_health = newHealth\<rparr>"

definition nextInterval :: "bool \<Rightarrow> int \<Rightarrow> int" where
  "nextInterval workFound current =
     (if workFound then minInterval
      else if current * 2 > maxInterval then maxInterval else current * 2)"

text \<open>One turn of the loop: the steps workers are started for, or \<open>None\<close> when the loop ends.  A closed
  notification channel is set to nil, which never wakes the loop again.\<close>
definition pollTurn ::
    "coordinator \<Rightarrow> string \<Rightarrow> wake \<Rightarrow> poll_loop \<Rightarrow> world \<Rightarrow> SagaStepInstance list option \<times> poll_loop \<times> world" where
  "pollTurn co clusterId wk p w =
     (if wk = Cancelled then (None, p, w)
      else if wk \<in> {Notified, NotificationsClosed} \<and> \<not> pl_listening p then (Some [], p, w)
      else if wk = NotificationsClosed then (Some [], p\<lparr>pl_listening := False\<rparr>, w)
      else
      let p1 = (if wk = Notified then p\<lparr>pl_interval := minInterval\<rparr> else p) in
      (case checkDatabaseHealth (pl_health p1) w of (h, w1) \<Rightarrow>
         if \<not> dbHealthy h then (Some [], p1\<lparr>pl_health := h\<rparr>, w1)
         else
         (case pollQuery co clusterId w1 of
            (Inl e, w2) \<Rightarrow>
              (case recordDatabaseError h w2 of (h1, w3) \<Rightarrow> (Some [], p1\<lparr>pl_health := h1\<rparr>, w3))
          | (Inr steps, w2) \<Rightarrow>
              (Some steps, p1\<lparr>pl_health := h, pl_interval := nextInterval (steps \<noteq> []) (pl_interval p1)\<rparr>, w2))))"

text \<open>Turns in sequence; the database may change between them.\<close>
fun pollRun :: "coordinator \<Rightarrow> string \<Rightarrow> (wake \<times> world) list \<Rightarrow> poll_loop \<Rightarrow> poll_loop" where
  "pollRun co c [] p = p"
| "pollRun co c ((wk, w) # turns) p =
     (case pollTurn co c wk p w of
        (None, p1, _) \<Rightarrow> p1
      | (Some _, p1, _) \<Rightarrow> pollRun co c turns p1)"

section \<open>Invariant\<close>

definition health_ok :: "health \<Rightarrow> bool" where
  "health_ok h = (dbHealthy h \<longleftrightarrow> consecutiveDbErrors h < 3)"

definition loop_ok :: "poll_loop \<Rightarrow> bool" where
  "loop_ok p = (minInterval \<le> pl_interval p \<and> pl_interval p \<le> maxInterval \<and> health_ok (pl_health p))"

lemma countDbError_ok: "health_ok h \<Longrightarrow> health_ok (countDbError t h)"
  by (auto simp: health_ok_def countDbError_def Let_def)

lemma checkDatabaseHealth_ok: "checkDatabaseHealth h w = (h1, w1) \<Longrightarrow> health_ok h \<Longrightarrow> health_ok h1"
  using countDbError_ok[of "h\<lparr>lastHealthCheckTime := t\<rparr>" for t]
  by (auto simp: checkDatabaseHealth_def Let_def health_ok_def split: prod.splits if_splits sum.splits option.splits)

lemma recordDatabaseError_ok: "recordDatabaseError h w = (h1, w1) \<Longrightarrow> health_ok h \<Longrightarrow> health_ok h1"
  by (auto simp: recordDatabaseError_def countDbError_ok split: prod.splits)

lemma nextInterval_range:
  "minInterval \<le> i \<Longrightarrow> i \<le> maxInterval \<Longrightarrow> minInterval \<le> nextInterval b i \<and> nextInterval b i \<le> maxInterval"
  by (simp add: nextInterval_def minInterval_def maxInterval_def)

lemma pollTurn_ok:
  assumes "pollTurn co c wk p w = (r, p1, w1)" and "loop_ok p"
  shows "loop_ok p1"
proof -
  have r: "loop_ok (p\<lparr>pl_interval := minInterval\<rparr>)" using assms(2) by (simp add: loop_ok_def minInterval_def maxInterval_def)
  have n: "minInterval \<le> maxInterval" by (simp add: minInterval_def maxInterval_def)
  show ?thesis
    using assms r n checkDatabaseHealth_ok recordDatabaseError_ok nextInterval_range
    unfolding pollTurn_def Let_def
    by (auto simp: loop_ok_def split: if_splits prod.splits sum.splits)
qed

lemma pollRun_ok: "loop_ok p \<Longrightarrow> loop_ok (pollRun co c turns p)"
proof (induction turns arbitrary: p)
  case (Cons t turns)
  obtain wk w where t: "t = (wk, w)" by (cases t)
  obtain r p1 w1 where r: "pollTurn co c wk p w = (r, p1, w1)" by (cases "pollTurn co c wk p w")
  then have "loop_ok p1" using pollTurn_ok Cons.prems by blast
  then show ?case using Cons.IH by (simp add: t r split: option.split)
qed simp

lemma newPollLoop_ok: "loop_ok newPollLoop"
  by (simp add: loop_ok_def newPollLoop_def health_ok_def newHealth_def minInterval_def maxInterval_def)


section \<open>What a turn hands to workers\<close>

lemma query_keeps: "db_query q w = (r, w1) \<Longrightarrow> w_db w1 = w_db w"
  by (auto simp: db_query_def next_fault_def split: if_splits list.splits fault.splits)

lemma db_query_Ok: "db_query q w = (Inr x, w1) \<Longrightarrow> x = q (w_db w)"
  by (auto simp: db_query_def next_fault_def split: if_splits list.splits fault.splits)

lemma time_now_keeps: "time_now w = (t, w1) \<Longrightarrow> w_db w1 = w_db w"
  by (auto simp: time_now_def split: list.splits)

lemma next_fault_keeps: "next_fault w = (f, w1) \<Longrightarrow> w_db w1 = w_db w"
  by (auto simp: next_fault_def split: list.splits)

lemma HealthCheck_keeps: "HealthCheck w = (r, w1) \<Longrightarrow> w_db w1 = w_db w"
  by (auto simp: HealthCheck_def dest!: next_fault_keeps split: prod.splits fault.splits)

lemma checkDatabaseHealth_keeps: "checkDatabaseHealth h w = (h1, w1) \<Longrightarrow> w_db w1 = w_db w"
  by (auto simp: checkDatabaseHealth_def Let_def dest!: time_now_keeps HealthCheck_keeps
      split: prod.splits if_splits sum.splits option.splits)

text \<open>A step of the cluster and affinity in a polled state whose saga is running or is to be compensated.\<close>
definition eligible :: "coordinator \<Rightarrow> string \<Rightarrow> db \<Rightarrow> SagaStepInstance \<Rightarrow> bool" where
  "eligible co c d s = (s \<in> set (db_steps d) \<and> Ss_ClusterId s = c \<and> Ss_Affinity s = co_affinityGroup co \<and>
     Ss_State s \<in> set polledStepStates \<and>
     (\<exists>g \<in> set (db_sagas d). Si_ClusterId g = c \<and> Si_InstanceId g = Ss_SagaInstanceId s \<and>
        Si_State g \<in> {SagaStateEnum_Running, SagaStateEnum_CompensationRequested}))"

lemma pollQuery_Ok: "pollQuery co c w = (Inr steps, w1) \<Longrightarrow> set steps = {s. eligible co c (w_db w) s}"
  by (auto simp: pollQuery_def GetSagaStepInstancesByAffinityAndOneOfSagaStatesAndOneOfSagaStepStates_def
      eligible_def polledSagaStates_def dest!: db_query_Ok split: prod.splits sum.splits)

lemma pollTurn_steps:
  assumes "pollTurn co c wk p w = (Some steps, p1, w1)" and "steps \<noteq> []"
  shows "dbHealthy (pl_health p1) \<and> set steps = {s. eligible co c (w_db w) s}"
proof -
  have "\<exists>h w0 w2. checkDatabaseHealth (pl_health p) w = (h, w0) \<and> dbHealthy h \<and> pl_health p1 = h \<and>
      pollQuery co c w0 = (Inr steps, w2)"
    using assms unfolding pollTurn_def Let_def by (auto split: if_splits prod.splits sum.splits)
  then show ?thesis using pollQuery_Ok checkDatabaseHealth_keeps by metis
qed

lemma no_fault: "w_faults w = [] \<Longrightarrow> next_fault w = (Works, w)"
  by (simp add: next_fault_def)

lemma time_now_faults: "time_now w = (t, w1) \<Longrightarrow> w_faults w1 = w_faults w \<and> w_tx w1 = w_tx w"
  by (auto simp: time_now_def split: list.splits)

lemma checkDatabaseHealth_works:
  assumes "checkDatabaseHealth h w = (h1, w1)" and "w_faults w = []" and "w_tx w = None"
    and "dbHealthy h \<or> (case lastHealthCheckTime h of None \<Rightarrow> True | Some t \<Rightarrow> dbHealthCheckInterval \<le> fst (time_now w) - t)"
  shows "dbHealthy h1 \<and> w_faults w1 = [] \<and> w_tx w1 = None"
proof -
  obtain t w2 where t: "time_now w = (t, w2)" by fastforce
  obtain t' w3 where t': "time_now w2 = (t', w3)" by fastforce
  have f: "w_faults w3 = []" "w_tx w3 = None" "w_faults w2 = []" "w_tx w2 = None"
    using time_now_faults[OF t] time_now_faults[OF t'] assms(2,3) by auto
  have "HealthCheck w3 = (Ok (), w3)" using f by (simp add: HealthCheck_def no_fault)
  then show ?thesis using assms t t' f
    by (auto simp: checkDatabaseHealth_def Let_def split: option.splits if_splits)
qed


definition exPolledStep :: SagaStepInstance where
  "exPolledStep = zeroStepInstance\<lparr>Ss_ClusterId := ''c1'', Ss_InstanceId := ''s1'', Ss_SagaInstanceId := ''g1'',
     Ss_Affinity := ''ag'', Ss_State := SagaStepStateEnum_ExecutionSucceeded\<rparr>"

definition exPolledWorld :: world where
  "exPolledWorld = \<lparr>w_db = \<lparr>db_sagas = [zeroSagaInstance\<lparr>Si_ClusterId := ''c1'', Si_InstanceId := ''g1'',
       Si_State := SagaStateEnum_Running\<rparr>], db_steps = [exPolledStep], db_templates = [], db_stepTemplates = [],
       db_clusters = [], db_annexes = [], db_notify = []\<rparr>, w_tx = None, w_aborted = False, w_faults = [],
     w_clock = [], w_now = 60000, w_rand = [], w_dbtime = 0, w_outbox = [], w_spawned = []\<rparr>"

definition exPoller :: coordinator where
  "exPoller = \<lparr>co_affinityGroup = ''ag'', co_executionTimeoutMs = 60, co_subComponent = ''co''\<rparr>"

definition exOpenCircuit :: poll_loop where
  "exOpenCircuit = newPollLoop\<lparr>pl_health := \<lparr>dbHealthy = False, consecutiveDbErrors = 4, lastDbErrorTime = Some 1,
     lastHealthCheckTime = Some 55000\<rparr>\<rparr>"

lemma exPolled: "\<exists>p1. pollTurn exPoller ''c1'' TimerFired exOpenCircuit exPolledWorld = (Some [exPolledStep], p1, exPolledWorld)"
  by (simp add: pollTurn_def exOpenCircuit_def newPollLoop_def checkDatabaseHealth_def time_now_def exPolledWorld_def
      dbHealthCheckInterval_def HealthCheck_def next_fault_def Let_def pollQuery_def
      GetSagaStepInstancesByAffinityAndOneOfSagaStatesAndOneOfSagaStepStates_def db_query_def polledSagaStates_def
      polledStepStates_def exPolledStep_def exPoller_def)


end
