(* ===== verification/Saga_Submitter.thy ===== *)
theory Saga_Submitter
  imports Coordinator_Submission Store_Listing
begin

text \<open>
  The saga submitter (\<open>pkg/trax/submitter.go\<close>): the announcement protocol that tells it its clusters, the
  submissions it sends and the wait for a saga's end; and the executor of sub-sagas that uses it
  (\<open>sub_saga_executor.go\<close>).  HTTP and its JSON are inputs: each call is given what it answered.
\<close>

section \<open>Announcement\<close>

record SubmitterNodeNames =
  Inbox :: string
  Outbox :: string

record announcementResponse =
  Ar_ClusterIds :: "string list"
  Ar_NodeNamesPerClusterMap :: "string \<rightharpoonup> SubmitterNodeNames"

record submitter =
  sm_id :: string
  sm_clusterIds :: "string list"
  sm_nodeNames :: "string \<rightharpoonup> SubmitterNodeNames"
  sm_ready :: bool
  sm_traxCtrlURL :: string
  sm_consumersStarted :: "string \<Rightarrow> bool"
  sm_consumers :: "string list"

definition NewDefaultSagaSubmitter :: "string \<Rightarrow> submitter" where
  "NewDefaultSagaSubmitter sid = \<lparr>sm_id = sid, sm_clusterIds = [], sm_nodeNames = Map.empty, sm_ready = False,
     sm_traxCtrlURL = '''', sm_consumersStarted = (\<lambda>_. False), sm_consumers = []\<rparr>"

definition IsReadyWithClusters :: "submitter \<Rightarrow> bool" where
  "IsReadyWithClusters s = (sm_ready s \<and> sm_clusterIds s \<noteq> [])"

definition GetDefaultClusterId :: "submitter \<Rightarrow> string" where
  "GetDefaultClusterId s = (case sm_clusterIds s of c # _ \<Rightarrow> c | [] \<Rightarrow> '''')"

text \<open>The loop over the announced clusters; a cluster without an entry is a nil dereference (\<open>None\<close>).\<close>
fun learnClusters :: "(string \<rightharpoonup> SubmitterNodeNames) \<Rightarrow> string list \<Rightarrow> submitter \<Rightarrow> submitter option" where
  "learnClusters names [] s = Some s"
| "learnClusters names (c # cs) s =
     (case names c of
        None \<Rightarrow> None
      | Some n \<Rightarrow>
          let s1 = s\<lparr>sm_nodeNames := (sm_nodeNames s)(c \<mapsto> n)\<rparr>
          in learnClusters names cs
               (if sm_consumersStarted s1 (Inbox n) then s1
                else s1\<lparr>sm_consumersStarted := (sm_consumersStarted s1)(Inbox n := True),
                        sm_consumers := sm_consumers s1 @ [Inbox n]\<rparr>))"

definition processAnnouncementResponse :: "announcementResponse option \<Rightarrow> submitter \<Rightarrow> submitter option" where
  "processAnnouncementResponse resp s =
     (case resp of
        None \<Rightarrow> Some s
      | Some r \<Rightarrow>
          let s1 = (if sm_ready s then s else s\<lparr>sm_ready := True, sm_clusterIds := Ar_ClusterIds r\<rparr>)
          in learnClusters (Ar_NodeNamesPerClusterMap r) (Ar_ClusterIds r) s1)"

definition ResetForTesting :: "submitter \<Rightarrow> submitter" where
  "ResetForTesting s = s\<lparr>sm_ready := False, sm_clusterIds := [], sm_nodeNames := Map.empty\<rparr>"

text \<open>One announcement: \<open>None\<close> for a failed call, else what the decoder made of a 200.\<close>
type_synonym announced = "announcementResponse option option"

text \<open>The fast retries after a failure, at most five.\<close>
fun fastRetries :: "announced list \<Rightarrow> submitter \<Rightarrow> submitter option" where
  "fastRetries [] s = Some s"
| "fastRetries (None # rest) s = fastRetries rest s"
| "fastRetries (Some resp # rest) s = processAnnouncementResponse resp s"

definition announceRound :: "announced \<Rightarrow> announced list \<Rightarrow> submitter \<Rightarrow> submitter option" where
  "announceRound first retries s =
     (case first of
        Some resp \<Rightarrow> processAnnouncementResponse resp s
      | None \<Rightarrow> fastRetries (take 5 retries) (s\<lparr>sm_ready := False\<rparr>))"

text \<open>The waits before the fast retries, in milliseconds: doubled, and from the second on capped at the
  announcement interval.\<close>
fun retryBackoffs :: "nat \<Rightarrow> int \<Rightarrow> int \<Rightarrow> int list" where
  "retryBackoffs 0 interval backoff = []"
| "retryBackoffs (Suc n) interval backoff =
     backoff # retryBackoffs n interval (if 2 * backoff > interval then interval else 2 * backoff)"

definition announcementBackoffs :: "int \<Rightarrow> int list" where
  "announcementBackoffs interval = retryBackoffs 5 interval 1000"

section \<open>Submission\<close>

record submission =
  sb_participantId :: string
  sb_traceId :: string
  sb_zoneId :: string
  sb_origin :: string
  sb_originIdempotencyKey :: string
  sb_issuer :: string
  sb_referrer :: string
  sb_tags :: "string list"
  sb_metadata :: smap
  sb_sagaTemplateId :: string
  sb_sagaInput :: smap
  sb_parentSagaInstanceId :: string
  sb_parentSagaStepInstanceId :: string
  sb_rootSagaInstanceId :: string
  sb_sagaDepth :: int

definition submissionPayload :: "submitter \<Rightarrow> submission \<Rightarrow> string \<Rightarrow> SagaSubmissionRequestPayload" where
  "submissionPayload s b iid =
     \<lparr>Sr_SagaSubmitterId = sm_id s, Sr_SagaTemplateId = sb_sagaTemplateId b, Sr_SagaInstanceId = iid,
      Sr_ZoneId = sb_zoneId b, Sr_SagaInput = sb_sagaInput b, Sr_ParentSagaInstanceId = sb_parentSagaInstanceId b,
      Sr_ParentSagaStepInstanceId = sb_parentSagaStepInstanceId b, Sr_RootSagaInstanceId = sb_rootSagaInstanceId b,
      Sr_SagaDepth = sb_sagaDepth b\<rparr>"

definition submissionMessage :: "submitter \<Rightarrow> submission \<Rightarrow> string \<Rightarrow> string \<Rightarrow> string \<Rightarrow> int \<Rightarrow> TraxMessage" where
  "submissionMessage s b iid mid eid ts =
     AddPayload (jsonPayload SagaPayloadType_SagaSubmissionRequest (SagaSubmissionRequestBody (submissionPayload s b iid)))
       (AnonymousSession ((NewTraxMessageBuilder mid (sb_traceId b) eid ts)
          \<lparr>Tm_ClusterId := sb_participantId b, Tm_Origin := sb_origin b, Tm_Issuer := sb_issuer b,
           Tm_Referrer := sb_referrer b, Tm_Submitter := sm_id s, Tm_Tags := sb_tags b,
           Tm_Metadata := sb_metadata b, Tm_OriginIdempotencyKey := sb_originIdempotencyKey b\<rparr>))"

text \<open>What the two submissions have in common; they differ in the word of their error.\<close>
definition submitAs :: "string \<Rightarrow> submitter \<Rightarrow> submission \<Rightarrow> world \<Rightarrow> string result \<times> world" where
  "submitAs kind s b w =
     (case sm_nodeNames s (sb_participantId b) of
        None \<Rightarrow> (Err (''cluster id not found: '' @ sb_participantId b), w)
      | Some n \<Rightarrow>
          (case random_string w of (iid, w1) \<Rightarrow>
          (case random_string w1 of (mid, w2) \<Rightarrow>
          (case random_string w2 of (tid, w3) \<Rightarrow>
          (case random_string w3 of (eid, w4) \<Rightarrow>
          (case time_now w4 of (ts, w5) \<Rightarrow>
          (case mq_publish (Outbox n) '''' (submissionMessage s b iid mid eid ts) w5 of
             (Inl e, w6) \<Rightarrow> (Err (''failed to publish '' @ kind @ '' submission request to node '' @ Outbox n @ '': '' @ e), w6)
           | (Inr _, w6) \<Rightarrow> (Ok iid, w6))))))))"

definition SubmitSubSaga :: "submitter \<Rightarrow> submission \<Rightarrow> world \<Rightarrow> string result \<times> world" where
  "SubmitSubSaga s b w = submitAs ''sub-saga'' s b w"

text \<open>A saga without a parent.\<close>
definition SubmitSaga :: "submitter \<Rightarrow> submission \<Rightarrow> world \<Rightarrow> string result \<times> world" where
  "SubmitSaga s b w = submitAs ''saga'' s (b\<lparr>sb_parentSagaInstanceId := '''', sb_parentSagaStepInstanceId := '''',
     sb_rootSagaInstanceId := '''', sb_sagaDepth := 0\<rparr>) w"

section \<open>Waiting for the end of a saga\<close>

text \<open>One turn of a polling loop: the context was done, or the ticker fired; then whether the deadline
  has passed, what the saga's lookup answered and, should they be asked for, the outputs.\<close>
datatype poll_turn =
    ContextDone string
  | Tick (tk_late: bool) (tk_state: "SagaStateEnum result") (tk_outputs: "smap result")

record SagaCompletionResult =
  Cr_SagaInstanceId :: string
  Cr_State :: SagaStateEnum
  Cr_Outputs :: smap
  Cr_Error :: string

type_synonym completion = "SagaCompletionResult option \<times> string option"

definition ended :: "string \<Rightarrow> SagaStateEnum \<Rightarrow> smap \<Rightarrow> string \<Rightarrow> string \<Rightarrow> completion" where
  "ended iid st outputs error err =
     (Some \<lparr>Cr_SagaInstanceId = iid, Cr_State = st, Cr_Outputs = outputs, Cr_Error = error\<rparr>, Some err)"

definition committedOutcome :: "string \<Rightarrow> smap result \<Rightarrow> completion" where
  "committedOutcome iid outputs =
     (case outputs of
        Inl e \<Rightarrow> (None, Some (''saga committed but failed to extract outputs: '' @ e))
      | Inr m \<Rightarrow> (Some \<lparr>Cr_SagaInstanceId = iid, Cr_State = SagaStateEnum_Committed, Cr_Outputs = m, Cr_Error = ''''\<rparr>, None))"

text \<open>\<open>None\<close>: the script ends and the loop still waits.\<close>
fun waitLoop :: "string \<Rightarrow> poll_turn list \<Rightarrow> completion option" where
  "waitLoop iid [] = None"
| "waitLoop iid (ContextDone e # turns) = Some (None, Some e)"
| "waitLoop iid (Tick late st outputs # turns) =
     (if late then Some (None, Some (''timeout waiting for saga '' @ iid @ '' to complete''))
      else case st of
             Inl e \<Rightarrow> waitLoop iid turns
           | Inr g \<Rightarrow>
               if g = SagaStateEnum_Committed then Some (committedOutcome iid outputs)
               else if g = SagaStateEnum_Compensated
               then Some (ended iid g Map.empty ''saga was compensated (rolled back)'' (''saga '' @ iid @ '' was compensated''))
               else if g = SagaStateEnum_Blocked
               then Some (ended iid g Map.empty ''saga is blocked and requires intervention'' (''saga '' @ iid @ '' is blocked''))
               else if g = SagaStateEnum_InvalidState
               then Some (ended iid g Map.empty ''saga entered invalid state'' (''saga '' @ iid @ '' entered invalid state''))
               else waitLoop iid turns)"

definition WaitForSagaCompletion :: "submitter \<Rightarrow> string \<Rightarrow> poll_turn list \<Rightarrow> completion option" where
  "WaitForSagaCompletion s iid turns =
     (if sm_traxCtrlURL s = '''' then Some (None, Some ''traxCtrlURL not set - call SetTraxCtrlURL first'')
      else waitLoop iid turns)"

text \<open>\<open>pollForCompletion\<close>: it gives up on a saga it has never seen after 15 failed lookups in a row, and
  hands back the compensation outputs of a compensated saga (none when they cannot be read).\<close>
fun pollForCompletion :: "string \<Rightarrow> nat \<Rightarrow> bool \<Rightarrow> poll_turn list \<Rightarrow> completion option" where
  "pollForCompletion iid errors found [] = None"
| "pollForCompletion iid errors found (ContextDone e # turns) = Some (None, Some e)"
| "pollForCompletion iid errors found (Tick late st outputs # turns) =
     (if late then Some (None, Some (''timeout waiting for sub-saga '' @ iid @ '' to complete''))
      else case st of
             Inl e \<Rightarrow>
               if \<not> found \<and> Suc errors \<ge> 15 then Some (None, Some (''sub-saga '' @ iid @ '' not found: '' @ e))
               else pollForCompletion iid (Suc errors) found turns
           | Inr g \<Rightarrow>
               if g = SagaStateEnum_Committed then Some (committedOutcome iid outputs)
               else if g = SagaStateEnum_Compensated
               then Some (ended iid g (case outputs of Inl e \<Rightarrow> Map.empty | Inr m \<Rightarrow> m)
                      ''sub-saga was compensated (rolled back)'' (''sub-saga '' @ iid @ '' was compensated''))
               else if g = SagaStateEnum_Blocked
               then Some (ended iid g Map.empty ''sub-saga is blocked and requires intervention'' (''sub-saga '' @ iid @ '' is blocked''))
               else if g = SagaStateEnum_InvalidState
               then Some (ended iid g Map.empty ''sub-saga entered invalid state'' (''sub-saga '' @ iid @ '' entered invalid state''))
               else pollForCompletion iid 0 True turns)"

text \<open>\<open>extractOutputsFromSteps\<close>: the listed steps with their state string and result text; decoding is an
  argument.\<close>
definition mergeOutputs :: "(string \<Rightarrow> smap option) \<Rightarrow> string set \<Rightarrow> (string \<times> string) list \<Rightarrow> smap" where
  "mergeOutputs decode states steps =
     fold (\<lambda>(st, raw) outputs.
       if st \<notin> states \<or> raw = '''' then outputs
       else case decode raw of None \<Rightarrow> outputs | Some m \<Rightarrow> outputs ++ m) steps Map.empty"

definition executionOutputs :: "(string \<Rightarrow> smap option) \<Rightarrow> (string \<times> string) list \<Rightarrow> smap" where
  "executionOutputs decode = mergeOutputs decode
     {sagaStepStateString SagaStepStateEnum_ExecutionSucceeded, sagaStepStateString SagaStepStateEnum_ExecutionDone}"

definition compensationOutputs :: "(string \<Rightarrow> smap option) \<Rightarrow> (string \<times> string) list \<Rightarrow> smap" where
  "compensationOutputs decode = mergeOutputs decode {sagaStepStateString SagaStepStateEnum_CompensationDone}"

text \<open>\<open>SpawnAndWaitWithParent\<close>\<close>
definition subSagaSubmission ::
    "string \<Rightarrow> string \<Rightarrow> smap \<Rightarrow> string \<Rightarrow> string \<Rightarrow> string \<Rightarrow> string \<Rightarrow> int \<Rightarrow> submission" where
  "subSagaSubmission clusterId sagaTemplateId sagaInput originKey parent parentStep root parentDepth =
     \<lparr>sb_participantId = clusterId, sb_traceId = '''', sb_zoneId = ''default-zone'', sb_origin = ''sub-saga'',
      sb_originIdempotencyKey = originKey, sb_issuer = '''', sb_referrer = '''', sb_tags = [], sb_metadata = Map.empty,
      sb_sagaTemplateId = sagaTemplateId, sb_sagaInput = sagaInput, sb_parentSagaInstanceId = parent,
      sb_parentSagaStepInstanceId = parentStep, sb_rootSagaInstanceId = root, sb_sagaDepth = parentDepth + 1\<rparr>"

definition SpawnAndWaitWithParent :: "submitter \<Rightarrow> submission \<Rightarrow> poll_turn list \<Rightarrow> world \<Rightarrow> completion option \<times> world" where
  "SpawnAndWaitWithParent s b turns w =
     (case SubmitSubSaga s b w of
        (Inl e, w1) \<Rightarrow> (Some (None, Some (''failed to submit sub-saga '' @ sb_sagaTemplateId b @ '': '' @ e)), w1)
      | (Inr iid, w1) \<Rightarrow>
          (map_option (\<lambda>c. case snd c of
               None \<Rightarrow> c
             | Some e \<Rightarrow> (None, Some (''failed to poll for sub-saga '' @ iid @ '' completion: '' @ e)))
             (pollForCompletion iid 0 False turns), w1))"

section \<open>One consumer per inbox\<close>

datatype submitter_event = AnnounceRound announced "announced list" | Reset | SetTraxCtrlURL string

fun submitterStep :: "submitter_event \<Rightarrow> submitter \<Rightarrow> submitter option" where
  "submitterStep (AnnounceRound first retries) s = announceRound first retries s"
| "submitterStep Reset s = Some (ResetForTesting s)"
| "submitterStep (SetTraxCtrlURL url) s = Some (s\<lparr>sm_traxCtrlURL := url\<rparr>)"

fun runSubmitter :: "submitter_event list \<Rightarrow> submitter \<Rightarrow> submitter option" where
  "runSubmitter [] s = Some s"
| "runSubmitter (e # es) s = (case submitterStep e s of None \<Rightarrow> None | Some s1 \<Rightarrow> runSubmitter es s1)"

definition consumers_inv :: "submitter \<Rightarrow> bool" where
  "consumers_inv s = (distinct (sm_consumers s) \<and> (\<forall>n. sm_consumersStarted s n \<longleftrightarrow> n \<in> set (sm_consumers s)) \<and>
     (\<forall>c n. sm_nodeNames s c = Some n \<longrightarrow> Inbox n \<in> set (sm_consumers s)))"

lemma learnClusters_inv: "learnClusters names cs s = Some s' \<Longrightarrow> consumers_inv s \<Longrightarrow> consumers_inv s'"
  by (induction names cs s rule: learnClusters.induct)
    (auto simp: consumers_inv_def Let_def split: option.splits if_splits)

lemma processAnnouncementResponse_inv:
  "processAnnouncementResponse resp s = Some s' \<Longrightarrow> consumers_inv s \<Longrightarrow> consumers_inv s'"
proof -
  assume p: "processAnnouncementResponse resp s = Some s'" and i: "consumers_inv s"
  have "consumers_inv (s\<lparr>sm_ready := True, sm_clusterIds := cs\<rparr>)" for cs using i by (simp add: consumers_inv_def)
  then show "consumers_inv s'"
    using p i learnClusters_inv by (auto simp: processAnnouncementResponse_def Let_def split: option.splits if_splits)
qed

lemma announceRound_inv: "announceRound first retries s = Some s' \<Longrightarrow> consumers_inv s \<Longrightarrow> consumers_inv s'"
proof -
  have f: "fastRetries rs s = Some s' \<Longrightarrow> consumers_inv s \<Longrightarrow> consumers_inv s'" for rs s s'
    by (induction rs s rule: fastRetries.induct) (auto dest: processAnnouncementResponse_inv)
  have "consumers_inv s \<Longrightarrow> consumers_inv (s\<lparr>sm_ready := False\<rparr>)" by (simp add: consumers_inv_def)
  then show "announceRound first retries s = Some s' \<Longrightarrow> consumers_inv s \<Longrightarrow> consumers_inv s'"
    using f by (auto simp: announceRound_def dest: processAnnouncementResponse_inv split: option.splits)
qed

lemma submitterStep_inv: "submitterStep e s = Some s' \<Longrightarrow> consumers_inv s \<Longrightarrow> consumers_inv s'"
  by (cases e) (auto dest: announceRound_inv simp: ResetForTesting_def consumers_inv_def)

lemma runSubmitter_inv: "runSubmitter es s = Some s' \<Longrightarrow> consumers_inv s \<Longrightarrow> consumers_inv s'"
  by (induction es arbitrary: s) (auto dest: submitterStep_inv split: option.splits)

text \<open>C28: However often the submitter announces itself, fails, retries and is reset, it never starts two
  consumers on the same inbox, and every cluster it can submit to has a consumer on its inbox.\<close>
theorem one_consumer_per_inbox:
  assumes "runSubmitter es (NewDefaultSagaSubmitter sid) = Some s"
  shows "distinct (sm_consumers s) \<and> (\<forall>c n. sm_nodeNames s c = Some n \<longrightarrow> Inbox n \<in> set (sm_consumers s))"
proof -
  have "consumers_inv (NewDefaultSagaSubmitter sid)" by (simp add: consumers_inv_def NewDefaultSagaSubmitter_def)
  then show ?thesis using runSubmitter_inv[OF assms] by (simp add: consumers_inv_def)
qed

definition exAnnouncement :: announcementResponse where
  "exAnnouncement = \<lparr>Ar_ClusterIds = [''c1'', ''c2''],
     Ar_NodeNamesPerClusterMap = [''c1'' \<mapsto> \<lparr>Inbox = ''q1'', Outbox = ''x1''\<rparr>, ''c2'' \<mapsto> \<lparr>Inbox = ''q2'', Outbox = ''x2''\<rparr>]\<rparr>"

theorem one_consumer_per_inbox_witness:
  "\<exists>s. runSubmitter [AnnounceRound (Some (Some exAnnouncement)) [], Reset, AnnounceRound None [None, Some (Some exAnnouncement)]]
      (NewDefaultSagaSubmitter ''s'') = Some s \<and> distinct (sm_consumers s) \<and> sm_consumers s = [''q1'', ''q2'']"
proof -
  obtain s where s: "runSubmitter [AnnounceRound (Some (Some exAnnouncement)) [], Reset, AnnounceRound None [None, Some (Some exAnnouncement)]]
      (NewDefaultSagaSubmitter ''s'') = Some s" "sm_consumers s = [''q1'', ''q2'']"
    by (simp add: announceRound_def processAnnouncementResponse_def exAnnouncement_def NewDefaultSagaSubmitter_def
        ResetForTesting_def Let_def)
  then show ?thesis using one_consumer_per_inbox[OF s(1)] by blast
qed

text \<open>After a failed announcement there are at most five fast retries, none waits longer than the larger of one
  second and the announcement interval, and together they wait at most 31 seconds.\<close>
theorem announcement_backoff_bounded:
  assumes "0 < interval"
  shows "length (announcementBackoffs interval) = 5 \<and> sum_list (announcementBackoffs interval) \<le> 31000 \<and>
    (\<forall>b \<in> set (announcementBackoffs interval). 0 < b \<and> b \<le> max 1000 interval)"
  using assms by (simp add: announcementBackoffs_def eval_nat_numeral)

theorem announcement_backoff_bounded_witness: "announcementBackoffs 3000 = [1000, 2000, 3000, 3000, 3000] \<and>
    sum_list (announcementBackoffs 3000) \<le> 31000"
  using announcement_backoff_bounded[of 3000] by (simp add: announcementBackoffs_def eval_nat_numeral)

section \<open>The end of a saga\<close>

definition terminalSagaState :: "SagaStateEnum \<Rightarrow> bool" where
  "terminalSagaState st = (st \<in> {SagaStateEnum_Committed, SagaStateEnum_Compensated, SagaStateEnum_Blocked, SagaStateEnum_InvalidState})"

text \<open>When the wait for a saga reports a state, the control service reported that state in some turn, it is a
  terminal one, and the wait succeeds exactly for a committed saga, with the outputs read then.\<close>
theorem wait_reports_terminal_state:
  assumes "WaitForSagaCompletion s iid turns = Some (Some r, err)"
  shows "(\<exists>outputs. Tick False (Ok (Cr_State r)) outputs \<in> set turns \<and>
      (Cr_State r = SagaStateEnum_Committed \<longrightarrow> outputs = Ok (Cr_Outputs r))) \<and>
    terminalSagaState (Cr_State r) \<and> Cr_SagaInstanceId r = iid \<and> (err = None \<longleftrightarrow> Cr_State r = SagaStateEnum_Committed)"
proof -
  have "waitLoop iid turns = Some (Some r, err)" using assms by (auto simp: WaitForSagaCompletion_def split: if_splits)
  then show ?thesis
proof (induction turns)
  case Nil
  then show ?case by simp
next
  case (Cons t turns)
  show ?case
  proof (cases t)
    case (ContextDone e)
    then show ?thesis using Cons.prems by simp
  next
    case (Tick late st outputs)
    have nl: "\<not> late" using Cons.prems Tick by auto
    show ?thesis
    proof (cases "\<exists>g. st = Ok g \<and> terminalSagaState g")
      case True
      then obtain g where g: "st = Ok g" "terminalSagaState g" by blast
      have "Cr_State r = g \<and> Cr_SagaInstanceId r = iid \<and>
          (g = SagaStateEnum_Committed \<longrightarrow> outputs = Ok (Cr_Outputs r)) \<and>
          (err = None \<longleftrightarrow> g = SagaStateEnum_Committed)"
        using Cons.prems Tick nl g
        by (cases g) (auto simp: committedOutcome_def ended_def terminalSagaState_def split: sum.splits)
      then show ?thesis using g nl Tick by auto
    next
      case False
      then have "waitLoop iid (t # turns) = waitLoop iid turns"
        using Tick nl by (auto simp: terminalSagaState_def split: sum.splits)
      then show ?thesis using Cons by auto
    qed
  qed
qed
qed

definition exTurns :: "poll_turn list" where
  "exTurns = [Tick False (Err ''404'') (Err ''''), Tick False (Ok SagaStateEnum_Running) (Err ''''),
     Tick False (Ok SagaStateEnum_Committed) (Ok [''x'' \<mapsto> ''1''])]"

definition exWaiting :: submitter where
  "exWaiting = (NewDefaultSagaSubmitter ''sub'')\<lparr>sm_traxCtrlURL := ''http://traxctrl''\<rparr>"

theorem wait_reports_terminal_state_witness:
  "\<exists>r. WaitForSagaCompletion exWaiting ''i1'' exTurns = Some (Some r, None) \<and>
    Cr_State r = SagaStateEnum_Committed \<and> terminalSagaState (Cr_State r)"
proof -
  obtain r where r: "WaitForSagaCompletion exWaiting ''i1'' exTurns = Some (Some r, None)" "Cr_State r = SagaStateEnum_Committed"
    by (simp add: exTurns_def committedOutcome_def exWaiting_def WaitForSagaCompletion_def)
  then show ?thesis using wait_reports_terminal_state[OF r(1)] by blast
qed

text \<open>C29: Waiting for a sub-saga ends: at the latest in the first turn past the deadline or with a done context,
  and a saga that was never found is given up after exactly 15 failed lookups, while one that was found once is
  waited for however many lookups fail.\<close>
theorem subsaga_poll_bounded:
  "((\<exists>t \<in> set turns. case t of ContextDone e \<Rightarrow> True | Tick late st outputs \<Rightarrow> late) \<longrightarrow>
     pollForCompletion iid errors found turns \<noteq> None) \<and>
   (list_all (\<lambda>t. \<exists>e outputs. t = Tick False (Err e) outputs) turns \<longrightarrow> errors < 15 \<longrightarrow>
     (pollForCompletion iid errors found turns \<noteq> None \<longleftrightarrow> \<not> found \<and> 15 \<le> errors + length turns))"
proof -
  have a: "(\<exists>t \<in> set turns. case t of ContextDone e \<Rightarrow> True | Tick late st outputs \<Rightarrow> late) \<Longrightarrow>
     pollForCompletion iid errors found turns \<noteq> None"
  proof (induction turns arbitrary: errors found)
    case Nil
    then show ?case by simp
  next
    case (Cons t turns)
    show ?case
    proof (cases "case t of ContextDone e \<Rightarrow> True | Tick late st outputs \<Rightarrow> late")
      case True
      then show ?thesis by (cases t) auto
    next
      case False
      then have ih: "pollForCompletion iid e f turns \<noteq> None" for e f using Cons by auto
      show ?thesis using False ih by (cases t) (auto split: sum.splits simp del: not_None_eq)
    qed
  qed
  have b: "list_all (\<lambda>t. \<exists>e outputs. t = Tick False (Err e) outputs) turns \<Longrightarrow> errors < 15 \<or> found \<Longrightarrow>
     (pollForCompletion iid errors found turns \<noteq> None \<longleftrightarrow> \<not> found \<and> 15 \<le> errors + length turns)"
  proof (induction turns arbitrary: errors)
    case Nil
    then show ?case by auto
  next
    case (Cons t turns)
    then obtain e outputs where t: "t = Tick False (Err e) outputs" by auto
    show ?case using Cons t by (cases "found") (auto simp: not_less_eq_eq)
  qed
  show ?thesis using a b by blast
qed

theorem subsaga_poll_bounded_witness:
  "pollForCompletion ''i1'' 0 False (replicate 15 (Tick False (Err ''404'') (Err ''''))) \<noteq> None \<and>
   pollForCompletion ''i1'' 0 False (replicate 14 (Tick False (Err ''404'') (Err ''''))) = None \<and>
   pollForCompletion ''i1'' 14 True (replicate 14 (Tick False (Err ''404'') (Err ''''))) = None"
  using subsaga_poll_bounded[of "replicate 15 (Tick False (Err ''404'') (Err ''''))" "''i1''" 0 False]
    subsaga_poll_bounded[of "replicate 14 (Tick False (Err ''404'') (Err ''''))" "''i1''" 0 False]
    subsaga_poll_bounded[of "replicate 14 (Tick False (Err ''404'') (Err ''''))" "''i1''" 14 True]
  by (simp add: list_all_iff del: not_None_eq)

section \<open>Outputs\<close>

text \<open>The outputs of a saga are those of its finished steps merged in order: a key has the value the last
  finished step with that key gave it, and no other key is there.\<close>
theorem outputs_last_step_wins:
  "executionOutputs decode steps k =
    fold (\<lambda>m v. if m k = None then v else m k)
      (map (\<lambda>(st, raw). the (decode raw))
        (filter (\<lambda>(st, raw). st \<in> {sagaStepStateString SagaStepStateEnum_ExecutionSucceeded,
           sagaStepStateString SagaStepStateEnum_ExecutionDone} \<and> raw \<noteq> '''' \<and> decode raw \<noteq> None) steps)) None"
proof -
  have "fold (\<lambda>(st, raw) outputs. if st \<notin> S \<or> raw = '''' then outputs
          else case decode raw of None \<Rightarrow> outputs | Some m \<Rightarrow> outputs ++ m) steps acc k =
      fold (\<lambda>m v. if m k = None then v else m k)
        (map (\<lambda>(st, raw). the (decode raw)) (filter (\<lambda>(st, raw). st \<in> S \<and> raw \<noteq> '''' \<and> decode raw \<noteq> None) steps)) (acc k)"
    for S acc
  proof (induction steps arbitrary: acc)
    case Nil
    then show ?case by simp
  next
    case (Cons x steps)
    obtain st raw where x: "x = (st, raw)" by (cases x)
    show ?case
    proof (cases "st \<in> S \<and> raw \<noteq> ''''")
      case True
      then show ?thesis using Cons[of "acc ++ the (decode raw)"] Cons[of acc]
        by (cases "decode raw") (auto simp: x map_add_def split: option.splits)
    next
      case False
      then show ?thesis using Cons[of acc] by (auto simp: x)
    qed
  qed
  from this[of "{sagaStepStateString SagaStepStateEnum_ExecutionSucceeded, sagaStepStateString SagaStepStateEnum_ExecutionDone}"
      Map.empty]
  show ?thesis unfolding executionOutputs_def mergeOutputs_def by (simp only:)
qed

section \<open>Submission and the coordinator\<close>

lemma outbox_kept: "random_string w = (x, w') \<Longrightarrow> w_outbox w' = w_outbox w" "time_now w = (t, w') \<Longrightarrow> w_outbox w' = w_outbox w"
  by (auto simp: random_string_def time_now_def split: list.splits)

lemma published_Ok:
  "mq_publish x k m w = (Ok u, w') \<Longrightarrow>
   w_outbox w' = w_outbox w @ [\<lparr>pub_exchange = x, pub_routingKey = k, pub_message = m\<rparr>]"
  by (auto simp: mq_publish_def next_fault_def Let_def split: list.splits fault.splits)

lemma SubmitSubSaga_Ok:
  assumes "SubmitSubSaga s b w = (Ok iid, w')"
  shows "\<exists>n mid eid ts. sm_nodeNames s (sb_participantId b) = Some n \<and> w_outbox w' = w_outbox w @
    [\<lparr>pub_exchange = Outbox n, pub_routingKey = '''', pub_message = submissionMessage s b iid mid eid ts\<rparr>]"
proof -
  obtain n w1 mid w2 tid w3 eid w4 ts w5 u where
    n: "sm_nodeNames s (sb_participantId b) = Some n" and r: "random_string w = (iid, w1)" "random_string w1 = (mid, w2)"
    "random_string w2 = (tid, w3)" "random_string w3 = (eid, w4)" "time_now w4 = (ts, w5)"
    and p: "mq_publish (Outbox n) '''' (submissionMessage s b iid mid eid ts) w5 = (Ok u, w')"
    using assms by (auto simp: SubmitSubSaga_def submitAs_def split: option.splits prod.splits sum.splits)
  have "w_outbox w5 = w_outbox w"
    by (simp only: outbox_kept(2)[OF r(5)] outbox_kept(1)[OF r(4)] outbox_kept(1)[OF r(3)] outbox_kept(1)[OF r(2)]
        outbox_kept(1)[OF r(1)])
  then show ?thesis using published_Ok[OF p] n by metis
qed

text \<open>C22: What a sub-saga submission becomes: the message a successful submission puts on the cluster's outbox makes
  the coordinator build a saga row with the returned instance id, the caller's template, input, zone, origin
  and key, the parent, the parent's step and the depth it was given, and as root the given root or itself.\<close>
theorem submission_becomes_saga:
  assumes "SubmitSubSaga s b w = (Ok iid, w')"
  shows "\<exists>n msg p. sm_nodeNames s (sb_participantId b) = Some n \<and>
    w_outbox w' = w_outbox w @ [\<lparr>pub_exchange = Outbox n, pub_routingKey = '''', pub_message = msg\<rparr>] \<and>
    Tm_Payloads msg = [jsonPayload SagaPayloadType_SagaSubmissionRequest (SagaSubmissionRequestBody p)] \<and>
    (let g = newSagaInstance msg p tpl eid in
       Si_InstanceId g = iid \<and> Si_ClusterId g = sb_participantId b \<and> Si_SagaTemplateId g = sb_sagaTemplateId b \<and>
       Si_Input g = sb_sagaInput b \<and> Si_ZoneId g = sb_zoneId b \<and> Si_Origin g = sb_origin b \<and>
       Si_OriginIdempotencyKey g = sb_originIdempotencyKey b \<and> Si_ParentSagaInstanceId g = sb_parentSagaInstanceId b \<and>
       Si_ParentSagaStepInstanceId g = sb_parentSagaStepInstanceId b \<and> Si_SagaDepth g = sb_sagaDepth b \<and>
       Si_RootSagaInstanceId g = (if sb_rootSagaInstanceId b = '''' then iid else sb_rootSagaInstanceId b) \<and>
       Si_SagaSubmitterId g = sb_issuer b \<and> Si_State g = SagaStateEnum_Running)"
proof -
  obtain n mid e2 ts where n: "sm_nodeNames s (sb_participantId b) = Some n"
    and o': "w_outbox w' = w_outbox w @
      [\<lparr>pub_exchange = Outbox n, pub_routingKey = '''', pub_message = submissionMessage s b iid mid e2 ts\<rparr>]"
    using SubmitSubSaga_Ok[OF assms] by blast
  show ?thesis
    by (intro exI[of _ n] exI[of _ "submissionMessage s b iid mid e2 ts"] exI[of _ "submissionPayload s b iid"] conjI n o')
      (simp_all add: submissionMessage_def submissionPayload_def newSagaInstance_def AddPayload_def AnonymousSession_def
        NewTraxMessageBuilder_def Let_def)
qed

definition exSubmitterState :: submitter where
  "exSubmitterState = (NewDefaultSagaSubmitter ''sub'')\<lparr>sm_nodeNames := [''c1'' \<mapsto> \<lparr>Inbox = ''q1'', Outbox = ''x1''\<rparr>]\<rparr>"

definition exSubSaga :: submission where
  "exSubSaga = subSagaSubmission ''c1'' ''t'' Map.empty ''key'' ''parent'' ''parentStep'' '''' 2"

lemma exSubSaga_submitted: "\<exists>iid w'. SubmitSubSaga exSubmitterState exSubSaga (exAnnexWorld []) = (Ok iid, w')"
  by (simp add: SubmitSubSaga_def submitAs_def exSubmitterState_def exSubSaga_def subSagaSubmission_def random_string_def
      exAnnexWorld_def time_now_def mq_publish_def next_fault_def Let_def)

theorem submission_becomes_saga_witness:
  "\<forall>tpl eid. \<exists>iid w' msg p. SubmitSubSaga exSubmitterState exSubSaga (exAnnexWorld []) = (Ok iid, w') \<and>
    Si_InstanceId (newSagaInstance msg p tpl eid) = iid \<and> Si_SagaDepth (newSagaInstance msg p tpl eid) = 3"
proof -
  obtain iid w' where s: "SubmitSubSaga exSubmitterState exSubSaga (exAnnexWorld []) = (Ok iid, w')"
    using exSubSaga_submitted by blast
  have "sb_sagaDepth exSubSaga = 3" by (simp add: exSubSaga_def subSagaSubmission_def)
  then show ?thesis using submission_becomes_saga[OF s] s unfolding Let_def by metis
qed

text \<open>A submission is not deduplicated by its origin idempotency key: two submissions of the same request get
  two instance ids, and the store keeps a saga for each of them.\<close>
lemma resubmission_not_deduplicated:
  assumes "psql_wf w" and "iid1 \<noteq> iid2"
    and "g1 = newSagaInstance (submissionMessage s b iid1 m1 e1 t1) (submissionPayload s b iid1) tpl x1"
    and "g2 = newSagaInstance (submissionMessage s b iid2 m2 e2 t2) (submissionPayload s b iid2) tpl x2"
    and "\<not> keyed_in (psql_view w) g1" and "\<not> keyed_in (psql_view w) g2"
    and "psql_view w (sagaIdent g1) = None" and "psql_view w (sagaIdent g2) = None" and "psql_admits w g1"
  shows "Si_OriginIdempotencyKey g1 = Si_OriginIdempotencyKey g2 \<and>
    (\<exists>w1 w2. SaveSagaInstanceIdempotently g1 w = (Ok True, w1) \<and> SaveSagaInstanceIdempotently g2 w1 = (Ok True, w2) \<and>
      psql_view w2 (sagaIdent g1) = Some (unstamped g1) \<and> psql_view w2 (sagaIdent g2) = Some (unstamped g2))"
proof -
  have f: "Si_InstanceId g1 = iid1" "Si_InstanceId g2 = iid2" "Si_ClusterId g1 = Si_ClusterId g2" "Si_ZoneId g1 = Si_ZoneId g2"
    "Si_SagaTemplateId g1 = Si_SagaTemplateId g2" "Si_OriginIdempotencyKey g1 = Si_OriginIdempotencyKey g2"
    by (simp_all add: assms(3,4) newSagaInstance_def submissionPayload_def submissionMessage_def AddPayload_def
        AnonymousSession_def NewTraxMessageBuilder_def)
  have id: "sagaIdent g1 \<noteq> sagaIdent g2" using f assms(2) by (simp add: sagaIdent_def)
  have k: "SagaInstance_SagaIdempotencyKey g1 \<noteq> SagaInstance_SagaIdempotencyKey g2"
    using f assms(2) by (simp add: SagaInstance_SagaIdempotencyKey_def getSagaIdempotencyKey_def)
  obtain w1 where w1: "SaveSagaInstanceIdempotently g1 w = (Ok True, w1)" "psql_wf w1"
    "psql_view w1 = (psql_view w)(sagaIdent g1 \<mapsto> unstamped g1)"
    using psql_save_fresh[OF assms(1,5,7,9)] by blast
  have "\<not> keyed_in (psql_view w1) g2"
    using assms(6) k by (auto simp: w1(3) keyed_in_def ran_def split: if_splits)
  moreover have "psql_view w1 (sagaIdent g2) = None" using assms(8) id by (simp add: w1(3))
  moreover have "psql_admits w1 g2"
  proof -
    have "db_templates (w_db w1) = db_templates (w_db w)"
      using w1(1) assms(1) by (auto simp: SaveSagaInstanceIdempotently_def psql_query db_insert_def psql_exec split: if_splits bool.splits)
    then show ?thesis using assms(9) f(5) by (simp add: psql_admits_def)
  qed
  ultimately obtain w2 where w2: "SaveSagaInstanceIdempotently g2 w1 = (Ok True, w2)"
    "psql_view w2 = (psql_view w1)(sagaIdent g2 \<mapsto> unstamped g2)"
    using psql_save_fresh[OF w1(2)] by blast
  show ?thesis using w1 w2 f(6) id by auto
qed

end
