(* ===== verification/Coordinator_Runtime.thy ===== *)
theory Coordinator_Runtime
  imports Coordinator_Loop Saga_Submitter
begin

text \<open>
  The coordinator as a running process (\<open>coordinator.go\<close>): which queues it has declared and consumes,
  which loops it runs, the step templates it has initialised, the submitters it follows and the
  subscribers of store notifications; \<open>Start\<close>, \<open>Stop\<close>, \<open>Restart\<close>, the template reload, the announcement of
  submitters and the control inbox.  A declaration on the broker is one call that works, fails, or works
  without saying so.
\<close>

section \<open>Process state\<close>

record notification =
  nt_channel :: string
  nt_payload :: string

record notifSubscription =
  sub_channel :: string
  sub_buffer :: "notification list"

text \<open>A consumer or loop lives until the context (or cancel channel) it was started with is cancelled;
  \<open>rt_generation\<close> counts the consumer contexts, of which the process holds only the last.\<close>
record runtime =
  rt_isRunning :: bool
  rt_health :: health
  rt_initializedSteps :: "string set"
  rt_subs :: "notifSubscription list"
  rt_followed :: "string \<Rightarrow> bool"
  rt_topology :: "(string \<times> string \<times> string) list"
  rt_generation :: nat
  rt_consumers :: "(nat \<times> string) list"
  rt_loops :: "string list"
  rt_reloadLoops :: nat
  rt_announcing :: "(string \<times> string) list"

definition NewSagaCoordinator :: runtime where
  "NewSagaCoordinator = \<lparr>rt_isRunning = False, rt_health = newHealth, rt_initializedSteps = {}, rt_subs = [],
     rt_followed = (\<lambda>_. False), rt_topology = [], rt_generation = 0, rt_consumers = [], rt_loops = [],
     rt_reloadLoops = 0, rt_announcing = []\<rparr>"

text \<open>The setting of the execution timeout in milliseconds; a bad or non-positive one leaves fifteen minutes.\<close>
definition executionTimeoutSetting :: "string \<Rightarrow> int" where
  "executionTimeoutSetting setting =
     (case atoi setting of Some n \<Rightarrow> if n > 0 then n else 900 * 1000 | None \<Rightarrow> 900 * 1000)"

type_synonym 'a rt = "runtime \<times> world \<Rightarrow> 'a result \<times> runtime \<times> world"

definition rok :: "'a \<Rightarrow> 'a rt" where "rok x s = (Ok x, s)"

definition rbind :: "'a rt \<Rightarrow> ('a \<Rightarrow> 'b rt) \<Rightarrow> 'b rt" where
  "rbind m k s = (case m s of (Inl e, s1) \<Rightarrow> (Err e, s1) | (Inr x, s1) \<Rightarrow> k x s1)"

text \<open>\<open>fmt.Errorf("what: %w", err)\<close> around a call.\<close>
definition rwrap :: "string \<Rightarrow> 'a rt \<Rightarrow> 'a rt" where
  "rwrap what m s = (case m s of (Inl e, s1) \<Rightarrow> (Err (what @ '': '' @ e), s1) | (Inr x, s1) \<Rightarrow> (Ok x, s1))"

definition rstore :: "(world \<Rightarrow> 'a result \<times> world) \<Rightarrow> 'a rt" where
  "rstore op s = (case op (snd s) of (r, w1) \<Rightarrow> (r, fst s, w1))"

definition rmodify :: "(runtime \<Rightarrow> runtime) \<Rightarrow> unit rt" where
  "rmodify f s = (Ok (), f (fst s), snd s)"

fun rforeach :: "('a \<Rightarrow> unit rt) \<Rightarrow> 'a list \<Rightarrow> unit rt" where
  "rforeach f [] = rok ()"
| "rforeach f (x # xs) = rbind (f x) (\<lambda>_. rforeach f xs)"

lemmas rt_defs = rok_def rbind_def rwrap_def rstore_def rmodify_def

text \<open>One declaration: an exchange, a queue bound to it, the binding key.\<close>
definition mqDeclare :: "string \<times> string \<times> string \<Rightarrow> unit rt" where
  "mqDeclare d s =
     (let declared = (\<lambda>r. r\<lparr>rt_topology := rt_topology r @ [d]\<rparr>)
      in case next_fault (snd s) of
           (Works, w1) \<Rightarrow> (Ok (), declared (fst s), w1)
         | (LostAck, w1) \<Rightarrow> (Err ''failed to declare'', declared (fst s), w1)
         | (Fails, w1) \<Rightarrow> (Err ''failed to declare'', fst s, w1))"

section \<open>Template reload\<close>

definition stepKey :: "string \<Rightarrow> string \<Rightarrow> string \<Rightarrow> string" where
  "stepKey clusterId sagaTemplateId stepTemplateId = clusterId @ '':'' @ sagaTemplateId @ '':'' @ stepTemplateId"

definition isStepInitialized :: "string \<Rightarrow> string \<Rightarrow> string \<Rightarrow> runtime \<Rightarrow> bool" where
  "isStepInitialized c t st r = (stepKey c t st \<in> rt_initializedSteps r)"

definition markStepInitialized :: "string \<Rightarrow> string \<Rightarrow> string \<Rightarrow> runtime \<Rightarrow> runtime" where
  "markStepInitialized c t st r = r\<lparr>rt_initializedSteps := insert (stepKey c t st) (rt_initializedSteps r)\<rparr>"

definition executorInbox :: "string \<Rightarrow> string \<Rightarrow> string \<Rightarrow> string \<times> string \<times> string" where
  "executorInbox c t st = (getStepTopicExchangeName c, getExecutorInboxQueueName c t st, getExecutorInboxBindingKey c t st)"

definition initializeStep :: "string \<Rightarrow> string \<Rightarrow> string \<Rightarrow> unit rt" where
  "initializeStep c t st s =
     (if isStepInitialized c t st (fst s) then rok () s
      else rbind (rwrap ''failed to initialize executor inbox queue'' (mqDeclare (executorInbox c t st)))
             (\<lambda>_. rmodify (markStepInitialized c t st)) s)"

definition reloadTemplate :: "string \<Rightarrow> SagaTemplate \<Rightarrow> unit rt" where
  "reloadTemplate c tpl = rforeach (initializeStep c (St_TemplateId tpl)) (St_SagaStepTemplateIds tpl)"

definition reloadCluster :: "string \<Rightarrow> unit rt" where
  "reloadCluster c =
     rbind (rwrap ''failed to list saga templates'' (rstore ListSagaTemplates)) (rforeach (reloadTemplate c))"

definition reloadSagaTemplates :: "unit rt" where
  "reloadSagaTemplates = rbind (rwrap ''failed to list cluster IDs'' (rstore ListClusterIds)) (rforeach reloadCluster)"

definition unmarkAllStepsForTemplate :: "string \<Rightarrow> string \<Rightarrow> runtime \<Rightarrow> runtime" where
  "unmarkAllStepsForTemplate clusterId sagaTemplateId r =
     r\<lparr>rt_initializedSteps :=
        {k \<in> rt_initializedSteps r. \<not> startsWith (clusterId @ '':'' @ sagaTemplateId @ '':'') k}\<rparr>"

text \<open>A failure to list the clusters is only logged.\<close>
definition handleTemplateDeleted :: "string \<Rightarrow> runtime \<times> world \<Rightarrow> runtime \<times> world" where
  "handleTemplateDeleted templateId s =
     (case ListClusterIds (snd s) of
        (Inl e, w1) \<Rightarrow> (fst s, w1)
      | (Inr cs, w1) \<Rightarrow> (fold (\<lambda>c. unmarkAllStepsForTemplate c templateId) cs (fst s), w1))"

text \<open>A turn of the reload loop: on a notification (its decoded action, type and template id, or \<open>None\<close>
  when it does not parse) or on a tick.\<close>
datatype reload_wake = TemplateEvent "(string \<times> string \<times> string) option" | ReloadTick

definition reloadTurn :: "reload_wake \<Rightarrow> runtime \<times> world \<Rightarrow> runtime \<times> world" where
  "reloadTurn wk s =
     (let s1 = (case wk of
                  TemplateEvent (Some (action, type, tid)) \<Rightarrow>
                    if action = ''delete'' \<and> type = ''saga_template'' then handleTemplateDeleted tid s else s
                | _ \<Rightarrow> s)
      in snd (reloadSagaTemplates s1))"

section \<open>Notifications\<close>

text \<open>A subscriber whose buffer of 100 is full loses the notification.\<close>
definition deliverTo :: "notification \<Rightarrow> notifSubscription \<Rightarrow> notifSubscription" where
  "deliverTo n sub =
     (if (sub_channel sub = '''' \<or> sub_channel sub = nt_channel n) \<and> length (sub_buffer sub) < 100
      then sub\<lparr>sub_buffer := sub_buffer sub @ [n]\<rparr> else sub)"

definition broadcast :: "notification \<Rightarrow> runtime \<Rightarrow> runtime" where
  "broadcast n r = r\<lparr>rt_subs := map (deliverTo n) (rt_subs r)\<rparr>"

definition subscribeNotifications :: "string \<Rightarrow> runtime \<Rightarrow> runtime" where
  "subscribeNotifications channel r = r\<lparr>rt_subs := rt_subs r @ [\<lparr>sub_channel = channel, sub_buffer = []\<rparr>]\<rparr>"

section \<open>Following submitters\<close>

definition startConsumer :: "string \<Rightarrow> runtime \<Rightarrow> runtime" where
  "startConsumer q r = r\<lparr>rt_consumers := rt_consumers r @ [(rt_generation r, q)]\<rparr>"

definition followSubmitter :: "string \<Rightarrow> string \<Rightarrow> runtime \<Rightarrow> runtime" where
  "followSubmitter clusterId sagaSubmitterId r =
     (case followSagaSubmitterIfNeeded clusterId sagaSubmitterId (rt_followed r) of
        (f, None) \<Rightarrow> r\<lparr>rt_followed := f\<rparr>
      | (f, Some q) \<Rightarrow> startConsumer q (r\<lparr>rt_followed := f\<rparr>))"

text \<open>The loop of \<open>AnnounceSagaSubmitter\<close>; the last field collects the goroutines that will tell the other
  coordinators.\<close>
fun announceClusters ::
    "string \<Rightarrow> string list \<Rightarrow> (string \<rightharpoonup> SubmitterNodeNames) \<Rightarrow> (string \<rightharpoonup> SubmitterNodeNames) rt" where
  "announceClusters sid [] names = rok names"
| "announceClusters sid (c # cs) names =
     (case getSagaSubmitterInboxNodeNames c sid of (inPub, inSub) \<Rightarrow>
      (case getSagaSubmitterOutboxNodeNames c sid of (outPub, outSub) \<Rightarrow>
      rbind (rwrap ''failed to initialize mq pub/sub input node system for saga submitter'' (mqDeclare (inPub, inSub, ''''))) (\<lambda>_.
      rbind (rwrap ''failed to initialize mq pub/sub outbox node system for saga submitter'' (mqDeclare (outPub, outSub, ''''))) (\<lambda>_.
      rbind (rmodify (followSubmitter c sid)) (\<lambda>_.
      rbind (rmodify (\<lambda>r. r\<lparr>rt_announcing := rt_announcing r @ [(c, sid)]\<rparr>)) (\<lambda>_.
      announceClusters sid cs (names(c \<mapsto> \<lparr>Inbox = inSub, Outbox = outPub\<rparr>))))))))"

definition AnnounceSagaSubmitter :: "string \<Rightarrow> announcementResponse rt" where
  "AnnounceSagaSubmitter sid =
     rbind (rwrap ''failed to get cluster ids'' (rstore ListClusterIds)) (\<lambda>cs.
     rbind (announceClusters sid cs Map.empty) (\<lambda>names.
     rok \<lparr>Ar_ClusterIds = cs, Ar_NodeNamesPerClusterMap = names\<rparr>))"

text \<open>The follow message such a goroutine publishes; a failure is only logged.\<close>
definition followMessage :: "coordinator \<Rightarrow> string \<Rightarrow> string \<Rightarrow> string \<Rightarrow> string \<Rightarrow> string \<Rightarrow> int \<Rightarrow> TraxMessage" where
  "followMessage co clusterId sid mid tid eid ts =
     AddPayload (jsonPayload SagaPayloadType_FollowSagaSubmitter (FollowSagaSubmitterBody sid))
       (AnonymousSession ((NewTraxMessageBuilder mid tid eid ts)
          \<lparr>Tm_ClusterId := clusterId, Tm_Issuer := co_subComponent co\<rparr>))"

definition publishFollow :: "coordinator \<Rightarrow> string \<Rightarrow> string \<Rightarrow> world \<Rightarrow> world" where
  "publishFollow co clusterId sid w =
     (case random_string w of (mid, w1) \<Rightarrow>
      (case random_string w1 of (tid, w2) \<Rightarrow>
      (case random_string w2 of (eid, w3) \<Rightarrow>
      (case time_now w3 of (ts, w4) \<Rightarrow>
        snd (mq_publish (getControlBusPublishNodeName clusterId) '''' (followMessage co clusterId sid mid tid eid ts) w4)))))"

text \<open>The control inbox; \<open>Inl\<close> is a panic.\<close>
definition onControlMessage :: "TraxMessage \<Rightarrow> runtime \<Rightarrow> string + runtime" where
  "onControlMessage msg r =
     (case Tm_Payloads msg of
        [] \<Rightarrow> Inl ''index out of range [0] with length 0''
      | p # _ \<Rightarrow>
          if P_Type p = SagaPayloadType_FollowSagaSubmitter then
            (case P_Data p of
               FollowSagaSubmitterBody sid \<Rightarrow>
                 if Tm_ClusterId msg = '''' then Inl ''No clusterId in message''
                 else Inr (followSubmitter (Tm_ClusterId msg) sid r)
             | _ \<Rightarrow> Inl ''failed to unmarshal FollowSagaSubmitterPayload'')
          else Inr r)"

section \<open>Start, stop, restart\<close>

definition startCluster :: "coordinator \<Rightarrow> string \<Rightarrow> unit rt" where
  "startCluster co c =
     (case getEventBusNodeNames c of (eventPub, eventSub) \<Rightarrow>
      rbind (rwrap ''failed to initialize mq pub/sub node system for trax events'' (mqDeclare (eventPub, eventSub, ''''))) (\<lambda>_.
      rbind (rwrap ''failed to initialize mq pub/sub node system for coordinator''
        (mqDeclare (getControlBusPublishNodeName c, getControlSubscribeNodeNameByAffinity c (co_affinityGroup co), ''''))) (\<lambda>_.
      rbind (rwrap ''failed to initialize step topic exchange'' (mqDeclare (getStepTopicExchangeName c, '''', ''''))) (\<lambda>_.
      rbind (rwrap ''failed to initialize coordinator results queue''
        (mqDeclare (getStepTopicExchangeName c, getCoordinatorResultsQueueName c (co_affinityGroup co),
           getCoordinatorResultsBindingKey c (co_affinityGroup co)))) (\<lambda>_.
      rmodify (\<lambda>r. subscribeNotifications ''trax_saga_events''
        (startConsumer (getControlSubscribeNodeNameByAffinity c (co_affinityGroup co))
        (startConsumer (getCoordinatorResultsQueueName c (co_affinityGroup co)) r)
          \<lparr>rt_loops := rt_loops r @ [c]\<rparr>)))))))"

definition Start :: "coordinator \<Rightarrow> unit rt" where
  "Start co =
     rbind (rmodify (\<lambda>r. r\<lparr>rt_generation := Suc (rt_generation r)\<rparr>)) (\<lambda>_.
     rbind (\<lambda>s. case checkDatabaseHealth (rt_health (fst s)) (snd s) of
                  (h, w1) \<Rightarrow> rok () ((fst s)\<lparr>rt_health := h\<rparr>, w1)) (\<lambda>_.
     rbind (rwrap ''failed to get cluster IDs'' (rstore ListClusterIds)) (\<lambda>cs.
     rbind (rforeach (startCluster co) cs) (\<lambda>_.
     rbind (rwrap ''failed to load saga templates on startup'' reloadSagaTemplates) (\<lambda>_.
     rmodify (\<lambda>r. (subscribeNotifications ''trax_template_events'' r)
       \<lparr>rt_reloadLoops := Suc (rt_reloadLoops r), rt_isRunning := True\<rparr>))))))"

text \<open>Closing the cancel channel ends every loop; the consumers of the context held last are cancelled.\<close>
definition Stop :: "runtime \<Rightarrow> runtime" where
  "Stop r =
     (if \<not> rt_isRunning r then r
      else r\<lparr>rt_isRunning := False, rt_loops := [], rt_reloadLoops := 0,
             rt_consumers := filter (\<lambda>(g, q). g \<noteq> rt_generation r) (rt_consumers r),
             rt_followed := (\<lambda>_. False), rt_initializedSteps := {}, rt_subs := []\<rparr>)"

text \<open>\<open>mqUp\<close>: the connection is open, or came back within the 30 seconds the code waits.\<close>
definition Restart :: "coordinator \<Rightarrow> bool \<Rightarrow> unit rt" where
  "Restart co mqUp =
     rbind (rmodify Stop) (\<lambda>_.
     if \<not> mqUp then (\<lambda>s. (Err ''failed to restart coordinator: RabbitMQ connection not available after 30s'', s))
     else rwrap ''failed to start coordinator'' (Start co))"

section \<open>Reload\<close>

lemma rforeach_append: "rforeach f (xs @ ys) s = rbind (rforeach f xs) (\<lambda>_. rforeach f ys) s"
  by (induction xs arbitrary: s) (auto simp: rt_defs split: prod.splits sum.splits)

text \<open>An invariant, and what each element establishes and the later ones keep.\<close>
lemma rforeach_Ok:
  assumes "rforeach f xs s = (Inr u, s1)" and "I s"
    and "\<And>x s u s1. x \<in> set xs \<Longrightarrow> f x s = (Inr u, s1) \<Longrightarrow> I s \<Longrightarrow> I s1 \<and> Q x s1"
    and "\<And>x y s u s1. x \<in> set xs \<Longrightarrow> y \<in> set xs \<Longrightarrow> f y s = (Inr u, s1) \<Longrightarrow> I s \<Longrightarrow> Q x s \<Longrightarrow> Q x s1"
  shows "I s1 \<and> (\<forall>x \<in> set xs. Q x s1)"
  using assms
proof (induction xs arbitrary: u s1 rule: rev_induct)
  case Nil
  then show ?case by (simp add: rok_def)
next
  case (snoc x xs)
  obtain u0 s0 where s0: "rforeach f xs s = (Inr u0, s0)" and x: "\<exists>u1. f x s0 = (Inr u1, s1)"
    using snoc.prems(1) unfolding rforeach_append by (auto simp: rt_defs split: prod.splits sum.splits)
  have i: "I s0 \<and> (\<forall>y \<in> set xs. Q y s0)"
  proof (rule snoc.IH[OF s0 snoc.prems(2)])
    show "I t1 \<and> Q y t1" if "y \<in> set xs" "f y t = (Inr v, t1)" "I t" for y t v t1
      using snoc.prems(3)[OF _ that(2,3)] that(1) by simp
    show "Q y t1" if "y \<in> set xs" "z \<in> set xs" "f z t = (Inr v, t1)" "I t" "Q y t" for y z t v t1
      using snoc.prems(4)[OF _ _ that(3,4,5)] that(1,2) by simp
  qed
  obtain u1 where x1: "f x s0 = (Inr u1, s1)" using x by blast
  have "I s1 \<and> Q x s1" using snoc.prems(3)[OF _ x1] i by simp
  moreover have "Q y s1" if "y \<in> set xs" for y using snoc.prems(4)[OF _ _ x1] i that by simp
  ultimately show ?case by auto
qed

abbreviation colonfree :: "string \<Rightarrow> bool" where
  "colonfree x \<equiv> CHR '':'' \<notin> set x"

lemma colon_split:
  "colonfree a \<Longrightarrow> colonfree a' \<Longrightarrow> a @ CHR '':'' # x = a' @ CHR '':'' # y \<longleftrightarrow> a = a' \<and> x = y"
proof (induction a arbitrary: a')
  case Nil
  then show ?case by (cases a') auto
next
  case (Cons c a)
  then show ?case by (cases a') auto
qed

lemma stepKey_inj:
  "colonfree c \<Longrightarrow> colonfree t \<Longrightarrow> colonfree c' \<Longrightarrow> colonfree t' \<Longrightarrow>
   stepKey c t st = stepKey c' t' st' \<longleftrightarrow> c = c' \<and> t = t' \<and> st = st'"
  by (simp add: stepKey_def colon_split)

text \<open>Every initialised step has its queue; ids without colons make the keys unambiguous.\<close>
definition steps_sound :: "runtime \<Rightarrow> bool" where
  "steps_sound r = (\<forall>k \<in> rt_initializedSteps r. \<exists>c t st. colonfree c \<and> colonfree t \<and> k = stepKey c t st \<and>
     executorInbox c t st \<in> set (rt_topology r))"

definition colonfree_ids :: "db \<Rightarrow> bool" where
  "colonfree_ids d = ((\<forall>cl \<in> set (db_clusters d). colonfree (Cl_Id cl)) \<and>
     (\<forall>t \<in> set (db_templates d). colonfree (St_TemplateId t)))"

definition step_ready :: "string \<Rightarrow> string \<Rightarrow> string \<Rightarrow> runtime \<Rightarrow> bool" where
  "step_ready c t st r = (isStepInitialized c t st r \<and> executorInbox c t st \<in> set (rt_topology r))"

definition reload_inv :: "db \<Rightarrow> runtime \<times> world \<Rightarrow> bool" where
  "reload_inv d s = (steps_sound (fst s) \<and> w_db (snd s) = d)"

lemma rwrap_Ok: "rwrap what m s = (Inr x, s1) \<longleftrightarrow> m s = (Inr x, s1)"
  by (auto simp: rwrap_def split: prod.splits sum.splits)

lemma rbind_Ok: "rbind m k s = (Inr y, s2) \<longleftrightarrow> (\<exists>x s1. m s = (Inr x, s1) \<and> k x s1 = (Inr y, s2))"
  by (auto simp: rbind_def split: prod.splits sum.splits)

lemma rmodify_Ok: "rmodify f s = (Inr u, s1) \<longleftrightarrow> s1 = (f (fst s), snd s)"
  by (auto simp: rmodify_def)

lemma mqDeclare_Ok:
  "mqDeclare d s = (Inr u, s1) \<Longrightarrow>
   fst s1 = (fst s)\<lparr>rt_topology := rt_topology (fst s) @ [d]\<rparr> \<and> w_db (snd s1) = w_db (snd s)"
  by (auto simp: mqDeclare_def Let_def dest: next_fault_keeps split: prod.splits fault.splits)

lemma initializeStep_Ok:
  assumes "initializeStep c t st s = (Inr u, s1)" and "reload_inv d s" and "colonfree c" and "colonfree t"
  shows "reload_inv d s1 \<and> step_ready c t st (fst s1)"
proof (cases "isStepInitialized c t st (fst s)")
  case True
  then obtain c' t' st' where k: "colonfree c'" "colonfree t'" "stepKey c t st = stepKey c' t' st'"
    "executorInbox c' t' st' \<in> set (rt_topology (fst s))"
    using assms(2) unfolding reload_inv_def steps_sound_def isStepInitialized_def by blast
  then have "c' = c \<and> t' = t \<and> st' = st" using stepKey_inj[OF assms(3,4) k(1,2)] by simp
  then show ?thesis using True k assms(1,2) by (auto simp: initializeStep_def rok_def step_ready_def)
next
  case False
  then obtain s0 where s0: "mqDeclare (executorInbox c t st) s = (Inr (), s0)"
    and s1: "s1 = (markStepInitialized c t st (fst s0), snd s0)"
    using assms(1) by (auto simp: initializeStep_def rbind_Ok rwrap_Ok rmodify_Ok)
  have "fst s1 = markStepInitialized c t st ((fst s)\<lparr>rt_topology := rt_topology (fst s) @ [executorInbox c t st]\<rparr>)"
    "w_db (snd s1) = w_db (snd s)"
    using mqDeclare_Ok[OF s0] s1 by auto
  then show ?thesis
    using assms(2-4) unfolding reload_inv_def steps_sound_def step_ready_def isStepInitialized_def
    by (auto simp: markStepInitialized_def) blast+
qed

lemma step_ready_kept: "step_ready c t st (fst s) \<Longrightarrow> initializeStep c' t' st' s = (Inr u, s1) \<Longrightarrow> step_ready c t st (fst s1)"
  by (cases "isStepInitialized c' t' st' (fst s)")
    (auto simp: initializeStep_def rok_def rbind_Ok rwrap_Ok rmodify_Ok step_ready_def isStepInitialized_def
      markStepInitialized_def dest!: mqDeclare_Ok)

definition template_ready :: "string \<Rightarrow> SagaTemplate \<Rightarrow> runtime \<Rightarrow> bool" where
  "template_ready c tpl r = (\<forall>st \<in> set (St_SagaStepTemplateIds tpl). step_ready c (St_TemplateId tpl) st r)"

lemma reloadTemplate_Ok:
  assumes "reloadTemplate c tpl s = (Inr u, s1)" and "reload_inv d s" and "colonfree c" and "colonfree (St_TemplateId tpl)"
  shows "reload_inv d s1 \<and> template_ready c tpl (fst s1)"
  unfolding template_ready_def
proof (rule rforeach_Ok[where I="reload_inv d" and Q="\<lambda>st s. step_ready c (St_TemplateId tpl) st (fst s)",
    OF assms(1)[unfolded reloadTemplate_def] assms(2)])
  show "reload_inv d t1 \<and> step_ready c (St_TemplateId tpl) x (fst t1)"
    if "initializeStep c (St_TemplateId tpl) x t = (Inr v, t1)" "reload_inv d t" for x t v t1
    using initializeStep_Ok[OF that assms(3,4)] .
qed (rule step_ready_kept)

lemma reloadTemplate_keeps_step: "step_ready c t st (fst s) \<Longrightarrow> reloadTemplate c' tpl s = (Inr u, s1) \<Longrightarrow> step_ready c t st (fst s1)"
  using rforeach_Ok[where I="\<lambda>s. step_ready c t st (fst s)" and Q="\<lambda>_ _. True"] step_ready_kept
  unfolding reloadTemplate_def by metis

lemma reloadTemplate_keeps: "template_ready c tpl (fst s) \<Longrightarrow> reloadTemplate c' tpl' s = (Inr u, s1) \<Longrightarrow> template_ready c tpl (fst s1)"
  using reloadTemplate_keeps_step unfolding template_ready_def by blast

definition cluster_ready :: "db \<Rightarrow> string \<Rightarrow> runtime \<Rightarrow> bool" where
  "cluster_ready d c r = (\<forall>tpl \<in> set (db_templates d). template_ready c tpl r)"

lemma ListSagaTemplates_Ok:
  "rstore ListSagaTemplates s = (Inr ts, s1) \<Longrightarrow> fst s1 = fst s \<and> w_db (snd s1) = w_db (snd s) \<and> set ts = set (db_templates (w_db (snd s)))"
  by (auto simp: rstore_def ListSagaTemplates_def dest: db_query_Ok query_keeps split: prod.splits sum.splits)

lemma ListClusterIds_Ok:
  "rstore ListClusterIds s = (Inr cs, s1) \<Longrightarrow> fst s1 = fst s \<and> w_db (snd s1) = w_db (snd s) \<and> cs = sort (map Cl_Id (db_clusters (w_db (snd s))))"
  by (auto simp: rstore_def ListClusterIds_def dest: db_query_Ok query_keeps split: prod.splits sum.splits)

lemma reloadCluster_Ok:
  assumes "reloadCluster c s = (Inr u, s1)" and "reload_inv d s" and "colonfree c" and "colonfree_ids d"
  shows "reload_inv d s1 \<and> cluster_ready d c (fst s1)"
proof -
  obtain ts s0 where l: "rstore ListSagaTemplates s = (Inr ts, s0)" and f: "rforeach (reloadTemplate c) ts s0 = (Inr u, s1)"
    using assms(1) by (auto simp: reloadCluster_def rbind_Ok rwrap_Ok)
  have s0: "reload_inv d s0" "set ts = set (db_templates d)"
    using ListSagaTemplates_Ok[OF l] assms(2) by (auto simp: reload_inv_def)
  have "reload_inv d s1 \<and> (\<forall>tpl \<in> set ts. template_ready c tpl (fst s1))"
  proof (rule rforeach_Ok[where I="reload_inv d" and Q="\<lambda>tpl s. template_ready c tpl (fst s)", OF f s0(1)])
    show "reload_inv d t1 \<and> template_ready c tpl (fst t1)"
      if "tpl \<in> set ts" "reloadTemplate c tpl t = (Inr v, t1)" "reload_inv d t" for tpl t v t1
      using reloadTemplate_Ok[OF that(2,3) assms(3)] that(1) assms(4) s0(2) by (auto simp: colonfree_ids_def)
  qed (rule reloadTemplate_keeps)
  then show ?thesis using s0(2) by (simp add: cluster_ready_def)
qed

lemma reloadCluster_keeps:
  assumes "cluster_ready d c (fst s)" and "reloadCluster c' s = (Inr u, s1)"
  shows "cluster_ready d c (fst s1)"
proof -
  obtain ts s0 where l: "rstore ListSagaTemplates s = (Inr ts, s0)" and f: "rforeach (reloadTemplate c') ts s0 = (Inr u, s1)"
    using assms(2) by (auto simp: reloadCluster_def rbind_Ok rwrap_Ok)
  have "cluster_ready d c (fst s0)" using ListSagaTemplates_Ok[OF l] assms(1) by simp
  then have "cluster_ready d c (fst s1) \<and> (\<forall>tpl \<in> set ts. True)"
  proof (rule rforeach_Ok[OF f])
    show "cluster_ready d c (fst t1) \<and> True"
      if "reloadTemplate c' tpl t = (Inr v, t1)" "cluster_ready d c (fst t)" for tpl t v t1
      using reloadTemplate_keeps[OF _ that(1)] that(2) by (simp add: cluster_ready_def)
  qed simp
  then show ?thesis by simp
qed

lemma reload_Ok:
  assumes "reloadSagaTemplates s = (Inr u, s1)" and "reload_inv d s" and "colonfree_ids d"
  shows "reload_inv d s1 \<and> (\<forall>cl \<in> set (db_clusters d). cluster_ready d (Cl_Id cl) (fst s1))"
proof -
  obtain cs s0 where l: "rstore ListClusterIds s = (Inr cs, s0)" and f: "rforeach reloadCluster cs s0 = (Inr u, s1)"
    using assms(1) by (auto simp: reloadSagaTemplates_def rbind_Ok rwrap_Ok)
  have s0: "reload_inv d s0" "set cs = Cl_Id ` set (db_clusters d)"
    using ListClusterIds_Ok[OF l] assms(2) by (auto simp: reload_inv_def)
  have "reload_inv d s1 \<and> (\<forall>c \<in> set cs. cluster_ready d c (fst s1))"
  proof (rule rforeach_Ok[where I="reload_inv d" and Q="\<lambda>c s. cluster_ready d c (fst s)", OF f s0(1)])
    show "reload_inv d t1 \<and> cluster_ready d c (fst t1)"
      if "c \<in> set cs" "reloadCluster c t = (Inr v, t1)" "reload_inv d t" for c t v t1
      using reloadCluster_Ok[OF that(2,3) _ assms(3)] that(1) assms(3) s0(2) by (auto simp: colonfree_ids_def)
  qed (rule reloadCluster_keeps)
  then show ?thesis using s0(2) by auto
qed

text \<open>Reloading what is ready changes nothing, whatever fails.\<close>
lemma rforeach_still: "(\<And>x w. x \<in> set xs \<Longrightarrow> f x (r, w) = (Inr (), r, w)) \<Longrightarrow> rforeach f xs (r, w) = (Inr (), r, w)"
  by (induction xs) (auto simp: rok_def rbind_def)

lemma reloadTemplate_still: "template_ready c tpl r \<Longrightarrow> reloadTemplate c tpl (r, w) = (Inr (), r, w)"
  unfolding reloadTemplate_def
  by (rule rforeach_still) (simp add: initializeStep_def template_ready_def step_ready_def rok_def)

lemma rforeach_same:
  assumes "rforeach f xs (r, w) = (res, r1, w1)" and "I w"
    and "\<And>x w res r1 w1. x \<in> set xs \<Longrightarrow> f x (r, w) = (res, r1, w1) \<Longrightarrow> I w \<Longrightarrow> r1 = r \<and> I w1"
  shows "r1 = r \<and> I w1"
  using assms
proof (induction xs arbitrary: w)
  case Nil
  then show ?case by (simp add: rok_def)
next
  case (Cons x xs)
  obtain res0 r0 w0 where x: "f x (r, w) = (res0, r0, w0)" by (cases "f x (r, w)")
  have r0: "r0 = r \<and> I w0" using Cons.prems(3)[OF _ x Cons.prems(2)] by simp
  show ?case
  proof (cases res0)
    case (Inl e)
    then show ?thesis using r0 x Cons.prems(1) by (auto simp: rbind_def)
  next
    case (Inr u)
    then have "rforeach f xs (r, w0) = (res, r1, w1)" using r0 x Cons.prems(1) by (simp add: rbind_def)
    then show ?thesis
    proof (rule Cons.IH)
      show "I w0" using r0 ..
      show "r2 = r \<and> I v1" if "y \<in> set xs" "f y (r, v) = (res2, r2, v1)" "I v" for y v res2 r2 v1
        using Cons.prems(3)[OF _ that(2,3)] that(1) by simp
    qed
  qed
qed

lemma store_query_same:
  "ListSagaTemplates w = (q, w1) \<Longrightarrow> w_db w1 = w_db w \<and> (\<forall>ts. q = Inr ts \<longrightarrow> set ts = set (db_templates (w_db w)))"
  "ListClusterIds w = (q', w2) \<Longrightarrow> w_db w2 = w_db w \<and> (\<forall>cs. q' = Inr cs \<longrightarrow> set cs = Cl_Id ` set (db_clusters (w_db w)))"
  by (auto simp: ListSagaTemplates_def ListClusterIds_def dest: query_keeps db_query_Ok split: prod.splits sum.splits)

lemma reloadCluster_same:
  assumes "reloadCluster c (r, w) = (res, r1, w1)" and "w_db w = d" and "cluster_ready d c r"
  shows "r1 = r \<and> w_db w1 = d"
proof -
  obtain q w0 where q: "ListSagaTemplates w = (q, w0)" by fastforce
  show ?thesis
  proof (cases q)
    case (Inl e)
    then show ?thesis using assms q store_query_same(1)[OF q] by (auto simp: reloadCluster_def rt_defs)
  next
    case (Inr ts)
    then have "rforeach (reloadTemplate c) ts (r, w0) = (Inr (), r, w0)"
      using store_query_same(1)[OF q] assms(2,3) by (intro rforeach_still reloadTemplate_still) (auto simp: cluster_ready_def)
    then show ?thesis using assms q Inr store_query_same(1)[OF q] by (auto simp: reloadCluster_def rt_defs)
  qed
qed

lemma reload_same:
  assumes "reloadSagaTemplates (r, w) = (res, r1, w1)" and "w_db w = d"
    and "\<forall>cl \<in> set (db_clusters d). cluster_ready d (Cl_Id cl) r"
  shows "r1 = r"
proof -
  obtain q w0 where q: "ListClusterIds w = (q, w0)" by fastforce
  show ?thesis
  proof (cases q)
    case (Inl e)
    then show ?thesis using assms q by (auto simp: reloadSagaTemplates_def rt_defs)
  next
    case (Inr cs)
    then have f: "rforeach reloadCluster cs (r, w0) = (res, r1, w1)" using assms(1) q by (auto simp: reloadSagaTemplates_def rt_defs)
    have i: "w_db w0 = d" "set cs = Cl_Id ` set (db_clusters d)" using store_query_same(2)[OF q] assms(2) Inr by auto
    have "r1 = r \<and> w_db w1 = d"
    proof (rule rforeach_same[where I="\<lambda>w. w_db w = d", OF f i(1)])
      show "r2 = r \<and> w_db v1 = d" if "c \<in> set cs" "reloadCluster c (r, v) = (res2, r2, v1)" "w_db v = d" for c v res2 r2 v1
        using reloadCluster_same[OF that(2,3)] assms(3) i(2) that(1) by auto
    qed
    then show ?thesis by simp
  qed
qed


definition exReloadDb :: db where
  "exReloadDb = \<lparr>db_sagas = [], db_steps = [],
     db_templates = [\<lparr>St_TemplateId = ''t'', St_DisplayName = '''', St_Description = '''', St_Labels = Map.empty,
       St_Tags = [], St_Metadata = Map.empty, St_SagaStepTemplateIds = [''s1'', ''s2'']\<rparr>],
     db_stepTemplates = [], db_clusters = [\<lparr>Cl_Id = ''c1'', Cl_DisplayName = '''', Cl_Description = '''',
       Cl_Labels = Map.empty, Cl_Tags = [], Cl_Metadata = Map.empty\<rparr>], db_annexes = [], db_notify = []\<rparr>"

definition exRuntimeWorld :: "fault list \<Rightarrow> world" where
  "exRuntimeWorld fs = \<lparr>w_db = exReloadDb, w_tx = None, w_aborted = False, w_faults = fs, w_clock = [], w_now = 60000,
     w_rand = [], w_dbtime = 0, w_outbox = [], w_spawned = []\<rparr>"

lemma NewSagaCoordinator_sound: "steps_sound NewSagaCoordinator"
  by (simp add: steps_sound_def NewSagaCoordinator_def)

lemma exReload: "\<exists>s1. reloadSagaTemplates (NewSagaCoordinator, exRuntimeWorld []) = (Inr (), s1)"
  by (simp add: reloadSagaTemplates_def rt_defs ListClusterIds_def ListSagaTemplates_def db_query_def next_fault_def
      exRuntimeWorld_def exReloadDb_def reloadCluster_def reloadTemplate_def initializeStep_def mqDeclare_def Let_def
      isStepInitialized_def markStepInitialized_def NewSagaCoordinator_def stepKey_def)


section \<open>Deleted templates\<close>

lemma startsWith_append: "startsWith p k \<longleftrightarrow> (\<exists>x. k = p @ x)"
  by (auto simp: startsWith_def) (metis append_take_drop_id)

lemma fold_unmark:
  "rt_initializedSteps (fold (\<lambda>c. unmarkAllStepsForTemplate c tid) cs r) =
     {k \<in> rt_initializedSteps r. \<forall>c \<in> set cs. \<not> startsWith (c @ '':'' @ tid @ '':'') k}"
  by (induction cs arbitrary: r) (auto simp: unmarkAllStepsForTemplate_def)

text \<open>The clean-up for a deleted template forgets exactly its steps in the known clusters, so that a template
  created again under the same id gets its queues at the next reload.\<close>
theorem template_deleted_exactly:
  assumes "handleTemplateDeleted tid s = s1" and "fst (ListClusterIds (snd s)) = Inr cs"
    and "\<forall>x \<in> set cs \<union> {tid, c, t}. colonfree x"
  shows "isStepInitialized c t st (fst s1) \<longleftrightarrow> isStepInitialized c t st (fst s) \<and> \<not> (t = tid \<and> c \<in> set cs)"
proof -
  obtain w1 where w: "ListClusterIds (snd s) = (Inr cs, w1)" using assms(2) by (cases "ListClusterIds (snd s)") auto
  have "startsWith (c' @ '':'' @ tid @ '':'') (stepKey c t st) \<longleftrightarrow> c' = c \<and> tid = t" if "c' \<in> set cs" for c'
    using assms(3) that by (auto simp: startsWith_append stepKey_def colon_split)
  then show ?thesis using assms(1) w
    by (auto simp: handleTemplateDeleted_def isStepInitialized_def fold_unmark)
qed

theorem template_deleted_exactly_witness:
  "let s = (snd (reloadSagaTemplates (NewSagaCoordinator, exRuntimeWorld []))); s1 = handleTemplateDeleted ''t'' s in
   isStepInitialized ''c1'' ''t'' ''s1'' (fst s1) \<longleftrightarrow> False"
proof -
  have "fst (ListClusterIds (snd (snd (reloadSagaTemplates (NewSagaCoordinator, exRuntimeWorld []))))) = Inr [''c1'']"
    by (simp add: reloadSagaTemplates_def rt_defs ListClusterIds_def ListSagaTemplates_def db_query_def next_fault_def
      exRuntimeWorld_def exReloadDb_def reloadCluster_def reloadTemplate_def initializeStep_def mqDeclare_def Let_def
      isStepInitialized_def markStepInitialized_def NewSagaCoordinator_def stepKey_def)
  from template_deleted_exactly[OF refl this, of "''t''" "''c1''" "''t''" "''s1''"] show ?thesis by (simp add: Let_def)
qed

section \<open>Fan-out of notifications\<close>

lemma deliver_channel: "sub_channel (deliverTo n sub) = sub_channel sub"
  by (simp add: deliverTo_def)

text \<open>A subscriber that does not read gets the first hundred notifications of its channel, in order, and none
  of another channel.\<close>
theorem notifications_fan_out:
  "sub_buffer (fold deliverTo ns \<lparr>sub_channel = ch, sub_buffer = []\<rparr>) =
     take 100 (filter (\<lambda>n. ch = '''' \<or> ch = nt_channel n) ns)"
proof -
  have "length b \<le> 100 \<Longrightarrow> sub_buffer (fold deliverTo ns \<lparr>sub_channel = ch, sub_buffer = b\<rparr>) =
     take 100 (b @ filter (\<lambda>n. ch = '''' \<or> ch = nt_channel n) ns)" for b
    by (induction ns arbitrary: b) (auto simp: deliverTo_def take_Cons')
  then show ?thesis by simp
qed

section \<open>Announcement of a submitter\<close>

abbreviation pipefree :: "string \<Rightarrow> bool" where
  "pipefree x \<equiv> CHR ''|'' \<notin> set x"

lemma pipe_split:
  "pipefree a \<Longrightarrow> pipefree a' \<Longrightarrow> a @ CHR ''|'' # x = a' @ CHR ''|'' # y \<longleftrightarrow> a = a' \<and> x = y"
proof (induction a arbitrary: a')
  case Nil
  then show ?case by (cases a') auto
next
  case (Cons c a)
  then show ?case by (cases a') auto
qed

definition outboxQueue :: "string \<Rightarrow> string \<Rightarrow> string" where
  "outboxQueue c sid = snd (getSagaSubmitterOutboxNodeNames c sid)"

text \<open>Whoever is followed has its outbox consumed; cluster ids without bars make the keys unambiguous.\<close>
definition follow_sound :: "runtime \<Rightarrow> bool" where
  "follow_sound r = (\<forall>k. rt_followed r k \<longrightarrow> (\<exists>c sid. pipefree c \<and> k = followKey c sid \<and>
     outboxQueue c sid \<in> snd ` set (rt_consumers r)))"

text \<open>The two node systems of the submitter are declared and the outbox is consumed.\<close>
definition announced_in :: "string \<Rightarrow> string \<Rightarrow> runtime \<Rightarrow> bool" where
  "announced_in c sid r =
     ((fst (getSagaSubmitterInboxNodeNames c sid), snd (getSagaSubmitterInboxNodeNames c sid), '''') \<in> set (rt_topology r) \<and>
      (fst (getSagaSubmitterOutboxNodeNames c sid), outboxQueue c sid, '''') \<in> set (rt_topology r) \<and>
      outboxQueue c sid \<in> snd ` set (rt_consumers r))"

lemma followSubmitter_sound:
  assumes "follow_sound r" and "pipefree c"
  shows "follow_sound (followSubmitter c sid r) \<and> outboxQueue c sid \<in> snd ` set (rt_consumers (followSubmitter c sid r)) \<and>
    set (rt_consumers r) \<subseteq> set (rt_consumers (followSubmitter c sid r)) \<and>
    rt_topology (followSubmitter c sid r) = rt_topology r"
proof (cases "rt_followed r (followKey c sid)")
  case True
  then obtain c' sid' where k: "pipefree c'" "followKey c sid = followKey c' sid'"
    "outboxQueue c' sid' \<in> snd ` set (rt_consumers r)"
    using assms(1) unfolding follow_sound_def by blast
  then have "c' = c \<and> sid' = sid" using pipe_split[OF assms(2) k(1), of sid sid'] by (simp add: followKey_def)
  then show ?thesis using True k(3) assms(1) by (simp add: followSubmitter_def followSagaSubmitterIfNeeded_def Let_def follow_sound_def)
next
  case False
  then have f: "followSubmitter c sid r = startConsumer (outboxQueue c sid) (r\<lparr>rt_followed := (rt_followed r)(followKey c sid := True)\<rparr>)"
    by (simp add: followSubmitter_def followSagaSubmitterIfNeeded_def Let_def outboxQueue_def)
  show ?thesis unfolding f using assms by (auto simp: follow_sound_def startConsumer_def image_Un) (metis image_insert)+
qed

lemma announced_mono:
  "announced_in c sid r \<Longrightarrow> set (rt_topology r) \<subseteq> set (rt_topology r1) \<Longrightarrow> set (rt_consumers r) \<subseteq> set (rt_consumers r1) \<Longrightarrow>
   announced_in c sid r1"
  unfolding announced_in_def by blast

definition grown :: "runtime \<Rightarrow> runtime \<Rightarrow> bool" where
  "grown r r1 = (set (rt_topology r) \<subseteq> set (rt_topology r1) \<and> set (rt_consumers r) \<subseteq> set (rt_consumers r1))"

lemma announceClusters_Ok:
  assumes "announceClusters sid cs names s = (Inr names1, s1)" and "follow_sound (fst s)" and "\<forall>c \<in> set cs. pipefree c"
  shows "follow_sound (fst s1) \<and> grown (fst s) (fst s1) \<and> (\<forall>c. c \<notin> set cs \<longrightarrow> names1 c = names c) \<and>
    (\<forall>c \<in> set cs. announced_in c sid (fst s1) \<and> names1 c = Some \<lparr>Inbox = snd (getSagaSubmitterInboxNodeNames c sid),
       Outbox = fst (getSagaSubmitterOutboxNodeNames c sid)\<rparr>)"
  using assms
proof (induction cs arbitrary: names s)
  case Nil
  then show ?case by (simp add: rok_def grown_def)
next
  case (Cons c cs)
  obtain inPub inSub where i: "getSagaSubmitterInboxNodeNames c sid = (inPub, inSub)" by fastforce
  obtain outPub outSub where o': "getSagaSubmitterOutboxNodeNames c sid = (outPub, outSub)" by fastforce
  obtain s2 s3 where d1: "mqDeclare (inPub, inSub, '''') s = (Inr (), s2)" and d2: "mqDeclare (outPub, outSub, '''') s2 = (Inr (), s3)"
    and rest: "announceClusters sid cs (names(c \<mapsto> \<lparr>Inbox = inSub, Outbox = outPub\<rparr>))
      ((followSubmitter c sid (fst s3))\<lparr>rt_announcing := rt_announcing (followSubmitter c sid (fst s3)) @ [(c, sid)]\<rparr>, snd s3) =
      (Inr names1, s1)"
    using Cons.prems(1) by (auto simp: i o' rbind_Ok rwrap_Ok rmodify_Ok)
  let ?r = "followSubmitter c sid (fst s3)"
  have s3: "fst s3 = (fst s)\<lparr>rt_topology := rt_topology (fst s) @ [(inPub, inSub, ''''), (outPub, outSub, '''')]\<rparr>"
    using mqDeclare_Ok[OF d1] mqDeclare_Ok[OF d2] by simp
  have "follow_sound (fst s3)" using Cons.prems(2) by (simp add: s3 follow_sound_def)
  note f = followSubmitter_sound[OF this, of c sid]
  have a: "announced_in c sid ?r" using f Cons.prems(3) by (simp add: announced_in_def i o' s3 outboxQueue_def)
  have fs: "follow_sound (?r\<lparr>rt_announcing := x\<rparr>)" for x using f Cons.prems(3) by (simp add: follow_sound_def)
  note ih = Cons.IH[OF rest]
  have "grown (fst s) ?r" using f Cons.prems(3) by (auto simp: grown_def s3)
  moreover have "grown ?r (fst s1)" using ih fs Cons.prems(3) by (auto simp: grown_def)
  ultimately have "grown (fst s) (fst s1)" "announced_in c sid (fst s1)"
    using announced_mono[OF a] unfolding grown_def by blast+
  then show ?case using ih fs Cons.prems(3) i o' by (cases "c \<in> set cs") auto
qed

lemma learnClusters_total:
  "\<forall>c \<in> set cs. names c \<noteq> None \<Longrightarrow> \<exists>s1. learnClusters names cs s = Some s1 \<and>
     (\<forall>c. sm_nodeNames s1 c = (if c \<in> set cs then names c else sm_nodeNames s c)) \<and>
     (consumers_inv s \<longrightarrow> consumers_inv s1)"
proof (induction cs arbitrary: s)
  case Nil
  then show ?case by simp
next
  case (Cons c cs)
  obtain n where n: "names c = Some n" using Cons.prems by auto
  let ?s = "if sm_consumersStarted s (Inbox n) then s\<lparr>sm_nodeNames := (sm_nodeNames s)(c \<mapsto> n)\<rparr>
    else s\<lparr>sm_nodeNames := (sm_nodeNames s)(c \<mapsto> n), sm_consumersStarted := (sm_consumersStarted s)(Inbox n := True),
           sm_consumers := sm_consumers s @ [Inbox n]\<rparr>"
  obtain s1 where s1: "learnClusters names cs ?s = Some s1"
    "\<forall>c'. sm_nodeNames s1 c' = (if c' \<in> set cs then names c' else sm_nodeNames ?s c')"
    using Cons.IH[of ?s] Cons.prems by auto
  have e: "learnClusters names (c # cs) s = Some s1" using s1(1) n by (simp add: Let_def cong: if_cong)
  then show ?case using s1(2) n learnClusters_inv[OF e] by auto
qed


lemma exAnnounce: "\<exists>resp s1. AnnounceSagaSubmitter ''sub'' (NewSagaCoordinator, exRuntimeWorld []) = (Inr resp, s1)"
  by (simp add: AnnounceSagaSubmitter_def rt_defs ListClusterIds_def db_query_def next_fault_def exRuntimeWorld_def
      exReloadDb_def mqDeclare_def Let_def getSagaSubmitterInboxNodeNames_def getSagaSubmitterOutboxNodeNames_def)


section \<open>One set of loops\<close>

text \<open>A process that does nothing.\<close>
definition idle_process :: "runtime \<Rightarrow> bool" where
  "idle_process r = (rt_loops r = [] \<and> rt_reloadLoops r = 0 \<and> rt_consumers r = [] \<and> rt_subs r = [])"

text \<open>A process that serves clusters \<open>cs\<close>: one polling loop, one results consumer and one control consumer
  each, all of the current consumer context, and one reload loop.\<close>
definition serves :: "coordinator \<Rightarrow> string list \<Rightarrow> runtime \<Rightarrow> bool" where
  "serves co cs r = (rt_loops r = cs \<and> rt_reloadLoops r = 1 \<and>
     rt_consumers r = concat (map (\<lambda>c. [(rt_generation r, getCoordinatorResultsQueueName c (co_affinityGroup co)),
       (rt_generation r, getControlSubscribeNodeNameByAffinity c (co_affinityGroup co))]) cs) \<and>
     length (rt_subs r) = length cs + 1)"

lemma startCluster_Ok:
  assumes "startCluster co c s = (Inr u, s1)"
  shows "rt_loops (fst s1) = rt_loops (fst s) @ [c] \<and> rt_reloadLoops (fst s1) = rt_reloadLoops (fst s) \<and>
    rt_generation (fst s1) = rt_generation (fst s) \<and> length (rt_subs (fst s1)) = length (rt_subs (fst s)) + 1 \<and>
    rt_consumers (fst s1) = rt_consumers (fst s) @
      [(rt_generation (fst s), getCoordinatorResultsQueueName c (co_affinityGroup co)),
       (rt_generation (fst s), getControlSubscribeNodeNameByAffinity c (co_affinityGroup co))]"
  using assms
  by (auto simp: startCluster_def rbind_Ok rwrap_Ok rmodify_Ok subscribeNotifications_def startConsumer_def
      dest!: mqDeclare_Ok split: prod.splits)

lemma startClusters_Ok:
  "rforeach (startCluster co) cs s = (Inr u, s1) \<Longrightarrow>
   rt_loops (fst s1) = rt_loops (fst s) @ cs \<and> rt_reloadLoops (fst s1) = rt_reloadLoops (fst s) \<and>
    rt_generation (fst s1) = rt_generation (fst s) \<and> length (rt_subs (fst s1)) = length (rt_subs (fst s)) + length cs \<and>
    rt_consumers (fst s1) = rt_consumers (fst s) @
      concat (map (\<lambda>c. [(rt_generation (fst s), getCoordinatorResultsQueueName c (co_affinityGroup co)),
       (rt_generation (fst s), getControlSubscribeNodeNameByAffinity c (co_affinityGroup co))]) cs)"
proof (induction cs arbitrary: s)
  case Nil
  then show ?case by (simp add: rok_def)
next
  case (Cons c cs)
  then obtain s0 where "startCluster co c s = (Inr (), s0)" "rforeach (startCluster co) cs s0 = (Inr u, s1)"
    by (auto simp: rbind_Ok)
  then show ?case using startCluster_Ok[of co c s] Cons.IH[of s0] by auto
qed

text \<open>A reload touches neither loops nor consumers nor subscribers.\<close>
definition same_process :: "runtime \<Rightarrow> runtime \<Rightarrow> bool" where
  "same_process r r1 = (rt_loops r1 = rt_loops r \<and> rt_reloadLoops r1 = rt_reloadLoops r \<and>
     rt_generation r1 = rt_generation r \<and> rt_subs r1 = rt_subs r \<and> rt_consumers r1 = rt_consumers r)"

lemma rforeach_process:
  "(\<And>x s u s1. f x s = (Inr u, s1) \<Longrightarrow> same_process (fst s) (fst s1)) \<Longrightarrow>
   rforeach f xs s = (Inr u, s1) \<Longrightarrow> same_process (fst s) (fst s1)"
proof (induction xs arbitrary: s)
  case Nil
  then show ?case by (simp add: rok_def same_process_def)
next
  case (Cons x xs)
  obtain s0 where x: "f x s = (Inr (), s0)" "rforeach f xs s0 = (Inr u, s1)" using Cons.prems(2) by (auto simp: rbind_Ok)
  then show ?case using Cons.IH[OF Cons.prems(1) x(2)] Cons.prems(1)[OF x(1)] by (simp add: same_process_def)
qed

lemma initializeStep_process: "initializeStep c t st s = (Inr u, s1) \<Longrightarrow> same_process (fst s) (fst s1)"
  by (auto simp: initializeStep_def rok_def rbind_Ok rwrap_Ok rmodify_Ok same_process_def markStepInitialized_def
      dest!: mqDeclare_Ok split: if_splits)

lemma reload_process: "reloadSagaTemplates s = (Inr u, s1) \<Longrightarrow> same_process (fst s) (fst s1)"
proof -
  have t: "reloadTemplate c tpl s = (Inr u, s1) \<Longrightarrow> same_process (fst s) (fst s1)" for c tpl s u s1
    unfolding reloadTemplate_def by (rule rforeach_process[OF initializeStep_process])
  have c: "reloadCluster c s = (Inr u, s1) \<Longrightarrow> same_process (fst s) (fst s1)" for c s u s1
  proof -
    assume "reloadCluster c s = (Inr u, s1)"
    then obtain ts s0 where l: "rstore ListSagaTemplates s = (Inr ts, s0)" and f: "rforeach (reloadTemplate c) ts s0 = (Inr u, s1)"
      by (auto simp: reloadCluster_def rbind_Ok rwrap_Ok)
    have "same_process (fst s0) (fst s1)" by (rule rforeach_process[OF t f])
    then show "same_process (fst s) (fst s1)" using ListSagaTemplates_Ok[OF l] by simp
  qed
  assume "reloadSagaTemplates s = (Inr u, s1)"
  then obtain cs s0 where l: "rstore ListClusterIds s = (Inr cs, s0)" and f: "rforeach reloadCluster cs s0 = (Inr u, s1)"
    by (auto simp: reloadSagaTemplates_def rbind_Ok rwrap_Ok)
  have "same_process (fst s0) (fst s1)" by (rule rforeach_process[OF c f])
  then show "same_process (fst s) (fst s1)" using ListClusterIds_Ok[OF l] by simp
qed


lemma start_works: "\<exists>s1. Start exPoller (NewSagaCoordinator, exRuntimeWorld []) = (Inr (), s1)"
  by (simp add: Start_def rt_defs checkDatabaseHealth_def time_now_def HealthCheck_def next_fault_def startCluster_def
      reloadSagaTemplates_def ListClusterIds_def ListSagaTemplates_def db_query_def exRuntimeWorld_def exReloadDb_def
      reloadCluster_def reloadTemplate_def initializeStep_def mqDeclare_def Let_def isStepInitialized_def
      NewSagaCoordinator_def newHealth_def getEventBusNodeNames_def subscribeNotifications_def startConsumer_def
      markStepInitialized_def stepKey_def)


lemmas runtime_eval = Start_def rt_defs checkDatabaseHealth_def time_now_def HealthCheck_def next_fault_def startCluster_def
  reloadSagaTemplates_def ListClusterIds_def ListSagaTemplates_def db_query_def exRuntimeWorld_def exReloadDb_def
  reloadCluster_def reloadTemplate_def initializeStep_def mqDeclare_def Let_def isStepInitialized_def
  NewSagaCoordinator_def newHealth_def getEventBusNodeNames_def subscribeNotifications_def startConsumer_def
  markStepInitialized_def stepKey_def

text \<open>A start that fails after its first cluster is not undone by the restart that follows: the process is not
  marked running, so \<open>Stop\<close> does nothing, the cluster then has two polling loops and two results consumers,
  and the next \<open>Stop\<close> leaves the consumers of the failed start behind.\<close>
theorem failed_start_leaks:
  "\<exists>e s1 s2. Start exPoller (NewSagaCoordinator, exRuntimeWorld (replicate 7 Works @ [Fails])) = (Inl e, s1) \<and>
     Restart exPoller True (fst s1, exRuntimeWorld []) = (Inr (), s2) \<and>
     rt_loops (fst s2) = [''c1'', ''c1''] \<and>
     length (filter (\<lambda>(g, q). q = getCoordinatorResultsQueueName ''c1'' ''ag'') (rt_consumers (fst s2))) = 2 \<and>
     length (rt_consumers (Stop (fst s2))) = 2"
  by (simp add: runtime_eval Restart_def Stop_def exPoller_def eval_nat_numeral getCoordinatorResultsQueueName_def
      getControlSubscribeNodeNameByAffinity_def GetSubscribeNodeName_def controlInboxKey_def)

definition exCollidingDb :: db where
  "exCollidingDb = exReloadDb\<lparr>db_templates :=
     [\<lparr>St_TemplateId = ''t'', St_DisplayName = '''', St_Description = '''', St_Labels = Map.empty, St_Tags = [],
       St_Metadata = Map.empty, St_SagaStepTemplateIds = [''a:s'']\<rparr>,
      \<lparr>St_TemplateId = ''t:a'', St_DisplayName = '''', St_Description = '''', St_Labels = Map.empty, St_Tags = [],
       St_Metadata = Map.empty, St_SagaStepTemplateIds = [''s'']\<rparr>]\<rparr>"

text \<open>With colons in template ids two steps can share the key of the initialised-steps map: the reload reports
  success and the second step has no queue, so that its requests go nowhere.\<close>
theorem reload_key_collision:
  "\<exists>s1. reloadSagaTemplates (NewSagaCoordinator, (exRuntimeWorld [])\<lparr>w_db := exCollidingDb\<rparr>) = (Inr (), s1) \<and>
     isStepInitialized ''c1'' ''t:a'' ''s'' (fst s1) \<and>
     executorInbox ''c1'' ''t:a'' ''s'' \<notin> set (rt_topology (fst s1))"
  by (simp add: runtime_eval exCollidingDb_def executorInbox_def getExecutorInboxQueueName_def)

end
