(* ===== verification/Mq_Delivery.thy ===== *)
theory Mq_Delivery
  imports Go_Strings Trax_Naming "HOL-Library.Word" "HOL-Library.Multiset"
begin

text \<open>
  What a consumer does with a delivered message and when a failed publish is tried again
  (\<open>pkg/mq/common/helpers.go\<close>, \<open>errors.go\<close>), and the listeners of reconnections (\<open>rabbitmq.go\<close>).  Header
  values keep the width the AMQP library gives them.
\<close>

section \<open>Retry headers\<close>

datatype header_value = Int32 "32 word" | Int64 "64 word" | GoInt "64 word" | HeaderText string | OtherHeader

type_synonym headers = "string \<rightharpoonup> header_value"

definition MaxMessageRetries :: int where "MaxMessageRetries = 5"

definition RetryCountHeader :: string where "RetryCountHeader = ''x-retry-count''"
definition RetryReasonHeader :: string where "RetryReasonHeader = ''x-retry-reason''"
definition FirstFailureHeader :: string where "FirstFailureHeader = ''x-first-failure-time''"

text \<open>A nil table reads as an empty one.\<close>
definition GetRetryCount :: "headers \<Rightarrow> int" where
  "GetRetryCount headers =
     (case headers RetryCountHeader of
        Some (Int32 c) \<Rightarrow> sint c
      | Some (Int64 c) \<Rightarrow> sint c
      | Some (GoInt c) \<Rightarrow> sint c
      | _ \<Rightarrow> 0)"

text \<open>\<open>int32(currentCount + 1)\<close> wraps.\<close>
definition IncrementRetryCount :: "headers \<Rightarrow> string \<Rightarrow> int \<Rightarrow> headers" where
  "IncrementRetryCount headers reason now =
     (let newHeaders = headers(RetryCountHeader \<mapsto> Int32 (word_of_int (GetRetryCount headers + 1)),
                               RetryReasonHeader \<mapsto> HeaderText reason)
      in if headers FirstFailureHeader = None
         then newHeaders(FirstFailureHeader \<mapsto> Int64 (word_of_int now)) else newHeaders)"

definition ShouldRetryMessage :: "headers \<Rightarrow> bool" where
  "ShouldRetryMessage headers = (GetRetryCount headers < MaxMessageRetries)"

section \<open>Retryable errors\<close>

datatype sentinel = ErrPublishTimeout | ErrPublishNacked | ErrChannelClosed | ErrConnectionClosed | AmqpErrClosed

text \<open>An error as the code can see it: the sentinels \<open>errors.Is\<close> finds in its chain, the code of an
  \<open>amqp.Error\<close> in it, its text.\<close>
record mq_error =
  me_is :: "sentinel list"
  me_code :: "int option"
  me_text :: string

definition retryablePatterns :: "string list" where
  "retryablePatterns = [''channel/connection is not open'', ''connection closed'', ''channel closed'', ''broken pipe'',
     ''connection reset'', ''eof'']"

definition IsRetryableError :: "mq_error option \<Rightarrow> bool" where
  "IsRetryableError err =
     (case err of
        None \<Rightarrow> False
      | Some e \<Rightarrow>
          if ErrPublishTimeout \<in> set (me_is e) \<or> ErrChannelClosed \<in> set (me_is e) \<or> ErrConnectionClosed \<in> set (me_is e)
          then True
          else if AmqpErrClosed \<in> set (me_is e) then True
          else if (case me_code e of None \<Rightarrow> False | Some c \<Rightarrow> c \<in> {320, 504, 505, 506}) then True
          else list_ex (strings_Contains (strings_ToLower (me_text e))) retryablePatterns)"

section \<open>A delivered message\<close>

record ConsumeOptions =
  RequeueNack :: bool
  RepublishNack :: bool
  CallbackTimeout :: int

definition defaultConsumeOptions :: ConsumeOptions where
  "defaultConsumeOptions = \<lparr>RequeueNack = True, RepublishNack = False, CallbackTimeout = 0\<rparr>"

text \<open>In nanoseconds.\<close>
definition callbackTimeout :: "ConsumeOptions \<Rightarrow> int" where
  "callbackTimeout options = (if CallbackTimeout options > 0 then CallbackTimeout options else 180 * 1000000000)"

datatype callback_result = Processed | CallbackFailed string | CallbackTimedOut

text \<open>What the consumer does to the message: acknowledge, return it to the queue, publish a copy; with
  whether the call worked.\<close>
datatype delivery_action = Ack bool | NackRequeue bool | Republish string headers bool

definition handleDelivery ::
    "string \<Rightarrow> ConsumeOptions \<Rightarrow> headers \<Rightarrow> callback_result \<Rightarrow> bool \<Rightarrow> bool \<Rightarrow> int \<Rightarrow> delivery_action list" where
  "handleDelivery queueName options headers result settleWorks publishWorks now =
     (case result of
        CallbackTimedOut \<Rightarrow> [NackRequeue settleWorks]
      | Processed \<Rightarrow> [Ack settleWorks]
      | CallbackFailed err \<Rightarrow>
          if RepublishNack options then
            if \<not> ShouldRetryMessage headers then [Ack settleWorks]
            else if \<not> settleWorks then [Ack False]
            else [Ack True, Republish queueName (IncrementRetryCount headers err now) publishWorks]
          else if RequeueNack options then [NackRequeue settleWorks]
          else [Ack settleWorks])"

lemma sint_int32: "- (2 ^ 31) \<le> x \<Longrightarrow> x < 2 ^ 31 \<Longrightarrow> sint (word_of_int x :: 32 word) = x"
  by (simp add: sint_sbintrunc' signed_take_bit_int_eq_self)

lemma GetRetryCount_Increment:
  assumes "- (2 ^ 31) \<le> GetRetryCount h" and "GetRetryCount h < 2 ^ 31 - 1"
  shows "GetRetryCount (IncrementRetryCount h reason now) = GetRetryCount h + 1"
proof -
  have "sint (word_of_int (GetRetryCount h + 1) :: 32 word) = GetRetryCount h + 1"
    by (rule sint_int32) (use assms in simp_all)
  moreover have "RetryReasonHeader \<noteq> RetryCountHeader" "FirstFailureHeader \<noteq> RetryCountHeader"
    by (simp_all add: RetryReasonHeader_def RetryCountHeader_def FirstFailureHeader_def)
  ultimately show ?thesis unfolding GetRetryCount_def[of "IncrementRetryCount h reason now"]
    by (simp add: IncrementRetryCount_def Let_def)
qed

text \<open>Every delivery is settled by exactly one acknowledgement or one return to the queue.\<close>
fun settles :: "delivery_action \<Rightarrow> bool" where
  "settles (Ack b) = True"
| "settles (NackRequeue b) = True"
| "settles (Republish q h b) = False"

text \<open>What becomes of a message whose processing always fails: the headers of its next delivery, when the
  settling calls work and a republished copy comes back to the queue.\<close>
definition nextDelivery :: "ConsumeOptions \<Rightarrow> headers \<Rightarrow> string \<Rightarrow> int \<Rightarrow> headers option" where
  "nextDelivery options headers err now =
     (case handleDelivery ''q'' options headers (CallbackFailed err) True True now of
        [NackRequeue True] \<Rightarrow> Some headers
      | [Ack True, Republish q h True] \<Rightarrow> Some h
      | _ \<Rightarrow> None)"

fun failingDeliveries :: "ConsumeOptions \<Rightarrow> headers \<Rightarrow> (string \<times> int) list \<Rightarrow> headers option" where
  "failingDeliveries options h [] = Some h"
| "failingDeliveries options h ((err, now) # rest) =
     (case nextDelivery options h err now of None \<Rightarrow> None | Some h1 \<Rightarrow> failingDeliveries options h1 rest)"

lemma failing_republish:
  assumes "RepublishNack options" and "0 \<le> GetRetryCount h" and "GetRetryCount h \<le> MaxMessageRetries"
  shows "failingDeliveries options h fs \<noteq> None \<longleftrightarrow> int (length fs) + GetRetryCount h \<le> MaxMessageRetries"
  using assms
proof (induction fs arbitrary: h)
  case Nil
  then show ?case by simp
next
  case (Cons f fs)
  obtain err now where f: "f = (err, now)" by (cases f)
  show ?case
  proof (cases "GetRetryCount h < MaxMessageRetries")
    case True
    let ?h = "IncrementRetryCount h err now"
    have c: "GetRetryCount ?h = GetRetryCount h + 1"
      using GetRetryCount_Increment[of h] True Cons.prems(2) by (simp add: MaxMessageRetries_def)
    have "nextDelivery options h err now = Some ?h"
      using True Cons.prems(1) by (simp add: nextDelivery_def handleDelivery_def ShouldRetryMessage_def)
    then show ?thesis using Cons.IH[of ?h] Cons.prems c True by (simp add: f algebra_simps)
  next
    case False
    then have "nextDelivery options h err now = None"
      using Cons.prems(1) by (simp add: nextDelivery_def handleDelivery_def ShouldRetryMessage_def)
    then show ?thesis using False Cons.prems(3) by (simp add: f)
  qed
qed



text \<open>The copy of a republished message is published to an exchange named like the queue, and no exchange the
  code declares has such a name: the message was acknowledged and is gone.\<close>
theorem republished_to_no_exchange:
  "RepublishNack options \<and> ShouldRetryMessage h \<longrightarrow>
   handleDelivery (GetSubscribeNodeName key) options h (CallbackFailed err) True publishWorks now =
     [Ack True, Republish (GetSubscribeNodeName key) (IncrementRetryCount h err now) publishWorks] \<and>
   (\<forall>other. GetSubscribeNodeName key \<noteq> GetPublishNodeName other) \<and> (\<forall>c. GetSubscribeNodeName key \<noteq> getStepTopicExchangeName c)"
  by (simp add: handleDelivery_def GetSubscribeNodeName_def GetPublishNodeName_def getStepTopicExchangeName_def)

theorem republished_to_no_exchange_witness:
  "handleDelivery (GetSubscribeNodeName ''k'') \<lparr>RequeueNack = True, RepublishNack = True, CallbackTimeout = 0\<rparr> Map.empty
     (CallbackFailed ''boom'') True True 1 =
   [Ack True, Republish (GetSubscribeNodeName ''k'') (IncrementRetryCount Map.empty ''boom'' 1) True]"
  using republished_to_no_exchange[of "\<lparr>RequeueNack = True, RepublishNack = True, CallbackTimeout = 0\<rparr>" Map.empty "''k''" "''boom''" True 1]
  by (simp add: ShouldRetryMessage_def GetRetryCount_def MaxMessageRetries_def)

section \<open>Reconnection listeners\<close>

text \<open>A registered listener and how many notifications wait in its channel of ten.\<close>
record reconnectListener =
  rl_id :: nat
  rl_pending :: nat

definition RegisterReconnectListener :: "nat \<Rightarrow> reconnectListener list \<Rightarrow> reconnectListener list" where
  "RegisterReconnectListener n ls = ls @ [\<lparr>rl_id = n, rl_pending = 0\<rparr>]"

definition NotifyReconnect :: "reconnectListener list \<Rightarrow> reconnectListener list" where
  "NotifyReconnect = map (\<lambda>l. if rl_pending l < 10 then l\<lparr>rl_pending := Suc (rl_pending l)\<rparr> else l)"

text \<open>The clean-up overwrites the listener with the last one and cuts the slice.\<close>
function unregisterFrom :: "nat \<Rightarrow> nat \<Rightarrow> reconnectListener list \<Rightarrow> reconnectListener list" where
  "unregisterFrom i n ls =
     (if i \<ge> length ls then ls
      else if rl_id (ls ! i) = n then butlast (ls[i := last ls])
      else unregisterFrom (Suc i) n ls)"
  by pat_completeness auto
termination by (relation "measure (\<lambda>(i, n, ls). length ls - i)") auto

declare unregisterFrom.simps [simp del]

definition cleanupListener :: "nat \<Rightarrow> reconnectListener list \<Rightarrow> reconnectListener list" where
  "cleanupListener n ls = unregisterFrom 0 n ls"

lemma mset_butlast_replace:
  assumes "i < length ls"
  shows "add_mset (ls ! i) (mset (butlast (ls[i := last ls]))) = mset ls"
proof -
  obtain ks k where ls: "ls = ks @ [k]" using assms by (metis length_0_conv less_nat_zero_code rev_exhaust)
  show ?thesis
  proof (cases "i < length ks")
    case True
    then have "mset (ks[i := k]) = add_mset k (mset ks - {#ks ! i#})" by (simp add: mset_update)
    moreover have "ks ! i \<in># mset ks" using True by simp
    ultimately show ?thesis using True by (simp add: ls nth_append list_update_append add_mset_commute)
  next
    case False
    then have "i = length ks" using assms by (simp add: ls)
    then show ?thesis by (simp add: ls)
  qed
qed

text \<open>The clean-up removes its own listener and keeps the others, in some order.\<close>
lemma unregisterFrom_mset:
  assumes "distinct (map rl_id ls)" and "\<forall>j < i. j < length ls \<longrightarrow> rl_id (ls ! j) \<noteq> n"
  shows "mset (unregisterFrom i n ls) = filter_mset (\<lambda>l. rl_id l \<noteq> n) (mset ls)"
  using assms
proof (induction i n ls rule: unregisterFrom.induct)
  case (1 i n ls)
  consider (out) "length ls \<le> i" | (hit) "i < length ls" "rl_id (ls ! i) = n" | (miss) "i < length ls" "rl_id (ls ! i) \<noteq> n"
    by linarith
  then show ?case
  proof cases
    case out
    then have "\<forall>l \<in> set ls. rl_id l \<noteq> n" using "1.prems"(2) by (metis in_set_conv_nth less_le_trans)
    then have "filter_mset (\<lambda>l. rl_id l \<noteq> n) (mset ls) = mset ls" by (simp add: filter_mset_eq_conv)
    then show ?thesis using out by (simp add: unregisterFrom.simps[of i n ls])
  next
    case hit
    let ?r = "butlast (ls[i := last ls])"
    have m: "mset ls = add_mset (ls ! i) (mset ?r)" using mset_butlast_replace[OF hit(1)] by simp
    have "distinct (rl_id (ls ! i) # map rl_id ?r)"
      using "1.prems"(1) by (metis m list.simps(9) mset.simps(2) mset_eq_imp_distinct_iff mset_map)
    then have "n \<notin> rl_id ` set ?r" using hit(2) by simp
    then have "\<forall>l \<in> set ?r. rl_id l \<noteq> n" by (metis image_eqI)
    then have "filter_mset (\<lambda>l. rl_id l \<noteq> n) (mset ?r) = mset ?r" by (simp add: filter_mset_eq_conv)
    then show ?thesis using hit by (simp add: unregisterFrom.simps[of i n ls] m)
  next
    case miss
    have "\<forall>j < Suc i. j < length ls \<longrightarrow> rl_id (ls ! j) \<noteq> n" using "1.prems"(2) miss by (auto simp: less_Suc_eq)
    then show ?thesis using "1.IH" "1.prems"(1) miss by (simp add: unregisterFrom.simps[of i n ls])
  qed
qed

lemma cleanupListener_mset:
  "distinct (map rl_id ls) \<Longrightarrow> mset (cleanupListener n ls) = filter_mset (\<lambda>l. rl_id l \<noteq> n) (mset ls)"
  unfolding cleanupListener_def by (rule unregisterFrom_mset) auto

end
