(* ===== verification/Publisher_Confirms.thy ===== *)
theory Publisher_Confirms
  imports Mq_Delivery
begin

text \<open>
  Publisher confirmations (\<open>pkg/mq/common/publisher.go\<close>): sequence numbers, the router goroutine and the ways a
  publish ends.  Goroutines interleave at the code's mutexes: registering and sending is one step,
  routing one confirmation is one step, a waiter waking up is one step.
\<close>

section \<open>The publisher\<close>

datatype confirmation = Confirmation (DeliveryTag: nat) (Confirmation_Ack: bool)

text \<open>What a waiter's response channel holds: a confirmation, or nothing because it was closed.\<close>
datatype response = Responded confirmation | ResponseClosed

record publisher =
  pb_ch :: nat
  pb_nextSeqNo :: nat
  pb_confirmTimeout :: int
  pb_pendingConfirms :: "nat list"
  pb_responses :: "nat \<rightharpoonup> response"

definition sentinelText :: "sentinel \<Rightarrow> string" where
  "sentinelText s =
     (case s of ErrPublishTimeout \<Rightarrow> ''publish confirmation timeout''
      | ErrPublishNacked \<Rightarrow> ''message nacked by broker''
      | ErrChannelClosed \<Rightarrow> ''channel closed''
      | ErrConnectionClosed \<Rightarrow> ''connection closed''
      | AmqpErrClosed \<Rightarrow> ''Exception (504) Reason: channel/connection is not open'')"

definition sentinelError :: "sentinel \<Rightarrow> mq_error" where
  "sentinelError s = \<lparr>me_is = [s], me_code = None, me_text = sentinelText s\<rparr>"

definition plainError :: "string \<Rightarrow> mq_error" where
  "plainError t = \<lparr>me_is = [], me_code = None, me_text = t\<rparr>"

text \<open>\<open>fmt.Errorf\<close> with \<open>%w\<close> keeps what \<open>errors.Is\<close> and \<open>errors.As\<close> find.\<close>
definition wrapError :: "string \<Rightarrow> mq_error \<Rightarrow> string \<Rightarrow> mq_error" where
  "wrapError before e after = e\<lparr>me_text := before @ me_text e @ after\<rparr>"

text \<open>\<open>ch.Confirm\<close> works or fails; \<open>None\<close> for a nil channel.\<close>
definition NewPublisherWithConfirms :: "nat option \<Rightarrow> int \<Rightarrow> mq_error option \<Rightarrow> mq_error + publisher" where
  "NewPublisherWithConfirms ch timeout confirmErr =
     (case ch of
        None \<Rightarrow> Inl (plainError ''channel is nil'')
      | Some c \<Rightarrow>
          (case confirmErr of
             Some e \<Rightarrow> Inl (wrapError ''failed to enable confirms: '' e '''')
           | None \<Rightarrow> Inr \<lparr>pb_ch = c, pb_nextSeqNo = 1, pb_confirmTimeout = timeout, pb_pendingConfirms = [],
                          pb_responses = Map.empty\<rparr>))"

text \<open>Registering the sequence number and sending, under the publisher's mutex.\<close>
definition publishStart :: "mq_error option \<Rightarrow> publisher \<Rightarrow> publisher \<times> nat \<times> mq_error option" where
  "publishStart sendErr p =
     (let seqNo = pb_nextSeqNo p;
          p1 = p\<lparr>pb_nextSeqNo := Suc seqNo, pb_pendingConfirms := seqNo # pb_pendingConfirms p\<rparr>
      in case sendErr of
           None \<Rightarrow> (p1, seqNo, None)
         | Some e \<Rightarrow> (p1\<lparr>pb_pendingConfirms := removeAll seqNo (pb_pendingConfirms p1)\<rparr>, seqNo,
                      Some (wrapError ''publish failed: '' e '''')))"

definition routeConfirmation :: "confirmation \<Rightarrow> publisher \<Rightarrow> publisher" where
  "routeConfirmation c p =
     (if DeliveryTag c \<in> set (pb_pendingConfirms p)
      then p\<lparr>pb_responses := (pb_responses p)(DeliveryTag c \<mapsto> Responded c),
             pb_pendingConfirms := removeAll (DeliveryTag c) (pb_pendingConfirms p)\<rparr>
      else p)"

text \<open>The router's exit, by \<open>Close\<close> or because the confirmation channel closed.\<close>
definition routerExits :: "publisher \<Rightarrow> publisher" where
  "routerExits p =
     p\<lparr>pb_responses := (\<lambda>s. if s \<in> set (pb_pendingConfirms p) then Some ResponseClosed else pb_responses p s),
       pb_pendingConfirms := []\<rparr>"

datatype confirm_wake = GotResponse | ConfirmTimeout string | ContextDone string

text \<open>How the waiting publish ends; \<open>None\<close> while its response channel has nothing to read.  The
  argument of a timeout is the printed duration.\<close>
definition publishEnd :: "nat \<Rightarrow> confirm_wake \<Rightarrow> publisher \<Rightarrow> (publisher \<times> mq_error option) option" where
  "publishEnd seqNo w p =
     (case w of
        GotResponse \<Rightarrow>
          (case pb_responses p seqNo of
             None \<Rightarrow> None
           | Some ResponseClosed \<Rightarrow>
               Some (p, Some (plainError (''publisher confirmation channel closed (seq '' @ itoa (int seqNo) @ '')'')))
           | Some (Responded c) \<Rightarrow>
               if DeliveryTag c \<noteq> seqNo
               then Some (p, Some (plainError (''sequence mismatch: expected '' @ itoa (int seqNo) @ '', got '' @
                                               itoa (int (DeliveryTag c)))))
               else if \<not> Confirmation_Ack c then Some (p, Some (sentinelError ErrPublishNacked))
               else Some (p, None))
      | ConfirmTimeout dur \<Rightarrow>
          Some (p\<lparr>pb_pendingConfirms := removeAll seqNo (pb_pendingConfirms p)\<rparr>,
                Some (wrapError '''' (sentinelError ErrPublishTimeout)
                        ('': after '' @ dur @ '' (seq '' @ itoa (int seqNo) @ '')'')))
      | ContextDone e \<Rightarrow>
          Some (p\<lparr>pb_pendingConfirms := removeAll seqNo (pb_pendingConfirms p)\<rparr>,
                Some (plainError (''context cancelled: '' @ e))))"

section \<open>A publisher and its broker\<close>

text \<open>The broker numbers the messages it takes from 1 and confirms each number at most once, in any
  order: \<open>lk_sent\<close> holds the sequence number of each message it took.\<close>
record link =
  lk_publisher :: publisher
  lk_sent :: "nat list"
  lk_confirmed :: "(nat \<times> bool) list"
  lk_waiting :: "nat list"
  lk_finished :: "(nat \<times> mq_error option) list"

definition newLink :: "publisher \<Rightarrow> link" where
  "newLink p = \<lparr>lk_publisher = p, lk_sent = [], lk_confirmed = [], lk_waiting = [], lk_finished = []\<rparr>"

datatype link_event = Send | SendFails mq_error | BrokerConfirms nat bool | Wakes nat confirm_wake | RouterExits

fun linkStep :: "link_event \<Rightarrow> link \<Rightarrow> link option" where
  "linkStep Send l =
     (case publishStart None (lk_publisher l) of
        (p, s, r) \<Rightarrow> Some (l\<lparr>lk_publisher := p, lk_sent := lk_sent l @ [s], lk_waiting := s # lk_waiting l\<rparr>))"
| "linkStep (SendFails e) l =
     (case publishStart (Some e) (lk_publisher l) of
        (p, s, r) \<Rightarrow> Some (l\<lparr>lk_publisher := p, lk_finished := (s, r) # lk_finished l\<rparr>))"
| "linkStep (BrokerConfirms t a) l =
     (if 1 \<le> t \<and> t \<le> length (lk_sent l) \<and> t \<notin> fst ` set (lk_confirmed l)
      then Some (l\<lparr>lk_publisher := routeConfirmation (Confirmation t a) (lk_publisher l),
                   lk_confirmed := (t, a) # lk_confirmed l\<rparr>)
      else None)"
| "linkStep (Wakes s w) l =
     (if s \<in> set (lk_waiting l)
      then (case publishEnd s w (lk_publisher l) of
              None \<Rightarrow> None
            | Some (p, r) \<Rightarrow> Some (l\<lparr>lk_publisher := p, lk_waiting := removeAll s (lk_waiting l),
                                    lk_finished := (s, r) # lk_finished l\<rparr>))
      else None)"
| "linkStep RouterExits l = Some (l\<lparr>lk_publisher := routerExits (lk_publisher l)\<rparr>)"

fun linkRun :: "link_event list \<Rightarrow> link \<Rightarrow> link option" where
  "linkRun [] l = Some l"
| "linkRun (e # es) l = (case linkStep e l of None \<Rightarrow> None | Some l1 \<Rightarrow> linkRun es l1)"

fun sendFailure :: "link_event \<Rightarrow> bool" where
  "sendFailure (SendFails e) = True"
| "sendFailure ev = False"

text \<open>After \<open>f\<close> failed sends the broker's number of a message is \<open>f\<close> below its sequence number.\<close>
definition link_inv :: "nat \<Rightarrow> link \<Rightarrow> bool" where
  "link_inv f l \<longleftrightarrow>
     lk_sent l = map (\<lambda>i. i + Suc f) [0..<length (lk_sent l)] \<and>
     pb_nextSeqNo (lk_publisher l) = length (lk_sent l) + Suc f \<and>
     (\<forall>s c. pb_responses (lk_publisher l) s = Some (Responded c) \<longrightarrow>
        DeliveryTag c = s \<and> (s, Confirmation_Ack c) \<in> set (lk_confirmed l)) \<and>
     list_all (\<lambda>c. 1 \<le> fst c \<and> fst c \<le> length (lk_sent l)) (lk_confirmed l) \<and>
     distinct (map fst (lk_confirmed l)) \<and>
     (\<forall>s. (s, None) \<in> set (lk_finished l) \<longrightarrow> (s, True) \<in> set (lk_confirmed l)) \<and>
     (\<forall>s. (s, Some (sentinelError ErrPublishNacked)) \<in> set (lk_finished l) \<longrightarrow> (s, False) \<in> set (lk_confirmed l))"

lemma link_inv_step:
  assumes "link_inv f l" and "linkStep e l = Some l1" and "\<not> sendFailure e"
  shows "link_inv f l1"
proof (cases e)
  case Send
  then show ?thesis using assms
    by (auto simp: link_inv_def publishStart_def Let_def elim!: list.pred_mono_strong)
next
  case (SendFails er)
  then show ?thesis using assms(3) by simp
next
  case (BrokerConfirms t a)
  then show ?thesis using assms(1,2)
    by (auto simp: link_inv_def routeConfirmation_def image_iff split: if_splits)
next
  case (Wakes s w)
  then obtain p r where e: "publishEnd s w (lk_publisher l) = Some (p, r)"
    and l1: "l1 = l\<lparr>lk_publisher := p, lk_waiting := removeAll s (lk_waiting l), lk_finished := (s, r) # lk_finished l\<rparr>"
    using assms(2) by (auto split: if_splits option.splits)
  have "pb_nextSeqNo p = pb_nextSeqNo (lk_publisher l) \<and> pb_responses p = pb_responses (lk_publisher l)"
    using e by (auto simp: publishEnd_def split: confirm_wake.splits option.splits response.splits if_splits)
  moreover have told: "(s, Confirmation_Ack c) \<in> set (lk_confirmed l)"
    if "pb_responses (lk_publisher l) s = Some (Responded c)" for c
    using assms(1) that by (simp add: link_inv_def)
  moreover have "r = None \<Longrightarrow> (s, True) \<in> set (lk_confirmed l)"
    using e told by (fastforce simp: publishEnd_def split: confirm_wake.splits option.splits response.splits if_splits)
  moreover have "r = Some (sentinelError ErrPublishNacked) \<Longrightarrow> (s, False) \<in> set (lk_confirmed l)"
    using e told
    by (fastforce simp: publishEnd_def plainError_def sentinelError_def wrapError_def sentinelText_def
        split: confirm_wake.splits option.splits response.splits if_splits)
  ultimately show ?thesis using assms(1) unfolding l1 link_inv_def by auto
next
  case RouterExits
  then show ?thesis using assms(1,2) by (auto simp: link_inv_def routerExits_def split: if_splits)
qed

lemma link_inv_run:
  "link_inv f l \<Longrightarrow> linkRun es l = Some l1 \<Longrightarrow> list_all (\<lambda>e. \<not> sendFailure e) es \<Longrightarrow> link_inv f l1"
  by (induction es arbitrary: l) (auto split: option.splits intro: link_inv_step)

section \<open>Whose confirmation a publisher reports\<close>

lemma link_inv_new:
  "NewPublisherWithConfirms (Some c) timeout None = Inr p \<Longrightarrow> link_inv 0 (newLink p)"
  by (auto simp: NewPublisherWithConfirms_def link_inv_def newLink_def)

lemma send_error_not_nack: "sentinelError ErrPublishNacked \<noteq> wrapError ''publish failed: '' e after"
proof
  assume "sentinelError ErrPublishNacked = wrapError ''publish failed: '' e after"
  then have "me_text (sentinelError ErrPublishNacked) = me_text (wrapError ''publish failed: '' e after)" by simp
  then show False by (simp add: sentinelError_def sentinelText_def wrapError_def)
qed

lemma link_inv_fail:
  assumes "link_inv f l" and "lk_sent l = []" and "sendFailure e"
  shows "\<exists>l1. linkStep e l = Some l1 \<and> link_inv (Suc f) l1 \<and> lk_sent l1 = []"
proof -
  obtain er where "e = SendFails er" using assms(3) by (cases e) auto
  then show ?thesis using assms(1,2)
    using send_error_not_nack by (auto simp: link_inv_def publishStart_def)
qed

lemma link_inv_failures:
  "link_inv f l \<Longrightarrow> lk_sent l = [] \<Longrightarrow> list_all sendFailure fs \<Longrightarrow>
   \<exists>l1. linkRun fs l = Some l1 \<and> link_inv (f + length fs) l1"
proof (induction fs arbitrary: f l)
  case Nil
  then show ?case by simp
next
  case (Cons e fs)
  then obtain l1 where l1: "linkStep e l = Some l1" "link_inv (Suc f) l1" "lk_sent l1 = []"
    using link_inv_fail by fastforce
  then show ?case using Cons.IH[OF l1(2,3)] Cons.prems(3) by simp
qed

lemma linkRun_append: "linkRun (es @ fs) l = Option.bind (linkRun es l) (linkRun fs)"
  by (induction es arbitrary: l) (auto split: option.splits)


definition ex_publisher :: publisher where
  "ex_publisher = \<lparr>pb_ch = 0, pb_nextSeqNo = 1, pb_confirmTimeout = 30, pb_pendingConfirms = [], pb_responses = Map.empty\<rparr>"


text \<open>After a failed send the confirmation of the next message wakes nobody: its publish can only time out, be
  cancelled or be ended by the router's exit.\<close>
lemma confirm_lost_after_failed_send:
  "\<exists>l. linkRun [SendFails e, Send, BrokerConfirms 1 True] (newLink ex_publisher) = Some l \<and>
       lk_sent l = [2] \<and> lk_confirmed l = [(1, True)] \<and> lk_waiting l = [2] \<and> linkStep (Wakes 2 GotResponse) l = None"
  by (simp add: newLink_def ex_publisher_def publishStart_def routeConfirmation_def publishEnd_def Let_def)

end
