(* ===== verification/Channel_Pool.thy ===== *)
theory Channel_Pool
  imports Publisher_Confirms
begin

text \<open>
  The pool of AMQP channels (\<open>pkg/mq/common/channelpool.go\<close>) and publishing through it (\<open>helpers.go\<close>).  A
  channel is its number; the broker's answers to opening one are inputs.  \<open>GetChannel\<close> holds the pool's
  mutex except while it waits for the connection, so it is split there.
\<close>

section \<open>The pool\<close>

record channel_pool =
  cp_conn :: nat
  cp_channels :: "nat list"
  cp_maxChannels :: int
  cp_closed :: bool
  cp_created :: int
  cp_acquiredCount :: int
  cp_releasedCount :: int
  cp_currentlyInUse :: int

text \<open>With the process state around it: whether \<open>RabbitMQChannelPool\<close> is set, the closed channels, the number of
  channels opened so far, the cache of publishers.\<close>
record mq = channel_pool +
  mq_ready :: bool
  mq_closed :: "nat list"
  mq_opened :: nat
  mq_publishers :: "nat \<rightharpoonup> publisher"

text \<open>How \<open>conn.Channel()\<close> answers: a channel, a failure on a closed connection, another failure.\<close>
datatype conn_answer = Opened | ConnectionClosed string | OpenRefused string

datatype acquired = Acquired nat | AcquireFailed string | PoolExhausted | WaitingForConnection nat

definition ClearPublisherForChannel :: "nat \<Rightarrow> mq \<Rightarrow> mq" where
  "ClearPublisherForChannel ch q = q\<lparr>mq_publishers := (mq_publishers q)(ch := None)\<rparr>"

definition ClearAllPublishers :: "mq \<Rightarrow> mq" where
  "ClearAllPublishers q = q\<lparr>mq_publishers := Map.empty\<rparr>"

definition closeChannel :: "nat \<Rightarrow> mq \<Rightarrow> mq" where
  "closeChannel ch q = (if ch \<in> set (mq_closed q) then q else q\<lparr>mq_closed := ch # mq_closed q\<rparr>)"

definition channelClosed :: "nat \<Rightarrow> mq \<Rightarrow> bool" where
  "channelClosed ch q = (ch \<in> set (mq_closed q))"

definition lowerCreated :: "mq \<Rightarrow> mq" where
  "lowerCreated q = q\<lparr>cp_created := (if cp_created q - 1 < 0 then 0 else cp_created q - 1)\<rparr>"

text \<open>Closing the pool.\<close>
definition pool_Close :: "mq \<Rightarrow> mq" where
  "pool_Close q =
     (if cp_closed q then q
      else (fold (\<lambda>ch r. if channelClosed ch r then r else closeChannel ch (ClearPublisherForChannel ch r))
              (cp_channels q) (q\<lparr>cp_closed := True\<rparr>))\<lparr>cp_channels := []\<rparr>)"

text \<open>Filling a new pool with \<open>n\<close> channels; \<open>answers i\<close> is the error of opening the \<open>i\<close>th, if any.\<close>
fun populate :: "nat \<Rightarrow> nat \<Rightarrow> (nat \<Rightarrow> string option) \<Rightarrow> mq \<Rightarrow> mq \<times> string option" where
  "populate 0 i answers q = (q, None)"
| "populate (Suc n) i answers q =
     (case answers i of
        None \<Rightarrow>
          populate n (Suc i) answers
            (q\<lparr>cp_channels := cp_channels q @ [mq_opened q], mq_opened := Suc (mq_opened q), cp_created := cp_created q + 1\<rparr>)
      | Some e \<Rightarrow> (pool_Close q, Some (''failed to create initial channel '' @ itoa (int i) @ '': '' @ e)))"

definition NewChannelPool :: "nat option \<Rightarrow> int \<Rightarrow> (nat \<Rightarrow> string option) \<Rightarrow> mq \<Rightarrow> mq \<times> string option" where
  "NewChannelPool conn maxChannels answers q =
     (case conn of
        None \<Rightarrow> (q, Some ''connection is nil'')
      | Some c \<Rightarrow>
          (let m = (if maxChannels \<le> 0 then 500 else maxChannels);
               initial = (if m div 5 < 1 then 1 else m div 5)
           in populate (nat initial) 0 answers
                (q\<lparr>cp_conn := c, cp_channels := [], cp_maxChannels := m, cp_closed := False, cp_created := 0,
                   cp_acquiredCount := 0, cp_releasedCount := 0, cp_currentlyInUse := 0\<rparr>)))"

text \<open>One attempt to open a channel, under the mutex.\<close>
definition tryOpen :: "nat \<Rightarrow> conn_answer \<Rightarrow> mq \<Rightarrow> mq \<times> acquired" where
  "tryOpen attempt answer q =
     (case answer of
        Opened \<Rightarrow> (q\<lparr>cp_created := cp_created q + 1, cp_currentlyInUse := cp_currentlyInUse q + 1, mq_opened := Suc (mq_opened q)\<rparr>,
                   Acquired (mq_opened q))
      | OpenRefused e \<Rightarrow> (q, AcquireFailed (''failed to create new channel: '' @ e))
      | ConnectionClosed e \<Rightarrow>
          if attempt < 3 then (q, WaitingForConnection (Suc attempt))
          else (q, AcquireFailed (''failed to create new channel: '' @ e)))"

text \<open>After the two seconds, with the mutex held again.\<close>
definition resumeOpen :: "nat \<Rightarrow> conn_answer \<Rightarrow> mq \<Rightarrow> mq \<times> acquired" where
  "resumeOpen attempt answer q =
     (if cp_closed q then (q, AcquireFailed ''channel pool is closed'') else tryOpen attempt answer q)"

text \<open>From the entry to a result or to the first wait; a closed channel of the pool is dropped and the call starts
  again.\<close>
function takeChannel :: "conn_answer \<Rightarrow> mq \<Rightarrow> mq \<times> acquired" where
  "takeChannel answer q =
     (if cp_closed q then (q, AcquireFailed ''channel pool is closed'')
      else
        let q1 = q\<lparr>cp_acquiredCount := cp_acquiredCount q + 1\<rparr>
        in case cp_channels q of
             ch # rest \<Rightarrow>
               if channelClosed ch q
               then takeChannel answer (ClearPublisherForChannel ch (lowerCreated (q1\<lparr>cp_channels := rest\<rparr>)))
               else (q1\<lparr>cp_channels := rest, cp_currentlyInUse := cp_currentlyInUse q + 1\<rparr>, Acquired ch)
           | [] \<Rightarrow>
               if cp_created q \<ge> cp_maxChannels q then (q1, PoolExhausted)
               else tryOpen 1 answer q1)"
  by pat_completeness auto
termination
  by (relation "measure (\<lambda>(answer, q). length (cp_channels q))")
     (auto simp: ClearPublisherForChannel_def lowerCreated_def)

declare takeChannel.simps [simp del]

text \<open>A whole call: \<open>meanwhile i\<close> is what the other goroutines do to the pool during the wait before attempt \<open>i\<close>.\<close>
definition GetChannel :: "(nat \<Rightarrow> conn_answer) \<Rightarrow> (nat \<Rightarrow> mq \<Rightarrow> mq) \<Rightarrow> mq \<Rightarrow> mq \<times> acquired" where
  "GetChannel answers meanwhile q =
     (case takeChannel (answers 1) q of
        (q1, WaitingForConnection n) \<Rightarrow>
          (case resumeOpen 2 (answers 2) (meanwhile 2 q1) of
             (q2, WaitingForConnection n) \<Rightarrow> resumeOpen 3 (answers 3) (meanwhile 3 q2)
           | r \<Rightarrow> r)
      | r \<Rightarrow> r)"

definition ReturnChannel :: "nat option \<Rightarrow> mq \<Rightarrow> mq" where
  "ReturnChannel ch q =
     (case ch of
        None \<Rightarrow> q
      | Some c \<Rightarrow>
          let q1 = q\<lparr>cp_releasedCount := cp_releasedCount q + 1\<rparr> in
          if cp_closed q1 then closeChannel c (ClearPublisherForChannel c q1)
          else if channelClosed c q1 then ClearPublisherForChannel c (lowerCreated q1)
          else
            let q2 = q1\<lparr>cp_currentlyInUse := cp_currentlyInUse q1 - 1\<rparr> in
            if int (length (cp_channels q2)) < cp_maxChannels q2 then q2\<lparr>cp_channels := cp_channels q2 @ [c]\<rparr>
            else closeChannel c (ClearPublisherForChannel c q2))"

text \<open>The counters change at once; a goroutine closes the drained channels.\<close>
definition DrainPool :: "mq \<Rightarrow> mq" where
  "DrainPool q =
     (if cp_closed q then q
      else
        let channels = cp_channels q;
            created = cp_created q - int (length channels);
            q1 = q\<lparr>cp_channels := [], cp_created := (if created < 0 then 0 else created)\<rparr>
        in fold (\<lambda>ch r. closeChannel ch (ClearPublisherForChannel ch r)) channels q1)"

definition UpdateConnection :: "nat option \<Rightarrow> mq \<Rightarrow> mq" where
  "UpdateConnection conn q = (case conn of None \<Rightarrow> q | Some c \<Rightarrow> q\<lparr>cp_conn := c\<rparr>)"

definition pool_Stats :: "mq \<Rightarrow> string \<rightharpoonup> int" where
  "pool_Stats q =
     (let available = int (length (cp_channels q))
      in [''max'' \<mapsto> cp_maxChannels q, ''created'' \<mapsto> cp_created q, ''available'' \<mapsto> available,
          ''in_use'' \<mapsto> cp_created q - available])"

definition pool_IsClosed :: "mq \<Rightarrow> bool" where
  "pool_IsClosed q = cp_closed q"

section \<open>Clients of the pool\<close>

text \<open>The channels checked out and the goroutines waiting for the connection, with the attempt each will make.\<close>
record pool_system =
  ps_mq :: mq
  ps_held :: "nat list"
  ps_waiting :: "nat list"

fun receive :: "acquired \<Rightarrow> pool_system \<Rightarrow> pool_system" where
  "receive (Acquired ch) s = s\<lparr>ps_held := ch # ps_held s\<rparr>"
| "receive (WaitingForConnection n) s = s\<lparr>ps_waiting := n # ps_waiting s\<rparr>"
| "receive r s = s"

text \<open>Exhaustion panics: the process is gone and no step follows.\<close>
inductive pool_step :: "pool_system \<Rightarrow> pool_system \<Rightarrow> bool" where
  acquire: "takeChannel a (ps_mq s) = (q, r) \<Longrightarrow> r \<noteq> PoolExhausted \<Longrightarrow> pool_step s (receive r (s\<lparr>ps_mq := q\<rparr>))"
| resume: "n \<in> set (ps_waiting s) \<Longrightarrow> resumeOpen n a (ps_mq s) = (q, r) \<Longrightarrow>
    pool_step s (receive r (s\<lparr>ps_mq := q, ps_waiting := remove1 n (ps_waiting s)\<rparr>))"
| give_back: "ch \<in> set (ps_held s) \<Longrightarrow>
    pool_step s (s\<lparr>ps_mq := ReturnChannel (Some ch) (ps_mq s), ps_held := remove1 ch (ps_held s)\<rparr>)"
| channel_dies: "ch < mq_opened (ps_mq s) \<Longrightarrow> pool_step s (s\<lparr>ps_mq := closeChannel ch (ps_mq s)\<rparr>)"
| drain: "pool_step s (s\<lparr>ps_mq := DrainPool (ps_mq s)\<rparr>)"
| reconnect: "pool_step s (s\<lparr>ps_mq := UpdateConnection c (ps_mq s)\<rparr>)"
| shut: "pool_step s (s\<lparr>ps_mq := pool_Close (ps_mq s)\<rparr>)"

text \<open>The states a new pool can reach; with \<open>connected\<close>, without a goroutine ever waiting for the connection.\<close>
inductive pool_reach :: "bool \<Rightarrow> mq \<Rightarrow> pool_system \<Rightarrow> bool" for connected q0 where
  start: "pool_reach connected q0 \<lparr>ps_mq = q0, ps_held = [], ps_waiting = []\<rparr>"
| step: "pool_reach connected q0 s \<Longrightarrow> pool_step s t \<Longrightarrow> (connected \<longrightarrow> ps_waiting t = []) \<Longrightarrow> pool_reach connected q0 t"

definition exclusive :: "mq \<Rightarrow> nat list \<Rightarrow> bool" where
  "exclusive q held \<longleftrightarrow>
     distinct (cp_channels q @ held) \<and> list_all (\<lambda>ch. ch < mq_opened q) (cp_channels q @ held)"

definition accounted :: "mq \<Rightarrow> nat list \<Rightarrow> bool" where
  "accounted q held \<longleftrightarrow>
     cp_closed q \<or> cp_created q = int (length (cp_channels q) + length held) \<and> cp_created q \<le> cp_maxChannels q"

lemma fold_keeps: "(\<And>x r. f (g x r) = f r) \<Longrightarrow> f (fold g xs r) = f r"
  by (induction xs arbitrary: r) auto

lemma keep_close [simp]:
  "cp_channels (closeChannel ch q) = cp_channels q" "cp_created (closeChannel ch q) = cp_created q"
  "cp_closed (closeChannel ch q) = cp_closed q" "cp_maxChannels (closeChannel ch q) = cp_maxChannels q"
  "mq_opened (closeChannel ch q) = mq_opened q"
  by (simp_all add: closeChannel_def)

lemma keep_clear [simp]:
  "cp_channels (ClearPublisherForChannel ch q) = cp_channels q" "cp_created (ClearPublisherForChannel ch q) = cp_created q"
  "cp_closed (ClearPublisherForChannel ch q) = cp_closed q"
  "cp_maxChannels (ClearPublisherForChannel ch q) = cp_maxChannels q"
  "mq_opened (ClearPublisherForChannel ch q) = mq_opened q"
  by (simp_all add: ClearPublisherForChannel_def)

lemma keep_lower [simp]:
  "cp_channels (lowerCreated q) = cp_channels q" "cp_closed (lowerCreated q) = cp_closed q"
  "cp_maxChannels (lowerCreated q) = cp_maxChannels q" "mq_opened (lowerCreated q) = mq_opened q"
  "cp_created (lowerCreated q) = max 0 (cp_created q - 1)"
  by (simp_all add: lowerCreated_def)

section \<open>Exclusive checkout and accounting\<close>

fun heldAfter :: "acquired \<Rightarrow> nat list \<Rightarrow> nat list" where
  "heldAfter (Acquired ch) held = ch # held"
| "heldAfter r held = held"

lemma receive_held: "ps_held (receive r s) = heldAfter r (ps_held s)"
  and receive_mq: "ps_mq (receive r s) = ps_mq s"
  by (cases r; simp)+

lemma exclusive_tail: "exclusive q held \<Longrightarrow> cp_channels q = ch # rest \<Longrightarrow> cp_channels r = rest \<Longrightarrow> mq_opened r = mq_opened q \<Longrightarrow>
    exclusive r (ch # held) \<and> exclusive r held"
  by (auto simp: exclusive_def)

lemma tryOpen_exclusive: "exclusive q held \<Longrightarrow> tryOpen n a q = (q1, r) \<Longrightarrow> exclusive q1 (heldAfter r held)"
  by (auto simp: exclusive_def tryOpen_def list_all_iff less_Suc_eq split: conn_answer.splits if_splits)

lemma take_exclusive:
  "exclusive q held \<Longrightarrow> takeChannel a q = (q1, r) \<Longrightarrow> exclusive q1 (heldAfter r held)"
proof (induction a q rule: takeChannel.induct)
  case (1 a q)
  show ?case
  proof (cases "cp_closed q")
    case True
    then show ?thesis using "1.prems" by (auto simp: takeChannel.simps[of a q])
  next
    case open_pool: False
    show ?thesis
    proof (cases "cp_channels q")
      case Nil
      have "exclusive (q\<lparr>cp_acquiredCount := cp_acquiredCount q + 1\<rparr>) held"
        using "1.prems"(1) by (simp add: exclusive_def)
      then show ?thesis using "1.prems" open_pool Nil tryOpen_exclusive
        by (auto simp: takeChannel.simps[of a q] Let_def split: if_splits)
    next
      case (Cons ch rest)
      let ?q1 = "q\<lparr>cp_acquiredCount := cp_acquiredCount q + 1\<rparr>"
      show ?thesis
      proof (cases "channelClosed ch q")
        case True
        have "exclusive (ClearPublisherForChannel ch (lowerCreated (?q1\<lparr>cp_channels := rest\<rparr>))) held"
          using exclusive_tail[OF "1.prems"(1) Cons] by simp
        then show ?thesis using "1.IH"[OF open_pool refl Cons True] "1.prems"(2) open_pool Cons True
          by (simp add: takeChannel.simps[of a q] Let_def)
      next
        case False
        then show ?thesis using exclusive_tail[OF "1.prems"(1) Cons] "1.prems"(2) open_pool Cons
          by (auto simp: takeChannel.simps[of a q] Let_def)
      qed
    qed
  qed
qed

lemma return_exclusive:
  assumes "exclusive q held" and "ch \<in> set held"
  shows "exclusive (ReturnChannel (Some ch) q) (remove1 ch held)"
proof -
  have "distinct held" using assms(1) by (simp add: exclusive_def)
  then show ?thesis using assms
    by (auto simp: exclusive_def ReturnChannel_def Let_def list_all_iff dest: in_set_takeD)
qed

lemma drain_keeps [simp]:
  "cp_channels (DrainPool q) = (if cp_closed q then cp_channels q else [])"
  "mq_opened (DrainPool q) = mq_opened q" "cp_closed (DrainPool q) = cp_closed q"
  "cp_maxChannels (DrainPool q) = cp_maxChannels q"
  "cp_created (DrainPool q) = (if cp_closed q then cp_created q else max 0 (cp_created q - int (length (cp_channels q))))"
  by (simp_all add: DrainPool_def Let_def fold_keeps[where f = cp_channels] fold_keeps[where f = mq_opened]
      fold_keeps[where f = cp_closed] fold_keeps[where f = cp_maxChannels] fold_keeps[where f = cp_created])

lemma close_keeps [simp]:
  "cp_channels (pool_Close q) = (if cp_closed q then cp_channels q else [])"
  "mq_opened (pool_Close q) = mq_opened q" "cp_closed (pool_Close q)"
  "cp_maxChannels (pool_Close q) = cp_maxChannels q"
  by (simp_all add: pool_Close_def fold_keeps[where f = mq_opened] fold_keeps[where f = cp_closed]
      fold_keeps[where f = cp_maxChannels])

lemma update_keeps [simp]:
  "cp_channels (UpdateConnection c q) = cp_channels q" "mq_opened (UpdateConnection c q) = mq_opened q"
  "cp_closed (UpdateConnection c q) = cp_closed q" "cp_maxChannels (UpdateConnection c q) = cp_maxChannels q"
  "cp_created (UpdateConnection c q) = cp_created q"
  by (simp_all add: UpdateConnection_def split: option.split)

lemma step_exclusive:
  "pool_step s t \<Longrightarrow> exclusive (ps_mq s) (ps_held s) \<Longrightarrow> exclusive (ps_mq t) (ps_held t)"
proof (induction rule: pool_step.induct)
  case (acquire a s q r)
  then show ?case using take_exclusive by (simp add: receive_held receive_mq)
next
  case (resume n s a q r)
  then show ?case using tryOpen_exclusive
    by (auto simp: receive_held receive_mq resumeOpen_def split: if_splits)
next
  case (give_back ch s)
  then show ?case using return_exclusive by simp
qed (auto simp: exclusive_def)

text \<open>A take that neither waits nor exhausts the pool keeps the account.\<close>
lemma tryOpen_accounted:
  "accounted q held \<Longrightarrow> cp_closed q \<or> cp_created q < cp_maxChannels q \<Longrightarrow> tryOpen n a q = (q1, r) \<Longrightarrow>
   accounted q1 (heldAfter r held)"
  by (auto simp: accounted_def tryOpen_def split: conn_answer.splits if_splits)

lemma take_accounted:
  "accounted q held \<Longrightarrow> takeChannel a q = (q1, r) \<Longrightarrow> accounted q1 (heldAfter r held)"
proof (induction a q rule: takeChannel.induct)
  case (1 a q)
  let ?q1 = "q\<lparr>cp_acquiredCount := cp_acquiredCount q + 1\<rparr>"
  show ?case
  proof (cases "cp_closed q")
    case True
    then show ?thesis using "1.prems" by (auto simp: takeChannel.simps[of a q])
  next
    case open_pool: False
    show ?thesis
    proof (cases "cp_channels q")
      case Nil
      have "accounted ?q1 held" using "1.prems"(1) by (simp add: accounted_def)
      then show ?thesis using "1.prems" open_pool Nil tryOpen_accounted[of ?q1 held 1 a q1 r]
        by (auto simp: takeChannel.simps[of a q] Let_def split: if_splits)
    next
      case (Cons ch rest)
      show ?thesis
      proof (cases "channelClosed ch q")
        case True
        have "accounted (ClearPublisherForChannel ch (lowerCreated (?q1\<lparr>cp_channels := rest\<rparr>))) held"
          using "1.prems"(1) Cons by (auto simp: accounted_def)
        then show ?thesis using "1.IH"[OF open_pool refl Cons True] "1.prems"(2) open_pool Cons True
          by (simp add: takeChannel.simps[of a q] Let_def)
      next
        case False
        then show ?thesis using "1.prems" open_pool Cons
          by (auto simp: takeChannel.simps[of a q] Let_def accounted_def)
      qed
    qed
  qed
qed

lemma return_accounted:
  assumes "accounted q held" and "ch \<in> set held"
  shows "accounted (ReturnChannel (Some ch) q) (remove1 ch held)"
proof -
  have "length held = Suc (length (remove1 ch held))"
    using assms(2) by (metis One_nat_def Suc_pred length_pos_if_in_set length_remove1)
  then show ?thesis using assms(1) by (auto simp: accounted_def ReturnChannel_def Let_def)
qed

lemma step_accounted:
  "pool_step s t \<Longrightarrow> accounted (ps_mq s) (ps_held s) \<Longrightarrow> ps_waiting s = [] \<Longrightarrow> accounted (ps_mq t) (ps_held t)"
proof (induction rule: pool_step.induct)
  case (acquire a s q r)
  then show ?case using take_accounted by (simp add: receive_held receive_mq)
next
  case (resume n s a q r)
  then show ?case by simp
next
  case (give_back ch s)
  then show ?case using return_accounted by simp
qed (auto simp: accounted_def)

lemma populate_new:
  "populate n i answers q = (q1, None) \<Longrightarrow> exclusive q [] \<Longrightarrow>
   exclusive q1 [] \<and> cp_closed q1 = cp_closed q \<and> cp_maxChannels q1 = cp_maxChannels q \<and>
   length (cp_channels q1) = length (cp_channels q) + n \<and> cp_created q1 = cp_created q + int n"
proof (induction n arbitrary: i q)
  case 0
  then show ?case by simp
next
  case (Suc n)
  let ?q = "q\<lparr>cp_channels := cp_channels q @ [mq_opened q], mq_opened := Suc (mq_opened q), cp_created := cp_created q + 1\<rparr>"
  have "exclusive ?q []" using Suc.prems(2) by (auto simp: exclusive_def list_all_iff less_Suc_eq)
  then show ?case using Suc.IH[of "Suc i" ?q] Suc.prems(1) by (auto split: option.splits)
qed

lemma NewChannelPool_new:
  assumes "NewChannelPool (Some c) m answers q = (q1, None)"
  shows "exclusive q1 [] \<and> accounted q1 []"
proof -
  let ?m = "if m \<le> 0 then 500 else m"
  let ?n = "if ?m div 5 < 1 then 1 else ?m div 5"
  let ?q = "q\<lparr>cp_conn := c, cp_channels := [], cp_maxChannels := ?m, cp_closed := False, cp_created := 0,
              cp_acquiredCount := 0, cp_releasedCount := 0, cp_currentlyInUse := 0\<rparr>"
  have p: "populate (nat ?n) 0 answers ?q = (q1, None)"
    using assms by (simp add: NewChannelPool_def Let_def del: populate.simps)
  have e: "exclusive ?q []" by (simp add: exclusive_def)
  have "?n \<le> ?m" "0 \<le> ?n" by (auto simp: div_le_dividend)
  then show ?thesis using populate_new[OF p e] by (simp add: accounted_def)
qed


section \<open>Concrete runs\<close>

datatype pool_event = Acquires conn_answer | Resumes nat conn_answer | GivesBack nat | Dies nat | Drains | Shuts

fun poolEvent :: "pool_event \<Rightarrow> pool_system \<Rightarrow> pool_system option" where
  "poolEvent (Acquires a) s =
     (case takeChannel a (ps_mq s) of
        (q, r) \<Rightarrow> if r = PoolExhausted then None else Some (receive r (s\<lparr>ps_mq := q\<rparr>)))"
| "poolEvent (Resumes n a) s =
     (if n \<in> set (ps_waiting s)
      then (case resumeOpen n a (ps_mq s) of
              (q, r) \<Rightarrow> Some (receive r (s\<lparr>ps_mq := q, ps_waiting := remove1 n (ps_waiting s)\<rparr>)))
      else None)"
| "poolEvent (GivesBack ch) s =
     (if ch \<in> set (ps_held s)
      then Some (s\<lparr>ps_mq := ReturnChannel (Some ch) (ps_mq s), ps_held := remove1 ch (ps_held s)\<rparr>) else None)"
| "poolEvent (Dies ch) s =
     (if ch < mq_opened (ps_mq s) then Some (s\<lparr>ps_mq := closeChannel ch (ps_mq s)\<rparr>) else None)"
| "poolEvent Drains s = Some (s\<lparr>ps_mq := DrainPool (ps_mq s)\<rparr>)"
| "poolEvent Shuts s = Some (s\<lparr>ps_mq := pool_Close (ps_mq s)\<rparr>)"

fun poolEvents :: "pool_event list \<Rightarrow> pool_system \<Rightarrow> pool_system option" where
  "poolEvents [] s = Some s"
| "poolEvents (e # es) s = Option.bind (poolEvent e s) (poolEvents es)"

lemma poolEvent_step: "poolEvent e s = Some t \<Longrightarrow> pool_step s t"
  by (cases e) (auto intro: pool_step.intros split: prod.splits if_splits)

lemma poolEvents_reach: "pool_reach False q0 s \<Longrightarrow> poolEvents es s = Some t \<Longrightarrow> pool_reach False q0 t"
  by (induction es arbitrary: s) (auto simp: bind_eq_Some_conv dest: poolEvent_step intro: pool_reach.step)

definition ex_mq :: mq where
  "ex_mq = \<lparr>cp_conn = 0, cp_channels = [], cp_maxChannels = 1, cp_closed = False, cp_created = 0, cp_acquiredCount = 0,
            cp_releasedCount = 0, cp_currentlyInUse = 0, mq_ready = True, mq_closed = [], mq_opened = 0,
            mq_publishers = Map.empty\<rparr>"

definition ex_pool :: mq where
  "ex_pool = fst (NewChannelPool (Some 0) 1 (\<lambda>i. None) ex_mq)"

lemma ex_pool_simps:
  "ex_pool = ex_mq\<lparr>cp_channels := [0], cp_created := 1, mq_opened := 1\<rparr>"
  by (simp add: ex_pool_def NewChannelPool_def ex_mq_def)

lemma ex_pool_new: "NewChannelPool (Some 0) 1 (\<lambda>i. None) ex_mq = (ex_pool, None)"
  by (simp add: ex_pool_def NewChannelPool_def ex_mq_def)

lemmas pool_run = ex_pool_simps ex_mq_def takeChannel.simps tryOpen_def resumeOpen_def ReturnChannel_def closeChannel_def
  channelClosed_def ClearPublisherForChannel_def lowerCreated_def Let_def


text \<open>When the connection is down the bound is not kept: two goroutines that both found room open two channels in
  a pool of one; the surplus channel is closed on return but stays counted, and once the other channel dies every
  further \<open>GetChannel\<close> panics as exhausted although nobody holds or waits for a channel.\<close>
theorem pool_exhausted_without_holders:
  "\<exists>s. pool_reach False ex_pool s \<and> ps_held s = [] \<and> ps_waiting s = [] \<and> \<not> cp_closed (ps_mq s) \<and>
       snd (takeChannel Opened (ps_mq s)) = PoolExhausted"
proof -
  let ?down = "ConnectionClosed ''down''"
  let ?es = "[Acquires Opened, Dies 0, GivesBack 0, Acquires ?down, Acquires ?down, Resumes 2 Opened, Resumes 2 Opened,
              GivesBack 1, GivesBack 2, Dies 1]"
  let ?s0 = "\<lparr>ps_mq = ex_pool, ps_held = [], ps_waiting = []\<rparr>"
  obtain s where s: "poolEvents ?es ?s0 = Some s" "ps_held s = []" "ps_waiting s = []" "\<not> cp_closed (ps_mq s)"
      "snd (takeChannel Opened (ps_mq s)) = PoolExhausted"
    by (simp add: pool_run)
  then show ?thesis using poolEvents_reach[OF pool_reach.start s(1)] by blast
qed

end
