(* ===== verification/Channel_Publishing.thy ===== *)
theory Channel_Publishing
  imports Channel_Pool
begin

text \<open>
  Publishing through the pool (\<open>pkg/mq/common/helpers.go\<close>, \<open>pkg/mq/init.go\<close>): the cached publisher of a channel,
  the three attempts of \<open>PublishWithHeaders\<close> and \<open>PublishWithRoutingKey\<close>, and the connection set-up.
\<close>

section \<open>One publish on one channel\<close>

text \<open>In nanoseconds; the multiplication wraps at 64 bits.  A bad or non-positive setting leaves the default of 30
  seconds.\<close>
definition confirmTimeout :: "string \<Rightarrow> int" where
  "confirmTimeout setting =
     (case atoi setting of
        Some seconds \<Rightarrow> if seconds > 0 then sint (word_of_int (seconds * 1000000000) :: 64 word) else 30 * 1000000000
      | None \<Rightarrow> 30 * 1000000000)"

text \<open>What the world does during one attempt: the answers and the interference of \<open>GetChannel\<close>, the errors of
  \<open>Confirm\<close> and of sending, the confirmations that reach the router while the publish waits, the router's exit, a
  cancelled context, the printed timeout.\<close>
record publish_env =
  pe_answers :: "nat \<Rightarrow> conn_answer"
  pe_meanwhile :: "nat \<Rightarrow> mq \<Rightarrow> mq"
  pe_confirmErr :: "mq_error option"
  pe_sendErr :: "mq_error option"
  pe_confirms :: "confirmation list"
  pe_routerExits :: bool
  pe_ctxDone :: "string option"
  pe_duration :: string

definition PublishWithConfirm :: "publish_env \<Rightarrow> publisher \<Rightarrow> publisher \<times> mq_error option" where
  "PublishWithConfirm env p =
     (case publishStart (pe_sendErr env) p of
        (p1, seqNo, Some e) \<Rightarrow> (p1, Some e)
      | (p1, seqNo, None) \<Rightarrow>
          let p2 = fold routeConfirmation (pe_confirms env) p1;
              p3 = (if pe_routerExits env then routerExits p2 else p2);
              w = (if pb_responses p3 seqNo \<noteq> None then GotResponse
                   else case pe_ctxDone env of Some e \<Rightarrow> ContextDone e | None \<Rightarrow> ConfirmTimeout (pe_duration env))
          in case publishEnd seqNo w p3 of Some r \<Rightarrow> r | None \<Rightarrow> (p3, None))"

text \<open>The publisher of the channel, from the cache or new.\<close>
definition publishWithConfirms :: "int \<Rightarrow> publish_env \<Rightarrow> nat \<Rightarrow> mq \<Rightarrow> mq \<times> mq_error option" where
  "publishWithConfirms timeout env ch q =
     (case mq_publishers q ch of
        Some p \<Rightarrow> (case PublishWithConfirm env p of (p1, r) \<Rightarrow> (q\<lparr>mq_publishers := (mq_publishers q)(ch \<mapsto> p1)\<rparr>, r))
      | None \<Rightarrow>
          (case NewPublisherWithConfirms (Some ch) timeout (pe_confirmErr env) of
             Inl e \<Rightarrow> (q, Some e)
           | Inr p \<Rightarrow> (case PublishWithConfirm env p of (p1, r) \<Rightarrow> (q\<lparr>mq_publishers := (mq_publishers q)(ch \<mapsto> p1)\<rparr>, r))))"

definition publishDirect :: "publish_env \<Rightarrow> nat \<Rightarrow> mq \<Rightarrow> mq \<times> mq_error option" where
  "publishDirect env ch q = (q, pe_sendErr env)"

text \<open>The code repeats both functions for a publish with a routing key; the destination and the key are not in the
  model.\<close>
definition publishWithConfirmsRK :: "int \<Rightarrow> publish_env \<Rightarrow> nat \<Rightarrow> mq \<Rightarrow> mq \<times> mq_error option" where
  "publishWithConfirmsRK = publishWithConfirms"

definition publishDirectRK :: "publish_env \<Rightarrow> nat \<Rightarrow> mq \<Rightarrow> mq \<times> mq_error option" where
  "publishDirectRK = publishDirect"

record publish_config =
  pc_confirms :: bool
  pc_timeout :: int

text \<open>From \<open>RABBITMQ_PUBLISHER_CONFIRMS\<close> and \<open>RABBITMQ_CONFIRM_TIMEOUT_SECONDS\<close>.\<close>
definition publishConfig :: "string \<Rightarrow> string \<Rightarrow> publish_config" where
  "publishConfig confirms seconds = \<lparr>pc_confirms = (confirms \<noteq> ''false''), pc_timeout = confirmTimeout seconds\<rparr>"

definition publishOnce :: "publish_config \<Rightarrow> publish_env \<Rightarrow> nat \<Rightarrow> mq \<Rightarrow> mq \<times> mq_error option" where
  "publishOnce cfg env ch q =
     (if pc_confirms cfg then publishWithConfirms (pc_timeout cfg) env ch q else publishDirect env ch q)"

definition publishOnceRK :: "publish_config \<Rightarrow> publish_env \<Rightarrow> nat \<Rightarrow> mq \<Rightarrow> mq \<times> mq_error option" where
  "publishOnceRK cfg env ch q =
     (if pc_confirms cfg then publishWithConfirmsRK (pc_timeout cfg) env ch q else publishDirectRK env ch q)"

section \<open>Three attempts\<close>

datatype publish_result = Published | PublishFailed mq_error | PublishPanics

text \<open>The attempts that are left and the last error.  A retryable failure clears the publisher and keeps the channel
  out of the pool.\<close>
fun publishAttempts :: "publish_config \<Rightarrow> publish_env list \<Rightarrow> mq_error \<Rightarrow> mq \<Rightarrow> mq \<times> publish_result" where
  "publishAttempts cfg [] lastErr q = (q, PublishFailed (wrapError ''publish failed after 3 attempts: '' lastErr ''''))"
| "publishAttempts cfg (env # envs) lastErr q =
     (if \<not> mq_ready q then publishAttempts cfg envs (plainError ''rabbitmq channel pool not initialized'') q
      else
        case GetChannel (pe_answers env) (pe_meanwhile env) q of
          (q1, PoolExhausted) \<Rightarrow> (q1, PublishPanics)
        | (q1, AcquireFailed e) \<Rightarrow> publishAttempts cfg envs (plainError (''failed to get channel from pool: '' @ e)) q1
        | (q1, WaitingForConnection n) \<Rightarrow> (q1, PublishPanics)
        | (q1, Acquired ch) \<Rightarrow>
            (case publishOnce cfg env ch q1 of
               (q2, None) \<Rightarrow> (ReturnChannel (Some ch) q2, Published)
             | (q2, Some e) \<Rightarrow>
                 if IsRetryableError (Some e) then publishAttempts cfg envs e (ClearPublisherForChannel ch q2)
                 else (ReturnChannel (Some ch) q2, PublishFailed e)))"

definition PublishWithHeaders :: "publish_config \<Rightarrow> publish_env \<times> publish_env \<times> publish_env \<Rightarrow> mq \<Rightarrow> mq \<times> publish_result" where
  "PublishWithHeaders cfg envs q =
     (case envs of (e1, e2, e3) \<Rightarrow> publishAttempts cfg [e1, e2, e3] (plainError '''') q)"

text \<open>With a routing key the channel goes back to the pool first, whatever the outcome, with its publisher still
  cached.\<close>
fun publishAttemptsRK :: "publish_config \<Rightarrow> publish_env list \<Rightarrow> mq_error \<Rightarrow> mq \<Rightarrow> mq \<times> publish_result" where
  "publishAttemptsRK cfg [] lastErr q =
     (q, PublishFailed (wrapError ''publish with routing key failed after 3 attempts: '' lastErr ''''))"
| "publishAttemptsRK cfg (env # envs) lastErr q =
     (if \<not> mq_ready q then publishAttemptsRK cfg envs (plainError ''rabbitmq channel pool not initialized'') q
      else
        case GetChannel (pe_answers env) (pe_meanwhile env) q of
          (q1, PoolExhausted) \<Rightarrow> (q1, PublishPanics)
        | (q1, AcquireFailed e) \<Rightarrow> publishAttemptsRK cfg envs (plainError (''failed to get channel from pool: '' @ e)) q1
        | (q1, WaitingForConnection n) \<Rightarrow> (q1, PublishPanics)
        | (q1, Acquired ch) \<Rightarrow>
            (case publishOnceRK cfg env ch q1 of
               (q2, r) \<Rightarrow>
                 let q3 = ReturnChannel (Some ch) q2 in
                 case r of
                   None \<Rightarrow> (q3, Published)
                 | Some e \<Rightarrow> if IsRetryableError (Some e) then publishAttemptsRK cfg envs e q3 else (q3, PublishFailed e)))"

definition PublishWithRoutingKey :: "publish_config \<Rightarrow> publish_env \<times> publish_env \<times> publish_env \<Rightarrow> mq \<Rightarrow> mq \<times> publish_result" where
  "PublishWithRoutingKey cfg envs q =
     (case envs of (e1, e2, e3) \<Rightarrow> publishAttemptsRK cfg [e1, e2, e3] (plainError '''') q)"

text \<open>A call waits for the connection at most twice.\<close>
lemma GetChannel_settles: "GetChannel answers meanwhile q = (q1, r) \<Longrightarrow> r \<noteq> WaitingForConnection n"
  by (auto simp: GetChannel_def resumeOpen_def tryOpen_def split: prod.splits acquired.splits conn_answer.splits if_splits)

section \<open>The connection\<close>

text \<open>Dialling fails or gives a connection; a pool that is there and open gets it, otherwise a new pool replaces the
  old one and a failed one leaves none.\<close>
definition initConn :: "string + nat \<Rightarrow> int \<Rightarrow> (nat \<Rightarrow> string option) \<Rightarrow> mq \<Rightarrow> mq \<times> string option" where
  "initConn dial maxChannels answers q =
     (case dial of
        Inl e \<Rightarrow> (q, Some e)
      | Inr conn \<Rightarrow>
          if mq_ready q \<and> \<not> pool_IsClosed q then (UpdateConnection (Some conn) q, None)
          else
            (case NewChannelPool (Some conn) maxChannels answers (if mq_ready q then pool_Close q else q) of
               (q1, None) \<Rightarrow> (q1\<lparr>mq_ready := True\<rparr>, None)
             | (q1, Some e) \<Rightarrow> (q1\<lparr>mq_ready := False\<rparr>, Some (''failed to create channel pool: '' @ e))))"

section \<open>What failed publishes do to the pool\<close>

lemma accounted_publishers [simp]: "accounted (q\<lparr>mq_publishers := m\<rparr>) held = accounted q held"
  by (simp add: accounted_def)

lemma accounted_clear [simp]: "accounted (ClearPublisherForChannel ch q) held = accounted q held"
  by (simp add: accounted_def)

lemma ready_kept [simp]:
  "mq_ready (ClearPublisherForChannel ch q) = mq_ready q" "mq_ready (lowerCreated q) = mq_ready q"
  by (simp_all add: ClearPublisherForChannel_def lowerCreated_def)

lemma publishOnceRK_eq [simp]: "publishOnceRK = publishOnce"
  by (intro ext) (simp add: publishOnceRK_def publishOnce_def publishWithConfirmsRK_def publishDirectRK_def)

lemma publishOnce_pool: "publishOnce cfg env ch q = (q1, r) \<Longrightarrow> \<exists>m. q1 = q\<lparr>mq_publishers := m\<rparr>"
proof -
  have "\<exists>m. q = q\<lparr>mq_publishers := m\<rparr>" by (rule exI[of _ "mq_publishers q"]) simp
  then show "publishOnce cfg env ch q = (q1, r) \<Longrightarrow> \<exists>m. q1 = q\<lparr>mq_publishers := m\<rparr>"
    by (auto simp: publishOnce_def publishWithConfirms_def publishDirect_def split: if_splits option.splits sum.splits prod.splits)
qed

text \<open>Under its account an open pool gives a channel exactly while fewer than the maximum are checked out.\<close>
lemma take_outcome:
  assumes "\<not> cp_closed q" and "accounted q held"
  shows "if int (length held) < cp_maxChannels q
         then \<exists>q1 ch. takeChannel Opened q = (q1, Acquired ch) \<and> accounted q1 (ch # held) \<and> \<not> cp_closed q1 \<and>
                mq_ready q1 = mq_ready q \<and> cp_maxChannels q1 = cp_maxChannels q
         else \<exists>q1. takeChannel Opened q = (q1, PoolExhausted)"
  using assms
proof (induction Opened q rule: takeChannel.induct)
  case (1 q)
  let ?q1 = "q\<lparr>cp_acquiredCount := cp_acquiredCount q + 1\<rparr>"
  show ?case
  proof (cases "cp_channels q")
    case Nil
    then show ?thesis using "1.prems"
      by (simp add: takeChannel.simps[of Opened q] Let_def tryOpen_def accounted_def)
  next
    case (Cons ch rest)
    show ?thesis
    proof (cases "channelClosed ch q")
      case True
      let ?r = "ClearPublisherForChannel ch (lowerCreated (?q1\<lparr>cp_channels := rest\<rparr>))"
      have r: "accounted ?r held" "\<not> cp_closed ?r" "mq_ready ?r = mq_ready q" "cp_maxChannels ?r = cp_maxChannels q"
        using "1.prems" Cons by (simp_all add: accounted_def)
      have "takeChannel Opened q = takeChannel Opened ?r"
        using "1.prems"(1) Cons True by (simp add: takeChannel.simps[of Opened q] Let_def)
      then show ?thesis using "1.hyps"[OF "1.prems"(1) refl Cons True r(2,1)] unfolding r(3,4) by simp
    next
      case False
      have "int (length held) < cp_maxChannels q" using "1.prems" Cons by (simp add: accounted_def)
      then show ?thesis using "1.prems" Cons False
        by (simp add: takeChannel.simps[of Opened q] Let_def accounted_def)
    qed
  qed
qed

text \<open>An attempt in which the connection opens channels but sending fails retryably.\<close>
definition sendBroken :: "publish_config \<Rightarrow> publish_env \<Rightarrow> bool" where
  "sendBroken cfg env \<longleftrightarrow>
     pe_answers env 1 = Opened \<and> pe_confirmErr env = None \<and>
     (case pe_sendErr env of
        None \<Rightarrow> False
      | Some e \<Rightarrow> IsRetryableError (Some (if pc_confirms cfg then wrapError ''publish failed: '' e '''' else e)))"

lemma sendBroken_once:
  assumes "sendBroken cfg env"
  shows "\<exists>m e. publishOnce cfg env ch q = (q\<lparr>mq_publishers := m\<rparr>, Some e) \<and> IsRetryableError (Some e)"
proof -
  obtain e where e: "pe_sendErr env = Some e"
    "IsRetryableError (Some (if pc_confirms cfg then wrapError ''publish failed: '' e '''' else e))"
    using assms by (auto simp: sendBroken_def split: option.splits)
  have "\<exists>r. publishOnce cfg env ch q = (r, Some (if pc_confirms cfg then wrapError ''publish failed: '' e '''' else e))"
    using assms e(1)
    by (auto simp: publishOnce_def publishWithConfirms_def publishDirect_def PublishWithConfirm_def publishStart_def
        NewPublisherWithConfirms_def sendBroken_def Let_def split: option.split)
  then show ?thesis using e(2) publishOnce_pool by metis
qed

lemma broken_attempts:
  assumes "mq_ready q" and "\<not> cp_closed q" and "accounted q held" and "list_all (sendBroken cfg) envs"
  shows "if int (length held + length envs) \<le> cp_maxChannels q
         then \<exists>q1 leaked e. publishAttempts cfg envs lastErr q = (q1, PublishFailed e) \<and> accounted q1 (leaked @ held) \<and>
                length leaked = length envs \<and> mq_ready q1 \<and> \<not> cp_closed q1 \<and> cp_maxChannels q1 = cp_maxChannels q
         else \<exists>q1. publishAttempts cfg envs lastErr q = (q1, PublishPanics)"
  using assms
proof (induction envs arbitrary: q held lastErr)
  case Nil
  have "int (length held) \<le> cp_maxChannels q" using Nil.prems by (simp add: accounted_def)
  then show ?case using Nil.prems by simp
next
  case (Cons env envs)
  have rest: "list_all (sendBroken cfg) envs" and broken: "sendBroken cfg env" using Cons.prems(4) by simp_all
  from broken have open1: "pe_answers env 1 = Opened" by (simp add: sendBroken_def)
  show ?case
  proof (cases "int (length held) < cp_maxChannels q")
    case True
    then obtain q1 ch where q1: "takeChannel Opened q = (q1, Acquired ch)" "accounted q1 (ch # held)" "\<not> cp_closed q1"
        "mq_ready q1" "cp_maxChannels q1 = cp_maxChannels q"
      using take_outcome[OF Cons.prems(2,3)] Cons.prems(1) by auto
    obtain m e where once: "publishOnce cfg env ch q1 = (q1\<lparr>mq_publishers := m\<rparr>, Some e)" "IsRetryableError (Some e)"
      using sendBroken_once[OF broken] by blast
    let ?q2 = "ClearPublisherForChannel ch (q1\<lparr>mq_publishers := m\<rparr>)"
    have step: "publishAttempts cfg (env # envs) lastErr q = publishAttempts cfg envs e ?q2"
      using Cons.prems(1) q1(1) open1 once by (simp add: GetChannel_def)
    have "mq_ready ?q2" "\<not> cp_closed ?q2" "accounted ?q2 (ch # held)" "cp_maxChannels ?q2 = cp_maxChannels q"
      using q1 by simp_all
    note ih = Cons.IH[OF this(1-3) rest, of e, unfolded this(4)]
    show ?thesis
    proof (cases "int (length held + length (env # envs)) \<le> cp_maxChannels q")
      case True
      then obtain q3 leaked e3 where "publishAttempts cfg envs e ?q2 = (q3, PublishFailed e3)"
          "accounted q3 (leaked @ ch # held)" "length leaked = length envs" "mq_ready q3" "\<not> cp_closed q3"
          "cp_maxChannels q3 = cp_maxChannels q"
        using ih by auto
      then have "publishAttempts cfg (env # envs) lastErr q = (q3, PublishFailed e3)" "accounted q3 ((leaked @ [ch]) @ held)"
          "length (leaked @ [ch]) = length (env # envs)" "mq_ready q3" "\<not> cp_closed q3" "cp_maxChannels q3 = cp_maxChannels q"
        using step by simp_all
      then show ?thesis using True by metis
    next
      case False
      then show ?thesis using ih step by simp
    qed
  next
    case False
    then obtain q1 where "takeChannel Opened q = (q1, PoolExhausted)"
      using take_outcome[OF Cons.prems(2,3)] by auto
    then show ?thesis using False Cons.prems(1) open1 by (simp add: GetChannel_def)
  qed
qed

section \<open>Exhausting the pool, or not\<close>

fun publishMany :: "publish_config \<Rightarrow> (publish_env \<times> publish_env \<times> publish_env) list \<Rightarrow> mq \<Rightarrow> mq \<times> publish_result list" where
  "publishMany cfg [] q = (q, [])"
| "publishMany cfg (e # es) q =
     (case PublishWithHeaders cfg e q of
        (q1, PublishPanics) \<Rightarrow> (q1, [PublishPanics])
      | (q1, r) \<Rightarrow> (case publishMany cfg es q1 of (q2, rs) \<Rightarrow> (q2, r # rs)))"

fun broken3 :: "publish_config \<Rightarrow> publish_env \<times> publish_env \<times> publish_env \<Rightarrow> bool" where
  "broken3 cfg (e1, e2, e3) = list_all (sendBroken cfg) [e1, e2, e3]"

text \<open>C38: A publish whose three attempts fail retryably costs the pool three channels for good: with \<open>held\<close> channels
  checked out, a series of such publishes panics as soon as three per publish exceed the pool's maximum,
  and until then each one reports a failure.\<close>
theorem failing_publishes_exhaust_pool:
  assumes "mq_ready q" and "\<not> cp_closed q" and "accounted q held" and "list_all (broken3 cfg) es"
  shows "PublishPanics \<in> set (snd (publishMany cfg es q)) \<longleftrightarrow> cp_maxChannels q < int (length held + 3 * length es)"
  using assms
proof (induction es arbitrary: q held)
  case Nil
  then show ?case by (simp add: accounted_def)
next
  case (Cons env es)
  obtain e1 e2 e3 where env: "env = (e1, e2, e3)" by (cases env) auto
  have broken: "list_all (sendBroken cfg) [e1, e2, e3]" and es: "list_all (broken3 cfg) es" using Cons.prems(4) env by simp_all
  note out = broken_attempts[OF Cons.prems(1-3) broken, of "plainError ''''"]
  show ?case
  proof (cases "int (length held + 3) \<le> cp_maxChannels q")
    case True
    then obtain q1 leaked e where q1: "publishAttempts cfg [e1, e2, e3] (plainError '''') q = (q1, PublishFailed e)"
        "accounted q1 (leaked @ held)" "length leaked = 3" "mq_ready q1" "\<not> cp_closed q1" "cp_maxChannels q1 = cp_maxChannels q"
      using out by (auto simp del: publishAttempts.simps)
    have "PublishPanics \<in> set (snd (publishMany cfg (env # es) q)) \<longleftrightarrow> PublishPanics \<in> set (snd (publishMany cfg es q1))"
      using q1(1) env by (simp add: PublishWithHeaders_def del: publishAttempts.simps split: prod.splits)
    then show ?thesis using Cons.IH[OF q1(4,5,2) es] q1(3,6) by (simp del: publishMany.simps add: algebra_simps)
  next
    case False
    then obtain q1 where "publishAttempts cfg [e1, e2, e3] (plainError '''') q = (q1, PublishPanics)"
      using out by (auto simp del: publishAttempts.simps)
    then show ?thesis using False env by (simp add: PublishWithHeaders_def del: publishAttempts.simps)
  qed
qed

definition ex_env :: publish_env where
  "ex_env = \<lparr>pe_answers = (\<lambda>i. Opened), pe_meanwhile = (\<lambda>i q. q), pe_confirmErr = None,
             pe_sendErr = Some (sentinelError AmqpErrClosed), pe_confirms = [], pe_routerExits = False, pe_ctxDone = None,
             pe_duration = ''30s''\<rparr>"

definition ex_config :: publish_config where
  "ex_config = publishConfig '''' ''''"

theorem failing_publishes_exhaust_pool_witness:
  "PublishPanics \<in> set (snd (publishMany ex_config [(ex_env, ex_env, ex_env)] ex_pool))"
proof -
  have "accounted ex_pool []" "mq_ready ex_pool" "\<not> cp_closed ex_pool" "cp_maxChannels ex_pool = 1"
    by (simp_all add: ex_pool_simps ex_mq_def accounted_def)
  moreover have "list_all (broken3 ex_config) [(ex_env, ex_env, ex_env)]"
    by (simp add: ex_env_def ex_config_def publishConfig_def sendBroken_def IsRetryableError_def wrapError_def sentinelError_def)
  ultimately show ?thesis
    using failing_publishes_exhaust_pool[of ex_pool "[]" ex_config "[(ex_env, ex_env, ex_env)]"] by (simp del: publishMany.simps)
qed

lemma take_never_waits:
  "\<forall>t. a \<noteq> ConnectionClosed t \<Longrightarrow> takeChannel a q \<noteq> (q1, WaitingForConnection n)"
proof (induction a q rule: takeChannel.induct)
  case (1 a q)
  show ?case
  proof (cases "cp_channels q")
    case Nil
    then show ?thesis using "1.prems"
      by (auto simp: takeChannel.simps[of a q] Let_def tryOpen_def split: conn_answer.splits)
  next
    case (Cons ch rest)
    then show ?thesis using "1.IH"[OF _ refl Cons] "1.prems" by (simp add: takeChannel.simps[of a q] Let_def)
  qed
qed

text \<open>A publish with a routing key gives its channels back on every path, so the pool's account is kept whatever
  fails, as long as no attempt has to wait for the connection.\<close>
theorem routing_key_publish_keeps_account:
  assumes "accounted q held" and "\<forall>e \<in> {e1, e2, e3}. \<forall>t. pe_answers e 1 \<noteq> ConnectionClosed t"
  shows "accounted (fst (PublishWithRoutingKey cfg (e1, e2, e3) q)) held"
proof -
  have once: "accounted (fst (publishAttemptsRK cfg envs lastErr q)) held"
    if "accounted q held" "list_all (\<lambda>e. \<forall>t. pe_answers e 1 \<noteq> ConnectionClosed t) envs" for envs lastErr q
    using that
  proof (induction envs arbitrary: q lastErr)
    case Nil
    then show ?case by simp
  next
    case (Cons env envs)
    obtain q1 r where get: "GetChannel (pe_answers env) (pe_meanwhile env) q = (q1, r)" by fastforce
    have noWait: "takeChannel (pe_answers env 1) q \<noteq> (q', WaitingForConnection n)" for q' n
      by (rule take_never_waits) (use Cons.prems(2) in simp)
    then have "takeChannel (pe_answers env 1) q = (q1, r)"
      using get by (auto simp: GetChannel_def split: prod.splits acquired.splits)
    then have acc: "accounted q1 (heldAfter r held)" using take_accounted Cons.prems(1) by blast
    have ret: "accounted (ReturnChannel (Some ch) (q1\<lparr>mq_publishers := m\<rparr>)) held" if "r = Acquired ch" for ch m
      using return_accounted[of "q1\<lparr>mq_publishers := m\<rparr>" "ch # held" ch] acc that by simp
    have ih: "accounted q' held \<Longrightarrow> accounted (fst (publishAttemptsRK cfg envs e q')) held" for q' e
      using Cons.IH Cons.prems(2) by simp
    show ?case
    proof (cases r)
      case (Acquired ch)
      obtain q2 o2 where p: "publishOnce cfg env ch q1 = (q2, o2)" by fastforce
      then obtain m where m: "q2 = q1\<lparr>mq_publishers := m\<rparr>" using publishOnce_pool by blast
      have "accounted (ReturnChannel (Some ch) q2) held" using ret[OF Acquired, of m] m by simp
      then show ?thesis using get p Acquired ih Cons.prems(1)
        by (simp add: Let_def split: option.split)
    next
      case (WaitingForConnection n)
      then show ?thesis using GetChannel_settles[OF get] by simp
    qed (use get acc ih Cons.prems(1) in simp_all)
  qed
  show ?thesis using once assms by (simp add: PublishWithRoutingKey_def del: publishAttemptsRK.simps)
qed

theorem routing_key_publish_keeps_account_witness:
  "accounted (fst (PublishWithRoutingKey ex_config (ex_env, ex_env, ex_env) ex_pool)) []"
  by (rule routing_key_publish_keeps_account) (simp_all add: ex_env_def ex_pool_simps ex_mq_def accounted_def)

text \<open>A message the client library refuses to send, and a broker that confirms its first message.\<close>
definition ex_refused :: publish_env where
  "ex_refused = ex_env\<lparr>pe_sendErr := Some (plainError ''bad header'')\<rparr>"

definition ex_confirmed :: publish_env where
  "ex_confirmed = ex_env\<lparr>pe_sendErr := None, pe_confirms := [Confirmation 1 True]\<rparr>"

definition ex_pool2 :: mq where
  "ex_pool2 = fst (NewChannelPool (Some 0) 2 (\<lambda>i. None) ex_mq)"

lemma refused_not_retryable: "\<not> IsRetryableError (Some (wrapError ''publish failed: '' (plainError ''bad header'') ''''))"
  by code_simp

lemma timeout_retryable: "ErrPublishTimeout \<in> set (me_is e) \<Longrightarrow> IsRetryableError (Some e)"
  by (simp add: IsRetryableError_def)

lemma me_is_wrapError [simp]: "me_is (wrapError before e after) = me_is e"
  by (simp add: wrapError_def)

lemma me_is_sentinelError [simp]: "me_is (sentinelError s) = [s]"
  by (simp add: sentinelError_def)

text \<open>A message that cannot be sent is reported and its channel goes back to the pool with its confirm numbering off
  by one: the next message on it reaches the broker, which confirms it, but the publish times out, so the
  message is published a second time on a new channel and the old channel is lost to the pool.\<close>
theorem refused_message_poisons_channel:
  "(let (q1, r1) = PublishWithHeaders ex_config (ex_refused, ex_refused, ex_refused) ex_pool2;
        once = publishOnce ex_config ex_confirmed 0 (q1\<lparr>cp_channels := []\<rparr>);
        (q2, r2) = PublishWithHeaders ex_config (ex_confirmed, ex_confirmed, ex_confirmed) q1
    in r1 = PublishFailed (wrapError ''publish failed: '' (plainError ''bad header'') '''') \<and> cp_channels q1 = [0] \<and>
       (\<exists>e. snd once = Some e \<and> ErrPublishTimeout \<in> set (me_is e)) \<and>
       r2 = Published \<and> cp_channels q2 = [1] \<and> cp_created q2 = 2)"
  by (simp add: PublishWithHeaders_def GetChannel_def publishOnce_def publishWithConfirms_def PublishWithConfirm_def
      publishStart_def publishEnd_def routeConfirmation_def NewPublisherWithConfirms_def ex_config_def publishConfig_def
      ex_refused_def ex_confirmed_def ex_env_def ex_pool2_def NewChannelPool_def pool_run refused_not_retryable
      timeout_retryable)

end
