(* ===== verification/Queue_Consumer.thy ===== *)
theory Queue_Consumer
  imports Channel_Publishing
begin

text \<open>
  The consumer of a queue (\<open>ConsumeQueueWithOptionsAsync\<close>, \<open>pkg/mq/common/helpers.go\<close>): the loop that reads
  deliveries on one channel and the loop around it that gets a channel, starts a reader and waits for it.
\<close>

section \<open>The reading loop\<close>

datatype reader_event =
    ConsumerDone | ChannelCloses | CancelledByServer | ReconnectSignal | DeliveriesClosed
  | Delivered headers callback_result bool bool int

text \<open>What the reader does on a sequence of events, and whether it has left its loop.\<close>
fun readLoop :: "string \<Rightarrow> ConsumeOptions \<Rightarrow> reader_event list \<Rightarrow> delivery_action list \<times> bool" where
  "readLoop queueName options [] = ([], False)"
| "readLoop queueName options (Delivered h r settleWorks publishWorks now # es) =
     (case readLoop queueName options es of
        (actions, left) \<Rightarrow> (handleDelivery queueName options h r settleWorks publishWorks now @ actions, left))"
| "readLoop queueName options (e # es) = ([], True)"

fun isDelivery :: "reader_event \<Rightarrow> bool" where
  "isDelivery (Delivered h r s p now) = True"
| "isDelivery e = False"

lemma handleDelivery_settles: "length (filter settles (handleDelivery q options h r s p now)) = 1"
  by (simp add: handleDelivery_def split: callback_result.split)

text \<open>A reader leaves its loop at the first signal that is not a delivery, and until then settles every delivery
  exactly once, in order.\<close>
theorem reader_settles_deliveries:
  "snd (readLoop q options es) = (\<not> list_all isDelivery es) \<and>
   length (filter settles (fst (readLoop q options es))) = length (takeWhile isDelivery es)"
proof (induction es)
  case Nil
  then show ?case by simp
next
  case (Cons e es)
  then show ?case by (cases e) (auto simp: handleDelivery_settles case_prod_beta)
qed

section \<open>The loop around it\<close>

datatype loop_signal = NoSignal | LoopDone | LoopReconnect

text \<open>One turn as the world decides it: the signal the select finds, the pool's answers, the errors of \<open>Qos\<close> and
  \<open>Consume\<close>, whether the failing \<open>Consume\<close> closed the channel, how long the code then waits for a reconnection,
  and the reader's end: after how long, or not within the wait.\<close>
record turn_env =
  te_signal :: loop_signal
  te_answers :: "nat \<Rightarrow> conn_answer"
  te_meanwhile :: "nat \<Rightarrow> mq \<Rightarrow> mq"
  te_qosFails :: bool
  te_consumeFails :: bool
  te_channelClosed :: bool
  te_reconnectWait :: int
  te_readerLeaves :: "int option"

text \<open>The channels of the readers still running, the time spent in nanoseconds, whether the loop has ended, whether
  the process panicked.\<close>
record consumer =
  cs_readers :: "nat list"
  cs_clock :: int
  cs_left :: bool
  cs_panicked :: bool

definition seconds :: "int \<Rightarrow> int" where
  "seconds n = n * 1000000000"

definition sleep :: "int \<Rightarrow> consumer \<Rightarrow> consumer" where
  "sleep ns c = c\<lparr>cs_clock := cs_clock c + ns\<rparr>"

text \<open>\<open>callbackTimeout + 10*time.Second\<close>\<close>
definition goroutineExitTimeout :: "ConsumeOptions \<Rightarrow> int" where
  "goroutineExitTimeout options = callbackTimeout options + seconds 10"

definition consumerTurn :: "ConsumeOptions \<Rightarrow> turn_env \<Rightarrow> consumer \<times> mq \<Rightarrow> consumer \<times> mq" where
  "consumerTurn options env s =
     (case s of (c, q) \<Rightarrow>
        (case te_signal env of
           LoopDone \<Rightarrow> (c\<lparr>cs_left := True\<rparr>, q)
         | LoopReconnect \<Rightarrow> (c, q)
         | NoSignal \<Rightarrow>
             if \<not> mq_ready q then (sleep (seconds 5) c, q)
             else
               (case GetChannel (te_answers env) (te_meanwhile env) q of
                  (q1, PoolExhausted) \<Rightarrow> (c\<lparr>cs_panicked := True\<rparr>, q1)
                | (q1, WaitingForConnection n) \<Rightarrow> (c, q1)
                | (q1, AcquireFailed e) \<Rightarrow> (sleep (seconds 5) c, q1)
                | (q1, Acquired ch) \<Rightarrow>
                    if te_qosFails env then (sleep (seconds 5) c, ReturnChannel (Some ch) q1)
                    else if te_consumeFails env then
                      (if te_channelClosed env
                       then (sleep (min (te_reconnectWait env) (seconds 10)) c, ReturnChannel (Some ch) (closeChannel ch q1))
                       else (sleep (seconds 5) c, ReturnChannel (Some ch) q1))
                    else
                      (case te_readerLeaves env of
                         Some ns \<Rightarrow> (sleep (seconds 2) (sleep ns c), ReturnChannel (Some ch) q1)
                       | None \<Rightarrow>
                           (sleep (seconds 2) (sleep (goroutineExitTimeout options) (c\<lparr>cs_readers := ch # cs_readers c\<rparr>)),
                            ReturnChannel (Some ch) q1)))))"

fun consumerRun :: "ConsumeOptions \<Rightarrow> turn_env list \<Rightarrow> consumer \<times> mq \<Rightarrow> consumer \<times> mq" where
  "consumerRun options [] s = s"
| "consumerRun options (env # envs) s =
     (if cs_left (fst s) \<or> cs_panicked (fst s) then s else consumerRun options envs (consumerTurn options env s))"

definition newConsumer :: consumer where
  "newConsumer = \<lparr>cs_readers = [], cs_clock = 0, cs_left = False, cs_panicked = False\<rparr>"

section \<open>Readers pile up\<close>

text \<open>A turn in which everything works: the reader keeps reading.\<close>
definition undisturbed :: "turn_env \<Rightarrow> bool" where
  "undisturbed env \<longleftrightarrow> te_signal env = NoSignal \<and> te_answers env 1 = Opened \<and> \<not> te_qosFails env \<and>
     \<not> te_consumeFails env \<and> te_readerLeaves env = None"

text \<open>Closed channels are among the opened ones.\<close>
definition closed_known :: "mq \<Rightarrow> bool" where
  "closed_known q \<longleftrightarrow> list_all (\<lambda>ch. ch < mq_opened q) (mq_closed q)"

lemma keep_closed_list [simp]:
  "mq_closed (ClearPublisherForChannel ch q) = mq_closed q" "mq_closed (lowerCreated q) = mq_closed q"
  by (simp_all add: ClearPublisherForChannel_def lowerCreated_def)

lemma take_open_channel:
  "takeChannel Opened q = (q1, Acquired ch) \<Longrightarrow> closed_known q \<Longrightarrow>
   mq_closed q1 = mq_closed q \<and> closed_known q1 \<and> ch \<notin> set (mq_closed q) \<and>
   (\<forall>x \<in> set (cp_channels q). x \<in> set (mq_closed q) \<or> x = ch \<or> x \<in> set (cp_channels q1))"
proof (induction Opened q rule: takeChannel.induct)
  case (1 q)
  let ?q1 = "q\<lparr>cp_acquiredCount := cp_acquiredCount q + 1\<rparr>"
  have op: "\<not> cp_closed q" using "1.prems"(1) by (auto simp: takeChannel.simps[of Opened q])
  show ?case
  proof (cases "cp_channels q")
    case Nil
    then show ?thesis using "1.prems" op
      by (auto simp: takeChannel.simps[of Opened q] Let_def tryOpen_def closed_known_def list_all_iff less_Suc_eq split: if_splits)
  next
    case (Cons x rest)
    show ?thesis
    proof (cases "channelClosed x q")
      case True
      let ?r = "ClearPublisherForChannel x (lowerCreated (?q1\<lparr>cp_channels := rest\<rparr>))"
      have "takeChannel Opened ?r = (q1, Acquired ch)"
        using "1.prems"(1) op Cons True by (simp add: takeChannel.simps[of Opened q] Let_def)
      moreover have "closed_known ?r" using "1.prems"(2) by (simp add: closed_known_def)
      ultimately show ?thesis using "1.hyps"[OF op refl Cons True] Cons True by (auto simp: channelClosed_def)
    next
      case False
      then show ?thesis using "1.prems" op Cons
        by (auto simp: takeChannel.simps[of Opened q] Let_def channelClosed_def closed_known_def)
    qed
  qed
qed

text \<open>The readers' channels are free in the pool, the account does not know of them.\<close>
definition piled :: "nat list \<Rightarrow> consumer \<times> mq \<Rightarrow> bool" where
  "piled held s \<longleftrightarrow>
     mq_ready (snd s) \<and> \<not> cp_closed (snd s) \<and> accounted (snd s) held \<and> closed_known (snd s) \<and>
     \<not> cs_left (fst s) \<and> \<not> cs_panicked (fst s) \<and>
     set (cs_readers (fst s)) \<subseteq> set (cp_channels (snd s)) \<and> set (cs_readers (fst s)) \<inter> set (mq_closed (snd s)) = {}"

lemma undisturbed_turn:
  assumes "piled held s" and "undisturbed env" and "int (length held) < cp_maxChannels (snd s)"
  shows "piled held (consumerTurn options env s) \<and>
         cp_maxChannels (snd (consumerTurn options env s)) = cp_maxChannels (snd s) \<and>
         length (cs_readers (fst (consumerTurn options env s))) = Suc (length (cs_readers (fst s))) \<and>
         cs_clock (fst (consumerTurn options env s)) = cs_clock (fst s) + callbackTimeout options + seconds 12"
proof -
  obtain c q where s: "s = (c, q)" by (cases s)
  obtain q1 ch where t: "takeChannel Opened q = (q1, Acquired ch)" "accounted q1 (ch # held)" "\<not> cp_closed q1" "mq_ready q1"
      "cp_maxChannels q1 = cp_maxChannels q"
    using take_outcome[of q held] assms(1,3) s by (auto simp: piled_def)
  have o: "mq_closed q1 = mq_closed q" "closed_known q1" "ch \<notin> set (mq_closed q)"
      "\<forall>x \<in> set (cp_channels q). x \<in> set (mq_closed q) \<or> x = ch \<or> x \<in> set (cp_channels q1)"
    using take_open_channel[OF t(1)] assms(1) s by (simp_all add: piled_def)
  let ?q2 = "ReturnChannel (Some ch) q1"
  let ?c2 = "sleep (seconds 2) (sleep (goroutineExitTimeout options) (c\<lparr>cs_readers := ch # cs_readers c\<rparr>))"
  have turn: "consumerTurn options env s = (?c2, ?q2)"
    using assms(1,2) t(1) s by (simp add: consumerTurn_def GetChannel_def undisturbed_def piled_def)
  have room: "int (length (cp_channels q1)) < cp_maxChannels q1" using t(2,3) by (simp add: accounted_def)
  then have q2: "cp_channels ?q2 = cp_channels q1 @ [ch]" "mq_closed ?q2 = mq_closed q" "mq_ready ?q2" "\<not> cp_closed ?q2"
      "cp_maxChannels ?q2 = cp_maxChannels q" "mq_opened ?q2 = mq_opened q1"
    using t o by (simp_all add: ReturnChannel_def Let_def channelClosed_def)
  have "accounted ?q2 held" using return_accounted[OF t(2), of ch] by simp
  moreover have "closed_known ?q2" using o(1,2) q2(2,6) by (simp add: closed_known_def)
  moreover have "set (cs_readers ?c2) \<subseteq> set (cp_channels ?q2)" "set (cs_readers ?c2) \<inter> set (mq_closed ?q2) = {}"
    using assms(1) o(3,4) q2(1,2) s by (auto simp: piled_def sleep_def)
  moreover have "\<not> cs_left ?c2" "\<not> cs_panicked ?c2" using assms(1) s by (simp_all add: piled_def sleep_def)
  ultimately have "piled held (?c2, ?q2)" using q2 by (simp add: piled_def)
  then show ?thesis using turn q2(5) s by (simp add: sleep_def goroutineExitTimeout_def seconds_def)
qed

text \<open>C40: A consumer nothing disturbs starts another reader every \<open>callbackTimeout + 12\<close> seconds while the earlier ones
  keep reading: after \<open>n\<close> turns \<open>n\<close> readers run, and the channel of each is back in the pool for others to check
  out.\<close>
theorem readers_pile_up:
  assumes "mq_ready q" and "\<not> cp_closed q" and "accounted q held" and "closed_known q"
    and "int (length held) < cp_maxChannels q" and "list_all undisturbed envs"
  shows "(case consumerRun options envs (newConsumer, q) of
            (c, q1) \<Rightarrow> length (cs_readers c) = length envs \<and> set (cs_readers c) \<subseteq> set (cp_channels q1) \<and>
                       accounted q1 held \<and> cs_clock c = int (length envs) * (callbackTimeout options + seconds 12))"
proof -
  have run: "piled held s \<Longrightarrow> int (length held) < cp_maxChannels (snd s) \<Longrightarrow> list_all undisturbed envs \<Longrightarrow>
      piled held (consumerRun options envs s) \<and>
      length (cs_readers (fst (consumerRun options envs s))) = length (cs_readers (fst s)) + length envs \<and>
      cs_clock (fst (consumerRun options envs s)) =
        cs_clock (fst s) + int (length envs) * (callbackTimeout options + seconds 12)" for s
  proof (induction envs arbitrary: s)
    case Nil
    then show ?case by simp
  next
    case (Cons env envs)
    have "\<not> cs_left (fst s) \<and> \<not> cs_panicked (fst s)" using Cons.prems(1) by (simp add: piled_def)
    then show ?case
      using undisturbed_turn[OF Cons.prems(1) _ Cons.prems(2), of env options] Cons.prems(3)
        Cons.IH[of "consumerTurn options env s"] Cons.prems(2)
      by (simp add: algebra_simps)
  qed
  have "piled held (newConsumer, q)" using assms by (simp add: piled_def newConsumer_def)
  from run[OF this] assms(5,6) show ?thesis by (auto simp: piled_def newConsumer_def split: prod.split)
qed

definition ex_turn :: turn_env where
  "ex_turn = \<lparr>te_signal = NoSignal, te_answers = (\<lambda>i. Opened), te_meanwhile = (\<lambda>i q. q), te_qosFails = False,
              te_consumeFails = False, te_channelClosed = False, te_reconnectWait = 0, te_readerLeaves = None\<rparr>"

text \<open>Within ten minutes a consumer with the default options runs three readers on the pool's one channel.\<close>
theorem readers_pile_up_witness:
  "(case consumerRun defaultConsumeOptions [ex_turn, ex_turn, ex_turn] (newConsumer, ex_pool) of
      (c, q1) \<Rightarrow> length (cs_readers c) = 3 \<and> set (cs_readers c) \<subseteq> set (cp_channels q1) \<and> cs_clock c = 3 * seconds 192)"
proof -
  have "callbackTimeout defaultConsumeOptions + seconds 12 = seconds 192"
    by (simp add: callbackTimeout_def defaultConsumeOptions_def seconds_def)
  moreover have "list_all undisturbed [ex_turn, ex_turn, ex_turn]" by (simp add: undisturbed_def ex_turn_def)
  ultimately show ?thesis
    using readers_pile_up[of ex_pool "[]" "[ex_turn, ex_turn, ex_turn]" defaultConsumeOptions]
    by (auto simp: ex_pool_simps ex_mq_def accounted_def closed_known_def simp del: consumerRun.simps)
qed

end
