(* ===== verification/Exclusive_Consumer.thy ===== *)
theory Exclusive_Consumer
  imports Queue_Consumer
begin

text \<open>
  Declaring exchanges and queues over the channel pool, and the consumer of an exclusive queue
  (\<open>pkg/mq/common/helpers.go\<close>): it takes a channel out of the pool for good, and declares its queue again on
  another one after every disturbance.
\<close>

section \<open>Declarations\<close>

definition GetExchangeNameByKey :: "string \<Rightarrow> string" where
  "GetExchangeNameByKey key = ''x_'' @ key"

definition GetQueueNameByKey :: "string \<Rightarrow> string" where
  "GetQueueNameByKey key = ''q_'' @ key"

text \<open>The calls on a channel: an exchange with its type, a queue with its flags durable, auto-delete and exclusive,
  a binding of a queue under a key to an exchange.  Exchanges are always durable.\<close>
datatype amqp_call =
    ExchangeDeclare string string
  | QueueDeclare string bool bool bool
  | QueueBind string string string

text \<open>What the pool and the broker answer: the error of each call, and whether it closed the channel.\<close>
record declare_env =
  de_answers :: "nat \<Rightarrow> conn_answer"
  de_meanwhile :: "nat \<Rightarrow> mq \<Rightarrow> mq"
  de_error :: "amqp_call \<Rightarrow> string option"
  de_closes :: "amqp_call \<Rightarrow> bool"

text \<open>The calls in order up to the first that fails; those that worked, and the failure.\<close>
fun callAll :: "declare_env \<Rightarrow> nat \<Rightarrow> amqp_call list \<Rightarrow> mq \<Rightarrow> mq \<times> amqp_call list \<times> (amqp_call \<times> string) option" where
  "callAll env ch [] q = (q, [], None)"
| "callAll env ch (c # cs) q =
     (case de_error env c of
        Some e \<Rightarrow> (if de_closes env c then closeChannel ch q else q, [], Some (c, e))
      | None \<Rightarrow> (case callAll env ch cs q of (q1, worked, r) \<Rightarrow> (q1, c # worked, r)))"

datatype declare_outcome = Declared | DeclareFailed string | DeclarePanics

text \<open>A channel from the pool, the calls on it, and the channel back whatever happens.\<close>
definition declareOnPool ::
    "declare_env \<Rightarrow> amqp_call list \<Rightarrow> (amqp_call \<Rightarrow> string \<Rightarrow> string) \<Rightarrow> mq \<Rightarrow> mq \<times> amqp_call list \<times> declare_outcome" where
  "declareOnPool env calls describe q =
     (if \<not> mq_ready q then (q, [], DeclareFailed ''rabbitmq channel pool not initialized'')
      else case GetChannel (de_answers env) (de_meanwhile env) q of
        (q1, AcquireFailed e) \<Rightarrow> (q1, [], DeclareFailed (''failed to get channel from pool: '' @ e))
      | (q1, Acquired ch) \<Rightarrow>
          (case callAll env ch calls q1 of
             (q2, worked, None) \<Rightarrow> (ReturnChannel (Some ch) q2, worked, Declared)
           | (q2, worked, Some (c, e)) \<Rightarrow> (ReturnChannel (Some ch) q2, worked, DeclareFailed (describe c e)))
      | (q1, _) \<Rightarrow> (q1, [], DeclarePanics))"

definition InitExchangeToMultipleQueues ::
    "declare_env \<Rightarrow> string \<Rightarrow> string list \<Rightarrow> mq \<Rightarrow> mq \<times> amqp_call list \<times> declare_outcome" where
  "InitExchangeToMultipleQueues env exchangeName queueNames =
     declareOnPool env (ExchangeDeclare exchangeName ''fanout'' #
         concat (map (\<lambda>n. [QueueDeclare n True False False, QueueBind n '''' exchangeName]) queueNames))
       (\<lambda>c e. e)"

definition InitExchangeToMultipleQueuesByKey ::
    "declare_env \<Rightarrow> string \<Rightarrow> string list \<Rightarrow> mq \<Rightarrow> mq \<times> amqp_call list \<times> declare_outcome" where
  "InitExchangeToMultipleQueuesByKey env key extraQueueOnlyKeys =
     InitExchangeToMultipleQueues env (GetExchangeNameByKey key) (map GetQueueNameByKey (key # extraQueueOnlyKeys))"

definition InitTopicExchange :: "declare_env \<Rightarrow> string \<Rightarrow> mq \<Rightarrow> mq \<times> amqp_call list \<times> declare_outcome" where
  "InitTopicExchange env exchangeName = declareOnPool env [ExchangeDeclare exchangeName ''topic''] (\<lambda>c e. e)"

definition singleQuoted :: "string \<Rightarrow> string" where
  "singleQuoted s = CHR 0x27 # s @ [CHR 0x27]"

text \<open>The error that names the call that failed.\<close>
fun describeCall :: "string \<Rightarrow> amqp_call \<Rightarrow> string \<Rightarrow> string" where
  "describeCall kind (ExchangeDeclare x t) e = ''failed to declare topic exchange '' @ singleQuoted x @ '': '' @ e"
| "describeCall kind (QueueDeclare n d a ex) e = ''failed to declare '' @ kind @ ''queue '' @ singleQuoted n @ '': '' @ e"
| "describeCall kind (QueueBind n key x) e =
     ''failed to bind queue '' @ singleQuoted n @ '' to exchange '' @ singleQuoted x @ '' with key '' @ singleQuoted key @ '': '' @ e"

definition InitQueueWithTopicBinding ::
    "declare_env \<Rightarrow> string \<Rightarrow> string \<Rightarrow> string \<Rightarrow> mq \<Rightarrow> mq \<times> amqp_call list \<times> declare_outcome" where
  "InitQueueWithTopicBinding env exchangeName queueName routingKeyPattern =
     declareOnPool env [QueueDeclare queueName True False False, QueueBind queueName routingKeyPattern exchangeName]
       (describeCall '''')"

section \<open>The exclusive queue\<close>

text \<open>On success the caller owns the channel, which stays out of the pool.\<close>
definition DeclareExclusiveQueueWithTopicBindings ::
    "declare_env \<Rightarrow> string \<Rightarrow> string \<Rightarrow> string list \<Rightarrow> mq \<Rightarrow> mq \<times> nat option \<times> declare_outcome" where
  "DeclareExclusiveQueueWithTopicBindings env exchangeName queueName routingKeyPatterns q =
     (if \<not> mq_ready q then (q, None, DeclareFailed ''rabbitmq channel pool not initialized'')
      else case GetChannel (de_answers env) (de_meanwhile env) q of
        (q1, AcquireFailed e) \<Rightarrow> (q1, None, DeclareFailed (''failed to get channel from pool: '' @ e))
      | (q1, Acquired ch) \<Rightarrow>
          (case callAll env ch (ExchangeDeclare exchangeName ''topic'' # QueueDeclare queueName False True True #
                  map (\<lambda>rk. QueueBind queueName rk exchangeName) routingKeyPatterns) q1 of
             (q2, worked, None) \<Rightarrow> (q2, Some ch, Declared)
           | (q2, worked, Some (c, e)) \<Rightarrow> (ReturnChannel (Some ch) q2, None, DeclareFailed (describeCall ''exclusive '' c e)))
      | (q1, _) \<Rightarrow> (q1, None, DeclarePanics))"

text \<open>Where the consumer's goroutine is: in its select, at the label \<open>reconnect\<close>, or with a new channel whose queue is
  declared and which is not yet the current one.\<close>
datatype exclusive_phase = ReadingQueue | Reconnecting | Attaching nat | ConsumerExited | ProcessPanicked

record exclusive_consumer =
  ec_mq :: mq
  ec_phase :: exclusive_phase
  ec_current :: "nat option"
  ec_cancelled :: bool
  ec_delivered :: "string list"

datatype exclusive_event =
    Disturbed
  | Arrived string bool
  | SeesCancel
  | Retries declare_env
  | Attaches bool bool
  | CallerCancels
  | ChannelDies nat

text \<open>\<open>Disturbed\<close> is any of the four signals that lead to \<open>reconnect\<close>; \<open>Arrived\<close> a delivery with the branch its inner
  select takes; \<open>Retries\<close> runs from the label to the end of the declaration; \<open>Attaches\<close> from there on, with the
  failures of \<open>Qos\<close> and \<open>Consume\<close>; \<open>CallerCancels\<close> is the function handed to the caller.  An event that
  does not fit the phase does nothing.\<close>
fun exclusiveStep :: "string \<Rightarrow> string \<Rightarrow> string list \<Rightarrow> exclusive_event \<Rightarrow> exclusive_consumer \<Rightarrow> exclusive_consumer" where
  "exclusiveStep x n keys Disturbed c = (if ec_phase c = ReadingQueue then c\<lparr>ec_phase := Reconnecting\<rparr> else c)"
| "exclusiveStep x n keys (Arrived body toCaller) c =
     (if ec_phase c \<noteq> ReadingQueue then c
      else if toCaller then c\<lparr>ec_delivered := ec_delivered c @ [body]\<rparr>
      else if ec_cancelled c then c\<lparr>ec_phase := ConsumerExited\<rparr> else c)"
| "exclusiveStep x n keys SeesCancel c =
     (if ec_phase c = ReadingQueue \<and> ec_cancelled c then c\<lparr>ec_phase := ConsumerExited\<rparr> else c)"
| "exclusiveStep x n keys (Retries env) c =
     (if ec_phase c \<noteq> Reconnecting then c
      else if ec_cancelled c then c\<lparr>ec_phase := ConsumerExited\<rparr>
      else (case DeclareExclusiveQueueWithTopicBindings env x n keys (ec_mq c) of
              (q1, Some ch, _) \<Rightarrow> c\<lparr>ec_mq := q1, ec_phase := Attaching ch\<rparr>
            | (q1, None, DeclarePanics) \<Rightarrow> c\<lparr>ec_mq := q1, ec_phase := ProcessPanicked\<rparr>
            | (q1, None, _) \<Rightarrow> c\<lparr>ec_mq := q1\<rparr>))"
| "exclusiveStep x n keys (Attaches qosFails consumeFails) c =
     (case ec_phase c of
        Attaching ch \<Rightarrow>
          if qosFails \<or> consumeFails then c\<lparr>ec_mq := closeChannel ch (ec_mq c), ec_phase := Reconnecting\<rparr>
          else c\<lparr>ec_current := Some ch, ec_phase := ReadingQueue\<rparr>
      | _ \<Rightarrow> c)"
| "exclusiveStep x n keys CallerCancels c =
     (if ec_cancelled c then c
      else c\<lparr>ec_cancelled := True, ec_current := None,
             ec_mq := (case ec_current c of Some ch \<Rightarrow> closeChannel ch (ec_mq c) | None \<Rightarrow> ec_mq c)\<rparr>)"
| "exclusiveStep x n keys (ChannelDies ch) c = c\<lparr>ec_mq := closeChannel ch (ec_mq c)\<rparr>"

definition exclusiveRun ::
    "string \<Rightarrow> string \<Rightarrow> string list \<Rightarrow> exclusive_event list \<Rightarrow> exclusive_consumer \<Rightarrow> exclusive_consumer" where
  "exclusiveRun x n keys = fold (exclusiveStep x n keys)"

text \<open>The start: the consumer, or the error with the pool it leaves.\<close>
definition ConsumeExclusiveQueueAsync ::
    "declare_env \<Rightarrow> bool \<Rightarrow> bool \<Rightarrow> string \<Rightarrow> string \<Rightarrow> string list \<Rightarrow> mq \<Rightarrow> (mq \<times> declare_outcome) + exclusive_consumer" where
  "ConsumeExclusiveQueueAsync env qosFails consumeFails exchangeName queueName routingKeyPatterns q =
     (case DeclareExclusiveQueueWithTopicBindings env exchangeName queueName routingKeyPatterns q of
        (q1, None, DeclareFailed e) \<Rightarrow> Inl (q1, DeclareFailed (''failed to declare exclusive queue: '' @ e))
      | (q1, None, r) \<Rightarrow> Inl (q1, r)
      | (q1, Some ch, _) \<Rightarrow>
          if qosFails then Inl (closeChannel ch q1, DeclareFailed (''failed to set QoS on exclusive queue '' @ singleQuoted queueName))
          else if consumeFails
          then Inl (closeChannel ch q1, DeclareFailed (''failed to start consuming exclusive queue '' @ singleQuoted queueName))
          else Inr \<lparr>ec_mq = q1, ec_phase = ReadingQueue, ec_current = Some ch, ec_cancelled = False, ec_delivered = []\<rparr>)"

section \<open>Borrowed channels come back\<close>

lemma callAll_pool: "callAll env ch cs q = (q1, r) \<Longrightarrow> q1 = q \<or> q1 = closeChannel ch q"
  by (induction cs arbitrary: q q1 r) (auto split: option.splits prod.splits if_splits)

lemma closeChannel_keeps [simp]:
  "accounted (closeChannel ch q) held = accounted q held" "mq_ready (closeChannel ch q) = mq_ready q"
  "cp_closed (closeChannel ch q) = cp_closed q" "cp_maxChannels (closeChannel ch q) = cp_maxChannels q"
  "cp_channels (closeChannel ch q) = cp_channels q"
  by (simp_all add: closeChannel_def accounted_def)

lemma callAll_keeps:
  assumes "callAll env ch cs q = (q1, r)"
  shows "accounted q1 held = accounted q held" "mq_ready q1 = mq_ready q" "cp_closed q1 = cp_closed q"
    "cp_maxChannels q1 = cp_maxChannels q"
  using callAll_pool[OF assms] by auto

text \<open>The broker accepts every call and opens a channel when asked.\<close>
definition declares :: "declare_env \<Rightarrow> bool" where
  "declares env = (de_answers env 1 = Opened \<and> (\<forall>c. de_error env c = None))"

lemma callAll_works: "(\<And>c. c \<in> set cs \<Longrightarrow> de_error env c = None) \<Longrightarrow> callAll env ch cs q = (q, cs, None)"
  by (induction cs) auto

lemma callAll_worked: "callAll env ch cs q = (q1, worked, r) \<Longrightarrow> prefix worked cs \<and> (r = None \<longrightarrow> worked = cs)"
  by (induction cs arbitrary: q q1 worked r) (auto split: option.splits prod.splits)

lemma take_open:
  assumes "mq_ready q" "\<not> cp_closed q" "accounted q held" "de_answers env 1 = Opened"
  shows "if int (length held) < cp_maxChannels q
         then \<exists>q1 ch. GetChannel (de_answers env) (de_meanwhile env) q = (q1, Acquired ch) \<and> accounted q1 (ch # held)
                \<and> \<not> cp_closed q1 \<and> mq_ready q1 \<and> cp_maxChannels q1 = cp_maxChannels q
         else \<exists>q1. GetChannel (de_answers env) (de_meanwhile env) q = (q1, PoolExhausted)"
  using take_outcome[OF assms(2,3)] assms(1,4) by (auto simp: GetChannel_def split: if_splits)

text \<open>Declarations over the pool leave its account as it was, whatever call fails, and perform a prefix of their
  calls, all of them when they succeed.\<close>
theorem declarations_give_channel_back:
  assumes "mq_ready q" "\<not> cp_closed q" "accounted q held" "de_answers env 1 = Opened"
    and "declareOnPool env calls describe q = (q1, worked, r)"
  shows "(r \<noteq> DeclarePanics \<longrightarrow> accounted q1 held) \<and> (r = DeclarePanics \<longleftrightarrow> \<not> int (length held) < cp_maxChannels q)
    \<and> prefix worked calls \<and> (r = Declared \<longrightarrow> worked = calls)"
proof (cases "int (length held) < cp_maxChannels q")
  case True
  then obtain q0 ch where t: "GetChannel (de_answers env) (de_meanwhile env) q = (q0, Acquired ch)" "accounted q0 (ch # held)"
    using take_open[OF assms(1-4)] by auto
  obtain q2 w x where c: "callAll env ch calls q0 = (q2, w, x)" by (metis surj_pair)
  have "accounted (ReturnChannel (Some ch) q2) held"
    using return_accounted[of q2 "ch # held" ch] callAll_keeps(1)[OF c] t(2) by simp
  then show ?thesis
    using assms(1,5) t(1) c True callAll_worked[OF c] by (auto simp: declareOnPool_def split: option.splits)
next
  case False
  then obtain q0 where "GetChannel (de_answers env) (de_meanwhile env) q = (q0, PoolExhausted)"
    using take_open[OF assms(1-4)] by auto
  then show ?thesis using assms(1,5) False by (auto simp: declareOnPool_def)
qed

section \<open>Lost channels\<close>

lemma exclusive_declaration:
  assumes "mq_ready q" "\<not> cp_closed q" "accounted q held" "declares env"
  shows "if int (length held) < cp_maxChannels q
         then \<exists>q1 ch. DeclareExclusiveQueueWithTopicBindings env x n keys q = (q1, Some ch, Declared) \<and> accounted q1 (ch # held)
                \<and> \<not> cp_closed q1 \<and> mq_ready q1 \<and> cp_maxChannels q1 = cp_maxChannels q
         else \<exists>q1. DeclareExclusiveQueueWithTopicBindings env x n keys q = (q1, None, DeclarePanics)"
proof -
  have "callAll env ch cs q1 = (q1, cs, None)" for ch cs q1
    using assms(4) by (intro callAll_works) (simp add: declares_def)
  then show ?thesis
    using take_open[OF assms(1-3), of env] assms(1,4)
    by (auto simp: DeclareExclusiveQueueWithTopicBindings_def declares_def split: if_splits)
qed

text \<open>A reconnection: a disturbance, a declaration, and what \<open>Qos\<close> and \<open>Consume\<close> answer.\<close>
definition reconnection :: "declare_env \<times> bool \<times> bool \<Rightarrow> exclusive_event list" where
  "reconnection = (\<lambda>(env, qosFails, consumeFails). [Disturbed, Retries env, Attaches qosFails consumeFails])"

lemma panicked_stays: "ec_phase c = ProcessPanicked \<Longrightarrow> ec_phase (exclusiveStep x n keys e c) = ProcessPanicked"
  by (cases e) simp_all

lemma panicked_run: "ec_phase c = ProcessPanicked \<Longrightarrow> ec_phase (exclusiveRun x n keys es c) = ProcessPanicked"
  by (induction es arbitrary: c) (simp_all add: exclusiveRun_def panicked_stays)

definition consuming :: "nat list \<Rightarrow> exclusive_consumer \<Rightarrow> bool" where
  "consuming held c = (mq_ready (ec_mq c) \<and> \<not> cp_closed (ec_mq c) \<and> accounted (ec_mq c) held \<and> \<not> ec_cancelled c
     \<and> ec_phase c \<in> {ReadingQueue, Reconnecting})"

lemma reconnection_takes_channel:
  assumes "consuming held c" "declares (fst r)"
  shows "if int (length held) < cp_maxChannels (ec_mq c)
         then \<exists>ch. consuming (ch # held) (exclusiveRun x n keys (reconnection r) c)
                \<and> cp_maxChannels (ec_mq (exclusiveRun x n keys (reconnection r) c)) = cp_maxChannels (ec_mq c)
         else ec_phase (exclusiveRun x n keys (reconnection r) c) = ProcessPanicked"
proof -
  obtain env a b where r: "r = (env, a, b)" by (metis surj_pair)
  have d: "mq_ready (ec_mq c)" "\<not> cp_closed (ec_mq c)" "accounted (ec_mq c) held" "declares env"
    using assms r by (simp_all add: consuming_def)
  show ?thesis
    using exclusive_declaration[OF d, of x n keys] assms(1)
    by (auto simp: r reconnection_def exclusiveRun_def consuming_def split: if_splits)
qed

text \<open>the consumer of an exclusive queue never gives a channel back: the pool counts every channel it was given for
  a reconnection as in use, also the closed ones, so after as many reconnections as the pool had channels left
  the next one finds it exhausted and panics.\<close>
theorem reconnections_exhaust_pool:
  assumes "consuming held c" "list_all (declares \<circ> fst) rs"
  shows "let t = exclusiveRun x n keys (concat (map reconnection rs)) c in
    if int (length held) + int (length rs) \<le> cp_maxChannels (ec_mq c)
    then \<exists>chs. length chs = length rs \<and> consuming (chs @ held) t
    else int (length held) \<le> cp_maxChannels (ec_mq c) \<longrightarrow> ec_phase t = ProcessPanicked"
  using assms
proof (induction rs arbitrary: c held)
  case Nil
  then show ?case by (simp add: exclusiveRun_def Let_def)
next
  case (Cons r rs)
  let ?c1 = "exclusiveRun x n keys (reconnection r) c"
  let ?t = "exclusiveRun x n keys (concat (map reconnection rs)) ?c1"
  have t: "exclusiveRun x n keys (concat (map reconnection (r # rs))) c = ?t" by (simp add: exclusiveRun_def)
  have one: "declares (fst r)" using Cons.prems(2) by simp
  show ?case
  proof (cases "int (length held) < cp_maxChannels (ec_mq c)")
    case True
    then obtain ch where ch: "consuming (ch # held) ?c1" "cp_maxChannels (ec_mq ?c1) = cp_maxChannels (ec_mq c)"
      using reconnection_takes_channel[OF Cons.prems(1) one, of x n keys] by auto
    have IH: "let t = ?t in
      if int (length (ch # held)) + int (length rs) \<le> cp_maxChannels (ec_mq ?c1)
      then \<exists>chs. length chs = length rs \<and> consuming (chs @ ch # held) t
      else int (length (ch # held)) \<le> cp_maxChannels (ec_mq ?c1) \<longrightarrow> ec_phase t = ProcessPanicked"
      by (rule Cons.IH[OF ch(1)]) (use Cons.prems(2) in simp)
    show ?thesis
    proof (cases "int (length held) + int (length (r # rs)) \<le> cp_maxChannels (ec_mq c)")
      case fits: True
      then obtain chs where "length chs = length rs" "consuming (chs @ ch # held) ?t" using IH ch(2) by (auto simp: Let_def)
      then have "length (chs @ [ch]) = length (r # rs) \<and> consuming ((chs @ [ch]) @ held) ?t" by simp
      then show ?thesis using fits t by (simp only: Let_def if_True) blast
    next
      case False
      then show ?thesis using IH ch(2) True t by (auto simp: Let_def split: if_splits)
    qed
  next
    case False
    then have "ec_phase ?c1 = ProcessPanicked"
      using reconnection_takes_channel[OF Cons.prems(1) one, of x n keys] by simp
    then show ?thesis using t False panicked_run by (auto simp: Let_def)
  qed
qed

section \<open>Cancelling\<close>

text \<open>A cancellation in the select or before the declaration closes the channel and the goroutine takes no other.\<close>
definition winding_down :: "exclusive_consumer \<Rightarrow> bool" where
  "winding_down c = (ec_cancelled c \<and> ec_current c = None \<and> ec_phase c \<in> {ReadingQueue, Reconnecting, ConsumerExited})"

lemma winding_down_step: "winding_down c \<Longrightarrow> winding_down (exclusiveStep x n keys e c)"
  by (cases e) (auto simp: winding_down_def)

lemma winding_down_pool:
  "winding_down c \<Longrightarrow> cp_created (ec_mq (exclusiveStep x n keys e c)) = cp_created (ec_mq c) \<and>
     set (mq_closed (ec_mq c)) \<subseteq> set (mq_closed (ec_mq (exclusiveStep x n keys e c)))"
  by (cases e) (auto simp: winding_down_def closeChannel_def)

lemma winding_down_run:
  "winding_down c \<Longrightarrow> winding_down (exclusiveRun x n keys es c) \<and>
     cp_created (ec_mq (exclusiveRun x n keys es c)) = cp_created (ec_mq c) \<and>
     set (mq_closed (ec_mq c)) \<subseteq> set (mq_closed (ec_mq (exclusiveRun x n keys es c)))"
proof (induction es arbitrary: c)
  case (Cons e es)
  have "exclusiveRun x n keys (e # es) c = exclusiveRun x n keys es (exclusiveStep x n keys e c)" by (simp add: exclusiveRun_def)
  then show ?case
    using Cons.IH[of "exclusiveStep x n keys e c"] winding_down_step[OF Cons.prems, of x n keys e]
      winding_down_pool[OF Cons.prems, of x n keys e] by auto
qed (simp add: exclusiveRun_def)

lemma exited_keeps_open:
  assumes "ec_phase c = ConsumerExited" "ec_cancelled c" "list_all (\<lambda>e. e \<noteq> ChannelDies ch) es" "ch \<notin> set (mq_closed (ec_mq c))"
  shows "ec_phase (exclusiveRun x n keys es c) = ConsumerExited \<and> ch \<notin> set (mq_closed (ec_mq (exclusiveRun x n keys es c)))"
  using assms
proof (induction es arbitrary: c)
  case (Cons e es)
  have "ec_phase (exclusiveStep x n keys e c) = ConsumerExited" "ec_cancelled (exclusiveStep x n keys e c)"
    "ch \<notin> set (mq_closed (ec_mq (exclusiveStep x n keys e c)))"
    using Cons.prems by (cases e; auto simp: closeChannel_def)+
  then show ?case using Cons.IH[of "exclusiveStep x n keys e c"] Cons.prems(3) by (simp add: exclusiveRun_def)
qed (simp add: exclusiveRun_def)

text \<open>The caller's cancellation closes the consumer's channel for good, except when it falls between the declaration
  of a reconnection and its attachment: then the goroutine still attaches the new channel and exits, and no
  event of the consumer ever closes it: its exclusive queue and its consumer outlive the cancellation.\<close>
theorem cancellation:
  "ec_phase c \<in> {ReadingQueue, Reconnecting} \<Longrightarrow> \<not> ec_cancelled c \<Longrightarrow> ec_current c = Some ch \<Longrightarrow>
     (let t = exclusiveRun x n keys (CallerCancels # es) c in
        winding_down t \<and> ch \<in> set (mq_closed (ec_mq t)) \<and> cp_created (ec_mq t) = cp_created (ec_mq c))"
  "ec_phase c = Attaching new \<Longrightarrow> \<not> ec_cancelled c \<Longrightarrow> new \<notin> set (mq_closed (ec_mq c)) \<Longrightarrow> ec_current c \<noteq> Some new \<Longrightarrow>
     list_all (\<lambda>e. e \<noteq> ChannelDies new) es \<Longrightarrow>
     (let t = exclusiveRun x n keys ([CallerCancels, Attaches False False, SeesCancel] @ es) c in
        ec_phase t = ConsumerExited \<and> new \<notin> set (mq_closed (ec_mq t)))"
proof -
  assume c: "ec_phase c \<in> {ReadingQueue, Reconnecting}" "\<not> ec_cancelled c" "ec_current c = Some ch"
  let ?c1 = "exclusiveStep x n keys CallerCancels c"
  have "winding_down ?c1" "ch \<in> set (mq_closed (ec_mq ?c1))" "cp_created (ec_mq ?c1) = cp_created (ec_mq c)"
    using c by (auto simp: winding_down_def closeChannel_def)
  then show "let t = exclusiveRun x n keys (CallerCancels # es) c in
        winding_down t \<and> ch \<in> set (mq_closed (ec_mq t)) \<and> cp_created (ec_mq t) = cp_created (ec_mq c)"
    using winding_down_run[of ?c1 x n keys es] by (auto simp: exclusiveRun_def Let_def)
next
  assume c: "ec_phase c = Attaching new" "\<not> ec_cancelled c" "new \<notin> set (mq_closed (ec_mq c))" "ec_current c \<noteq> Some new"
    "list_all (\<lambda>e. e \<noteq> ChannelDies new) es"
  let ?c1 = "exclusiveRun x n keys [CallerCancels, Attaches False False, SeesCancel] c"
  have "ec_phase ?c1 = ConsumerExited" "ec_cancelled ?c1" "new \<notin> set (mq_closed (ec_mq ?c1))"
    using c by (auto simp: exclusiveRun_def closeChannel_def split: option.splits)
  from exited_keeps_open[OF this(1,2) c(5) this(3), of x n keys]
  show "let t = exclusiveRun x n keys ([CallerCancels, Attaches False False, SeesCancel] @ es) c in
        ec_phase t = ConsumerExited \<and> new \<notin> set (mq_closed (ec_mq t))"
    by (simp add: exclusiveRun_def Let_def)
qed

section \<open>Example\<close>

definition exDeclares :: declare_env where
  "exDeclares = \<lparr>de_answers = (\<lambda>_. Opened), de_meanwhile = (\<lambda>_ q. q), de_error = (\<lambda>_. None), de_closes = (\<lambda>_. False)\<rparr>"

text \<open>On a pool of two channels the consumer starts with one, reconnects once, and the second reconnection panics.\<close>
theorem reconnections_exhaust_pool_witness:
  "\<exists>c. ConsumeExclusiveQueueAsync exDeclares False False ''x'' ''q'' [''k''] ex_pool2 = Inr c \<and>
     ec_phase (exclusiveRun ''x'' ''q'' [''k''] (concat (map reconnection
        [(exDeclares, False, False), (exDeclares, False, False)])) c) = ProcessPanicked"
proof -
  have p: "ex_pool2 = ex_mq\<lparr>cp_channels := [0], cp_maxChannels := 2, cp_created := 1, mq_opened := 1\<rparr>"
    by (simp add: ex_pool2_def NewChannelPool_def ex_mq_def)
  have d: "declares exDeclares" by (simp add: declares_def exDeclares_def)
  have pool: "mq_ready ex_pool2" "\<not> cp_closed ex_pool2" "accounted ex_pool2 []" "cp_maxChannels ex_pool2 = 2"
    by (simp_all add: p ex_mq_def accounted_def)
  obtain q1 ch where q: "DeclareExclusiveQueueWithTopicBindings exDeclares ''x'' ''q'' [''k''] ex_pool2 = (q1, Some ch, Declared)"
      "accounted q1 [ch]" "\<not> cp_closed q1" "mq_ready q1" "cp_maxChannels q1 = 2"
    using exclusive_declaration[OF pool(1-3) d, of "''x''" "''q''" "[''k'']"] pool(4) by auto
  let ?c = "\<lparr>ec_mq = q1, ec_phase = ReadingQueue, ec_current = Some ch, ec_cancelled = False, ec_delivered = []\<rparr>"
  have "consuming [ch] ?c" using q by (simp add: consuming_def)
  from reconnections_exhaust_pool[OF this, of "[(exDeclares, False, False), (exDeclares, False, False)]" "''x''" "''q''" "[''k'']"]
  have "ec_phase (exclusiveRun ''x'' ''q'' [''k''] (concat (map reconnection
        [(exDeclares, False, False), (exDeclares, False, False)])) ?c) = ProcessPanicked"
    using d q(5) by (simp add: Let_def)
  then show ?thesis using q(1) by (simp add: ConsumeExclusiveQueueAsync_def)
qed

end
