(* ===== verification/Message_Builders.thy ===== *)
theory Message_Builders
  imports Trax_Messages
begin

text \<open>
  The fluent builders of \<open>pkg/trax/messages.go\<close>.  The builders of sessions, payloads and payload bodies set fields
  of a value.  A message holds references to a map and two slices, which the builder updates in place, so it
  is modelled with an explicit store; a chain of calls is a list.  The maps of the payload bodies are values:
  their builders are used in one chain that ends in \<open>Build\<close> and \<open>Json\<close>.
\<close>

section \<open>Values\<close>

datatype session_call =
    SessionId string | AuthProvider string | TokenType string | Token string | Identity string | Anonymous

fun setSession :: "session_call \<Rightarrow> SessionParams \<Rightarrow> SessionParams" where
  "setSession (SessionId v) s = s\<lparr>Sp_SessionId := v\<rparr>"
| "setSession (AuthProvider v) s = s\<lparr>Sp_AuthProvider := v\<rparr>"
| "setSession (TokenType v) s = s\<lparr>Sp_TokenType := v\<rparr>"
| "setSession (Token v) s = s\<lparr>Sp_Token := v\<rparr>"
| "setSession (Identity v) s = s\<lparr>Sp_Identity := v\<rparr>"
| "setSession Anonymous s = s\<lparr>Sp_SessionId := ''none'', Sp_AuthProvider := ''none'', Sp_TokenType := ''none'',
     Sp_Token := ''none'', Sp_Identity := ''none''\<rparr>"

definition buildSession :: "session_call list \<Rightarrow> SessionParams" where
  "buildSession calls = fold setSession calls emptySession"

datatype payload_call =
    PayloadMetadata string | PayloadType string | PayloadContentType string | PayloadEncoding string
  | PayloadData PayloadBody | PayloadJson PayloadBody | PayloadXml PayloadBody | PayloadPlainText PayloadBody

fun setPayload :: "payload_call \<Rightarrow> Payload \<Rightarrow> Payload" where
  "setPayload (PayloadMetadata v) (MkPayload m t c e d) = MkPayload v t c e d"
| "setPayload (PayloadType v) (MkPayload m t c e d) = MkPayload m v c e d"
| "setPayload (PayloadContentType v) (MkPayload m t c e d) = MkPayload m t v e d"
| "setPayload (PayloadEncoding v) (MkPayload m t c e d) = MkPayload m t c v d"
| "setPayload (PayloadData v) (MkPayload m t c e d) = MkPayload m t c e v"
| "setPayload (PayloadJson v) (MkPayload m t c e d) = MkPayload m t ''application/json'' ''utf-8'' v"
| "setPayload (PayloadXml v) (MkPayload m t c e d) = MkPayload m t ''application/xml'' ''utf-8'' v"
| "setPayload (PayloadPlainText v) (MkPayload m t c e d) = MkPayload m t ''text/plain'' ''utf-8'' v"

definition buildPayload :: "payload_call list \<Rightarrow> Payload" where
  "buildPayload calls = fold setPayload calls (MkPayload '''' '''' '''' '''' (RawBody ''''))"

definition NewJsonPayload :: "PayloadBody \<Rightarrow> string list \<Rightarrow> Payload" where
  "NewJsonPayload data metadata = buildPayload (PayloadJson data # map PayloadMetadata (take 1 metadata))"

definition NewXmlPayload :: "PayloadBody \<Rightarrow> string list \<Rightarrow> Payload" where
  "NewXmlPayload data metadata = buildPayload (PayloadXml data # map PayloadMetadata (take 1 metadata))"

definition NewPlainTextPayload :: "PayloadBody \<Rightarrow> string list \<Rightarrow> Payload" where
  "NewPlainTextPayload data metadata = buildPayload (PayloadPlainText data # map PayloadMetadata (take 1 metadata))"

text \<open>The request of a submission.\<close>
datatype submission_call =
    SubSubmitterId string | SubTemplateId string | SubInstanceId string | SubZoneId string | SubInput smap
  | AddSubInputEntry string string | SubParentInstanceId string | SubParentStepInstanceId string
  | SubRootInstanceId string | SubDepth int

fun setSubmission :: "submission_call \<Rightarrow> SagaSubmissionRequestPayload \<Rightarrow> SagaSubmissionRequestPayload" where
  "setSubmission (SubSubmitterId v) p = p\<lparr>Sr_SagaSubmitterId := v\<rparr>"
| "setSubmission (SubTemplateId v) p = p\<lparr>Sr_SagaTemplateId := v\<rparr>"
| "setSubmission (SubInstanceId v) p = p\<lparr>Sr_SagaInstanceId := v\<rparr>"
| "setSubmission (SubZoneId v) p = p\<lparr>Sr_ZoneId := v\<rparr>"
| "setSubmission (SubInput v) p = p\<lparr>Sr_SagaInput := v\<rparr>"
| "setSubmission (AddSubInputEntry k v) p = p\<lparr>Sr_SagaInput := (Sr_SagaInput p)(k \<mapsto> v)\<rparr>"
| "setSubmission (SubParentInstanceId v) p = p\<lparr>Sr_ParentSagaInstanceId := v\<rparr>"
| "setSubmission (SubParentStepInstanceId v) p = p\<lparr>Sr_ParentSagaStepInstanceId := v\<rparr>"
| "setSubmission (SubRootInstanceId v) p = p\<lparr>Sr_RootSagaInstanceId := v\<rparr>"
| "setSubmission (SubDepth v) p = p\<lparr>Sr_SagaDepth := v\<rparr>"

definition buildSubmission :: "submission_call list \<Rightarrow> SagaSubmissionRequestPayload" where
  "buildSubmission calls = fold setSubmission calls
     \<lparr>Sr_SagaSubmitterId = '''', Sr_SagaTemplateId = '''', Sr_SagaInstanceId = '''', Sr_ZoneId = '''', Sr_SagaInput = Map.empty,
      Sr_ParentSagaInstanceId = '''', Sr_ParentSagaStepInstanceId = '''', Sr_RootSagaInstanceId = '''', Sr_SagaDepth = 0\<rparr>"

text \<open>The request of an execution; the builder of the compensation request is the same text.\<close>
datatype request_call =
    ReqSubmitterId string | ReqInstanceId string | ReqStepInstanceId string | ReqZoneId string | ReqAffinity string
  | ReqInput smap | AddReqInputEntry string string | ReqExtra smap | AddReqExtraEntry string string
  | ReqMetadata smap | ReqRootInstanceId string | ReqDepth int

fun setRequest :: "request_call \<Rightarrow> SagaStepRequestPayload \<Rightarrow> SagaStepRequestPayload" where
  "setRequest (ReqSubmitterId v) p = p\<lparr>Rq_SagaSubmitterId := v\<rparr>"
| "setRequest (ReqInstanceId v) p = p\<lparr>Rq_SagaInstanceId := v\<rparr>"
| "setRequest (ReqStepInstanceId v) p = p\<lparr>Rq_SagaStepInstanceId := v\<rparr>"
| "setRequest (ReqZoneId v) p = p\<lparr>Rq_ZoneId := v\<rparr>"
| "setRequest (ReqAffinity v) p = p\<lparr>Rq_CoordinatorAffinity := v\<rparr>"
| "setRequest (ReqInput v) p = p\<lparr>Rq_Input := v\<rparr>"
| "setRequest (AddReqInputEntry k v) p = p\<lparr>Rq_Input := (Rq_Input p)(k \<mapsto> v)\<rparr>"
| "setRequest (ReqExtra v) p = p\<lparr>Rq_Extra := v\<rparr>"
| "setRequest (AddReqExtraEntry k v) p = p\<lparr>Rq_Extra := (Rq_Extra p)(k \<mapsto> v)\<rparr>"
| "setRequest (ReqMetadata v) p = p\<lparr>Rq_Metadata := v\<rparr>"
| "setRequest (ReqRootInstanceId v) p = p\<lparr>Rq_RootSagaInstanceId := v\<rparr>"
| "setRequest (ReqDepth v) p = p\<lparr>Rq_SagaDepth := v\<rparr>"

definition buildRequest :: "request_call list \<Rightarrow> SagaStepRequestPayload" where
  "buildRequest calls = fold setRequest calls
     \<lparr>Rq_SagaSubmitterId = '''', Rq_SagaInstanceId = '''', Rq_SagaStepInstanceId = '''', Rq_ZoneId = '''',
      Rq_CoordinatorAffinity = '''', Rq_Input = Map.empty, Rq_Extra = Map.empty, Rq_Metadata = Map.empty,
      Rq_RootSagaInstanceId = '''', Rq_SagaDepth = 0\<rparr>"

datatype execution_call =
    ResSubmitterId string | ResInstanceId string | ResStepInstanceId string | ResZoneId string
  | ResStatus ExecutionResultStatusEnum | ResResult smap | AddResResultEntry string string

fun setResult :: "execution_call \<Rightarrow> SagaStepExecutionResultPayload \<Rightarrow> SagaStepExecutionResultPayload" where
  "setResult (ResSubmitterId v) p = p\<lparr>Er_SagaSubmitterId := v\<rparr>"
| "setResult (ResInstanceId v) p = p\<lparr>Er_SagaInstanceId := v\<rparr>"
| "setResult (ResStepInstanceId v) p = p\<lparr>Er_SagaStepInstanceId := v\<rparr>"
| "setResult (ResZoneId v) p = p\<lparr>Er_ZoneId := v\<rparr>"
| "setResult (ResStatus v) p = p\<lparr>Er_Status := v\<rparr>"
| "setResult (ResResult v) p = p\<lparr>Er_ExecutionResult := v\<rparr>"
| "setResult (AddResResultEntry k v) p = p\<lparr>Er_ExecutionResult := (Er_ExecutionResult p)(k \<mapsto> v)\<rparr>"

text \<open>A builder that sets no status leaves the empty string, which is none of the constants.\<close>
definition buildResult :: "execution_call list \<Rightarrow> SagaStepExecutionResultPayload" where
  "buildResult calls = fold setResult calls
     \<lparr>Er_SagaSubmitterId = '''', Er_SagaInstanceId = '''', Er_SagaStepInstanceId = '''', Er_ZoneId = '''',
      Er_Status = ExecutionResultStatusEnum_Other '''', Er_ExecutionResult = Map.empty\<rparr>"

section \<open>The store\<close>

text \<open>A map, an array of strings or an array of payloads, at an address.\<close>
datatype cell = MapCell (mapOf: smap) | TagCell (tagsOf: "string list") | PayloadCell (payloadsOf: "Payload list")

record heap =
  hp_cell :: "nat \<Rightarrow> cell"
  hp_next :: nat

text \<open>A slice is the address of its array and its length; \<open>None\<close> is nil.  The three fields of the value are unused.\<close>
record ref_message =
  rm_fields :: TraxMessage
  rm_metadata :: "nat option"
  rm_tags :: "(nat \<times> nat) option"
  rm_payloads :: "(nat \<times> nat) option"

definition alloc :: "cell \<Rightarrow> heap \<Rightarrow> nat \<times> heap" where
  "alloc c h = (hp_next h, \<lparr>hp_cell = (hp_cell h)(hp_next h := c), hp_next = Suc (hp_next h)\<rparr>)"

definition store :: "nat \<Rightarrow> cell \<Rightarrow> heap \<Rightarrow> heap" where
  "store a c h = h\<lparr>hp_cell := (hp_cell h)(a := c)\<rparr>"

text \<open>The message a reader sees.\<close>
definition message_at :: "heap \<Rightarrow> ref_message \<Rightarrow> TraxMessage" where
  "message_at h m = (rm_fields m)\<lparr>
     Tm_Metadata := (case rm_metadata m of Some a \<Rightarrow> mapOf (hp_cell h a) | None \<Rightarrow> Map.empty),
     Tm_Tags := (case rm_tags m of Some (a, n) \<Rightarrow> take n (tagsOf (hp_cell h a)) | None \<Rightarrow> []),
     Tm_Payloads := (case rm_payloads m of Some (a, n) \<Rightarrow> take n (payloadsOf (hp_cell h a)) | None \<Rightarrow> [])\<rparr>"

text \<open>\<open>append(xs, x)\<close>: in place while the array has room, else into a new array, which has \<open>spare\<close> cells more than
  needed; \<open>get\<close> and \<open>put\<close> are the kind of the array.\<close>
definition append_slice ::
    "(cell \<Rightarrow> 'a list) \<Rightarrow> ('a list \<Rightarrow> cell) \<Rightarrow> 'a list \<Rightarrow> 'a \<Rightarrow> (nat \<times> nat) option \<Rightarrow> heap \<Rightarrow> (nat \<times> nat) option \<times> heap" where
  "append_slice get put spare x s h =
     (case s of
        None \<Rightarrow> (case alloc (put (x # spare)) h of (b, h1) \<Rightarrow> (Some (b, 1), h1))
      | Some (a, n) \<Rightarrow>
          let xs = get (hp_cell h a)
          in if n < length xs then (Some (a, Suc n), store a (put (xs[n := x])) h)
             else (case alloc (put (take n xs @ x # spare)) h of (b, h1) \<Rightarrow> (Some (b, Suc n), h1)))"

section \<open>Messages\<close>

text \<open>The identifiers and the time are drawn by the caller of the model.\<close>
definition newMessage :: "string \<Rightarrow> string \<Rightarrow> string \<Rightarrow> int \<Rightarrow> heap \<Rightarrow> ref_message \<times> heap" where
  "newMessage messageId traceId executionId ts h =
     (case alloc (MapCell Map.empty) h of (a, h1) \<Rightarrow>
      case alloc (TagCell []) h1 of (b, h2) \<Rightarrow>
      case alloc (PayloadCell []) h2 of (c, h3) \<Rightarrow>
        (\<lparr>rm_fields = NewTraxMessageBuilder messageId traceId executionId ts, rm_metadata = Some a, rm_tags = Some (b, 0),
          rm_payloads = Some (c, 0)\<rparr>, h3))"

datatype field_call =
    MessageId string | RefMessageId string | ExecutionId string | RefExecutionId string | TraceId string
  | TraceIdFromGinContext "(string \<times> string) option" | ClusterId string | Timestamp int | TimestampNow int
  | Origin string | OriginIdempotencyKey string | Issuer string | Submitter string | SubmitterAffinityGroup string
  | Referrer string | Session SessionParams | SessionBuilder "session_call list" | SetAnonymousSession

text \<open>A context is its header and its query parameter; \<open>None\<close> is a nil context.\<close>
fun setField :: "field_call \<Rightarrow> TraxMessage \<Rightarrow> TraxMessage" where
  "setField (MessageId v) m = m\<lparr>Tm_MessageId := v\<rparr>"
| "setField (RefMessageId v) m = m\<lparr>Tm_RefMessageId := v\<rparr>"
| "setField (ExecutionId v) m = m\<lparr>Tm_ExecutionId := v\<rparr>"
| "setField (RefExecutionId v) m = m\<lparr>Tm_RefExecutionId := v\<rparr>"
| "setField (TraceId v) m = m\<lparr>Tm_TraceId := v\<rparr>"
| "setField (TraceIdFromGinContext ctx) m =
     (case ctx of
        None \<Rightarrow> m
      | Some (header, param) \<Rightarrow>
          let traceId = (if header = '''' then param else header)
          in if traceId \<noteq> '''' then m\<lparr>Tm_TraceId := traceId\<rparr> else m)"
| "setField (ClusterId v) m = m\<lparr>Tm_ClusterId := v\<rparr>"
| "setField (Timestamp v) m = m\<lparr>Tm_Timestamp := v\<rparr>"
| "setField (TimestampNow now) m = m\<lparr>Tm_Timestamp := now\<rparr>"
| "setField (Origin v) m = m\<lparr>Tm_Origin := v\<rparr>"
| "setField (OriginIdempotencyKey v) m = m\<lparr>Tm_OriginIdempotencyKey := v\<rparr>"
| "setField (Issuer v) m = m\<lparr>Tm_Issuer := v\<rparr>"
| "setField (Submitter v) m = m\<lparr>Tm_Submitter := v\<rparr>"
| "setField (SubmitterAffinityGroup v) m = m\<lparr>Tm_SubmitterAffinityGroup := v\<rparr>"
| "setField (Referrer v) m = m\<lparr>Tm_Referrer := v\<rparr>"
| "setField (Session v) m = m\<lparr>Tm_Session := v\<rparr>"
| "setField (SessionBuilder calls) m = m\<lparr>Tm_Session := buildSession calls\<rparr>"
| "setField SetAnonymousSession m = m\<lparr>Tm_Session := buildSession [Anonymous]\<rparr>"

text \<open>The calls on the three references; a map or slice handed in keeps its address.\<close>
datatype builder_call =
    Field field_call
  | Metadata "nat option"
  | AddMetadata string string
  | Tags "(nat \<times> nat) option"
  | AddTag string "string list"
  | Payloads "(nat \<times> nat) option"
  | AddPayloadCall Payload "Payload list"
  | SetPayloadCall Payload
  | ClearPayloads

fun builderStep :: "builder_call \<Rightarrow> ref_message \<times> heap \<Rightarrow> ref_message \<times> heap" where
  "builderStep (Field c) (m, h) = (m\<lparr>rm_fields := setField c (rm_fields m)\<rparr>, h)"
| "builderStep (Metadata a) (m, h) = (m\<lparr>rm_metadata := a\<rparr>, h)"
| "builderStep (AddMetadata k v) (m, h) =
     (case rm_metadata m of
        Some a \<Rightarrow> (m, store a (MapCell ((mapOf (hp_cell h a))(k \<mapsto> v))) h)
      | None \<Rightarrow> (case alloc (MapCell [k \<mapsto> v]) h of (a, h1) \<Rightarrow> (m\<lparr>rm_metadata := Some a\<rparr>, h1)))"
| "builderStep (Tags s) (m, h) = (m\<lparr>rm_tags := s\<rparr>, h)"
| "builderStep (AddTag t spare) (m, h) =
     (case append_slice tagsOf TagCell spare t (rm_tags m) h of (s, h1) \<Rightarrow> (m\<lparr>rm_tags := s\<rparr>, h1))"
| "builderStep (Payloads s) (m, h) = (m\<lparr>rm_payloads := s\<rparr>, h)"
| "builderStep (AddPayloadCall p spare) (m, h) =
     (case append_slice payloadsOf PayloadCell spare p (rm_payloads m) h of (s, h1) \<Rightarrow> (m\<lparr>rm_payloads := s\<rparr>, h1))"
| "builderStep (SetPayloadCall p) (m, h) =
     (case alloc (PayloadCell [p]) h of (a, h1) \<Rightarrow> (m\<lparr>rm_payloads := Some (a, 1)\<rparr>, h1))"
| "builderStep ClearPayloads (m, h) =
     (case alloc (PayloadCell []) h of (a, h1) \<Rightarrow> (m\<lparr>rm_payloads := Some (a, 0)\<rparr>, h1))"

definition builderRun :: "builder_call list \<Rightarrow> ref_message \<times> heap \<Rightarrow> ref_message \<times> heap" where
  "builderRun = fold builderStep"

definition PayloadCount :: "ref_message \<Rightarrow> nat" where
  "PayloadCount m = (case rm_payloads m of Some (a, n) \<Rightarrow> n | None \<Rightarrow> 0)"

text \<open>\<open>PayloadWithMetadata\<close> and \<open>AddPayloadWithMetadata\<close> set no content type.\<close>
definition payloadWithMetadata :: "string \<Rightarrow> string \<Rightarrow> PayloadBody \<Rightarrow> string \<Rightarrow> Payload" where
  "payloadWithMetadata payloadType encoding data metadata =
     buildPayload [PayloadType payloadType, PayloadEncoding encoding, PayloadData data, PayloadMetadata metadata]"

text \<open>The deep copy: each reference that is not nil gets a cell of its own.\<close>
definition Clone :: "ref_message \<Rightarrow> heap \<Rightarrow> ref_message \<times> heap" where
  "Clone m h =
     (let (ps, h1) = (case rm_payloads m of
            None \<Rightarrow> (None, h)
          | Some (a, n) \<Rightarrow> (case alloc (PayloadCell (take n (payloadsOf (hp_cell h a)))) h of (b, h1) \<Rightarrow> (Some (b, n), h1)));
          (ts, h2) = (case rm_tags m of
            None \<Rightarrow> (None, h1)
          | Some (a, n) \<Rightarrow> (case alloc (TagCell (take n (tagsOf (hp_cell h1 a)))) h1 of (b, h2) \<Rightarrow> (Some (b, n), h2)));
          (md, h3) = (case rm_metadata m of
            None \<Rightarrow> (None, h2)
          | Some a \<Rightarrow> (case alloc (MapCell (mapOf (hp_cell h2 a))) h2 of (b, h3) \<Rightarrow> (Some b, h3)))
      in (m\<lparr>rm_payloads := ps, rm_tags := ts, rm_metadata := md\<rparr>, h3))"

section \<open>The builders against the messages of the model\<close>

lemma buildPayload_json: "buildPayload [PayloadType t, PayloadJson body] = jsonPayload t body"
  by (simp add: buildPayload_def jsonPayload_def)

lemma buildSession_anonymous: "buildSession [Anonymous] = anonymousSession"
  by (simp add: buildSession_def anonymousSession_def emptySession_def)

lemma newMessage_at:
  "newMessage i t e ts h = (m, h1) \<Longrightarrow> message_at h1 m = NewTraxMessageBuilder i t e ts"
  by (auto simp: newMessage_def alloc_def message_at_def NewTraxMessageBuilder_def)

text \<open>The chain of calls by which the coordinator builds a message with one payload gives the message of the model.\<close>
lemma chain_message_at:
  assumes "newMessage i t e ts h = (m, h1)"
    and "builderRun (map Field fs @ [AddPayloadCall p spare]) (m, h1) = (m2, h2)"
  shows "message_at h2 m2 = AddPayload p (fold setField fs (NewTraxMessageBuilder i t e ts))"
proof -
  have fields: "builderRun (map Field fs) (m, h1) = (m\<lparr>rm_fields := fold setField fs (rm_fields m)\<rparr>, h1)" for m :: ref_message
    by (induction fs arbitrary: m) (simp_all add: builderRun_def)
  have one: "Tm_Metadata (setField f x) = Tm_Metadata x" "Tm_Tags (setField f x) = Tm_Tags x"
    "Tm_Payloads (setField f x) = Tm_Payloads x" for f x
    by (cases f; simp add: Let_def split: option.splits prod.splits)+
  have keeps: "Tm_Metadata (fold setField fs x) = Tm_Metadata x" "Tm_Tags (fold setField fs x) = Tm_Tags x"
    "Tm_Payloads (fold setField fs x) = Tm_Payloads x" for x
    by (induction fs arbitrary: x) (simp_all add: one)
  have k: "Tm_Metadata (fold setField fs (NewTraxMessageBuilder i t e ts)) = Map.empty"
    "Tm_Tags (fold setField fs (NewTraxMessageBuilder i t e ts)) = []"
    "Tm_Payloads (fold setField fs (NewTraxMessageBuilder i t e ts)) = []"
    unfolding keeps by (simp_all add: NewTraxMessageBuilder_def)
  obtain a b c where m: "m = \<lparr>rm_fields = NewTraxMessageBuilder i t e ts, rm_metadata = Some a, rm_tags = Some (b, 0),
      rm_payloads = Some (c, 0)\<rparr>" "hp_cell h1 a = MapCell Map.empty" "hp_cell h1 b = TagCell []"
      "hp_cell h1 c = PayloadCell []" "distinct [a, b, c]" "a < hp_next h1" "b < hp_next h1" "c < hp_next h1"
    using assms(1) by (auto simp: newMessage_def alloc_def)
  have run: "builderRun (map Field fs @ [AddPayloadCall p spare]) (m, h1) =
      builderStep (AddPayloadCall p spare) (builderRun (map Field fs) (m, h1))"
    by (simp add: builderRun_def)
  show ?thesis
    using assms(2) m k unfolding run fields
    by (auto simp: append_slice_def alloc_def message_at_def AddPayload_def)
qed

section \<open>Sharing\<close>

definition refs :: "ref_message \<Rightarrow> nat set" where
  "refs m = set_option (rm_metadata m) \<union> fst ` set_option (rm_tags m) \<union> fst ` set_option (rm_payloads m)"

text \<open>The addresses a call hands in.\<close>
fun hands_in :: "builder_call \<Rightarrow> nat set" where
  "hands_in (Metadata a) = set_option a"
| "hands_in (Tags s) = fst ` set_option s"
| "hands_in (Payloads s) = fst ` set_option s"
| "hands_in _ = {}"

definition allocated :: "heap \<Rightarrow> nat set" where
  "allocated h = {a. a < hp_next h}"

lemma message_at_cong:
  "(\<And>a. a \<in> refs m \<Longrightarrow> hp_cell h1 a = hp_cell h a) \<Longrightarrow> message_at h1 m = message_at h m"
  by (auto simp: message_at_def refs_def split: option.splits)

text \<open>A call writes only to the message's own cells or to new ones.\<close>
lemma builderStep_frame:
  assumes "builderStep c (m, h) = (m1, h1)"
  shows "allocated h \<subseteq> allocated h1" "\<forall>a \<in> allocated h - refs m. hp_cell h1 a = hp_cell h a"
    "refs m1 \<subseteq> refs m \<union> hands_in c \<union> (allocated h1 - allocated h)"
  using assms
  by (cases c; force simp: allocated_def refs_def alloc_def store_def append_slice_def Let_def
      split: option.splits prod.splits if_splits)+

lemma builderRun_frame:
  assumes "builderRun cs (m, h) = (m1, h1)"
    and "A \<subseteq> allocated h" "A \<inter> refs m = {}" "\<forall>c \<in> set cs. A \<inter> hands_in c = {}"
  shows "\<forall>a \<in> A. hp_cell h1 a = hp_cell h a"
  using assms
proof (induction cs arbitrary: m h)
  case (Cons c cs)
  obtain m2 h2 where s: "builderStep c (m, h) = (m2, h2)" by fastforce
  note f = builderStep_frame[OF s]
  have r: "builderRun cs (m2, h2) = (m1, h1)" using Cons.prems(1) s by (simp add: builderRun_def)
  have "A \<subseteq> allocated h2" "A \<inter> refs m2 = {}" "\<forall>c \<in> set cs. A \<inter> hands_in c = {}"
    using Cons.prems f by auto
  from Cons.IH[OF r this] show ?case using f(2) Cons.prems(2,3) by (simp add: subset_iff disjoint_iff)
qed (simp add: builderRun_def)

text \<open>The clone has cells of its own and reads the same.\<close>
lemma Clone_fresh:
  assumes r: "refs m \<subseteq> allocated h" and c: "Clone m h = (m1, h1)"
  shows "message_at h1 m1 = message_at h m" "refs m1 \<subseteq> allocated h1 - allocated h"
    "\<forall>a \<in> allocated h. hp_cell h1 a = hp_cell h a" "allocated h \<subseteq> allocated h1"
proof -
  have eq: "m1 = fst (Clone m h)" "h1 = snd (Clone m h)" using c by simp_all
  note defs = Clone_def alloc_def allocated_def refs_def message_at_def
  have "message_at h1 m1 = message_at h m \<and> refs m1 \<subseteq> allocated h1 - allocated h
      \<and> (\<forall>a \<in> allocated h. hp_cell h1 a = hp_cell h a) \<and> allocated h \<subseteq> allocated h1"
    using r unfolding eq
    by (cases "rm_payloads m"; cases "rm_tags m"; cases "rm_metadata m"; simp add: defs split_beta) (rule Collect_mono, simp)+
  then show "message_at h1 m1 = message_at h m" "refs m1 \<subseteq> allocated h1 - allocated h"
    "\<forall>a \<in> allocated h. hp_cell h1 a = hp_cell h a" "allocated h \<subseteq> allocated h1" by auto
qed

text \<open>a clone is safe in another goroutine: it reads as the original did, and no builder call on the original,
  whatever map or slice it hands in and whatever array has room, changes what is read of the clone, nor a
  call on the clone what is read of the original.\<close>
theorem clone_isolated:
  assumes "refs m \<subseteq> allocated h" and "Clone m h = (m1, h1)"
  shows "message_at h1 m1 = message_at h m \<and> message_at h1 m = message_at h m
    \<and> (\<forall>cs m2 h2. builderRun cs (m, h1) = (m2, h2) \<and> (\<forall>c \<in> set cs. refs m1 \<inter> hands_in c = {}) \<longrightarrow>
         message_at h2 m1 = message_at h m)
    \<and> (\<forall>cs m2 h2. builderRun cs (m1, h1) = (m2, h2) \<and> (\<forall>c \<in> set cs. refs m \<inter> hands_in c = {}) \<longrightarrow>
         message_at h2 m = message_at h m)"
proof -
  note f = Clone_fresh[OF assms]
  have same: "message_at h1 m = message_at h m"
    by (rule message_at_cong) (use f(3) assms(1) in blast)
  have dis: "refs m1 \<inter> refs m = {}" "refs m1 \<subseteq> allocated h1" "refs m \<subseteq> allocated h1"
    using f(2,4) assms(1) by auto
  have "message_at h2 m1 = message_at h m"
    if "builderRun cs (m, h1) = (m2, h2)" "\<forall>c \<in> set cs. refs m1 \<inter> hands_in c = {}" for cs m2 h2
    using message_at_cong[of m1 h2 h1] builderRun_frame(1)[OF that(1) dis(2,1) that(2)] f(1) by simp
  moreover have "message_at h2 m = message_at h m"
    if "builderRun cs (m1, h1) = (m2, h2)" "\<forall>c \<in> set cs. refs m \<inter> hands_in c = {}" for cs m2 h2
    using message_at_cong[of m h2 h1] builderRun_frame(1)[OF that(1) dis(3) _ that(2)] dis(1) same by (simp add: inf_commute)
  ultimately show ?thesis using f(1) same by blast
qed

text \<open>Without a clone the copy that \<open>Build\<close> returns shares the metadata map with its builder: a later \<open>AddMetadata\<close> on
  the builder changes the message that was built.\<close>
lemma built_message_shares_metadata:
  assumes "rm_metadata m = Some a" "builderStep (AddMetadata k v) (m, h) = (m1, h1)"
  shows "Tm_Metadata (message_at h1 m) = (Tm_Metadata (message_at h m))(k \<mapsto> v)"
  using assms by (auto simp: message_at_def store_def)

section \<open>Example\<close>

definition exBuilt :: "ref_message \<times> heap" where
  "exBuilt = builderRun [AddMetadata ''k'' ''v'', AddTag ''a'' ['''']]
     (newMessage ''m'' ''t'' ''e'' 1 \<lparr>hp_cell = (\<lambda>_. TagCell []), hp_next = 0\<rparr>)"

theorem clone_isolated_witness:
  "message_at (snd (builderRun [AddTag ''b'' [], AddMetadata ''k'' ''w''] (fst exBuilt, snd (Clone (fst exBuilt) (snd exBuilt)))))
     (fst (Clone (fst exBuilt) (snd exBuilt))) = message_at (snd exBuilt) (fst exBuilt)"
proof -
  have r: "refs (fst exBuilt) \<subseteq> allocated (snd exBuilt)"
    by (simp add: exBuilt_def builderRun_def newMessage_def alloc_def append_slice_def store_def refs_def allocated_def)
  from clone_isolated[OF r surjective_pairing] have "\<forall>cs m2 h2.
      builderRun cs (fst exBuilt, snd (Clone (fst exBuilt) (snd exBuilt))) = (m2, h2) \<and>
      (\<forall>c \<in> set cs. refs (fst (Clone (fst exBuilt) (snd exBuilt))) \<inter> hands_in c = {}) \<longrightarrow>
      message_at h2 (fst (Clone (fst exBuilt) (snd exBuilt))) = message_at (snd exBuilt) (fst exBuilt)" by blast
  from this[rule_format, of "[AddTag ''b'' [], AddMetadata ''k'' ''w'']", OF conjI, OF surjective_pairing]
  show ?thesis by simp
qed

end
