(* ===== verification/Watch_Status.thy ===== *)
theory Watch_Status
  imports Trax_Types Go_Strings "HOL-Library.Signed_Division" "HOL-Library.Char_ord" "HOL-Library.List_Lexorder"
begin

text \<open>
  The data the watcher of a saga works on (\<open>pkg/trax/watch/format.go\<close>, \<open>types.go\<close> and the computing part of
  \<open>display.go\<close>): the short names of states, their classification, the step summary, the key that detects a
  change, the timings, and the window of steps that is shown.  Times are nanoseconds; the zero time is
  \<open>None\<close>.  What is printed is a list of calls, not text.
\<close>

section \<open>Short names (format.go)\<close>

definition ShortenID :: "string \<Rightarrow> string" where
  "ShortenID s = (if length s \<le> 7 then s else take 4 s @ ''..'' @ drop (length s - 3) s)"

definition stripPrefix :: "string \<Rightarrow> string \<Rightarrow> string option" where
  "stripPrefix p s = (if length s > length p \<and> take (length p) s = p then Some (drop (length p) s) else None)"

definition ShortenSagaState :: "string \<Rightarrow> string" where
  "ShortenSagaState state = (case stripPrefix ''SAGA_STATE_ENUM_'' state of Some s \<Rightarrow> s | None \<Rightarrow> state)"

definition ShortenStepState :: "string \<Rightarrow> string" where
  "ShortenStepState state =
     (case stripPrefix ''SAGA_STEP_STATE_ENUM_'' state of
        None \<Rightarrow> state
      | Some shortState \<Rightarrow>
          (case stripPrefix ''EXECUTION_'' shortState of
             Some s \<Rightarrow> ''EXEC_'' @ s
           | None \<Rightarrow> (case stripPrefix ''COMPENSATION_'' shortState of
                         Some s \<Rightarrow> ''COMP_'' @ s
                       | None \<Rightarrow> shortState)))"

text \<open>What follows the last colon, or everything.\<close>
definition ShortenTemplateID :: "string \<Rightarrow> string" where
  "ShortenTemplateID templateID = rev (takeWhile (\<lambda>c. c \<noteq> CHR '':'') (rev templateID))"

text \<open>How many full and how many empty cells a bar has; \<open>None\<close> is the panic of \<open>strings.Repeat\<close> on a
  negative count.\<close>
definition BuildProgressBar :: "int \<Rightarrow> int \<Rightarrow> (nat \<times> nat) option" where
  "BuildProgressBar percent width =
     (let percent = (if percent < 0 then 0 else percent);
          percent = (if percent > 100 then 100 else percent);
          filled = (percent * width) sdiv 100
      in if filled < 0 \<or> width - filled < 0 then None else Some (nat filled, nat (width - filled)))"

datatype indicator = Tick | Play | Circle | Cross | Question

definition GetStepIndicator :: "string \<Rightarrow> indicator" where
  "GetStepIndicator status =
     (if strings_Contains status ''DONE'' then Tick
      else if strings_Contains status ''RUNNING'' \<or> strings_Contains status ''STARTED'' then Play
      else if strings_Contains status ''PENDING'' then Circle
      else if strings_Contains status ''ERROR'' \<or> strings_Contains status ''COMPENSATION'' then Cross
      else Question)"

definition IsStepRunning :: "string \<Rightarrow> bool" where
  "IsStepRunning status = (strings_Contains status ''RUNNING'' \<or> strings_Contains status ''STARTED'')"

definition IsStepDone :: "string \<Rightarrow> bool" where
  "IsStepDone status =
     (strings_Contains status ''DONE'' \<or> strings_Contains status ''ERROR'' \<or> strings_Contains status ''COMPENSATION'')"

definition IsStepPending :: "string \<Rightarrow> bool" where
  "IsStepPending status = strings_Contains status ''PENDING''"

definition IsStepExecutionFailed :: "string \<Rightarrow> bool" where
  "IsStepExecutionFailed status = strings_Contains status ''EXECUTION_FAILED''"

definition IsTerminalState :: "string \<Rightarrow> bool" where
  "IsTerminalState state = (ShortenSagaState state \<in> {''COMMITTED'', ''COMPENSATED'', ''BLOCKED'', ''INVALID_STATE''})"

definition IsSuccessState :: "string \<Rightarrow> bool" where
  "IsSuccessState state = (ShortenSagaState state = ''COMMITTED'')"

definition IsFailureState :: "string \<Rightarrow> bool" where
  "IsFailureState state = (ShortenSagaState state \<in> {''COMPENSATED'', ''BLOCKED'', ''INVALID_STATE''})"

section \<open>Types (types.go)\<close>

text \<open>Results are the JSON text the control daemon sends.\<close>
record StepStatus =
  Sts_StepInstanceID :: string
  Sts_StepTemplateID :: string
  Sts_Status :: string
  Sts_Result :: string
  Sts_CompensationResult :: string
  Sts_ExecutionError :: string

record ChildSagaInfo =
  Chi_SagaInstanceID :: string
  Chi_SagaTemplateID :: string
  Chi_State :: string
  Chi_ParentStepInstanceID :: string
  Chi_Steps :: "StepStatus list"

record StepSummary =
  Sum_Total :: nat
  Sum_Completed :: nat
  Sum_Pending :: nat
  Sum_Failed :: nat
  Sum_ByState :: "string \<Rightarrow> nat"

record SagaStatus =
  Sgs_SagaInstanceID :: string
  Sgs_Status :: string
  Sgs_SagaTemplateID :: string
  Sgs_StepSummary :: StepSummary
  Sgs_StepStatuses :: "StepStatus list"
  Sgs_ChildSagasByStep :: "(string \<times> ChildSagaInfo list) list"

record StepTiming =
  Stt_StartTime :: "int option"
  Stt_EndTime :: "int option"
  Stt_Duration :: int
  Stt_IsCompleted :: bool

record Timing =
  Tim_SagaStartTime :: int
  Tim_StateStartTime :: int
  Tim_LastState :: string
  Tim_StepTimings :: "string \<rightharpoonup> StepTiming"

definition NewTiming :: "int \<Rightarrow> Timing" where
  "NewTiming now = \<lparr>Tim_SagaStartTime = now, Tim_StateStartTime = now, Tim_LastState = '''', Tim_StepTimings = Map.empty\<rparr>"

record display_config =
  Dc_WindowSize :: int
  Dc_ProgressBarWidth :: int

definition DefaultConfig :: display_config where
  "DefaultConfig = \<lparr>Dc_WindowSize = 5, Dc_ProgressBarWidth = 20\<rparr>"

section \<open>Timings, summary and key (display.go)\<close>

definition zeroStepTiming :: StepTiming where
  "zeroStepTiming = \<lparr>Stt_StartTime = None, Stt_EndTime = None, Stt_Duration = 0, Stt_IsCompleted = False\<rparr>"

definition updateStepTiming :: "int \<Rightarrow> string \<Rightarrow> StepTiming \<Rightarrow> StepTiming" where
  "updateStepTiming now status t =
     (let t1 = (if IsStepRunning status \<and> Stt_StartTime t = None then t\<lparr>Stt_StartTime := Some now\<rparr> else t)
      in if IsStepDone status \<and> \<not> Stt_IsCompleted t1
         then t1\<lparr>Stt_EndTime := Some now, Stt_IsCompleted := True,
                 Stt_Duration := (case Stt_StartTime t1 of Some s \<Rightarrow> now - s | None \<Rightarrow> Stt_Duration t1)\<rparr>
         else t1)"

definition UpdateStepTimings :: "int \<Rightarrow> StepStatus list \<Rightarrow> Timing \<Rightarrow> Timing" where
  "UpdateStepTimings now steps timing =
     fold (\<lambda>step tm.
        let t = (case Tim_StepTimings tm (Sts_StepTemplateID step) of Some t \<Rightarrow> t | None \<Rightarrow> zeroStepTiming)
        in tm\<lparr>Tim_StepTimings := (Tim_StepTimings tm)(Sts_StepTemplateID step \<mapsto> updateStepTiming now (Sts_Status step) t)\<rparr>)
       steps timing"

definition UpdateStateTracking :: "int \<Rightarrow> string \<Rightarrow> Timing \<Rightarrow> Timing" where
  "UpdateStateTracking now status timing =
     (if Tim_LastState timing \<noteq> status then timing\<lparr>Tim_StateStartTime := now, Tim_LastState := status\<rparr> else timing)"

definition countStep :: "StepStatus \<Rightarrow> StepSummary \<Rightarrow> StepSummary" where
  "countStep step s =
     (let s1 = s\<lparr>Sum_ByState := (Sum_ByState s)(Sts_Status step := Sum_ByState s (Sts_Status step) + 1)\<rparr>
      in if strings_Contains (Sts_Status step) ''DONE'' then s1\<lparr>Sum_Completed := Sum_Completed s1 + 1\<rparr>
         else if strings_Contains (Sts_Status step) ''PENDING'' then s1\<lparr>Sum_Pending := Sum_Pending s1 + 1\<rparr>
         else if strings_Contains (Sts_Status step) ''ERROR'' \<or> strings_Contains (Sts_Status step) ''COMPENSATION''
         then s1\<lparr>Sum_Failed := Sum_Failed s1 + 1\<rparr>
         else s1)"

definition BuildSagaStatus :: "string \<Rightarrow> string \<Rightarrow> string \<Rightarrow> StepStatus list \<Rightarrow> SagaStatus" where
  "BuildSagaStatus sagaInstanceID templateID status steps =
     \<lparr>Sgs_SagaInstanceID = sagaInstanceID, Sgs_Status = status, Sgs_SagaTemplateID = templateID,
      Sgs_StepSummary = fold countStep steps \<lparr>Sum_Total = length steps, Sum_Completed = 0, Sum_Pending = 0,
        Sum_Failed = 0, Sum_ByState = (\<lambda>_. 0)\<rparr>,
      Sgs_StepStatuses = steps, Sgs_ChildSagasByStep = []\<rparr>"

text \<open>The verb \<open>%v\<close> on a slice of strings.\<close>
definition sliceText :: "string list \<Rightarrow> string" where
  "sliceText xs = ''['' @ strings_Join xs '' '' @ '']''"

definition childKey :: "string \<Rightarrow> ChildSagaInfo \<Rightarrow> string" where
  "childKey stepID child =
     take 8 stepID @ '':'' @ ShortenSagaState (Chi_State child) @ '':'' @
     digits (length (filter (\<lambda>cs. IsStepDone (Sts_Status cs)) (Chi_Steps child))) @ ''/'' @
     digits (length (Chi_Steps child))"

text \<open>The children are a Go map; its random order does not show, as the keys are sorted.\<close>
definition BuildStateKey :: "SagaStatus \<Rightarrow> string" where
  "BuildStateKey status =
     (let running = map (\<lambda>s. ShortenTemplateID (Sts_StepTemplateID s))
            (filter (\<lambda>s. IsStepRunning (Sts_Status s)) (Sgs_StepStatuses status));
          runningKey = (if running \<noteq> [] then ''-running:'' @ sliceText running else '''');
          children = concat (map (\<lambda>(stepID, cs). map (childKey stepID) cs) (Sgs_ChildSagasByStep status));
          childrenKey = (if Sgs_ChildSagasByStep status \<noteq> [] then ''-children:'' @ sliceText (sort children) else '''')
      in Sgs_Status status @ ''-'' @ digits (Sum_Completed (Sgs_StepSummary status)) @ ''-'' @
         digits (Sum_Pending (Sgs_StepSummary status)) @ ''-'' @ digits (Sum_Failed (Sgs_StepSummary status)) @
         runningKey @ childrenKey)"

section \<open>The window of steps (display.go)\<close>

definition findCurrentStepIndex :: "SagaStatus \<Rightarrow> int" where
  "findCurrentStepIndex status =
     (case find_index (\<lambda>s. IsStepRunning (Sts_Status s)) (Sgs_StepStatuses status) of
        Some i \<Rightarrow> int i
      | None \<Rightarrow> (case find_index (\<lambda>s. IsStepPending (Sts_Status s)) (Sgs_StepStatuses status) of
            Some i \<Rightarrow> int i
          | None \<Rightarrow> max 0 (int (Sum_Completed (Sgs_StepSummary status)) - 1)))"

definition calculateWindow :: "display_config \<Rightarrow> int \<Rightarrow> int \<Rightarrow> int \<times> int" where
  "calculateWindow config currentIdx totalSteps =
     (let windowSize = Dc_WindowSize config
      in if windowSize = 0 then (0, totalSteps)
         else let halfWindow = (windowSize - 1) sdiv 2;
                  startIdx = currentIdx - halfWindow;
                  endIdx = currentIdx + halfWindow + 1 + (windowSize - 1) smod 2;
                  (startIdx, endIdx) = (if startIdx < 0 then (0, endIdx - startIdx) else (startIdx, endIdx));
                  (startIdx, endIdx) = (if endIdx > totalSteps then (startIdx - (endIdx - totalSteps), totalSteps)
                                        else (startIdx, endIdx));
                  startIdx = (if startIdx < 0 then 0 else startIdx)
              in (startIdx, endIdx))"

text \<open>The first step that failed in its execution, else the first with an error.\<close>
definition rootCause :: "StepStatus list \<Rightarrow> (string \<times> string) option" where
  "rootCause steps =
     (let named = (\<lambda>s. (ShortenTemplateID (Sts_StepTemplateID s), Sts_ExecutionError s))
      in case find (\<lambda>s. Sts_ExecutionError s \<noteq> '''' \<and> IsStepExecutionFailed (Sts_Status s)) steps of
           Some s \<Rightarrow> Some (named s)
         | None \<Rightarrow> map_option named (find (\<lambda>s. Sts_ExecutionError s \<noteq> '''') steps))"

text \<open>Whether the index of a window is in range is the reader's question: an index outside the steps, or a negative
  count of cells, is a panic (\<open>None\<close>).  The lines carry the data they print; times are left out.\<close>
datatype status_line =
    ReportHead string nat nat int "nat \<times> nat"
  | TemplateLine string string
  | StepsBefore int
  | StepLine int StepStatus "ChildSagaInfo list"
  | StepsAfter int

definition progressPct :: "StepSummary \<Rightarrow> int" where
  "progressPct s = (if Sum_Total s > 0 then int (Sum_Completed s) * 100 sdiv int (Sum_Total s) else 0)"

definition childrenOf :: "SagaStatus \<Rightarrow> string \<Rightarrow> ChildSagaInfo list" where
  "childrenOf status stepID = (case map_of (Sgs_ChildSagasByStep status) stepID of Some cs \<Rightarrow> cs | None \<Rightarrow> [])"

definition stepLine :: "SagaStatus \<Rightarrow> int \<Rightarrow> status_line option" where
  "stepLine status i =
     (if 0 \<le> i \<and> i < int (length (Sgs_StepStatuses status))
      then let step = Sgs_StepStatuses status ! nat i
           in Some (StepLine i step (childrenOf status (Sts_StepInstanceID step)))
      else None)"

definition PrintStatusOpen :: "display_config \<Rightarrow> SagaStatus \<Rightarrow> status_line list option" where
  "PrintStatusOpen config status =
     (let summary = Sgs_StepSummary status;
          n = int (length (Sgs_StepStatuses status));
          (startIdx, endIdx) = calculateWindow config (findCurrentStepIndex status) n
      in case BuildProgressBar (progressPct summary) (Dc_ProgressBarWidth config) of
           None \<Rightarrow> None
         | Some bar \<Rightarrow>
             (let shown = map (stepLine status) [startIdx..endIdx - 1]
              in if None \<in> set shown then None
                 else Some ([ReportHead (ShortenSagaState (Sgs_Status status)) (Sum_Completed summary) (Sum_Total summary)
                              (progressPct summary) bar]
                        @ (if Sgs_SagaTemplateID status \<noteq> '''' then [TemplateLine (Sgs_SagaTemplateID status) (Sgs_SagaInstanceID status)] else [])
                        @ (if startIdx > 0 then [StepsBefore startIdx] else [])
                        @ map the shown
                        @ (if endIdx < n then [StepsAfter (n - endIdx)] else []))))"

text \<open>The step a heartbeat names.\<close>
definition heartbeatStep :: "SagaStatus \<Rightarrow> string option" where
  "heartbeatStep status =
     map_option (\<lambda>s. ShortenTemplateID (Sts_StepTemplateID s)) (find (\<lambda>s. IsStepRunning (Sts_Status s)) (Sgs_StepStatuses status))"

section \<open>States on the wire\<close>

lemma terminal_states:
  "IsTerminalState (sagaStateString s) =
     (s \<in> {SagaStateEnum_Committed, SagaStateEnum_Compensated, SagaStateEnum_Blocked, SagaStateEnum_InvalidState})"
  by (cases s) (simp_all add: IsTerminalState_def ShortenSagaState_def stripPrefix_def)

lemma success_states: "IsSuccessState (sagaStateString s) = (s = SagaStateEnum_Committed)"
  by (cases s) (simp_all add: IsSuccessState_def ShortenSagaState_def stripPrefix_def)

lemma success_is_terminal: "IsSuccessState st \<Longrightarrow> IsTerminalState st"
  by (simp add: IsSuccessState_def IsTerminalState_def)

lemma terminal_split: "IsTerminalState st = (IsSuccessState st \<or> IsFailureState st)"
  by (auto simp: IsSuccessState_def IsTerminalState_def IsFailureState_def)

lemma not_success_and_failure: "\<not> (IsSuccessState st \<and> IsFailureState st)"
  by (auto simp: IsSuccessState_def IsFailureState_def)

lemma step_classes:
  "strings_Contains (sagaStepStateString s) ''DONE'' =
     (s \<in> {SagaStepStateEnum_ExecutionDone, SagaStepStateEnum_CompensationDone})"
  "strings_Contains (sagaStepStateString s) ''PENDING'' =
     (s \<in> {SagaStepStateEnum_ExecutionPending, SagaStepStateEnum_CompensationPending})"
  "strings_Contains (sagaStepStateString s) ''RUNNING'' =
     (s \<in> {SagaStepStateEnum_ExecutionRunning, SagaStepStateEnum_CompensationRunning})"
  "strings_Contains (sagaStepStateString s) ''COMPENSATION'' =
     (s \<in> {SagaStepStateEnum_CompensationPending, SagaStepStateEnum_CompensationCandidate,
           SagaStepStateEnum_CompensationRunning, SagaStepStateEnum_CompensationSucceeded,
           SagaStepStateEnum_CompensationDone, SagaStepStateEnum_CompensationFailed,
           SagaStepStateEnum_CompensationBlocked})"
  "\<not> strings_Contains (sagaStepStateString s) ''ERROR''"
  "\<not> strings_Contains (sagaStepStateString s) ''STARTED''"
  by (cases s; simp add: startsWith_def)+

section \<open>The summary\<close>

definition reads_completed :: "string \<Rightarrow> bool" where
  "reads_completed st = strings_Contains st ''DONE''"

definition reads_pending :: "string \<Rightarrow> bool" where
  "reads_pending st = (\<not> reads_completed st \<and> strings_Contains st ''PENDING'')"

definition reads_failed :: "string \<Rightarrow> bool" where
  "reads_failed st = (\<not> reads_completed st \<and> \<not> reads_pending st \<and>
     (strings_Contains st ''ERROR'' \<or> strings_Contains st ''COMPENSATION''))"

lemmas reads_defs = reads_completed_def reads_pending_def reads_failed_def

lemma fold_countStep:
  "Sum_Total (fold countStep steps s) = Sum_Total s"
  "Sum_Completed (fold countStep steps s) = Sum_Completed s + length (filter (reads_completed \<circ> Sts_Status) steps)"
  "Sum_Pending (fold countStep steps s) = Sum_Pending s + length (filter (reads_pending \<circ> Sts_Status) steps)"
  "Sum_Failed (fold countStep steps s) = Sum_Failed s + length (filter (reads_failed \<circ> Sts_Status) steps)"
  "Sum_ByState (fold countStep steps s) st = Sum_ByState s st + length (filter (\<lambda>x. Sts_Status x = st) steps)"
  by (induction steps arbitrary: s; simp add: countStep_def reads_defs Let_def)+

lemma summary_counts:
  "Sum_Total (Sgs_StepSummary (BuildSagaStatus i t st steps)) = length steps"
  "Sum_Completed (Sgs_StepSummary (BuildSagaStatus i t st steps)) = length (filter (reads_completed \<circ> Sts_Status) steps)"
  "Sum_Pending (Sgs_StepSummary (BuildSagaStatus i t st steps)) = length (filter (reads_pending \<circ> Sts_Status) steps)"
  "Sum_Failed (Sgs_StepSummary (BuildSagaStatus i t st steps)) = length (filter (reads_failed \<circ> Sts_Status) steps)"
  "Sum_ByState (Sgs_StepSummary (BuildSagaStatus i t st steps)) x = length (filter (\<lambda>s. Sts_Status s = x) steps)"
  by (simp_all add: BuildSagaStatus_def fold_countStep)

lemma steps_of_status [simp]:
  "Sgs_StepStatuses (BuildSagaStatus i t st steps) = steps" "Sgs_Status (BuildSagaStatus i t st steps) = st"
  by (simp_all add: BuildSagaStatus_def)

section \<open>The window and the bar\<close>

lemma find_index_less: "find_index P xs = Some i \<Longrightarrow> i < length xs"
  using find_index_Some[of P xs i] by simp

lemma current_step_in_range:
  assumes "Sum_Completed (Sgs_StepSummary status) \<le> length (Sgs_StepStatuses status)" "Sgs_StepStatuses status \<noteq> []"
  shows "0 \<le> findCurrentStepIndex status" "findCurrentStepIndex status < int (length (Sgs_StepStatuses status))"
  using assms by (auto simp: findCurrentStepIndex_def find_index_less split: option.splits)

lemma window_bounds:
  assumes "0 \<le> Dc_WindowSize config" "0 \<le> cur" "cur < n" "calculateWindow config cur n = (a, b)"
  shows "0 \<le> a" "b \<le> n" "a \<le> cur" "cur < b"
    "b - a = (if Dc_WindowSize config = 0 then n else min (Dc_WindowSize config) n)"
proof -
  define w where "w = Dc_WindowSize config"
  have half: "w \<noteq> 0 \<Longrightarrow> (w - 1) sdiv 2 = (w - 1) div 2" "w \<noteq> 0 \<Longrightarrow> (w - 1) smod 2 = (w - 1) mod 2"
    using assms(1) by (auto simp: w_def signed_divide_int_def signed_modulo_int_def sgn_if)
  have eq: "calculateWindow config cur n =
      (if w = 0 then (0, n)
       else let h = (w - 1) div 2; s0 = cur - h; e0 = cur + h + 1 + (w - 1) mod 2;
                (s1, e1) = (if s0 < 0 then (0, e0 - s0) else (s0, e0));
                (s2, e2) = (if e1 > n then (s1 - (e1 - n), n) else (s1, e1))
            in (if s2 < 0 then 0 else s2, e2))"
    using half by (simp add: calculateWindow_def w_def Let_def)
  have w: "w - 1 = 2 * ((w - 1) div 2) + (w - 1) mod 2" "0 \<le> (w - 1) mod 2" "(w - 1) mod 2 \<le> 1" "0 \<le> w"
    using assms(1) by (auto simp: w_def)
  obtain h m where hm: "(w - 1) div 2 = h" "(w - 1) mod 2 = m" by blast
  show "0 \<le> a" "b \<le> n" "a \<le> cur" "cur < b" "b - a = (if Dc_WindowSize config = 0 then n else min (Dc_WindowSize config) n)"
    using assms(2-4) w unfolding eq hm w_def[symmetric] Let_def
    by (auto split: if_splits)
qed

lemma window_empty: "0 \<le> Dc_WindowSize config \<Longrightarrow> calculateWindow config 0 0 = (0, 0)"
  by (auto simp: calculateWindow_def Let_def signed_divide_int_def signed_modulo_int_def sgn_if)

lemma bar_cells:
  assumes "0 \<le> width"
  shows "\<exists>full empty. BuildProgressBar percent width = Some (full, empty) \<and> int full + int empty = width"
proof -
  let ?p = "max 0 (min 100 percent)"
  have "0 \<le> ?p * width" "?p * width \<le> 100 * width" using assms by (auto simp: mult_right_mono)
  then have "0 \<le> ?p * width sdiv 100" "?p * width sdiv 100 \<le> width"
    by (auto simp: signed_divide_int_def sgn_if)
  moreover have "(let percent = if percent < 0 then 0 else percent in if percent > 100 then 100 else percent) = ?p"
    by (auto simp: Let_def)
  ultimately show ?thesis by (auto simp: BuildProgressBar_def Let_def split: if_splits)
qed

lemma percent_range:
  assumes "Sum_Completed s \<le> Sum_Total s"
  shows "0 \<le> progressPct s" "progressPct s \<le> 100" "progressPct s = 100 \<longleftrightarrow> Sum_Total s > 0 \<and> Sum_Completed s = Sum_Total s"
proof -
  let ?c = "int (Sum_Completed s)" and ?t = "int (Sum_Total s)"
  have pct: "progressPct s = (if ?t > 0 then (?c * 100) div ?t else 0)"
    by (auto simp: progressPct_def signed_divide_int_def sgn_if)
  have le: "?c * 100 \<le> ?t * 100" using assms by simp
  show "0 \<le> progressPct s" by (simp add: pct pos_imp_zdiv_nonneg_iff)
  show "progressPct s \<le> 100"
    using zdiv_mono1[OF le, of ?t] by (simp add: pct)
  show "progressPct s = 100 \<longleftrightarrow> Sum_Total s > 0 \<and> Sum_Completed s = Sum_Total s"
  proof (cases "?t > 0")
    case True
    have "?t * ((?c * 100) div ?t) \<le> ?c * 100"
      using mult_div_mod_eq[of ?t "?c * 100"] pos_mod_sign[OF True, of "?c * 100"] by linarith
    then show ?thesis using True assms by (auto simp: pct)
  qed (simp add: pct)
qed

lemma completed_le: "Sum_Completed (Sgs_StepSummary (BuildSagaStatus i t st steps)) \<le> length steps"
  by (simp add: summary_counts)

lemma shown_in_range:
  assumes "0 \<le> a" "b \<le> int (length (Sgs_StepStatuses status))"
  shows "None \<notin> set (map (stepLine status) [a..b - 1])"
  using assms by (auto simp: stepLine_def Let_def)

fun stepsShown :: "status_line list \<Rightarrow> StepStatus list" where
  "stepsShown [] = []"
| "stepsShown (StepLine _ s _ # ls) = s # stepsShown ls"
| "stepsShown (_ # ls) = stepsShown ls"

lemma stepsShown_append [simp]: "stepsShown (xs @ ys) = stepsShown xs @ stepsShown ys"
  by (induction xs rule: stepsShown.induct) auto

lemma shown_steps:
  assumes "0 \<le> a" "a \<le> b" "b \<le> int (length (Sgs_StepStatuses status))"
  shows "stepsShown (map (\<lambda>i. the (stepLine status i)) [a..b - 1]) =
    take (nat (b - a)) (drop (nat a) (Sgs_StepStatuses status))"
  using assms
proof (induction "nat (b - a)" arbitrary: a)
  case (Suc k)
  then have lt: "a < b" by simp
  have k: "nat (b - (a + 1)) = k" "nat (a + 1) = Suc (nat a)" "nat (b - a) = Suc k" using Suc by auto
  have len: "nat a < length (Sgs_StepStatuses status)" using Suc.prems lt by linarith
  show ?case
    using Suc.hyps(1)[of "a + 1"] Suc.prems lt k len
    by (simp add: upto_rec1 stepLine_def Let_def Cons_nth_drop_Suc[symmetric])
qed simp

section \<open>Properties\<close>

text \<open>The report of a saga never indexes outside its steps and never panics: for a window of at least zero
  and a bar of at least zero cells, the window lies within the steps, is as wide as configured (or as there
  are steps), contains the current step, and the report shows exactly the steps of the window.\<close>
lemma status_report_in_bounds:
  assumes "0 \<le> Dc_WindowSize config" "0 \<le> Dc_ProgressBarWidth config"
    and "status = BuildSagaStatus sagaID templateID st steps"
    and "calculateWindow config (findCurrentStepIndex status) (int (length steps)) = (a, b)"
  shows "0 \<le> a \<and> a \<le> b \<and> b \<le> int (length steps)
    \<and> b - a = (if Dc_WindowSize config = 0 then int (length steps) else min (Dc_WindowSize config) (int (length steps)))
    \<and> (steps \<noteq> [] \<longrightarrow> a \<le> findCurrentStepIndex status \<and> findCurrentStepIndex status < b)
    \<and> (\<exists>ls. PrintStatusOpen config status = Some ls \<and> stepsShown ls = take (nat (b - a)) (drop (nat a) steps))"
proof -
  have bounds: "0 \<le> a \<and> a \<le> b \<and> b \<le> int (length steps)
    \<and> b - a = (if Dc_WindowSize config = 0 then int (length steps) else min (Dc_WindowSize config) (int (length steps)))
    \<and> (steps \<noteq> [] \<longrightarrow> a \<le> findCurrentStepIndex status \<and> findCurrentStepIndex status < b)"
  proof (cases "steps = []")
    case True
    then have "findCurrentStepIndex status = 0"
      by (simp add: assms(3) findCurrentStepIndex_def summary_counts)
    then have "a = 0" "b = 0" using assms(4) True window_empty[OF assms(1)] by simp_all
    then show ?thesis using True assms(1) by auto
  next
    case False
    then have cur: "0 \<le> findCurrentStepIndex status" "findCurrentStepIndex status < int (length steps)"
      using current_step_in_range[of status] completed_le[of sagaID templateID st steps] by (simp_all add: assms(3))
    show ?thesis using window_bounds[OF assms(1) cur assms(4)] by auto
  qed
  obtain full rest where bar: "BuildProgressBar (progressPct (Sgs_StepSummary status)) (Dc_ProgressBarWidth config) = Some (full, rest)"
    using bar_cells[OF assms(2)] by blast
  have "Sgs_StepStatuses status = steps" by (simp add: assms(3))
  then show ?thesis
    using bounds assms(4) bar shown_in_range[of a b status] shown_steps[of a b status]
    by (auto simp: PrintStatusOpen_def Let_def comp_def)
qed

text \<open>What the summary of a saga's steps counts.  Completed are the steps whose execution or whose compensation
  is done, pending those that wait for either, failed those on their way through a compensation; a step whose
  execution failed, is blocked or was aborted is in none of the three.  A saga with a step is shown at 100 % exactly
  if every step of it is in one of the two DONE states: a saga that has been rolled back completely reads as
  completely executed.\<close>
lemma summary_reads_states:
  assumes "map Sts_Status steps = map sagaStepStateString states"
    and "sm = Sgs_StepSummary (BuildSagaStatus sagaID templateID st steps)"
  shows "Sum_Total sm = length states
    \<and> Sum_Completed sm = length (filter (\<lambda>x. x \<in> {SagaStepStateEnum_ExecutionDone, SagaStepStateEnum_CompensationDone}) states)
    \<and> Sum_Pending sm = length (filter (\<lambda>x. x \<in> {SagaStepStateEnum_ExecutionPending, SagaStepStateEnum_CompensationPending}) states)
    \<and> Sum_Failed sm = length (filter (\<lambda>x. x \<in> {SagaStepStateEnum_CompensationCandidate, SagaStepStateEnum_CompensationRunning,
         SagaStepStateEnum_CompensationSucceeded, SagaStepStateEnum_CompensationFailed, SagaStepStateEnum_CompensationBlocked}) states)
    \<and> (progressPct sm = 100 \<longleftrightarrow> states \<noteq> [] \<and>
         set states \<subseteq> {SagaStepStateEnum_ExecutionDone, SagaStepStateEnum_CompensationDone})"
proof -
  have len: "length steps = length states" using assms(1) by (metis length_map)
  have count: "length (filter (P \<circ> Sts_Status) steps) = length (filter (P \<circ> sagaStepStateString) states)" for P
    using assms(1) by (metis filter_map length_map)
  have reads:
    "reads_completed (sagaStepStateString x) = (x \<in> {SagaStepStateEnum_ExecutionDone, SagaStepStateEnum_CompensationDone})"
    "reads_pending (sagaStepStateString x) = (x \<in> {SagaStepStateEnum_ExecutionPending, SagaStepStateEnum_CompensationPending})"
    "reads_failed (sagaStepStateString x) = (x \<in> {SagaStepStateEnum_CompensationCandidate, SagaStepStateEnum_CompensationRunning,
         SagaStepStateEnum_CompensationSucceeded, SagaStepStateEnum_CompensationFailed, SagaStepStateEnum_CompensationBlocked})" for x
    by (auto simp: reads_defs step_classes)
  have counts: "Sum_Total sm = length states"
    "Sum_Completed sm = length (filter (\<lambda>x. x \<in> {SagaStepStateEnum_ExecutionDone, SagaStepStateEnum_CompensationDone}) states)"
    "Sum_Pending sm = length (filter (\<lambda>x. x \<in> {SagaStepStateEnum_ExecutionPending, SagaStepStateEnum_CompensationPending}) states)"
    "Sum_Failed sm = length (filter (\<lambda>x. x \<in> {SagaStepStateEnum_CompensationCandidate, SagaStepStateEnum_CompensationRunning,
         SagaStepStateEnum_CompensationSucceeded, SagaStepStateEnum_CompensationFailed, SagaStepStateEnum_CompensationBlocked}) states)"
    unfolding assms(2) summary_counts len count by (simp_all add: comp_def reads)
  have "progressPct sm = 100 \<longleftrightarrow> Sum_Total sm > 0 \<and> Sum_Completed sm = Sum_Total sm"
    by (rule percent_range) (simp add: counts)
  moreover have "length (filter P states) = length states \<longleftrightarrow> (\<forall>x \<in> set states. P x)" for P
    using length_filter_less[of _ states P] by (metis filter_True nat_less_le)
  ultimately show ?thesis using counts by (auto simp: subset_iff)
qed

section \<open>Examples\<close>

definition exStep :: "string \<Rightarrow> SagaStepStateEnum \<Rightarrow> StepStatus" where
  "exStep tid s = \<lparr>Sts_StepInstanceID = tid, Sts_StepTemplateID = tid, Sts_Status = sagaStepStateString s,
     Sts_Result = '''', Sts_CompensationResult = '''', Sts_ExecutionError = ''''\<rparr>"

definition exSteps :: "StepStatus list" where
  "exSteps = [exStep ''a'' SagaStepStateEnum_ExecutionDone, exStep ''b'' SagaStepStateEnum_ExecutionRunning,
     exStep ''c'' SagaStepStateEnum_ExecutionPending, exStep ''d'' SagaStepStateEnum_ExecutionPending]"

lemma status_report_example:
  "\<exists>ls. PrintStatusOpen \<lparr>Dc_WindowSize = 3, Dc_ProgressBarWidth = 20\<rparr> (BuildSagaStatus ''g'' ''t'' ''st'' exSteps) = Some ls
     \<and> stepsShown ls = take 3 exSteps"
proof -
  let ?c = "\<lparr>Dc_WindowSize = 3, Dc_ProgressBarWidth = 20\<rparr>"
  let ?s = "BuildSagaStatus ''g'' ''t'' ''st'' exSteps"
  have "calculateWindow ?c (findCurrentStepIndex ?s) (int (length exSteps)) = (0, 3)" by code_simp
  from status_report_in_bounds[OF _ _ refl this] show ?thesis by simp
qed

lemma rolled_back_reads_complete:
  "progressPct (Sgs_StepSummary (BuildSagaStatus ''g'' ''t'' ''SAGA_STATE_ENUM_COMPENSATED''
     [exStep ''a'' SagaStepStateEnum_CompensationDone, exStep ''b'' SagaStepStateEnum_CompensationDone])) = 100"
  using summary_reads_states[of "[exStep ''a'' SagaStepStateEnum_CompensationDone, exStep ''b'' SagaStepStateEnum_CompensationDone]"
      "[SagaStepStateEnum_CompensationDone, SagaStepStateEnum_CompensationDone]", OF _ refl]
  by (simp add: exStep_def)

end
