(* ===== verification/Saga_Watch.thy ===== *)
theory Saga_Watch
  imports Watch_Status
begin

text \<open>
  The watcher of a saga (\<open>pkg/trax/watch/watcher.go\<close>).  Each turn of a loop is an input: the clock at the
  loop condition, what the fetcher answered, the clock when the answer is handled and when the time since
  the last print is taken, and what the child fetcher answered.  The turn in which the deadline has passed
  gives the final fetch.  The clock of a turn does not go back within it.
\<close>

section \<open>Configuration and results\<close>

record WatcherConfig =
  Wc_Timeout :: int
  Wc_PollInterval :: int
  Wc_NotFoundTimeout :: int
  Wc_HeartbeatInterval :: int
  Wc_DisplayConfig :: display_config
  Wc_ChildSagaFetcher :: bool

definition DefaultWatcherConfig :: WatcherConfig where
  "DefaultWatcherConfig = \<lparr>Wc_Timeout = 10 * 60 * 1000000000, Wc_PollInterval = 2 * 1000000000,
     Wc_NotFoundTimeout = 60 * 1000000000, Wc_HeartbeatInterval = 10 * 1000000000,
     Wc_DisplayConfig = DefaultConfig, Wc_ChildSagaFetcher = False\<rparr>"

datatype watch_error = NotFoundFor int | WasCompensated | HasFailed string | TimedOut int string

record WatchResult =
  Wr_FinalStatus :: string
  Wr_Steps :: "StepStatus list"
  Wr_CompensationReason :: string
  Wr_Success :: bool
  Wr_Error :: "watch_error option"

definition emptyWatchResult :: WatchResult where
  "emptyWatchResult = \<lparr>Wr_FinalStatus = '''', Wr_Steps = [], Wr_CompensationReason = '''', Wr_Success = False, Wr_Error = None\<rparr>"

record fetched =
  Ft_Status :: string
  Ft_TemplateID :: string
  Ft_Steps :: "StepStatus list"
  Ft_CompensationReason :: string

record watch_turn =
  tn_head :: int
  tn_fetch :: "fetched result"
  tn_seen :: int
  tn_since :: int
  tn_children :: "ChildSagaInfo list result"

text \<open>The calls on the display.\<close>
datatype display_call =
    Header string string
  | NotFoundLine int
  | ErrorLine string
  | StatusOpen SagaStatus
  | StatusClose
  | Heartbeat SagaStatus
  | SuccessLine
  | CompensatedLine string "(string \<times> string) option"
  | FailureLine string "(string \<times> string) option"
  | FinalResults "StepStatus list" "(string \<times> ChildSagaInfo list) list"
  | TimeoutLine int string

record watch_state =
  ws_firstNotFound :: "int option"
  ws_lastStateKey :: string
  ws_lastPrint :: int
  ws_headerPrinted :: bool
  ws_borderOpen :: bool
  ws_timing :: Timing
  ws_calls :: "display_call list"

definition newWatch :: "Timing \<Rightarrow> watch_state" where
  "newWatch timing = \<lparr>ws_firstNotFound = None, ws_lastStateKey = '''', ws_lastPrint = 0, ws_headerPrinted = False,
     ws_borderOpen = False, ws_timing = timing, ws_calls = []\<rparr>"

definition say :: "display_call \<Rightarrow> watch_state \<Rightarrow> watch_state" where
  "say c s = s\<lparr>ws_calls := ws_calls s @ [c]\<rparr>"

definition closeBorder :: "watch_state \<Rightarrow> watch_state" where
  "closeBorder s = (if ws_borderOpen s then (say StatusClose s)\<lparr>ws_borderOpen := False\<rparr> else s)"

definition printHeader :: "string \<Rightarrow> string \<Rightarrow> watch_state \<Rightarrow> watch_state" where
  "printHeader sagaID templateID s =
     (if ws_headerPrinted s then s else (say (Header sagaID templateID) s)\<lparr>ws_headerPrinted := True\<rparr>)"

section \<open>Not found\<close>

text \<open>The first position of the substring, \<open>-1\<close> if there is none.\<close>
definition findSubstring :: "string \<Rightarrow> string \<Rightarrow> int" where
  "findSubstring s substr =
     (if length s < length substr then - 1
      else case find_index (\<lambda>i. take (length substr) (drop i s) = substr) [0..<length s - length substr + 1] of
             Some i \<Rightarrow> int i
           | None \<Rightarrow> - 1)"

definition watch_contains :: "string \<Rightarrow> string \<Rightarrow> bool" where
  "watch_contains s substr =
     (length s \<ge> length substr \<and> (s = substr \<or> length substr = 0 \<or>
        (length s > 0 \<and> length substr > 0 \<and> findSubstring s substr \<ge> 0)))"

definition isNotFoundError :: "string \<Rightarrow> bool" where
  "isNotFoundError e = (watch_contains e ''404'' \<or> watch_contains e ''not found'')"

text \<open>A failed fetch: the result if the saga has been missing for too long, else the state to go on with.\<close>
definition fetchFailed ::
    "WatcherConfig \<Rightarrow> string \<Rightarrow> watch_turn \<Rightarrow> string \<Rightarrow> watch_state \<Rightarrow> WatchResult option \<times> watch_state" where
  "fetchFailed cfg sagaID t e s =
     (if isNotFoundError e then
        let s1 = (if ws_firstNotFound s = None
                  then say (NotFoundLine (Wc_NotFoundTimeout cfg)) (printHeader sagaID '''' (s\<lparr>ws_firstNotFound := Some (tn_seen t)\<rparr>))
                  else s)
        in if tn_since t - the (ws_firstNotFound s1) > Wc_NotFoundTimeout cfg
           then (Some (emptyWatchResult\<lparr>Wr_FinalStatus := ''NOT_FOUND'',
                   Wr_Error := Some (NotFoundFor (Wc_NotFoundTimeout cfg))\<rparr>), closeBorder s1)
           else (None, say (ErrorLine e) s1)
      else (None, say (ErrorLine e) (s\<lparr>ws_firstNotFound := None\<rparr>)))"

section \<open>A fetched status\<close>

text \<open>\<open>m[key] = append(m[key], child)\<close> over the children.\<close>
fun addChild :: "ChildSagaInfo \<Rightarrow> (string \<times> ChildSagaInfo list) list \<Rightarrow> (string \<times> ChildSagaInfo list) list" where
  "addChild child [] = [(Chi_ParentStepInstanceID child, [child])]"
| "addChild child ((k, cs) # rest) =
     (if k = Chi_ParentStepInstanceID child then (k, cs @ [child]) # rest else (k, cs) # addChild child rest)"

definition withChildren :: "WatcherConfig \<Rightarrow> watch_turn \<Rightarrow> SagaStatus \<Rightarrow> watch_state \<Rightarrow> SagaStatus \<times> watch_state" where
  "withChildren cfg t status s =
     (if \<not> Wc_ChildSagaFetcher cfg then (status, s)
      else case tn_children t of
             Inl e \<Rightarrow> (status, say (ErrorLine (''child saga fetch failed: '' @ e)) s)
           | Inr children \<Rightarrow> (status\<lparr>Sgs_ChildSagasByStep := fold addChild children []\<rparr>, s))"

text \<open>Everything between the fetch and the check for the end; with the status that was shown.\<close>
definition showStatus ::
    "WatcherConfig \<Rightarrow> string \<Rightarrow> watch_turn \<Rightarrow> fetched \<Rightarrow> watch_state \<Rightarrow> SagaStatus \<times> watch_state" where
  "showStatus cfg sagaID t f s =
     (let s1 = (printHeader sagaID (Ft_TemplateID f) s)\<lparr>ws_firstNotFound := None\<rparr>;
          s2 = s1\<lparr>ws_timing := UpdateStateTracking (tn_seen t) (Ft_Status f) (UpdateStepTimings (tn_seen t) (Ft_Steps f) (ws_timing s1))\<rparr>;
          (status, s3) = withChildren cfg t (BuildSagaStatus sagaID (Ft_TemplateID f) (Ft_Status f) (Ft_Steps f)) s2;
          key = BuildStateKey status
      in (status,
         if key \<noteq> ws_lastStateKey s3
         then (say (StatusOpen status) (closeBorder s3))\<lparr>ws_borderOpen := True, ws_lastStateKey := key, ws_lastPrint := tn_since t\<rparr>
         else if Wc_HeartbeatInterval cfg > 0 \<and> tn_since t - ws_lastPrint s3 \<ge> Wc_HeartbeatInterval cfg
         then (say (Heartbeat status) s3)\<lparr>ws_lastPrint := tn_since t\<rparr>
         else s3))"

section \<open>The loops\<close>

definition reportFailure :: "fetched \<Rightarrow> watch_state \<Rightarrow> watch_error \<times> watch_state" where
  "reportFailure f s =
     (if ShortenSagaState (Ft_Status f) = ''COMPENSATED''
      then (WasCompensated, say (CompensatedLine (Ft_CompensationReason f) (rootCause (Ft_Steps f))) s)
      else (HasFailed (Ft_Status f), say (FailureLine (Ft_Status f) (rootCause (Ft_Steps f))) s))"

text \<open>The end of \<open>Watch\<close> in a terminal state.\<close>
definition watchTerminal :: "fetched \<Rightarrow> SagaStatus \<Rightarrow> watch_state \<Rightarrow> WatchResult \<times> watch_state" where
  "watchTerminal f status s =
     (let s1 = closeBorder s;
          r = emptyWatchResult\<lparr>Wr_FinalStatus := Ft_Status f, Wr_Steps := Ft_Steps f,
                Wr_CompensationReason := Ft_CompensationReason f\<rparr>
      in if IsSuccessState (Ft_Status f)
         then (r\<lparr>Wr_Success := True\<rparr>, say (FinalResults (Ft_Steps f) (Sgs_ChildSagasByStep status)) (say SuccessLine s1))
         else case reportFailure f s1 of (e, s2) \<Rightarrow>
           (r\<lparr>Wr_Error := Some e\<rparr>, say (FinalResults (Ft_Steps f) (Sgs_ChildSagasByStep status)) s2))"

definition timedOut :: "WatcherConfig \<Rightarrow> WatchResult \<Rightarrow> watch_state \<Rightarrow> WatchResult \<times> watch_state" where
  "timedOut cfg r s =
     (r\<lparr>Wr_Error := Some (TimedOut (Wc_Timeout cfg) (ShortenSagaState (Wr_FinalStatus r)))\<rparr>,
      say (TimeoutLine (Wc_Timeout cfg) (Wr_FinalStatus r)) s)"

text \<open>Past the deadline: one final fetch.\<close>
definition watchFinal :: "WatcherConfig \<Rightarrow> watch_turn \<Rightarrow> watch_state \<Rightarrow> WatchResult \<times> watch_state" where
  "watchFinal cfg t s =
     (let s1 = closeBorder s
      in case tn_fetch t of
           Inl _ \<Rightarrow> timedOut cfg emptyWatchResult s1
         | Inr f \<Rightarrow>
             let r = emptyWatchResult\<lparr>Wr_FinalStatus := Ft_Status f, Wr_Steps := Ft_Steps f\<rparr>
             in if IsTerminalState (Ft_Status f) \<and> IsSuccessState (Ft_Status f)
                then (r\<lparr>Wr_Success := True\<rparr>, s1) else timedOut cfg r s1)"

text \<open>\<open>None\<close>: the turns ended before the loop did.\<close>
fun watchLoop ::
    "WatcherConfig \<Rightarrow> string \<Rightarrow> int \<Rightarrow> watch_turn list \<Rightarrow> watch_state \<Rightarrow> (WatchResult \<times> watch_state) option" where
  "watchLoop cfg sagaID deadline [] s = None"
| "watchLoop cfg sagaID deadline (t # ts) s =
     (if \<not> tn_head t < deadline then Some (watchFinal cfg t s)
      else case tn_fetch t of
             Inl e \<Rightarrow> (case fetchFailed cfg sagaID t e s of
                 (Some r, s1) \<Rightarrow> Some (r, s1)
               | (None, s1) \<Rightarrow> watchLoop cfg sagaID deadline ts s1)
           | Inr f \<Rightarrow>
               let (status, s1) = showStatus cfg sagaID t f s
               in if IsTerminalState (Ft_Status f) then Some (watchTerminal f status s1)
                  else watchLoop cfg sagaID deadline ts s1)"

definition Watch ::
    "WatcherConfig \<Rightarrow> string \<Rightarrow> Timing \<Rightarrow> int \<Rightarrow> watch_turn list \<Rightarrow> (WatchResult \<times> watch_state) option" where
  "Watch cfg sagaID timing now turns = watchLoop cfg sagaID (now + Wc_Timeout cfg) turns (newWatch timing)"

text \<open>\<open>WatchUntil\<close> ends in the expected state, or in another terminal one.\<close>
definition untilReached :: "fetched \<Rightarrow> SagaStatus \<Rightarrow> watch_state \<Rightarrow> WatchResult \<times> watch_state" where
  "untilReached f status s =
     (emptyWatchResult\<lparr>Wr_FinalStatus := Ft_Status f, Wr_Steps := Ft_Steps f,
        Wr_CompensationReason := Ft_CompensationReason f, Wr_Success := True\<rparr>,
      say (FinalResults (Ft_Steps f) (Sgs_ChildSagasByStep status)) (say SuccessLine (closeBorder s)))"

definition untilTerminal :: "fetched \<Rightarrow> SagaStatus \<Rightarrow> watch_state \<Rightarrow> WatchResult \<times> watch_state" where
  "untilTerminal f status s =
     (case reportFailure f (closeBorder s) of (e, s2) \<Rightarrow>
        (emptyWatchResult\<lparr>Wr_FinalStatus := Ft_Status f, Wr_Steps := Ft_Steps f, Wr_Error := Some e\<rparr>,
         say (FinalResults (Ft_Steps f) (Sgs_ChildSagasByStep status)) s2))"

text \<open>The final fetch ignores its error; the status is then empty.\<close>
definition untilFinal :: "WatcherConfig \<Rightarrow> string \<Rightarrow> watch_turn \<Rightarrow> watch_state \<Rightarrow> WatchResult \<times> watch_state" where
  "untilFinal cfg expectedStatus t s =
     (let s1 = closeBorder s;
          (status, steps) = (case tn_fetch t of Inl _ \<Rightarrow> ('''', []) | Inr f \<Rightarrow> (Ft_Status f, Ft_Steps f));
          r = emptyWatchResult\<lparr>Wr_FinalStatus := status, Wr_Steps := steps\<rparr>
      in if status = expectedStatus then (r\<lparr>Wr_Success := True\<rparr>, s1) else timedOut cfg r s1)"

fun untilLoop ::
    "WatcherConfig \<Rightarrow> string \<Rightarrow> string \<Rightarrow> int \<Rightarrow> watch_turn list \<Rightarrow> watch_state \<Rightarrow> (WatchResult \<times> watch_state) option" where
  "untilLoop cfg sagaID expectedStatus deadline [] s = None"
| "untilLoop cfg sagaID expectedStatus deadline (t # ts) s =
     (if \<not> tn_head t < deadline then Some (untilFinal cfg expectedStatus t s)
      else case tn_fetch t of
             Inl e \<Rightarrow> (case fetchFailed cfg sagaID t e s of
                 (Some r, s1) \<Rightarrow> Some (r, s1)
               | (None, s1) \<Rightarrow> untilLoop cfg sagaID expectedStatus deadline ts s1)
           | Inr f \<Rightarrow>
               let (status, s1) = showStatus cfg sagaID t f s
               in if Ft_Status f = expectedStatus then Some (untilReached f status s1)
                  else if IsTerminalState (Ft_Status f) then Some (untilTerminal f status s1)
                  else untilLoop cfg sagaID expectedStatus deadline ts s1)"

definition WatchUntil ::
    "WatcherConfig \<Rightarrow> string \<Rightarrow> Timing \<Rightarrow> string \<Rightarrow> int \<Rightarrow> watch_turn list \<Rightarrow> (WatchResult \<times> watch_state) option" where
  "WatchUntil cfg sagaID timing expectedStatus now turns =
     untilLoop cfg sagaID expectedStatus (now + Wc_Timeout cfg) turns (newWatch timing)"

section \<open>Reading a result\<close>

definition resultStep :: "WatchResult \<Rightarrow> string \<Rightarrow> StepStatus option" where
  "resultStep r stepTemplateID =
     find (\<lambda>s. Sts_StepTemplateID s = stepTemplateID \<or> ShortenTemplateID (Sts_StepTemplateID s) = stepTemplateID) (Wr_Steps r)"

definition GetStepResult :: "WatchResult \<Rightarrow> string \<Rightarrow> string option" where
  "GetStepResult r stepTemplateID = map_option Sts_Result (resultStep r stepTemplateID)"

definition GetStepCompensationResult :: "WatchResult \<Rightarrow> string \<Rightarrow> string option" where
  "GetStepCompensationResult r stepTemplateID = map_option Sts_CompensationResult (resultStep r stepTemplateID)"

definition GetStepError :: "WatchResult \<Rightarrow> string \<Rightarrow> string" where
  "GetStepError r stepTemplateID = (case resultStep r stepTemplateID of Some s \<Rightarrow> Sts_ExecutionError s | None \<Rightarrow> '''')"

text \<open>The children of a saga: one request for them, then one for the steps of each.  The two functions give what
  the control daemon answers, already parsed; an answer that does not parse is an error as well.  A child whose
  steps cannot be read has none.\<close>
definition NewChildSagaFetcher ::
    "(string \<Rightarrow> ChildSagaInfo list result) \<Rightarrow> (string \<Rightarrow> StepStatus list result) \<Rightarrow> string \<Rightarrow> ChildSagaInfo list result" where
  "NewChildSagaFetcher postChildren postSteps parentSagaInstanceID =
     (case postChildren parentSagaInstanceID of
        Inl e \<Rightarrow> Inl e
      | Inr children \<Rightarrow> Inr (map (\<lambda>child. child\<lparr>Chi_Steps :=
            (case postSteps (Chi_SagaInstanceID child) of Inr steps \<Rightarrow> steps | Inl _ \<Rightarrow> [])\<rparr>) children))"

section \<open>Searching\<close>

lemma take_drop_infix: "(\<exists>i \<le> length s - length p. length p \<le> length s \<and> take (length p) (drop i s) = p) \<longleftrightarrow> (\<exists>xs ys. s = xs @ p @ ys)"
proof
  assume "\<exists>i \<le> length s - length p. length p \<le> length s \<and> take (length p) (drop i s) = p"
  then obtain i where "take (length p) (drop i s) = p" by blast
  then have "s = take i s @ p @ drop (length p) (drop i s)" by (metis append_take_drop_id)
  then show "\<exists>xs ys. s = xs @ p @ ys" by blast
next
  assume "\<exists>xs ys. s = xs @ p @ ys"
  then obtain xs ys where "s = xs @ p @ ys" by blast
  then show "\<exists>i \<le> length s - length p. length p \<le> length s \<and> take (length p) (drop i s) = p"
    by (intro exI[of _ "length xs"]) simp
qed

lemma Contains_infix: "strings_Contains s p \<longleftrightarrow> (\<exists>xs ys. s = xs @ p @ ys)"
proof (induction s)
  case (Cons c s)
  have "startsWith p (c # s) \<longleftrightarrow> (\<exists>ys. c # s = p @ ys)"
    unfolding startsWith_def by (metis append_eq_conv_conj append_take_drop_id)
  moreover have "(\<exists>xs ys. c # s = xs @ p @ ys) \<longleftrightarrow> (\<exists>ys. c # s = p @ ys) \<or> (\<exists>xs ys. s = xs @ p @ ys)"
    by (metis append_Cons append_Nil list.exhaust list.inject)
  ultimately show ?case using Cons.IH by simp
qed auto

lemma findSubstring_iff: "findSubstring s p \<ge> 0 \<longleftrightarrow> (\<exists>xs ys. s = xs @ p @ ys)"
proof (cases "length s < length p")
  case True
  then have "\<nexists>xs ys. s = xs @ p @ ys" by auto
  with True show ?thesis by (simp add: findSubstring_def)
next
  case False
  let ?hit = "\<lambda>i. take (length p) (drop i s) = p" and ?is = "[0..<length s - length p + 1]"
  have "findSubstring s p \<ge> 0 \<longleftrightarrow> find_index ?hit ?is \<noteq> None"
    using False by (auto simp: findSubstring_def split: option.splits)
  also have "\<dots> \<longleftrightarrow> (\<exists>i \<in> set ?is. ?hit i)" by (simp add: find_index_None)
  also have "\<dots> \<longleftrightarrow> (\<exists>i \<le> length s - length p. length p \<le> length s \<and> ?hit i)"
  proof -
    have "set ?is = {i. i \<le> length s - length p}" by (auto simp: less_Suc_eq_le)
    then show ?thesis using False by (metis mem_Collect_eq not_less)
  qed
  finally show ?thesis by (simp only: take_drop_infix)
qed

lemma watch_contains_eq: "watch_contains s p = strings_Contains s p"
proof -
  have e: "s = [] @ s @ []" by simp
  have "strings_Contains s p" if "s = p \<or> p = []"
    unfolding Contains_infix using that e by (metis append_Nil append_Nil2)
  moreover have "length p \<le> length s" if "strings_Contains s p"
    using that by (auto simp: Contains_infix)
  ultimately show ?thesis
    using findSubstring_iff[of s p] by (auto simp: watch_contains_def Contains_infix[symmetric])
qed

section \<open>What is printed is a sequence of closed boxes\<close>

text \<open>The calls as a reader of the terminal sees them: boxes open and close in turn, heartbeats stand inside a
  box, the header and the final reports outside.\<close>
fun boxes :: "bool \<Rightarrow> display_call list \<Rightarrow> bool option" where
  "boxes b [] = Some b"
| "boxes b (StatusOpen _ # cs) = (if b then None else boxes True cs)"
| "boxes b (StatusClose # cs) = (if b then boxes False cs else None)"
| "boxes b (Heartbeat _ # cs) = (if b then boxes b cs else None)"
| "boxes b (NotFoundLine _ # cs) = boxes b cs"
| "boxes b (ErrorLine _ # cs) = boxes b cs"
| "boxes b (_ # cs) = (if b then None else boxes b cs)"

lemma boxes_append: "boxes b (xs @ ys) = Option.bind (boxes b xs) (\<lambda>b1. boxes b1 ys)"
  by (induction b xs rule: boxes.induct) auto

definition tidy :: "watch_state \<Rightarrow> bool" where
  "tidy s = (boxes False (ws_calls s) = Some (ws_borderOpen s)
     \<and> (ws_borderOpen s \<longleftrightarrow> ws_lastStateKey s \<noteq> '''') \<and> (ws_borderOpen s \<longrightarrow> ws_headerPrinted s))"

definition closed :: "watch_state \<Rightarrow> bool" where
  "closed s = (boxes False (ws_calls s) = Some False)"

lemma say_simps [simp]:
  "ws_calls (say c s) = ws_calls s @ [c]" "ws_borderOpen (say c s) = ws_borderOpen s"
  "ws_lastStateKey (say c s) = ws_lastStateKey s" "ws_headerPrinted (say c s) = ws_headerPrinted s"
  "ws_firstNotFound (say c s) = ws_firstNotFound s"
  by (simp_all add: say_def)

lemma closeBorder_simps [simp]:
  "ws_borderOpen (closeBorder s) = False" "ws_headerPrinted (closeBorder s) = ws_headerPrinted s"
  "ws_firstNotFound (closeBorder s) = ws_firstNotFound s"
  by (simp_all add: closeBorder_def)

lemma closeBorder_boxes:
  "boxes False (ws_calls s) = Some (ws_borderOpen s) \<Longrightarrow> boxes False (ws_calls (closeBorder s)) = Some False"
  by (auto simp: closeBorder_def boxes_append)

lemma tidy_closed: "tidy s \<Longrightarrow> closed (closeBorder s)"
  by (simp add: tidy_def closed_def closeBorder_boxes)

lemma tidy_new: "tidy (newWatch timing)"
  by (simp add: tidy_def newWatch_def)

lemma tidy_header: "tidy s \<Longrightarrow> tidy (printHeader i t s) \<and> ws_headerPrinted (printHeader i t s)"
  by (auto simp: tidy_def printHeader_def boxes_append)

lemma printHeader_simps [simp]:
  "ws_firstNotFound (printHeader i t s) = ws_firstNotFound s" "ws_borderOpen (printHeader i t s) = ws_borderOpen s"
  "ws_lastStateKey (printHeader i t s) = ws_lastStateKey s"
  by (simp_all add: printHeader_def)

lemma tidy_line: "tidy s \<Longrightarrow> c = ErrorLine e \<or> c = NotFoundLine n \<Longrightarrow> tidy (say c s)"
  by (auto simp: tidy_def boxes_append)

lemma tidy_fields [simp]:
  "tidy (s\<lparr>ws_firstNotFound := x\<rparr>) = tidy s" "tidy (s\<lparr>ws_timing := y\<rparr>) = tidy s" "tidy (s\<lparr>ws_lastPrint := z\<rparr>) = tidy s"
  by (simp_all add: tidy_def)

lemma BuildStateKey_not_empty: "BuildStateKey status \<noteq> ''''"
  by (simp add: BuildStateKey_def Let_def)

text \<open>A failed fetch: either it is the last of a block of missing answers, or the loop goes on.\<close>
lemma fetchFailed_tidy:
  assumes "tidy s" "fetchFailed cfg sagaID t e s = (x, s1)"
  shows "(x = None \<longrightarrow> tidy s1) \<and> (x \<noteq> None \<longrightarrow> closed s1)"
  using assms
  by (auto simp: fetchFailed_def Let_def split: if_splits
      intro!: tidy_line tidy_closed tidy_header[THEN conjunct1])

lemma withChildren_tidy: "tidy s \<Longrightarrow> withChildren cfg t status s = (st1, s1) \<Longrightarrow>
  tidy s1 \<and> ws_headerPrinted s1 = ws_headerPrinted s \<and> ws_firstNotFound s1 = ws_firstNotFound s"
  by (auto simp: withChildren_def intro: tidy_line split: if_splits sum.splits)

lemma showStatus_tidy:
  assumes "tidy s" "showStatus cfg sagaID t f s = (status, s1)"
  shows "tidy s1" "ws_firstNotFound s1 = None"
proof -
  let ?s1 = "(printHeader sagaID (Ft_TemplateID f) s)\<lparr>ws_firstNotFound := None\<rparr>"
  let ?s2 = "?s1\<lparr>ws_timing := UpdateStateTracking (tn_seen t) (Ft_Status f) (UpdateStepTimings (tn_seen t) (Ft_Steps f) (ws_timing ?s1))\<rparr>"
  obtain st v where v: "withChildren cfg t (BuildSagaStatus sagaID (Ft_TemplateID f) (Ft_Status f) (Ft_Steps f)) ?s2 = (st, v)"
    by fastforce
  have h: "tidy ?s2" "ws_headerPrinted ?s2" "ws_firstNotFound ?s2 = None" using tidy_header[OF assms(1)] by simp_all
  have t: "tidy v" "ws_headerPrinted v" "ws_firstNotFound v = None" using withChildren_tidy[OF h(1) v] h by simp_all
  have c: "boxes False (ws_calls (closeBorder v)) = Some False"
    using t(1) by (intro closeBorder_boxes) (simp add: tidy_def)
  show "tidy s1" "ws_firstNotFound s1 = None"
    using assms(2) v t c BuildStateKey_not_empty[of st]
    by (auto simp: showStatus_def Let_def tidy_def boxes_append split: if_splits)
qed

lemma endings_closed:
  "tidy s \<Longrightarrow> closed (snd (watchTerminal f status s))" "tidy s \<Longrightarrow> closed (snd (watchFinal cfg t s))"
  "tidy s \<Longrightarrow> closed (snd (untilReached f status s))" "tidy s \<Longrightarrow> closed (snd (untilTerminal f status s))"
  "tidy s \<Longrightarrow> closed (snd (untilFinal cfg expected t s))"
  using tidy_closed[of s]
  by (auto simp: watchTerminal_def watchFinal_def untilReached_def untilTerminal_def untilFinal_def reportFailure_def
      timedOut_def Let_def closed_def boxes_append split: sum.split)

section \<open>Both loops\<close>

definition missed :: "watch_turn \<Rightarrow> bool" where
  "missed t = (case tn_fetch t of Inl e \<Rightarrow> isNotFoundError e | Inr _ \<Rightarrow> False)"

text \<open>Among the turns, consecutive ones that all missed the saga for longer than the tolerated time.\<close>
definition gone :: "WatcherConfig \<Rightarrow> watch_turn list \<Rightarrow> bool" where
  "gone cfg ts = (\<exists>xs b ys. ts = xs @ b @ ys \<and> b \<noteq> [] \<and> list_all missed b
     \<and> tn_since (last b) - tn_seen (hd b) > Wc_NotFoundTimeout cfg)"

definition notFoundResult :: "WatcherConfig \<Rightarrow> WatchResult" where
  "notFoundResult cfg = emptyWatchResult\<lparr>Wr_FinalStatus := ''NOT_FOUND'', Wr_Error := Some (NotFoundFor (Wc_NotFoundTimeout cfg))\<rparr>"

text \<open>The time of the first missing answer is that of the first of the missing turns before now.\<close>
definition tracks :: "watch_turn list \<Rightarrow> watch_state \<Rightarrow> bool" where
  "tracks pre s = (case ws_firstNotFound s of None \<Rightarrow> True
     | Some n \<Rightarrow> \<exists>xs b. pre = xs @ b \<and> b \<noteq> [] \<and> list_all missed b \<and> tn_seen (hd b) = n)"

lemma gone_weaken: "gone cfg ts \<Longrightarrow> gone cfg (ts @ us)"
  unfolding gone_def by (metis append_assoc)

lemma fetchFailed_tracks:
  assumes "tn_fetch t = Inl e" "tracks pre s" "fetchFailed cfg sagaID t e s = (x, s1)"
  shows "(x = None \<longrightarrow> tracks (pre @ [t]) s1) \<and> (\<forall>r. x = Some r \<longrightarrow> r = notFoundResult cfg \<and> gone cfg (pre @ [t]))"
proof (cases "isNotFoundError e")
  case True
  then have m: "missed t" using assms(1) by (simp add: missed_def)
  define n where "n = (case ws_firstNotFound s of None \<Rightarrow> tn_seen t | Some n \<Rightarrow> n)"
  obtain xs b where b: "pre @ [t] = xs @ b" "b \<noteq> []" "list_all missed b" "tn_seen (hd b) = n" "last b = t"
  proof (cases "ws_firstNotFound s")
    case None
    then show ?thesis using that[of pre "[t]"] m by (simp add: n_def)
  next
    case (Some k)
    then obtain xs b where "pre = xs @ b" "b \<noteq> []" "list_all missed b" "tn_seen (hd b) = k"
      using assms(2) by (auto simp: tracks_def)
    then show ?thesis using that[of xs "b @ [t]"] m Some by (simp add: n_def)
  qed
  have "x = None \<and> ws_firstNotFound s1 = Some n \<or>
      x = Some (notFoundResult cfg) \<and> tn_since t - n > Wc_NotFoundTimeout cfg"
    using assms(3) True
    by (auto simp: fetchFailed_def Let_def n_def notFoundResult_def split: if_splits option.splits)
  then show ?thesis
  proof
    assume "x = None \<and> ws_firstNotFound s1 = Some n"
    then show ?thesis using b by (auto simp: tracks_def)
  next
    assume "x = Some (notFoundResult cfg) \<and> tn_since t - n > Wc_NotFoundTimeout cfg"
    moreover from this have "gone cfg (pre @ [t])" unfolding gone_def using b by (metis append_Nil2)
    ultimately show ?thesis by blast
  qed
next
  case False
  then show ?thesis using assms(3) by (auto simp: fetchFailed_def tracks_def)
qed

text \<open>The two loops differ in what ends them and in the final fetch.\<close>
locale watching =
  fixes cfg :: WatcherConfig
    and sagaID :: string
    and deadline :: int
    and loop :: "watch_turn list \<Rightarrow> watch_state \<Rightarrow> (WatchResult \<times> watch_state) option"
    and final :: "watch_turn \<Rightarrow> watch_state \<Rightarrow> WatchResult \<times> watch_state"
    and ends :: "fetched \<Rightarrow> SagaStatus \<Rightarrow> watch_state \<Rightarrow> (WatchResult \<times> watch_state) option"
  assumes loop_Nil: "loop [] s = None"
    and loop_Cons: "loop (t # ts) s =
      (if \<not> tn_head t < deadline then Some (final t s)
       else case tn_fetch t of
              Inl e \<Rightarrow> (case fetchFailed cfg sagaID t e s of (Some r, s1) \<Rightarrow> Some (r, s1) | (None, s1) \<Rightarrow> loop ts s1)
            | Inr f \<Rightarrow> (case showStatus cfg sagaID t f s of (status, s1) \<Rightarrow>
                (case ends f status s1 of Some x \<Rightarrow> Some x | None \<Rightarrow> loop ts s1)))"
    and final_closed: "tidy s \<Longrightarrow> closed (snd (final t s))"
    and ends_closed: "tidy s \<Longrightarrow> ends f status s = Some x \<Longrightarrow> closed (snd x)"
begin

lemma loop_returns: "\<exists>t \<in> set ts. \<not> tn_head t < deadline \<Longrightarrow> \<exists>x. loop ts s = Some x"
proof (induction ts arbitrary: s)
  case (Cons t ts)
  then have "\<not> tn_head t < deadline \<or> (\<forall>s. \<exists>x. loop ts s = Some x)" by auto
  then show ?case
    by (auto simp: loop_Cons split: sum.split prod.split option.split)
qed simp

lemma loop_boxes: "tidy s \<Longrightarrow> loop ts s = Some (r, s1) \<Longrightarrow> closed s1"
proof (induction ts arbitrary: s)
  case (Cons t ts)
  show ?case
  proof (cases "tn_head t < deadline")
    case False
    then show ?thesis using Cons.prems final_closed[of s t] by (simp add: loop_Cons)
  next
    case True
    show ?thesis
    proof (cases "tn_fetch t")
      case (Inl e)
      obtain x s2 where x: "fetchFailed cfg sagaID t e s = (x, s2)" by fastforce
      show ?thesis using fetchFailed_tidy[OF Cons.prems(1) x] Cons Inl True x
        by (auto simp: loop_Cons split: option.splits)
    next
      case (Inr f)
      obtain st s2 where x: "showStatus cfg sagaID t f s = (st, s2)" by fastforce
      show ?thesis using showStatus_tidy(1)[OF Cons.prems(1) x] Cons Inr True x ends_closed[of s2 f st]
        by (force simp: loop_Cons split: option.splits)
    qed
  qed
qed (simp add: loop_Nil)

text \<open>What a result comes from: the final fetch, an answer that ends the loop, or a saga gone for too long.\<close>
lemma loop_result:
  "tidy s \<Longrightarrow> tracks pre s \<Longrightarrow> loop ts s = Some (r, s1) \<Longrightarrow>
     (\<exists>t \<in> set ts. \<exists>v. \<not> tn_head t < deadline \<and> final t v = (r, s1)) \<or>
     (\<exists>t \<in> set ts. \<exists>f status v. tn_head t < deadline \<and> tn_fetch t = Inr f \<and> ends f status v = Some (r, s1)) \<or>
     (r = notFoundResult cfg \<and> gone cfg (pre @ ts))"
proof (induction ts arbitrary: s pre)
  case (Cons t ts)
  have step: ?case if "tidy v" "tracks (pre @ [t]) v" "loop ts v = Some (r, s1)" for v
    using Cons.IH[OF that] by auto
  show ?case
  proof (cases "tn_head t < deadline")
    case False
    then show ?thesis using Cons.prems by (auto simp: loop_Cons)
  next
    case True
    show ?thesis
    proof (cases "tn_fetch t")
      case (Inl e)
      obtain x v where x: "fetchFailed cfg sagaID t e s = (x, v)" by fastforce
      note f = fetchFailed_tracks[OF Inl Cons.prems(2) x] fetchFailed_tidy[OF Cons.prems(1) x]
      show ?thesis
      proof (cases x)
        case None
        then show ?thesis using step[of v] f Cons.prems(3) Inl True x by (simp add: loop_Cons)
      next
        case (Some y)
        then show ?thesis using f Cons.prems(3) Inl True x gone_weaken[of cfg "pre @ [t]" ts] by (simp add: loop_Cons)
      qed
    next
      case (Inr f)
      obtain st v where x: "showStatus cfg sagaID t f s = (st, v)" by fastforce
      note v = showStatus_tidy[OF Cons.prems(1) x]
      show ?thesis
      proof (cases "ends f st v")
        case None
        then show ?thesis using step[of v] v Cons.prems(3) Inr True x by (simp add: loop_Cons tracks_def)
      next
        case (Some y)
        then have "ends f st v = Some (r, s1)" using Cons.prems(3) Inr True x by (simp add: loop_Cons)
        then show ?thesis using Inr True by (meson list.set_intros(1))
      qed
    qed
  qed
qed (simp add: loop_Nil)

lemma loop_missing:
  "\<lbrakk> \<forall>t \<in> set ts. tn_head t < deadline \<and> missed t; ws_firstNotFound s = Some n;
     \<exists>t \<in> set ts. tn_since t - n > Wc_NotFoundTimeout cfg \<rbrakk> \<Longrightarrow> \<exists>s1. loop ts s = Some (notFoundResult cfg, s1)"
proof (induction ts arbitrary: s)
  case (Cons t ts)
  from Cons.prems(1) obtain e where e: "tn_fetch t = Inl e" "isNotFoundError e" "tn_head t < deadline"
    by (auto simp: missed_def split: sum.splits)
  show ?case
    using Cons.IH[of "say (ErrorLine e) s"] Cons.prems e
    by (auto simp: loop_Cons fetchFailed_def notFoundResult_def Let_def)
qed simp

text \<open>A saga that is missing from the first turn on for longer than tolerated ends the watch.\<close>
lemma loop_missing_first:
  assumes "\<forall>u \<in> set (t # ts). tn_head u < deadline \<and> missed u" "ws_firstNotFound s = None"
    and "\<exists>u \<in> set (t # ts). tn_since u - tn_seen t > Wc_NotFoundTimeout cfg"
  shows "\<exists>s1. loop (t # ts) s = Some (notFoundResult cfg, s1)"
proof -
  from assms(1) obtain e where e: "tn_fetch t = Inl e" "isNotFoundError e" "tn_head t < deadline"
    by (auto simp: missed_def split: sum.splits)
  obtain x s2 where x: "fetchFailed cfg sagaID t e s = (x, s2)" by fastforce
  have x': "x = (if tn_since t - tn_seen t > Wc_NotFoundTimeout cfg then Some (notFoundResult cfg) else None)"
    "x = None \<Longrightarrow> ws_firstNotFound s2 = Some (tn_seen t)"
    using x e assms(2) by (auto simp: fetchFailed_def Let_def notFoundResult_def split: if_splits)
  show ?thesis
    using loop_missing[of ts s2 "tn_seen t"] assms(1,3) e x x' by (auto simp: loop_Cons split: if_splits)
qed

end

lemma watch_ends_closed:
  "tidy s \<Longrightarrow> (if IsTerminalState (Ft_Status f) then Some (watchTerminal f status s) else None) = Some x \<Longrightarrow> closed (snd x)"
  by (metis endings_closed(1) option.distinct(1) option.inject)

lemma until_ends_closed:
  "tidy s \<Longrightarrow> (if Ft_Status f = expected then Some (untilReached f status s)
     else if IsTerminalState (Ft_Status f) then Some (untilTerminal f status s) else None) = Some x \<Longrightarrow> closed (snd x)"
  by (metis endings_closed(3,4) option.distinct(1) option.inject)

interpretation watch_loop: watching cfg sagaID deadline "watchLoop cfg sagaID deadline" "watchFinal cfg"
  "\<lambda>f status s. if IsTerminalState (Ft_Status f) then Some (watchTerminal f status s) else None"
  for cfg sagaID deadline
  by unfold_locales
    (simp, simp split: sum.split prod.split option.split, simp add: endings_closed, rule watch_ends_closed)

interpretation until_loop: watching cfg sagaID deadline "untilLoop cfg sagaID expected deadline" "untilFinal cfg expected"
  "\<lambda>f status s. if Ft_Status f = expected then Some (untilReached f status s)
     else if IsTerminalState (Ft_Status f) then Some (untilTerminal f status s) else None"
  for cfg sagaID expected deadline
  by unfold_locales
    (simp, simp split: sum.split prod.split option.split, simp add: endings_closed, rule until_ends_closed)

section \<open>What the watcher reports\<close>

lemma newWatch_tracks: "tracks [] (newWatch timing)"
  by (simp add: tracks_def newWatch_def)

lemma closed_boxes: "closed s \<Longrightarrow> boxes False (ws_calls s) = Some False"
  by (simp add: closed_def)

lemma watch_boxes_closed:
  "Watch cfg sagaID timing now turns = Some (r, s) \<Longrightarrow> boxes False (ws_calls s) = Some False"
  "WatchUntil cfg sagaID timing expected now turns = Some (r, s) \<Longrightarrow> boxes False (ws_calls s) = Some False"
  unfolding Watch_def WatchUntil_def
  by (rule closed_boxes, erule watch_loop.loop_boxes[OF tidy_new] until_loop.loop_boxes[OF tidy_new])+

text \<open>Where a result of \<open>Watch\<close> comes from.\<close>
definition answered :: "watch_turn list \<Rightarrow> WatchResult \<Rightarrow> (string \<Rightarrow> bool) \<Rightarrow> bool" where
  "answered turns r P = (\<exists>t f. t \<in> set turns \<and> tn_fetch t = Inr f \<and> P (Ft_Status f)
     \<and> Wr_FinalStatus r = Ft_Status f \<and> Wr_Steps r = Ft_Steps f)"

lemma final_cases:
  assumes "watchFinal cfg t v = (r, s)"
  shows "(\<exists>f. tn_fetch t = Inr f \<and> IsSuccessState (Ft_Status f) \<and> Wr_FinalStatus r = Ft_Status f \<and> Wr_Steps r = Ft_Steps f
           \<and> Wr_Success r \<and> Wr_Error r = None) \<or>
    ((\<forall>f. tn_fetch t = Inr f \<longrightarrow> \<not> IsSuccessState (Ft_Status f)) \<and> \<not> Wr_Success r \<and>
       Wr_Error r = Some (TimedOut (Wc_Timeout cfg) (ShortenSagaState (Wr_FinalStatus r))))"
  using assms success_is_terminal
  by (auto simp: watchFinal_def timedOut_def emptyWatchResult_def Let_def split: sum.splits if_splits)

lemma terminal_cases:
  assumes "watchTerminal f status v = (r, s)" "IsTerminalState (Ft_Status f)"
  shows "Wr_FinalStatus r = Ft_Status f \<and> Wr_Steps r = Ft_Steps f \<and> Wr_Success r = IsSuccessState (Ft_Status f)
    \<and> (if IsSuccessState (Ft_Status f) then Wr_Error r = None
       else (ShortenSagaState (Ft_Status f) = ''COMPENSATED'' \<and> Wr_Error r = Some WasCompensated) \<or>
         (ShortenSagaState (Ft_Status f) \<in> {''BLOCKED'', ''INVALID_STATE''} \<and> Wr_Error r = Some (HasFailed (Ft_Status f))))"
  using assms
  by (auto simp: watchTerminal_def reportFailure_def IsTerminalState_def IsSuccessState_def emptyWatchResult_def Let_def split: if_splits)

lemma watch_result_sound:
  assumes "Watch cfg sagaID timing now turns = Some (r, s)"
  shows "(Wr_Success r \<longleftrightarrow> Wr_Error r = None)
    \<and> (Wr_Error r = None \<longrightarrow> answered turns r IsSuccessState)
    \<and> (Wr_Error r = Some WasCompensated \<longrightarrow> answered turns r (\<lambda>st. ShortenSagaState st = ''COMPENSATED''))
    \<and> (\<forall>st. Wr_Error r = Some (HasFailed st) \<longrightarrow> answered turns r (\<lambda>st. ShortenSagaState st \<in> {''BLOCKED'', ''INVALID_STATE''}))
    \<and> (\<forall>d. Wr_Error r = Some (NotFoundFor d) \<longrightarrow> gone cfg turns)
    \<and> (\<forall>d st. Wr_Error r = Some (TimedOut d st) \<longrightarrow>
         (\<exists>t \<in> set turns. \<not> tn_head t < now + Wc_Timeout cfg \<and> (\<forall>f. tn_fetch t = Inr f \<longrightarrow> \<not> IsSuccessState (Ft_Status f))))"
  using watch_loop.loop_result[OF tidy_new newWatch_tracks assms[unfolded Watch_def]]
proof (elim disjE bexE exE conjE)
  fix t v assume "t \<in> set turns" "\<not> tn_head t < now + Wc_Timeout cfg" "watchFinal cfg t v = (r, s)"
  then show ?thesis using final_cases[of cfg t v r s] by (auto simp: answered_def)
next
  fix t f status v
  assume t: "t \<in> set turns" "tn_fetch t = Inr f"
    "(if IsTerminalState (Ft_Status f) then Some (watchTerminal f status v) else None) = Some (r, s)"
  then have ends: "IsTerminalState (Ft_Status f)" "watchTerminal f status v = (r, s)" by (auto split: if_splits)
  show ?thesis using terminal_cases[OF ends(2,1)] t(1,2) by (auto simp: answered_def split: if_splits)
next
  assume "r = notFoundResult cfg" "gone cfg ([] @ turns)"
  then show ?thesis by (simp add: notFoundResult_def emptyWatchResult_def)
qed

text \<open>A watch ends, and after a bounded number of requests: when every turn of the loop takes at least the poll
  interval, both \<open>Watch\<close> and \<open>WatchUntil\<close> return within the turns that fit into the timeout and one
  more, whatever the fetcher answers, and what they printed is a sequence of closed boxes.\<close>
lemma watch_returns_in_time:
  assumes "\<forall>i < length turns. now + int i * Wc_PollInterval cfg \<le> tn_head (turns ! i)"
    and "Wc_Timeout cfg \<le> int (length turns - 1) * Wc_PollInterval cfg" "turns \<noteq> []"
  shows "\<exists>r s r' s'. Watch cfg sagaID timing now turns = Some (r, s) \<and> boxes False (ws_calls s) = Some False
    \<and> WatchUntil cfg sagaID timing expected now turns = Some (r', s') \<and> boxes False (ws_calls s') = Some False"
proof -
  have "\<not> tn_head (last turns) < now + Wc_Timeout cfg"
    using assms(1)[rule_format, of "length turns - 1"] assms(2,3) by (simp add: last_conv_nth)
  then have late: "\<exists>t \<in> set turns. \<not> tn_head t < now + Wc_Timeout cfg" using assms(3) last_in_set by blast
  obtain r s where w: "Watch cfg sagaID timing now turns = Some (r, s)"
    using watch_loop.loop_returns[OF late] by (metis Watch_def surj_pair)
  obtain r' s' where u: "WatchUntil cfg sagaID timing expected now turns = Some (r', s')"
    using until_loop.loop_returns[OF late] by (metis WatchUntil_def surj_pair)
  show ?thesis using w u watch_boxes_closed by blast
qed

definition exTurn :: "int \<Rightarrow> fetched result \<Rightarrow> watch_turn" where
  "exTurn n a = \<lparr>tn_head = n, tn_fetch = a, tn_seen = n, tn_since = n, tn_children = Inr []\<rparr>"

definition exWatch :: WatcherConfig where
  "exWatch = \<lparr>Wc_Timeout = 10, Wc_PollInterval = 5, Wc_NotFoundTimeout = 7, Wc_HeartbeatInterval = 0,
     Wc_DisplayConfig = DefaultConfig, Wc_ChildSagaFetcher = False\<rparr>"

lemma watch_returns_example:
  "\<exists>r s. Watch exWatch ''g'' (NewTiming 0) 0 (map (\<lambda>n. exTurn n (Inl ''connection refused'')) [0, 6, 12]) = Some (r, s)"
proof -
  let ?ts = "map (\<lambda>n. exTurn n (Inl ''connection refused'')) [0, 6, 12]"
  have "\<forall>i < length ?ts. 0 + int i * Wc_PollInterval exWatch \<le> tn_head (?ts ! i)"
    by (auto simp: less_Suc_eq exTurn_def exWatch_def)
  then show ?thesis
    using watch_returns_in_time[of ?ts 0 exWatch "''g''" "NewTiming 0" "''''"] by (auto simp: exWatch_def)
qed

end
