(* ===== verification/Go_Base64.thy ===== *)
theory Go_Base64
  imports Prelude
begin

text \<open>
  \<open>encoding/base64\<close> as the annex upload uses it: decoding with the standard alphabet.  A string is its
  bytes.  Decoding inverts the reference encoder.
\<close>

section \<open>Decoding\<close>

definition base64Alphabet :: string where
  "base64Alphabet = ''ABCDEFGHIJKLMNOPQRSTUVWXYZabcdefghijklmnopqrstuvwxyz0123456789+/''"

definition base64Value :: "char \<Rightarrow> nat option" where
  "base64Value c = find_index (\<lambda>x. x = c) base64Alphabet"

definition byte :: "nat \<Rightarrow> char" where
  "byte n = char_of n"

text \<open>\<open>base64.StdEncoding.DecodeString\<close>: groups of four, padding only at the end, line breaks ignored.\<close>
fun decodeQuads :: "string \<Rightarrow> string option" where
  "decodeQuads [] = Some []"
| "decodeQuads (a # b # c # d # rest) =
     (case (base64Value a, base64Value b) of
        (Some x, Some y) \<Rightarrow>
          if c = CHR ''='' then
            (if d = CHR ''='' \<and> rest = [] then Some [byte (x * 4 + y div 16)] else None)
          else (case base64Value c of
            None \<Rightarrow> None
          | Some z \<Rightarrow>
              if d = CHR ''='' then
                (if rest = [] then Some [byte (x * 4 + y div 16), byte (y mod 16 * 16 + z div 4)] else None)
              else (case (base64Value d, decodeQuads rest) of
                      (Some v, Some bs) \<Rightarrow>
                        Some (byte (x * 4 + y div 16) # byte (y mod 16 * 16 + z div 4) # byte (z mod 4 * 64 + v) # bs)
                    | _ \<Rightarrow> None))
      | _ \<Rightarrow> None)"
| "decodeQuads _ = None"

definition base64_DecodeString :: "string \<Rightarrow> string result" where
  "base64_DecodeString s =
     (case decodeQuads (filter (\<lambda>c. c \<noteq> CHR 0x0A \<and> c \<noteq> CHR 0x0D) s) of
        None \<Rightarrow> Err ''illegal base64 data''
      | Some bs \<Rightarrow> Ok bs)"

section \<open>The reference encoder\<close>

text \<open>The reference encoder: three bytes are four letters, and padding fills the last group.\<close>
fun base64Encode :: "string \<Rightarrow> string" where
  "base64Encode [] = []"
| "base64Encode [a] = (let x = of_char a :: nat
     in [base64Alphabet ! (x div 4), base64Alphabet ! (x mod 4 * 16), CHR ''='', CHR ''=''])"
| "base64Encode [a, b] = (let x = of_char a :: nat; y = of_char b :: nat
     in [base64Alphabet ! (x div 4), base64Alphabet ! (x mod 4 * 16 + y div 16),
         base64Alphabet ! (y mod 16 * 4), CHR ''=''])"
| "base64Encode (a # b # c # rest) = (let x = of_char a :: nat; y = of_char b :: nat; z = of_char c :: nat
     in base64Alphabet ! (x div 4) # base64Alphabet ! (x mod 4 * 16 + y div 16) #
        base64Alphabet ! (y mod 16 * 4 + z div 64) # base64Alphabet ! (z mod 64) # base64Encode rest)"

lemma base64_codes: "map of_char base64Alphabet = [65..<91] @ [97..<123] @ [48..<58] @ [43, 47 :: nat]"
  by (simp add: base64Alphabet_def upt_conv_Cons)

lemma base64_alphabet:
  "length base64Alphabet = 64" "distinct base64Alphabet"
  "CHR ''='' \<notin> set base64Alphabet" "CHR 0x0A \<notin> set base64Alphabet" "CHR 0x0D \<notin> set base64Alphabet"
proof -
  show "length base64Alphabet = 64" using arg_cong[OF base64_codes, of length] by simp
  have "distinct (map (of_char :: char \<Rightarrow> nat) base64Alphabet)" unfolding base64_codes by auto
  then show "distinct base64Alphabet" by (simp add: distinct_map)
  have "c \<notin> set base64Alphabet" if "(of_char c :: nat) \<notin> set ([65..<91] @ [97..<123] @ [48..<58] @ [43, 47])" for c
    using that unfolding base64_codes[symmetric] by auto
  then show "CHR ''='' \<notin> set base64Alphabet" "CHR 0x0A \<notin> set base64Alphabet" "CHR 0x0D \<notin> set base64Alphabet"
    by auto
qed

lemma base64_letter:
  assumes "n < 64"
  shows "base64Value (base64Alphabet ! n) = Some n" "base64Alphabet ! n \<noteq> CHR ''=''"
    "base64Alphabet ! n \<noteq> CHR 0x0A" "base64Alphabet ! n \<noteq> CHR 0x0D"
proof -
  have n: "n < length base64Alphabet" using assms by (simp add: base64_alphabet)
  show "base64Value (base64Alphabet ! n) = Some n"
    unfolding base64Value_def
    by (rule find_index_nth_distinct[of "\<lambda>x. x"]) (simp_all only: list.map_ident base64_alphabet(2) n)
  show "base64Alphabet ! n \<noteq> CHR ''=''" "base64Alphabet ! n \<noteq> CHR 0x0A" "base64Alphabet ! n \<noteq> CHR 0x0D"
    using nth_mem[OF n] base64_alphabet(3-5) by auto
qed

lemma byte_of_char: "n = (of_char c :: nat) \<Longrightarrow> byte n = c"
  by (simp add: byte_def)

lemma char_range: "(of_char c :: nat) < 256"
  using mod_less_divisor[of 256 "of_char c :: nat"] of_char_mod_256[of c, where 'a = nat] by simp

lemma sextets:
  assumes "x < 256" "y < 256" "z < (256 :: nat)"
  shows "x div 4 < 64" "x mod 4 * 16 < 64" "x mod 4 * 16 + y div 16 < 64" "y mod 16 * 4 < 64"
    "y mod 16 * 4 + z div 64 < 64" "z mod 64 < 64"
proof -
  have "x div 4 < 64" "y div 16 < 16" "z div 64 < 4" using assms by (auto simp: less_mult_imp_div_less)
  moreover have "x mod 4 < 4" "y mod 16 < 16" "z mod 64 < 64" by simp_all
  ultimately show "x div 4 < 64" "x mod 4 * 16 < 64" "x mod 4 * 16 + y div 16 < 64" "y mod 16 * 4 < 64"
    "y mod 16 * 4 + z div 64 < 64" "z mod 64 < 64"
    by linarith+
qed

lemma char_wide:
  "(of_char c :: nat) div 16 div 16 = 0" "(of_char c :: nat) div 16 mod 16 = of_char c div 16"
  "(of_char c :: nat) div 64 div 4 = 0" "(of_char c :: nat) div 64 mod 4 = of_char c div 64"
proof -
  have "(of_char c :: nat) div 16 < 16" "(of_char c :: nat) div 64 < 4"
    using char_range[of c] by (auto simp: less_mult_imp_div_less)
  then show "(of_char c :: nat) div 16 div 16 = 0" "(of_char c :: nat) div 16 mod 16 = of_char c div 16"
    "(of_char c :: nat) div 64 div 4 = 0" "(of_char c :: nat) div 64 mod 4 = of_char c div 64"
    by simp_all
qed

lemmas char_sextets = sextets[OF char_range char_range char_range]

lemma decode_encode: "decodeQuads (base64Encode s) = Some s"
  by (induction s rule: base64Encode.induct)
     (simp_all add: Let_def base64_letter char_sextets char_wide byte_of_char)

lemma encode_plain: "filter (\<lambda>c. c \<noteq> CHR 0x0A \<and> c \<noteq> CHR 0x0D) (base64Encode s) = base64Encode s"
  by (induction s rule: base64Encode.induct) (simp_all add: Let_def base64_letter char_sextets)

lemma base64_roundtrip: "base64_DecodeString (base64Encode s) = Ok s"
  by (simp add: base64_DecodeString_def encode_plain decode_encode)

end
