(* ===== verification/Control_Api.thy ===== *)
theory Control_Api
  imports Saga_System Saga_Listing Go_Base64
begin

text \<open>
  The HTTP API of the control daemon (\<open>pkg/daemons/traxctrl/api/v1\<close>): one definition per handler over the
  PostgreSQL store, the conversions to the response shapes and the route table.  A handler gets its path
  and query parameters and, as a result, what \<open>ShouldBindJSON\<close> made of the body; it gives the reply and the
  world after it.  Marshalling a map to a JSON string is the identity, parsing the metadata string of a
  cluster is an argument, and so is what PostgreSQL answers to the text of a paginated listing.
\<close>

section \<open>Response and request shapes (types.go)\<close>

record sagaStepTemplateResponse =
  Str_TemplateId :: string
  Str_SagaTemplateId :: string
  Str_DisplayName :: string
  Str_Description :: string
  Str_Labels :: smap
  Str_Tags :: "string list"
  Str_Metadata :: smap

record sagaTemplateResponse =
  Tr_TemplateId :: string
  Tr_DisplayName :: string
  Tr_Description :: string
  Tr_Labels :: smap
  Tr_Tags :: "string list"
  Tr_Metadata :: smap
  Tr_SagaStepTemplateIds :: "string list"
  Tr_SagaStepTemplates :: "sagaStepTemplateResponse list"

record sagaInstanceResponse =
  Ir_InstanceId :: string
  Ir_ClusterId :: string
  Ir_ZoneId :: string
  Ir_TraceId :: string
  Ir_ExecutionId :: string
  Ir_SagaSubmitterId :: string
  Ir_Labels :: smap
  Ir_Tags :: "string list"
  Ir_Metadata :: smap
  Ir_State :: string
  Ir_SagaTemplateId :: string
  Ir_Input :: smap
  Ir_SagaInstanceIds :: "string list"
  Ir_SagaIdempotencyKey :: string
  Ir_CreatedAt :: int
  Ir_UpdatedAt :: int
  Ir_ParentSagaInstanceId :: string
  Ir_ParentSagaStepInstanceId :: string
  Ir_RootSagaInstanceId :: string
  Ir_SagaDepth :: int
  Ir_CompensationReason :: string
  Ir_AnnexIids :: "string list"

record sagaStepInstanceResponse =
  Ssr_InstanceId :: string
  Ssr_ClusterId :: string
  Ssr_ZoneId :: string
  Ssr_SagaInstanceId :: string
  Ssr_TraceId :: string
  Ssr_ExecutionId :: string
  Ssr_Labels :: smap
  Ssr_Tags :: "string list"
  Ssr_Metadata :: smap
  Ssr_Affinity :: string
  Ssr_State :: string
  Ssr_Result :: smap
  Ssr_CompensationResult :: smap
  Ssr_SagaTemplateId :: string
  Ssr_SagaStepTemplateId :: string
  Ssr_PreviousSagaStepInstanceId :: string
  Ssr_NextSagaStepInstanceId :: string
  Ssr_ExecutionHistory :: "SagaStepExecutionLog list"
  Ssr_SagaIdempotencyKey :: string
  Ssr_ExecutionError :: string

record clusterResponse =
  Cr_Id :: string
  Cr_DisplayName :: string
  Cr_Description :: string
  Cr_Labels :: smap
  Cr_Tags :: "string list"
  Cr_Metadata :: smap

record sagaAnnexResponse =
  Ar_Iid :: string
  Ar_SagaInstanceId :: string
  Ar_ContentType :: string
  Ar_ContentLength :: int
  Ar_Notes :: string
  Ar_CreatedAt :: int
  Ar_UpdatedAt :: int

record listSagaStepInstancesRequest =
  Lss_ClusterId :: string
  Lss_SagaInstanceId :: string

record createClusterRequest =
  Ccr_Id :: string
  Ccr_DisplayName :: string
  Ccr_Description :: string
  Ccr_Labels :: smap
  Ccr_Tags :: "string list"
  Ccr_Metadata :: string

record updateClusterRequest =
  Ucr_DisplayName :: string
  Ucr_Description :: string
  Ucr_Labels :: smap
  Ucr_Tags :: "string list"
  Ucr_Metadata :: string

record updateSagaTemplateRequest =
  Utr_DisplayName :: string
  Utr_Description :: string
  Utr_Labels :: smap
  Utr_Tags :: "string list"
  Utr_Metadata :: smap
  Utr_SagaStepTemplateIds :: "string list"

record updateSagaStepTemplateRequest =
  Ustr_SagaTemplateId :: string
  Ustr_DisplayName :: string
  Ustr_Description :: string
  Ustr_Labels :: smap
  Ustr_Tags :: "string list"
  Ustr_Metadata :: smap

record createSagaAnnexRequest =
  Car_ClusterId :: string
  Car_Iid :: string
  Car_ContentType :: string
  Car_ContentDataBase64 :: string
  Car_Notes :: string

record forceMarkSagaCompensatedRequest =
  Fmr_ClusterId :: string
  Fmr_Reason :: string

section \<open>Replies\<close>

datatype control_value =
    TemplateIds "string list"
  | Templates "sagaTemplateResponse list"
  | TemplateDetails sagaTemplateResponse
  | Done string
  | InstanceIds "string list"
  | Instances "sagaInstanceResponse list" "int option"
  | InstanceDetails sagaInstanceResponse
  | StepIds "string list"
  | Steps "sagaStepInstanceResponse list"
  | StepDetails sagaStepInstanceResponse
  | ClusterIds "string list"
  | Clusters "clusterResponse list"
  | ClusterDetails clusterResponse
  | AnnexDetails sagaAnnexResponse
  | Annexes string "sagaAnnexResponse list"
  | AnnexBytes string string
  | ForcedCompensated string string

text \<open>\<open>c.JSON\<close> of a string, of \<open>gin.H{"error": ...}\<close> and of a value, and a status without a body.\<close>
datatype reply_body = Text string | ErrorObject string | Value control_value | NoBody

record reply =
  rp_status :: int
  rp_body :: reply_body

abbreviation answer :: "int \<Rightarrow> reply_body \<Rightarrow> reply" where
  "answer code body \<equiv> \<lparr>rp_status = code, rp_body = body\<rparr>"

text \<open>The verb \<open>%q\<close> on text that needs no escapes.\<close>
definition doubleQuoted :: "string \<Rightarrow> string" where
  "doubleQuoted s = CHR 0x22 # s @ [CHR 0x22]"

section \<open>Conversions (utils.go)\<close>

definition stepTemplateResponse :: "SagaStepTemplate \<Rightarrow> sagaStepTemplateResponse" where
  "stepTemplateResponse t =
     \<lparr>Str_TemplateId = Sst_TemplateId t, Str_SagaTemplateId = Sst_SagaTemplateId t,
      Str_DisplayName = Sst_DisplayName t, Str_Description = Sst_Description t,
      Str_Labels = Sst_Labels t, Str_Tags = Sst_Tags t, Str_Metadata = Sst_Metadata t\<rparr>"

fun collectStepTemplates :: "string list \<Rightarrow> world \<Rightarrow> sagaStepTemplateResponse list result \<times> world" where
  "collectStepTemplates [] w = (Ok [], w)"
| "collectStepTemplates (sid # rest) w =
     (case GetSagaStepTemplate sid w of
        (Inl e, w1) \<Rightarrow> (Err (''failed to get step template '' @ doubleQuoted sid @ '': '' @ e), w1)
      | (Inr t, w1) \<Rightarrow> (case collectStepTemplates rest w1 of
            (Inl e, w2) \<Rightarrow> (Err e, w2)
          | (Inr ts, w2) \<Rightarrow> (Ok (stepTemplateResponse t # ts), w2)))"

definition convertSagaTemplateToResponse :: "SagaTemplate \<Rightarrow> world \<Rightarrow> sagaTemplateResponse result \<times> world" where
  "convertSagaTemplateToResponse t w =
     (case collectStepTemplates (St_SagaStepTemplateIds t) w of
        (Inl e, w1) \<Rightarrow> (Err e, w1)
      | (Inr steps, w1) \<Rightarrow>
          (Ok \<lparr>Tr_TemplateId = St_TemplateId t, Tr_DisplayName = St_DisplayName t,
               Tr_Description = St_Description t, Tr_Labels = St_Labels t, Tr_Tags = St_Tags t,
               Tr_Metadata = St_Metadata t, Tr_SagaStepTemplateIds = St_SagaStepTemplateIds t,
               Tr_SagaStepTemplates = steps\<rparr>, w1))"

definition convertSagaInstanceToResponse :: "SagaInstance \<Rightarrow> sagaInstanceResponse" where
  "convertSagaInstanceToResponse g =
     \<lparr>Ir_InstanceId = Si_InstanceId g, Ir_ClusterId = Si_ClusterId g, Ir_ZoneId = Si_ZoneId g,
      Ir_TraceId = Si_TraceId g, Ir_ExecutionId = Si_ExecutionId g, Ir_SagaSubmitterId = Si_SagaSubmitterId g,
      Ir_Labels = Si_Labels g, Ir_Tags = Si_Tags g, Ir_Metadata = Si_Metadata g,
      Ir_State = sagaStateString (Si_State g), Ir_SagaTemplateId = Si_SagaTemplateId g,
      Ir_Input = Si_Input g, Ir_SagaInstanceIds = Si_SagaInstanceIds g,
      Ir_SagaIdempotencyKey = SagaInstance_SagaIdempotencyKey g,
      Ir_CreatedAt = Si_CreatedAt g, Ir_UpdatedAt = Si_UpdatedAt g,
      Ir_ParentSagaInstanceId = Si_ParentSagaInstanceId g,
      Ir_ParentSagaStepInstanceId = Si_ParentSagaStepInstanceId g,
      Ir_RootSagaInstanceId = Si_RootSagaInstanceId g, Ir_SagaDepth = Si_SagaDepth g,
      Ir_CompensationReason = Si_CompensationReason g, Ir_AnnexIids = Si_AnnexIids g\<rparr>"

text \<open>The first error of the history, from the error field or from the executor's result.\<close>
fun firstExecutionError :: "SagaStepExecutionLog list \<Rightarrow> string" where
  "firstExecutionError [] = ''''"
| "firstExecutionError (log # logs) =
     (if ExecutionError log \<noteq> '''' then ExecutionError log
      else case ExecutionResult log ''error'' of
             Some errMsg \<Rightarrow> if errMsg \<noteq> '''' then errMsg else firstExecutionError logs
           | None \<Rightarrow> firstExecutionError logs)"

definition convertSagaStepInstanceToResponse :: "SagaStepInstance \<Rightarrow> sagaStepInstanceResponse" where
  "convertSagaStepInstanceToResponse s =
     \<lparr>Ssr_InstanceId = Ss_InstanceId s, Ssr_ClusterId = Ss_ClusterId s, Ssr_ZoneId = Ss_ZoneId s,
      Ssr_SagaInstanceId = Ss_SagaInstanceId s, Ssr_TraceId = Ss_TraceId s, Ssr_ExecutionId = Ss_ExecutionId s,
      Ssr_Labels = Ss_Labels s, Ssr_Tags = Ss_Tags s, Ssr_Metadata = Ss_Metadata s, Ssr_Affinity = Ss_Affinity s,
      Ssr_State = sagaStepStateString (Ss_State s), Ssr_Result = Ss_Result s,
      Ssr_CompensationResult = Ss_CompensationResult s, Ssr_SagaTemplateId = Ss_SagaTemplateId s,
      Ssr_SagaStepTemplateId = Ss_SagaStepTemplateId s,
      Ssr_PreviousSagaStepInstanceId = Ss_PreviousSagaStepInstanceId s,
      Ssr_NextSagaStepInstanceId = Ss_NextSagaStepInstanceId s,
      Ssr_ExecutionHistory = Ss_ExecutionHistory s,
      Ssr_SagaIdempotencyKey = SagaStepInstance_SagaIdempotencyKey s,
      Ssr_ExecutionError = firstExecutionError (Ss_ExecutionHistory s)\<rparr>"

definition convertClusterToResponse :: "Cluster \<Rightarrow> clusterResponse" where
  "convertClusterToResponse cl =
     \<lparr>Cr_Id = Cl_Id cl, Cr_DisplayName = Cl_DisplayName cl, Cr_Description = Cl_Description cl,
      Cr_Labels = Cl_Labels cl, Cr_Tags = Cl_Tags cl, Cr_Metadata = Cl_Metadata cl\<rparr>"

text \<open>The metadata string of a request; the maps and slices of a model are never nil.\<close>
definition requestMetadata :: "(string \<Rightarrow> smap result) \<Rightarrow> string \<Rightarrow> smap result" where
  "requestMetadata unmarshal s =
     (if s \<noteq> '''' then (case unmarshal s of Inl e \<Rightarrow> Err (''failed to unmarshal metadata: '' @ e) | Inr m \<Rightarrow> Ok m)
      else Ok Map.empty)"

definition convertCreateRequestToCluster :: "(string \<Rightarrow> smap result) \<Rightarrow> createClusterRequest \<Rightarrow> Cluster result" where
  "convertCreateRequestToCluster unmarshal req =
     (case requestMetadata unmarshal (Ccr_Metadata req) of
        Inl e \<Rightarrow> Err e
      | Inr m \<Rightarrow> Ok \<lparr>Cl_Id = Ccr_Id req, Cl_DisplayName = Ccr_DisplayName req,
          Cl_Description = Ccr_Description req, Cl_Labels = Ccr_Labels req, Cl_Tags = Ccr_Tags req,
          Cl_Metadata = m\<rparr>)"

definition convertUpdateRequestToCluster ::
    "(string \<Rightarrow> smap result) \<Rightarrow> string \<Rightarrow> updateClusterRequest \<Rightarrow> Cluster result" where
  "convertUpdateRequestToCluster unmarshal clusterId req =
     (case requestMetadata unmarshal (Ucr_Metadata req) of
        Inl e \<Rightarrow> Err e
      | Inr m \<Rightarrow> Ok \<lparr>Cl_Id = clusterId, Cl_DisplayName = Ucr_DisplayName req,
          Cl_Description = Ucr_Description req, Cl_Labels = Ucr_Labels req, Cl_Tags = Ucr_Tags req,
          Cl_Metadata = m\<rparr>)"

section \<open>Saga templates\<close>

definition postSagaTemplateIds :: "world \<Rightarrow> reply \<times> world" where
  "postSagaTemplateIds w = (answer 200 (Value (TemplateIds [''new_account_under_participant''])), w)"

text \<open>The loop over the templates; the reply is the one of the first conversion that fails.\<close>
fun collectTemplates :: "SagaTemplate list \<Rightarrow> world \<Rightarrow> (reply + sagaTemplateResponse list) \<times> world" where
  "collectTemplates [] w = (Inr [], w)"
| "collectTemplates (t # rest) w =
     (case convertSagaTemplateToResponse t w of
        (Inl e, w1) \<Rightarrow>
          (Inl (answer 500 (Text (''failed to convert saga template '' @ doubleQuoted (St_TemplateId t) @ '': '' @ e))), w1)
      | (Inr r, w1) \<Rightarrow> (case collectTemplates rest w1 of
            (Inl e, w2) \<Rightarrow> (Inl e, w2)
          | (Inr rs, w2) \<Rightarrow> (Inr (r # rs), w2)))"

definition postSagaTemplates :: "world \<Rightarrow> reply \<times> world" where
  "postSagaTemplates w =
     (case ListSagaTemplates w of
        (Inl e, w1) \<Rightarrow> (answer 500 (Text (''failed to list saga templates: '' @ e)), w1)
      | (Inr ts, w1) \<Rightarrow> (case collectTemplates ts w1 of
            (Inl rep, w2) \<Rightarrow> (rep, w2)
          | (Inr rs, w2) \<Rightarrow> (answer 200 (Value (Templates rs)), w2)))"

definition postSagaTemplate :: "string \<Rightarrow> world \<Rightarrow> reply \<times> world" where
  "postSagaTemplate tid w =
     (if tid = '''' then (answer 400 (Text ''saga template ID is required''), w)
      else case GetSagaTemplate tid w of
        (Inl e, w1) \<Rightarrow> (answer 404 (Text (''failed to get saga template '' @ doubleQuoted tid @ '': '' @ e)), w1)
      | (Inr t, w1) \<Rightarrow> (case convertSagaTemplateToResponse t w1 of
            (Inl e, w2) \<Rightarrow> (answer 500 (Text (''failed to convert saga template '' @ doubleQuoted tid @ '': '' @ e)), w2)
          | (Inr r, w2) \<Rightarrow> (answer 200 (Value (TemplateDetails r)), w2)))"

definition putSagaTemplate :: "string \<Rightarrow> updateSagaTemplateRequest result \<Rightarrow> world \<Rightarrow> reply \<times> world" where
  "putSagaTemplate tid body w =
     (if tid = '''' then (answer 400 (ErrorObject ''saga template ID is required''), w)
      else case body of
        Inl e \<Rightarrow> (answer 400 (ErrorObject e), w)
      | Inr req \<Rightarrow> (case UpdateSagaTemplate \<lparr>St_TemplateId = tid, St_DisplayName = Utr_DisplayName req,
              St_Description = Utr_Description req, St_Labels = Utr_Labels req, St_Tags = Utr_Tags req,
              St_Metadata = Utr_Metadata req, St_SagaStepTemplateIds = Utr_SagaStepTemplateIds req\<rparr> w of
            (Inl e, w1) \<Rightarrow>
              (answer 500 (ErrorObject (''failed to update saga template '' @ doubleQuoted tid @ '': '' @ e)), w1)
          | (Inr _, w1) \<Rightarrow> (answer 200 (Value (Done (''saga template '' @ quoted tid @ '' updated''))), w1)))"

definition deleteSagaTemplate :: "string \<Rightarrow> world \<Rightarrow> reply \<times> world" where
  "deleteSagaTemplate tid w =
     (if tid = '''' then (answer 400 (ErrorObject ''saga template ID is required''), w)
      else case DeleteSagaTemplate tid w of
        (Inl e, w1) \<Rightarrow> (answer 500 (ErrorObject (''failed to delete saga template '' @ doubleQuoted tid @ '': '' @ e)), w1)
      | (Inr _, w1) \<Rightarrow> (answer 200 (Value (Done (''saga template '' @ quoted tid @ '' deleted''))), w1))"

definition putSagaStepTemplate :: "string \<Rightarrow> updateSagaStepTemplateRequest result \<Rightarrow> world \<Rightarrow> reply \<times> world" where
  "putSagaStepTemplate tid body w =
     (if tid = '''' then (answer 400 (ErrorObject ''saga step template ID is required''), w)
      else case body of
        Inl e \<Rightarrow> (answer 400 (ErrorObject e), w)
      | Inr req \<Rightarrow> (case UpdateSagaStepTemplate \<lparr>Sst_TemplateId = tid, Sst_SagaTemplateId = Ustr_SagaTemplateId req,
              Sst_DisplayName = Ustr_DisplayName req, Sst_Description = Ustr_Description req,
              Sst_Labels = Ustr_Labels req, Sst_Tags = Ustr_Tags req, Sst_Metadata = Ustr_Metadata req\<rparr> w of
            (Inl e, w1) \<Rightarrow>
              (answer 500 (ErrorObject (''failed to update saga step template '' @ doubleQuoted tid @ '': '' @ e)), w1)
          | (Inr _, w1) \<Rightarrow>
              (answer 200 (Value (Done (''saga step template '' @ quoted tid @ '' updated''))), w1)))"

definition deleteSagaStepTemplate :: "string \<Rightarrow> world \<Rightarrow> reply \<times> world" where
  "deleteSagaStepTemplate tid w =
     (if tid = '''' then (answer 400 (ErrorObject ''saga step template ID is required''), w)
      else case DeleteSagaStepTemplate tid w of
        (Inl e, w1) \<Rightarrow>
          (answer 500 (ErrorObject (''failed to delete saga step template '' @ doubleQuoted tid @ '': '' @ e)), w1)
      | (Inr _, w1) \<Rightarrow>
          (answer 200 (Value (Done (''saga step template '' @ quoted tid @ '' deleted''))), w1))"

section \<open>Saga instances\<close>

text \<open>The requests whose body is only a cluster id are that id.\<close>
definition postSagaInstanceIds :: "string result \<Rightarrow> world \<Rightarrow> reply \<times> world" where
  "postSagaInstanceIds body w =
     (case body of
        Inl e \<Rightarrow> (answer 400 (Text (''invalid request body: '' @ e)), w)
      | Inr cid \<Rightarrow>
          if cid = '''' then (answer 400 (Text ''cluster ID is required''), w)
          else case ListSagaInstanceIds cid w of
            (Inl e, w1) \<Rightarrow>
              (answer 500 (Text (''failed to list saga instance IDs for cluster '' @ doubleQuoted cid @ '': '' @ e)), w1)
          | (Inr ids, w1) \<Rightarrow> (answer 200 (Value (InstanceIds ids)), w1))"

definition postSagaInstances ::
    "(string \<Rightarrow> string list \<Rightarrow> db \<Rightarrow> int) \<Rightarrow> (string \<Rightarrow> string list \<Rightarrow> db \<Rightarrow> SagaInstance list) \<Rightarrow>
     listSagaInstancesRequest result \<Rightarrow> world \<Rightarrow> reply \<times> world" where
  "postSagaInstances sqlCount sqlSelect body w =
     (case body of
        Inl e \<Rightarrow> (answer 400 (Text (''invalid request body: '' @ e)), w)
      | Inr req \<Rightarrow>
          if Lr_ClusterId req = '''' then (answer 400 (Text ''cluster ID is required''), w)
          else case buildSagaListQueryOptions req of
            Inl e \<Rightarrow> (answer 400 (Text e), w)
          | Inr opts \<Rightarrow>
              (case ListSagaInstancesPaginated sqlCount sqlSelect (getSagaInstancesTableName (Lr_ClusterId req))
                      (Some opts) w of
                 (Inl e, w1) \<Rightarrow>
                   (answer 500 (Text (''failed to list saga instances for cluster '' @ doubleQuoted (Lr_ClusterId req)
                      @ '': '' @ e)), w1)
               | (Inr (rows, totalCount), w1) \<Rightarrow>
                   (answer 200 (Value (Instances (map convertSagaInstanceToResponse rows) (Some totalCount))), w1)))"

definition postSagaInstanceChildren :: "string \<Rightarrow> string result \<Rightarrow> world \<Rightarrow> reply \<times> world" where
  "postSagaInstanceChildren gid body w =
     (if gid = '''' then (answer 400 (ErrorObject ''sagaInstanceId is required''), w)
      else case body of
        Inl e \<Rightarrow> (answer 400 (ErrorObject e), w)
      | Inr cid \<Rightarrow> (case GetChildSagaInstances cid gid w of
            (Inl e, w1) \<Rightarrow> (answer 500 (ErrorObject e), w1)
          | (Inr rows, w1) \<Rightarrow> (answer 200 (Value (Instances (map convertSagaInstanceToResponse rows) None)), w1)))"

definition postSagaInstanceTree :: "string \<Rightarrow> string result \<Rightarrow> world \<Rightarrow> reply \<times> world" where
  "postSagaInstanceTree gid body w =
     (if gid = '''' then (answer 400 (ErrorObject ''sagaInstanceId is required''), w)
      else case body of
        Inl e \<Rightarrow> (answer 400 (ErrorObject e), w)
      | Inr cid \<Rightarrow> (case GetSagaHierarchy cid gid w of
            (Inl e, w1) \<Rightarrow> (answer 500 (ErrorObject e), w1)
          | (Inr rows, w1) \<Rightarrow> (answer 200 (Value (Instances (map convertSagaInstanceToResponse rows) None)), w1)))"

definition postSagaInstance :: "string \<Rightarrow> string result \<Rightarrow> world \<Rightarrow> reply \<times> world" where
  "postSagaInstance gid body w =
     (if gid = '''' then (answer 400 (Text ''saga instance ID is required''), w)
      else case body of
        Inl e \<Rightarrow> (answer 400 (Text (''invalid request body: '' @ e)), w)
      | Inr cid \<Rightarrow>
          if cid = '''' then (answer 400 (Text ''cluster ID is required''), w)
          else case GetSagaInstance cid gid w of
            (Inl e, w1) \<Rightarrow> (answer 404 (Text (''failed to get saga instance '' @ doubleQuoted gid @ '': '' @ e)), w1)
          | (Inr g, w1) \<Rightarrow> (answer 200 (Value (InstanceDetails (convertSagaInstanceToResponse g))), w1))"

text \<open>\<open>c.JSON(http.StatusOK, gin.H{...})\<close> carries the two ids, the state and a fixed message.\<close>
definition putForceMarkSagaCompensated ::
    "string \<Rightarrow> forceMarkSagaCompensatedRequest result \<Rightarrow> world \<Rightarrow> reply \<times> world" where
  "putForceMarkSagaCompensated gid body w =
     (if gid = '''' then (answer 400 (ErrorObject ''sagaInstanceId is required''), w)
      else case body of
        Inl e \<Rightarrow> (answer 400 (ErrorObject (''invalid request body: '' @ e)), w)
      | Inr req \<Rightarrow>
          if strings_TrimSpace (Fmr_Reason req) = '''' then (answer 400 (ErrorObject ''reason is required''), w)
          else case ForceMarkSagaCompensated (Fmr_ClusterId req) gid (Fmr_Reason req) w of
            (Inl e, w1) \<Rightarrow>
              if strings_Contains e ''not in BLOCKED state'' then (answer 400 (ErrorObject e), w1)
              else if strings_Contains e ''not found'' then (answer 404 (ErrorObject e), w1)
              else (answer 500 (ErrorObject ''failed to force-mark saga compensated''), w1)
          | (Inr _, w1) \<Rightarrow> (answer 200 (Value (ForcedCompensated gid (Fmr_ClusterId req))), w1))"

section \<open>Step instances\<close>

definition postSagaStepInstanceIds :: "string result \<Rightarrow> world \<Rightarrow> reply \<times> world" where
  "postSagaStepInstanceIds body w =
     (case body of
        Inl e \<Rightarrow> (answer 400 (Text (''invalid request body: '' @ e)), w)
      | Inr cid \<Rightarrow>
          if cid = '''' then (answer 400 (Text ''cluster ID is required''), w)
          else case ListSagaStepInstanceIds cid w of
            (Inl e, w1) \<Rightarrow>
              (answer 500 (Text (''failed to list saga step instance IDs for cluster '' @ doubleQuoted cid @ '': '' @ e)), w1)
          | (Inr ids, w1) \<Rightarrow> (answer 200 (Value (StepIds ids)), w1))"

text \<open>\<open>None\<close> is the reply of a handler that never returns: the chain walk on a cyclic chain.\<close>
definition postSagaStepInstances :: "listSagaStepInstancesRequest result \<Rightarrow> world \<Rightarrow> reply option \<times> world" where
  "postSagaStepInstances body w =
     (case body of
        Inl e \<Rightarrow> (Some (answer 400 (Text (''invalid request body: '' @ e))), w)
      | Inr req \<Rightarrow>
          if Lss_ClusterId req = '''' then (Some (answer 400 (Text ''cluster ID is required'')), w)
          else let gid = Lss_SagaInstanceId req; cid = Lss_ClusterId req
               in (case (if gid \<noteq> '''' then ListSagaStepInstancesBySagaInstanceId cid gid w
                         else ListSagaStepInstances cid w) of
                     (Inl e, w1) \<Rightarrow>
                       (Some (answer 500 (Text (if gid \<noteq> ''''
                          then ''failed to list saga step instances for saga instance '' @ doubleQuoted gid
                               @ '' in cluster '' @ doubleQuoted cid @ '': '' @ e
                          else ''failed to list saga step instances for cluster '' @ doubleQuoted cid @ '': '' @ e))), w1)
                   | (Inr rows, w1) \<Rightarrow>
                       (map_option (\<lambda>steps. answer 200 (Value (Steps (map convertSagaStepInstanceToResponse steps))))
                          (OrderSagaStepsInSequence rows), w1)))"

definition postSagaStepInstance :: "string \<Rightarrow> string result \<Rightarrow> world \<Rightarrow> reply \<times> world" where
  "postSagaStepInstance sid body w =
     (if sid = '''' then (answer 400 (Text ''saga step instance ID is required''), w)
      else case body of
        Inl e \<Rightarrow> (answer 400 (Text (''invalid request body: '' @ e)), w)
      | Inr cid \<Rightarrow>
          if cid = '''' then (answer 400 (Text ''cluster ID is required''), w)
          else case GetSagaStepInstance cid sid w of
            (Inl e, w1) \<Rightarrow> (answer 404 (Text (''failed to get saga step instance '' @ doubleQuoted sid @ '': '' @ e)), w1)
          | (Inr s, w1) \<Rightarrow> (answer 200 (Value (StepDetails (convertSagaStepInstanceToResponse s))), w1))"

section \<open>Annexes\<close>

definition annexResponse :: "SagaAnnex \<Rightarrow> sagaAnnexResponse" where
  "annexResponse a =
     \<lparr>Ar_Iid = An_Iid a, Ar_SagaInstanceId = An_SagaInstanceId a, Ar_ContentType = An_ContentType a,
      Ar_ContentLength = An_ContentLength a, Ar_Notes = An_Notes a, Ar_CreatedAt = An_CreatedAt a,
      Ar_UpdatedAt = An_UpdatedAt a\<rparr>"

definition requestedAnnex :: "string \<Rightarrow> createSagaAnnexRequest \<Rightarrow> string \<Rightarrow> SagaAnnex" where
  "requestedAnnex gid req bytes =
     \<lparr>An_Iid = Car_Iid req, An_ClusterId = Car_ClusterId req, An_SagaInstanceId = gid,
      An_ContentType = Car_ContentType req, An_ContentLength = int (length bytes), An_Notes = Car_Notes req,
      An_ContentData = bytes, An_CreatedAt = 0, An_UpdatedAt = 0\<rparr>"

definition postSagaAnnex :: "string \<Rightarrow> createSagaAnnexRequest result \<Rightarrow> world \<Rightarrow> reply \<times> world" where
  "postSagaAnnex gid body w =
     (if gid = '''' then (answer 400 (ErrorObject ''saga instance ID is required''), w)
      else case body of
        Inl e \<Rightarrow> (answer 400 (ErrorObject (''invalid request body: '' @ e)), w)
      | Inr req \<Rightarrow>
          (case base64_DecodeString (Car_ContentDataBase64 req) of
             Inl e \<Rightarrow> (answer 400 (ErrorObject (''content_data_base64 is not valid base64: '' @ e)), w)
           | Inr bytes \<Rightarrow>
               let annex = requestedAnnex gid req bytes
               in (case CreateSagaAnnex (Some annex) w of
                     (Inl e, w1) \<Rightarrow>
                       if e = ErrSagaInstanceNotFound then (answer 404 (ErrorObject ''saga instance not found''), w1)
                       else (answer 500 (ErrorObject (''failed to create saga annex: '' @ e)), w1)
                   | (Inr _, w1) \<Rightarrow> (answer 200 (Value (AnnexDetails (annexResponse annex))), w1))))"

definition getSagaAnnexes :: "string \<Rightarrow> string \<Rightarrow> world \<Rightarrow> reply \<times> world" where
  "getSagaAnnexes gid cid w =
     (if gid = '''' \<or> cid = '''' then (answer 400 (ErrorObject ''saga instance ID and cluster_id are required''), w)
      else case ListSagaAnnexes cid gid w of
        (Inl e, w1) \<Rightarrow> (answer 500 (ErrorObject (''failed to list saga annexes: '' @ e)), w1)
      | (Inr rows, w1) \<Rightarrow> (answer 200 (Value (Annexes gid (map annexResponse rows))), w1))"

definition getSagaAnnexBytes :: "string \<Rightarrow> string \<Rightarrow> string \<Rightarrow> world \<Rightarrow> reply \<times> world" where
  "getSagaAnnexBytes gid annexIid cid w =
     (if gid = '''' \<or> annexIid = '''' \<or> cid = ''''
      then (answer 400 (ErrorObject ''saga instance ID, annex iid, and cluster_id are required''), w)
      else case GetSagaAnnexBytes cid annexIid w of
        (Inl _, w1) \<Rightarrow> (answer 404 (ErrorObject ''annex not found''), w1)
      | (Inr a, w1) \<Rightarrow>
          if An_SagaInstanceId a \<noteq> gid then (answer 404 (ErrorObject ''annex not found''), w1)
          else (answer 200 (Value (AnnexBytes
                  (if An_ContentType a = '''' then ''application/octet-stream'' else An_ContentType a)
                  (An_ContentData a))), w1))"

section \<open>Clusters\<close>

definition ErrClusterNotFoundText :: string where
  "ErrClusterNotFoundText = ''cluster not found''"

text \<open>The status of a failing cluster operation: 404 for the one text, else 500.\<close>
definition clusterFailure :: "string \<Rightarrow> string \<Rightarrow> string \<Rightarrow> reply" where
  "clusterFailure what cid e =
     (let errMsg = what @ doubleQuoted cid @ '': '' @ e
      in if e = ErrClusterNotFoundText then answer 404 (Text errMsg) else answer 500 (Text errMsg))"

definition postCreateCluster ::
    "(string \<Rightarrow> smap result) \<Rightarrow> createClusterRequest result \<Rightarrow> world \<Rightarrow> reply \<times> world" where
  "postCreateCluster unmarshal body w =
     (case body of
        Inl e \<Rightarrow> (answer 400 (Text (''invalid request body: '' @ e)), w)
      | Inr req \<Rightarrow>
          (case convertCreateRequestToCluster unmarshal req of
             Inl e \<Rightarrow> (answer 400 (Text (''failed to convert request to cluster: '' @ e)), w)
           | Inr cl \<Rightarrow>
               (case SaveClusterIdempotently cl w of
                  (Inl e, w1) \<Rightarrow> (answer 500 (Text (''failed to save cluster: '' @ e)), w1)
                | (Inr created, w1) \<Rightarrow>
                    if \<not> created
                    then (answer 409 (Text (''cluster '' @ doubleQuoted (Cl_Id cl) @ '' already exists'')), w1)
                    else (answer 201 (Value (ClusterDetails (convertClusterToResponse cl))), w1))))"

definition getClusters :: "world \<Rightarrow> reply \<times> world" where
  "getClusters w =
     (case ListClusterIds w of
        (Inl e, w1) \<Rightarrow> (answer 500 (Text (''failed to list cluster IDs: '' @ e)), w1)
      | (Inr ids, w1) \<Rightarrow> (answer 200 (Value (ClusterIds ids)), w1))"

definition getClusterList :: "world \<Rightarrow> reply \<times> world" where
  "getClusterList w =
     (case ListClusters w of
        (Inl e, w1) \<Rightarrow> (answer 500 (Text (''failed to list clusters: '' @ e)), w1)
      | (Inr cls, w1) \<Rightarrow> (answer 200 (Value (Clusters (map convertClusterToResponse cls))), w1))"

definition getCluster :: "string \<Rightarrow> world \<Rightarrow> reply \<times> world" where
  "getCluster cid w =
     (if cid = '''' then (answer 400 (Text ''cluster ID is required''), w)
      else case GetCluster cid w of
        (Inl e, w1) \<Rightarrow> (clusterFailure ''failed to get cluster '' cid e, w1)
      | (Inr cl, w1) \<Rightarrow> (answer 200 (Value (ClusterDetails (convertClusterToResponse cl))), w1))"

definition putUpdateCluster ::
    "(string \<Rightarrow> smap result) \<Rightarrow> string \<Rightarrow> updateClusterRequest result \<Rightarrow> world \<Rightarrow> reply \<times> world" where
  "putUpdateCluster unmarshal cid body w =
     (if cid = '''' then (answer 400 (Text ''cluster ID is required''), w)
      else case body of
        Inl e \<Rightarrow> (answer 400 (Text (''invalid request body: '' @ e)), w)
      | Inr req \<Rightarrow>
          (case convertUpdateRequestToCluster unmarshal cid req of
             Inl e \<Rightarrow> (answer 400 (Text (''failed to convert request to cluster: '' @ e)), w)
           | Inr cl \<Rightarrow>
               (case UpdateCluster cl w of
                  (Inl e, w1) \<Rightarrow> (clusterFailure ''failed to update cluster '' cid e, w1)
                | (Inr _, w1) \<Rightarrow> (answer 200 (Value (ClusterDetails (convertClusterToResponse cl))), w1))))"

definition deleteCluster :: "string \<Rightarrow> world \<Rightarrow> reply \<times> world" where
  "deleteCluster cid w =
     (if cid = '''' then (answer 400 (Text ''cluster ID is required''), w)
      else case DeleteCluster cid w of
        (Inl e, w1) \<Rightarrow> (clusterFailure ''failed to delete cluster '' cid e, w1)
      | (Inr _, w1) \<Rightarrow> (answer 204 NoBody, w1))"

section \<open>The route table (api.go)\<close>

datatype control_request =
    POST_saga_templates_list_ids
  | POST_saga_templates_list
  | POST_saga_templates string
  | PUT_saga_templates string "updateSagaTemplateRequest result"
  | DELETE_saga_templates string
  | PUT_saga_step_templates string "updateSagaStepTemplateRequest result"
  | DELETE_saga_step_templates string
  | POST_saga_instances_list_ids "string result"
  | POST_saga_instances_list "listSagaInstancesRequest result"
  | POST_saga_instances_children string "string result"
  | POST_saga_instances_tree string "string result"
  | POST_saga_instances_annexes string "createSagaAnnexRequest result"
  | GET_saga_instances_annexes string string
  | GET_saga_instances_annexes_iid string string string
  | POST_saga_instances string "string result"
  | PUT_saga_instances_force_compensated string "forceMarkSagaCompensatedRequest result"
  | POST_saga_step_instances_list_ids "string result"
  | POST_saga_step_instances_list "listSagaStepInstancesRequest result"
  | POST_saga_step_instances string "string result"
  | POST_clusters "createClusterRequest result"
  | GET_clusters_list_ids
  | GET_clusters_list
  | GET_clusters string
  | PUT_clusters string "updateClusterRequest result"
  | DELETE_clusters string

text \<open>The library code a handler calls: the JSON parser and the server's answers to a listing.\<close>
record control_library =
  lib_unmarshal :: "string \<Rightarrow> smap result"
  lib_count :: "string \<Rightarrow> string list \<Rightarrow> db \<Rightarrow> int"
  lib_select :: "string \<Rightarrow> string list \<Rightarrow> db \<Rightarrow> SagaInstance list"

fun serve :: "control_library \<Rightarrow> control_request \<Rightarrow> world \<Rightarrow> reply option \<times> world" where
  "serve lib POST_saga_templates_list_ids w = apfst Some (postSagaTemplateIds w)"
| "serve lib POST_saga_templates_list w = apfst Some (postSagaTemplates w)"
| "serve lib (POST_saga_templates tid) w = apfst Some (postSagaTemplate tid w)"
| "serve lib (PUT_saga_templates tid body) w = apfst Some (putSagaTemplate tid body w)"
| "serve lib (DELETE_saga_templates tid) w = apfst Some (deleteSagaTemplate tid w)"
| "serve lib (PUT_saga_step_templates tid sbody) w = apfst Some (putSagaStepTemplate tid sbody w)"
| "serve lib (DELETE_saga_step_templates tid) w = apfst Some (deleteSagaStepTemplate tid w)"
| "serve lib (POST_saga_instances_list_ids cbody) w = apfst Some (postSagaInstanceIds cbody w)"
| "serve lib (POST_saga_instances_list lbody) w = apfst Some (postSagaInstances (lib_count lib) (lib_select lib) lbody w)"
| "serve lib (POST_saga_instances_children gid cbody) w = apfst Some (postSagaInstanceChildren gid cbody w)"
| "serve lib (POST_saga_instances_tree gid cbody) w = apfst Some (postSagaInstanceTree gid cbody w)"
| "serve lib (POST_saga_instances_annexes gid abody) w = apfst Some (postSagaAnnex gid abody w)"
| "serve lib (GET_saga_instances_annexes gid cid) w = apfst Some (getSagaAnnexes gid cid w)"
| "serve lib (GET_saga_instances_annexes_iid gid iid cid) w = apfst Some (getSagaAnnexBytes gid iid cid w)"
| "serve lib (POST_saga_instances gid cbody) w = apfst Some (postSagaInstance gid cbody w)"
| "serve lib (PUT_saga_instances_force_compensated gid fbody) w = apfst Some (putForceMarkSagaCompensated gid fbody w)"
| "serve lib (POST_saga_step_instances_list_ids cbody) w = apfst Some (postSagaStepInstanceIds cbody w)"
| "serve lib (POST_saga_step_instances_list sbody') w = postSagaStepInstances sbody' w"
| "serve lib (POST_saga_step_instances sid cbody) w = apfst Some (postSagaStepInstance sid cbody w)"
| "serve lib (POST_clusters ccbody) w = apfst Some (postCreateCluster (lib_unmarshal lib) ccbody w)"
| "serve lib GET_clusters_list_ids w = apfst Some (getClusters w)"
| "serve lib GET_clusters_list w = apfst Some (getClusterList w)"
| "serve lib (GET_clusters cid) w = apfst Some (getCluster cid w)"
| "serve lib (PUT_clusters cid ubody) w = apfst Some (putUpdateCluster (lib_unmarshal lib) cid ubody w)"
| "serve lib (DELETE_clusters cid) w = apfst Some (deleteCluster cid w)"

end
