(* ===== verification/Control_Guarantees.thy ===== *)
theory Control_Guarantees
  imports Control_Api Saga_Example
begin

text \<open>
  What the HTTP API of the control daemon does to the system: every request is one of the events of
  \<open>Saga_System\<close> or leaves the rows alone, so whatever holds in every reachable database holds with the
  operators at work; and what the replies of the handlers say.
\<close>

section \<open>Requests as events\<close>

text \<open>The event a request is, once its guards have passed.\<close>
fun event_of :: "control_library \<Rightarrow> control_request \<Rightarrow> event option" where
  "event_of lib (PUT_saga_templates tid (Inr req)) =
     (if tid = '''' then None
      else Some (TemplateUpdated \<lparr>St_TemplateId = tid, St_DisplayName = Utr_DisplayName req,
        St_Description = Utr_Description req, St_Labels = Utr_Labels req, St_Tags = Utr_Tags req,
        St_Metadata = Utr_Metadata req, St_SagaStepTemplateIds = Utr_SagaStepTemplateIds req\<rparr>))"
| "event_of lib (DELETE_saga_templates tid) = (if tid = '''' then None else Some (TemplateDeleted tid))"
| "event_of lib (PUT_saga_step_templates tid (Inr sreq)) =
     (if tid = '''' then None
      else Some (StepTemplateUpdated \<lparr>Sst_TemplateId = tid, Sst_SagaTemplateId = Ustr_SagaTemplateId sreq,
        Sst_DisplayName = Ustr_DisplayName sreq, Sst_Description = Ustr_Description sreq,
        Sst_Labels = Ustr_Labels sreq, Sst_Tags = Ustr_Tags sreq, Sst_Metadata = Ustr_Metadata sreq\<rparr>))"
| "event_of lib (DELETE_saga_step_templates tid) = (if tid = '''' then None else Some (StepTemplateDeleted tid))"
| "event_of lib (POST_saga_instances_annexes gid (Inr areq)) =
     (if gid = '''' then None
      else case base64_DecodeString (Car_ContentDataBase64 areq) of
             Inl _ \<Rightarrow> None
           | Inr bytes \<Rightarrow> Some (AnnexAttached (Some (requestedAnnex gid areq bytes))))"
| "event_of lib (PUT_saga_instances_force_compensated gid (Inr freq)) =
     (if gid = '''' \<or> strings_TrimSpace (Fmr_Reason freq) = '''' then None
      else Some (OperatorForces (Fmr_ClusterId freq) gid (Fmr_Reason freq)))"
| "event_of lib (POST_clusters (Inr creq)) =
     (case convertCreateRequestToCluster (lib_unmarshal lib) creq of
        Inl _ \<Rightarrow> None | Inr cl \<Rightarrow> Some (ClusterSaved cl))"
| "event_of lib (PUT_clusters cid (Inr ureq)) =
     (if cid = '''' then None
      else case convertUpdateRequestToCluster (lib_unmarshal lib) cid ureq of
             Inl _ \<Rightarrow> None | Inr cl \<Rightarrow> Some (ClusterUpdated cl))"
| "event_of lib (DELETE_clusters cid) = (if cid = '''' then None else Some (ClusterDeleted cid))"
| "event_of lib rq = None"

text \<open>A call that only reads: the rows and the transaction stay.\<close>
definition reads :: "world \<Rightarrow> world \<Rightarrow> bool" where
  "reads w w1 = (w_db w1 = w_db w \<and> w_tx w1 = w_tx w)"

lemma reads_refl: "reads w w"
  by (simp add: reads_def)

lemma reads_query: "reads w v \<Longrightarrow> reads w (snd (db_query q v))"
  using query_in_tx[OF surjective_pairing, of q v] by (simp add: reads_def)

lemma reads_queryD: "db_query q v = (r, v1) \<Longrightarrow> reads w v \<Longrightarrow> reads w v1"
  using reads_query[of w v q] by simp

lemma reads_case:
  "\<lbrakk> reads w (snd m); \<And>e v. reads w v \<Longrightarrow> reads w (snd (A e v)); \<And>x v. reads w v \<Longrightarrow> reads w (snd (B x v)) \<rbrakk> \<Longrightarrow>
   reads w (snd (case m of (Inl e, v) \<Rightarrow> A e v | (Inr x, v) \<Rightarrow> B x v))"
  by (auto split: prod.splits sum.splits)

lemma reads_found:
  "\<lbrakk> reads w (snd m); \<And>e v. reads w v \<Longrightarrow> reads w (snd (A e v)); \<And>v. reads w v \<Longrightarrow> reads w (snd (N v));
     \<And>x v. reads w v \<Longrightarrow> reads w (snd (B x v)) \<rbrakk> \<Longrightarrow>
   reads w (snd (case m of (Inl e, v) \<Rightarrow> A e v | (Inr None, v) \<Rightarrow> N v | (Inr (Some x), v) \<Rightarrow> B x v))"
  by (auto split: prod.splits sum.splits option.splits)

lemma reads_pair: "reads w v \<Longrightarrow> reads w (snd (r, v))"
  by simp

lemma reads_if: "\<lbrakk> c \<Longrightarrow> reads w (snd m); \<not> c \<Longrightarrow> reads w (snd n) \<rbrakk> \<Longrightarrow> reads w (snd (if c then m else n))"
  by simp

lemma reads_body:
  "\<lbrakk> \<And>e. b = Inl e \<Longrightarrow> reads w (snd (A e)); \<And>x. b = Inr x \<Longrightarrow> reads w (snd (B x)) \<rbrakk> \<Longrightarrow>
   reads w (snd (case b of Inl e \<Rightarrow> A e | Inr x \<Rightarrow> B x))"
  by (cases b) auto

lemmas reads_rules = reads_case reads_found reads_pair reads_if reads_body reads_query reads_refl

lemmas store_reads = GetSagaTemplate_def GetSagaStepTemplate_def ListSagaTemplates_def ListSagaInstanceIds_def
  GetChildSagaInstances_def GetSagaHierarchy_def GetSagaInstance_def ListSagaStepInstanceIds_def
  ListSagaStepInstancesBySagaInstanceId_def ListSagaStepInstances_def GetSagaStepInstance_def
  ListSagaAnnexes_def GetSagaAnnexBytes_def ListClusterIds_def ListClusters_def GetCluster_def

lemma listing_reads:
  assumes "reads w v"
  shows
  "reads w (snd (GetSagaStepTemplate tid v))" "reads w (snd (GetSagaTemplate tid v))"
  "reads w (snd (ListSagaTemplates v))" "reads w (snd (ListSagaInstanceIds cid v))"
  "reads w (snd (GetChildSagaInstances cid gid v))" "reads w (snd (GetSagaHierarchy cid gid v))"
  "reads w (snd (GetSagaInstance cid gid v))" "reads w (snd (ListSagaStepInstanceIds cid v))"
  "reads w (snd (ListSagaStepInstancesBySagaInstanceId cid gid v))" "reads w (snd (ListSagaStepInstances cid v))"
  "reads w (snd (GetSagaStepInstance cid sid v))" "reads w (snd (ListSagaAnnexes cid gid v))"
  "reads w (snd (GetSagaAnnexBytes cid iid v))" "reads w (snd (ListClusterIds v))"
  "reads w (snd (ListClusters v))" "reads w (snd (GetCluster cid v))"
  unfolding store_reads by (intro reads_rules assms; assumption?)+

lemma reads_step_templates: "reads w v \<Longrightarrow> reads w (snd (collectStepTemplates ids v))"
proof (induction ids arbitrary: v)
  case (Cons i ids)
  show ?case
    unfolding collectStepTemplates.simps by (intro reads_rules listing_reads Cons.IH Cons.prems; assumption)
qed simp

lemma reads_template: "reads w v \<Longrightarrow> reads w (snd (convertSagaTemplateToResponse t v))"
  unfolding convertSagaTemplateToResponse_def by (intro reads_rules reads_step_templates; assumption)

lemma reads_templates: "reads w v \<Longrightarrow> reads w (snd (collectTemplates ts v))"
proof (induction ts arbitrary: v)
  case (Cons t ts)
  show ?case
    unfolding collectTemplates.simps by (intro reads_rules reads_template Cons.IH Cons.prems; assumption)
qed simp

lemma reads_paginated:
  "reads w v \<Longrightarrow> reads w (snd (ListSagaInstancesPaginated sqlCount sqlSelect t opts v))"
  unfolding ListSagaInstancesPaginated_def
  by (auto split: prod.splits sum.splits dest: reads_queryD)

lemmas handler_reads = reads_rules listing_reads reads_template reads_templates reads_paginated

lemma reading_handlers:
  "reads w (snd (postSagaTemplateIds w))" "reads w (snd (postSagaTemplates w))" "reads w (snd (postSagaTemplate tid w))"
  "reads w (snd (postSagaInstanceIds cbody w))" "reads w (snd (postSagaInstanceChildren gid cbody w))"
  "reads w (snd (postSagaInstanceTree gid cbody w))" "reads w (snd (getSagaAnnexes gid cid w))"
  "reads w (snd (getSagaAnnexBytes gid iid cid w))" "reads w (snd (postSagaInstance gid cbody w))"
  "reads w (snd (postSagaStepInstanceIds cbody w))" "reads w (snd (postSagaStepInstance sid cbody w))"
  "reads w (snd (getClusters w))" "reads w (snd (getClusterList w))" "reads w (snd (getCluster cid w))"
  unfolding postSagaTemplateIds_def postSagaTemplates_def postSagaTemplate_def postSagaInstanceIds_def
    postSagaInstanceChildren_def postSagaInstanceTree_def getSagaAnnexes_def getSagaAnnexBytes_def
    postSagaInstance_def postSagaStepInstanceIds_def postSagaStepInstance_def getClusters_def
    getClusterList_def getCluster_def
  by (intro handler_reads; assumption)+

lemma reads_steps: "reads w (snd (postSagaStepInstances body w))"
  unfolding postSagaStepInstances_def Let_def by (intro handler_reads; assumption?)

lemma reads_paginatedD:
  "ListSagaInstancesPaginated sqlCount sqlSelect t opts w = (r, w1) \<Longrightarrow> reads w w1"
  using reads_paginated[OF reads_refl, of w sqlCount sqlSelect t opts] by simp

lemma reads_instances: "reads w (snd (postSagaInstances sqlCount sqlSelect body w))"
  unfolding postSagaInstances_def
  by (auto simp: reads_refl split: sum.splits prod.splits dest: reads_paginatedD)

text \<open>The handlers that write: on every path the world after them is the one the event leaves.\<close>
lemma last_call_world:
  "\<lbrakk> \<And>e v. snd (A e v) = v; \<And>x v. snd (B x v) = v \<rbrakk> \<Longrightarrow>
   snd (case m of (Inl e, v) \<Rightarrow> A e v | (Inr x, v) \<Rightarrow> B x v) = snd m"
  by (auto split: prod.splits sum.splits)

definition after :: "event option \<Rightarrow> world \<Rightarrow> world" where
  "after ev w = (case ev of None \<Rightarrow> w | Some e \<Rightarrow> snd (run_event e w))"

lemma after_simps [simp]: "after None w = w" "after (Some e) w = snd (run_event e w)"
  by (simp_all add: after_def)

lemma writing_handlers:
  "snd (putSagaTemplate tid tbody w) = after (event_of lib (PUT_saga_templates tid tbody)) w"
  "snd (deleteSagaTemplate tid w) = after (event_of lib (DELETE_saga_templates tid)) w"
  "snd (putSagaStepTemplate tid sbody w) = after (event_of lib (PUT_saga_step_templates tid sbody)) w"
  "snd (deleteSagaStepTemplate tid w) = after (event_of lib (DELETE_saga_step_templates tid)) w"
  "snd (postSagaAnnex gid abody w) = after (event_of lib (POST_saga_instances_annexes gid abody)) w"
  "snd (putForceMarkSagaCompensated gid fbody w) =
     after (event_of lib (PUT_saga_instances_force_compensated gid fbody)) w"
  "snd (postCreateCluster (lib_unmarshal lib) ccbody w) = after (event_of lib (POST_clusters ccbody)) w"
  "snd (putUpdateCluster (lib_unmarshal lib) cid ubody w) = after (event_of lib (PUT_clusters cid ubody)) w"
  "snd (deleteCluster cid w) = after (event_of lib (DELETE_clusters cid)) w"
  subgoal by (cases tbody) (auto simp: putSagaTemplate_def split: sum.split prod.split)
  subgoal by (auto simp: deleteSagaTemplate_def split: sum.split prod.split)
  subgoal by (cases sbody) (auto simp: putSagaStepTemplate_def split: sum.split prod.split)
  subgoal by (auto simp: deleteSagaStepTemplate_def split: sum.split prod.split)
  subgoal by (cases abody) (auto simp: postSagaAnnex_def Let_def split: sum.split prod.split)
  subgoal by (cases fbody) (auto simp: putForceMarkSagaCompensated_def split: sum.split prod.split)
  subgoal by (cases ccbody) (auto simp: postCreateCluster_def split: sum.split prod.split)
  subgoal by (cases ubody) (auto simp: putUpdateCluster_def split: sum.split prod.split)
  subgoal by (auto simp: deleteCluster_def split: sum.split prod.split)
  done

lemma event_without_panic: "event_of lib rq = Some ev \<Longrightarrow> fst (run_event ev w) = None"
  by (induction lib rq rule: event_of.induct) (auto split: if_splits sum.splits)

lemma event_admissible: "event_of lib rq = Some ev \<Longrightarrow> admissible ev w"
  by (induction lib rq rule: event_of.induct) (auto split: if_splits sum.splits)

text \<open>A request is the event of its route, or reads.\<close>
lemma serve_world:
  "snd (serve lib rq w) = after (event_of lib rq) w \<or> event_of lib rq = None \<and> reads w (snd (serve lib rq w))"
  by (cases rq) (simp_all add: writing_handlers[where lib = lib] reading_handlers reads_steps reads_instances
    del: event_of.simps(1-9) run_event.simps)

lemma goroutine_durable: "reads (goroutine e d) w \<Longrightarrow> durable w = d"
  by (simp add: reads_def durable_def goroutine_def)


section \<open>What operators can do to sagas\<close>

text \<open>How one request may change the row of a saga.\<close>
definition spared :: "control_request \<Rightarrow> SagaInstance \<Rightarrow> SagaInstance \<Rightarrow> bool" where
  "spared rq g g' = (saga_key g' = saga_key g \<and>
     (Si_State g' = Si_State g \<or>
      Si_State g = SagaStateEnum_Blocked \<and> Si_State g' = SagaStateEnum_Compensated \<and>
      (\<exists>req. rq = PUT_saga_instances_force_compensated (Si_InstanceId g) (Ok req) \<and>
         Fmr_ClusterId req = Si_ClusterId g \<and> strings_TrimSpace (Fmr_Reason req) \<noteq> '''' \<and>
         Si_CompensationReason g' = ''[FORCE-MARKED] '' @ Fmr_Reason req)))"

definition spared_rows :: "control_request \<Rightarrow> db \<Rightarrow> db \<Rightarrow> bool" where
  "spared_rows rq d d' = (db_steps d' = db_steps d \<and> list_all2 (spared rq) (db_sagas d) (db_sagas d'))"

lemma spared_refl: "spared rq g g"
  by (simp add: spared_def)

lemma spared_rows_same: "db_steps d' = db_steps d \<Longrightarrow> db_sagas d' = db_sagas d \<Longrightarrow> spared_rows rq d d'"
  by (simp add: spared_rows_def list_all2_same spared_refl)

lemma spared_rows_update:
  assumes "db_steps d = db_steps d0" "db_sagas d = db_sagas d0"
    and "\<And>g. Si_ClusterId g = c \<Longrightarrow> Si_InstanceId g = gid \<Longrightarrow> spared rq g (u g)"
  shows "spared_rows rq d0 (update_saga_rows c gid u d)"
  using assms by (auto simp: spared_rows_def update_saga_rows_def list_all2_conv_all_nth spared_refl)

lemma spared_rows_exec:
  assumes "db_steps (w_db w) = db_steps d0" "db_sagas (w_db w) = db_sagas d0"
    and "\<And>g. Si_ClusterId g = c \<Longrightarrow> Si_InstanceId g = gid \<Longrightarrow> spared rq g (u g)"
  shows "spared_rows rq d0 (w_db (snd (db_exec (update_saga_rows c gid u) w)))"
  using exec_any[OF surjective_pairing, of "update_saga_rows c gid u" w] spared_rows_update[OF assms]
    spared_rows_same[OF assms(1,2), where rq = rq] by auto

lemma annex_spares:
  "spared_rows rq (w_db w) (w_db (snd (CreateSagaAnnex annex w)))"
proof (cases annex)
  case (Some a)
  let ?n = "if An_ContentLength a = 0 then int (length (An_ContentData a)) else An_ContentLength a"
  obtain y v where v: "db_insert (\<lambda>d. find_saga (An_ClusterId a) (An_SagaInstanceId a) d \<noteq> None)
      (upsert_annex (a\<lparr>An_ContentLength := ?n\<rparr>) (w_dbtime w)) w = (y, v)"
    by fastforce
  have "frames (upsert_annex b t)" for b t by (simp add: frames_def upsert_annex_def Let_def)
  then have v': "db_steps (w_db v) = db_steps (w_db w)" "db_sagas (w_db v) = db_sagas (w_db w)"
    using insert_any[OF v] by (auto simp: frames_def)
  let ?u = "\<lambda>r. r\<lparr>Si_AnnexIids := removeAll (An_Iid a) (Si_AnnexIids r) @ [An_Iid a], Si_UpdatedAt := w_dbtime v\<rparr>"
  have "spared_rows rq (w_db w) (w_db (snd (db_exec (update_saga_rows (An_ClusterId a) (An_SagaInstanceId a) ?u) v)))"
    by (rule spared_rows_exec[OF v']) (simp add: spared_def)
  then show ?thesis using v v' Some spared_rows_same[OF v'] spared_rows_same[of "w_db w" "w_db w"]
    by (auto simp: CreateSagaAnnex_def Let_def split: sum.splits prod.splits if_splits)
qed (simp add: CreateSagaAnnex_def spared_rows_same)

lemma force_spares:
  assumes "rq = PUT_saga_instances_force_compensated gid (Ok req)" "strings_TrimSpace (Fmr_Reason req) \<noteq> ''''"
  shows "spared_rows rq (w_db w) (w_db (snd (ForceMarkSagaCompensated (Fmr_ClusterId req) gid (Fmr_Reason req) w)))"
proof -
  let ?u = "\<lambda>r. if Si_State r = SagaStateEnum_Blocked
      then r\<lparr>Si_State := SagaStateEnum_Compensated,
             Si_CompensationReason := ''[FORCE-MARKED] '' @ Fmr_Reason req, Si_UpdatedAt := w_dbtime w\<rparr> else r"
  have "spared_rows rq (w_db w) (w_db (snd (db_exec (update_saga_rows (Fmr_ClusterId req) gid ?u) w)))"
    by (rule spared_rows_exec[OF refl refl]) (use assms in \<open>auto simp: spared_def\<close>)
  then show ?thesis using spared_rows_same[of "w_db w" "w_db w"]
    by (auto simp: ForceMarkSagaCompensated_def Let_def split: sum.splits prod.splits if_splits)
qed

lemma event_kinds:
  "event_of lib rq = Some ev \<Longrightarrow>
   (\<exists>annex. ev = AnnexAttached annex) \<or>
   (\<exists>gid req. rq = PUT_saga_instances_force_compensated gid (Ok req) \<and> strings_TrimSpace (Fmr_Reason req) \<noteq> '''' \<and>
      ev = OperatorForces (Fmr_ClusterId req) gid (Fmr_Reason req)) \<or>
   (\<exists>t. ev = TemplateUpdated t) \<or> (\<exists>tid. ev = TemplateDeleted tid) \<or> (\<exists>t. ev = StepTemplateUpdated t) \<or>
   (\<exists>tid. ev = StepTemplateDeleted tid) \<or> (\<exists>cl. ev = ClusterSaved cl) \<or> (\<exists>cl. ev = ClusterUpdated cl) \<or>
   (\<exists>cid. ev = ClusterDeleted cid)"
  by (induction lib rq rule: event_of.induct) (auto split: if_splits sum.splits)

lemma event_spares:
  assumes "event_of lib rq = Some ev"
  shows "spared_rows rq (w_db w) (w_db (snd (run_event ev w)))"
proof -
  have "same_rows w v \<Longrightarrow> spared_rows rq (w_db w) (w_db v)" for v by (simp add: same_rows_def spared_rows_same)
  then show ?thesis
    using event_kinds[OF assms] management_same[of w] annex_spares force_spares[of rq] by auto
qed

lemma insert_any_tx: "w_tx (snd (db_insert ok f w)) = w_tx w"
  using insert_any[OF surjective_pairing, of ok f w] by simp

lemma exec_any_tx: "w_tx (snd (db_exec f w)) = w_tx w"
  using exec_any[OF surjective_pairing, of f w] by simp

lemma case_tx:
  "\<lbrakk> w_tx (snd m) = t; \<And>e v. w_tx v = t \<Longrightarrow> w_tx (snd (A e v)) = t; \<And>x v. w_tx v = t \<Longrightarrow> w_tx (snd (B x v)) = t \<rbrakk> \<Longrightarrow>
   w_tx (snd (case m of (Inl e, v) \<Rightarrow> A e v | (Inr x, v) \<Rightarrow> B x v)) = t"
  by (auto split: prod.splits sum.splits)

lemma event_tx:
  assumes "event_of lib rq = Some ev"
  shows "w_tx (snd (run_event ev w)) = w_tx w"
proof -
  have "w_tx (snd (CreateSagaAnnex annex w)) = w_tx w" for annex
    by (cases annex) (auto simp: CreateSagaAnnex_def Let_def insert_any_tx exec_any_tx intro!: case_tx)
  moreover have "w_tx (snd (ForceMarkSagaCompensated c gid reason w)) = w_tx w" for c gid reason
    by (auto simp: ForceMarkSagaCompensated_def Let_def exec_any_tx intro!: case_tx)
  ultimately show ?thesis
    using event_kinds[OF assms] management_same[of w] by (auto simp: same_rows_def)
qed


section \<open>Listing steps\<close>

text \<open>The links submissions leave in a cluster: one chain per saga, step ids unique in the cluster.\<close>
definition chained_cluster :: "string \<Rightarrow> SagaStepInstance list \<Rightarrow> bool" where
  "chained_cluster cid S =
     (distinct (map Ss_InstanceId (filter (\<lambda>r. Ss_ClusterId r = cid) S)) \<and>
      (\<forall>gid. \<exists>c. is_chain c \<and> mset c = mset (saga_rows cid gid S)))"

lemma chain_head:
  "is_chain c \<Longrightarrow> s \<in> set c \<Longrightarrow> Ss_PreviousSagaStepInstanceId s = '''' \<longleftrightarrow> s = c ! 0"
proof -
  assume c: "is_chain c" and s: "s \<in> set c"
  obtain i where i: "i < length c" "s = c ! i" using s by (auto simp: in_set_conv_nth)
  have d: "distinct c" using c by (auto simp: is_chain_def distinct_map)
  show ?thesis
  proof (cases i)
    case 0
    then show ?thesis using c i by (simp add: is_chain_def)
  next
    case (Suc k)
    then have "c ! k \<in> set c" using i by simp
    moreover have "0 < length c" using i by linarith
    then have "s \<noteq> c ! 0" using i Suc nth_eq_iff_index_eq[OF d i(1)] by simp
    ultimately show ?thesis using c i Suc by (auto simp: is_chain_def)
  qed
qed

lemma cluster_walk_is_one_chain:
  assumes ch: "chained_cluster cid S" and ne: "filter (\<lambda>r. Ss_ClusterId r = cid) S \<noteq> []"
  shows "\<exists>gid c. is_chain c \<and> mset c = mset (saga_rows cid gid S) \<and>
    OrderSagaStepsInSequence (filter (\<lambda>r. Ss_ClusterId r = cid) S) = Some c"
proof -
  let ?rows = "filter (\<lambda>r. Ss_ClusterId r = cid) S"
  let ?head = "\<lambda>s. Ss_PreviousSagaStepInstanceId s = ''''"
  have chains: "\<exists>c. is_chain c \<and> mset c = mset (saga_rows cid gid S)" for gid using ch by (simp add: chained_cluster_def)
  have sub: "set (saga_rows cid gid S) \<subseteq> set ?rows" for gid by (auto simp: saga_rows_def)
  obtain r where r: "r \<in> set ?rows" using ne by (cases ?rows) auto
  obtain c0 where c0: "is_chain c0" "mset c0 = mset (saga_rows cid (Ss_SagaInstanceId r) S)" using chains by blast
  have set0: "set c0 = set (saga_rows cid (Ss_SagaInstanceId r) S)" using c0(2) by (metis set_mset_mset)
  have "r \<in> set c0" using r set0 by (simp add: saga_rows_def)
  then have h0: "c0 ! 0 \<in> set c0" by (cases c0) auto
  then have "?head (c0 ! 0)" using chain_head[OF c0(1)] by blast
  moreover have "c0 ! 0 \<in> set ?rows" using h0 set0 sub by blast
  ultimately have "find ?head ?rows \<noteq> None" by (auto simp: find_None_iff)
  then obtain s where s: "find ?head ?rows = Some s" by blast
  then have s': "?head s" "s \<in> set ?rows" unfolding find_Some_iff by (metis nth_mem)+
  let ?gid = "Ss_SagaInstanceId s"
  obtain c where c: "is_chain c" "mset c = mset (saga_rows cid ?gid S)" using chains by blast
  have set1: "set c = set (saga_rows cid ?gid S)" using c(2) by (metis set_mset_mset)
  have sc: "s \<in> set c" using s'(2) set1 by (simp add: saga_rows_def)
  have "s = c ! 0" using chain_head[OF c(1) sc] s'(1) by simp
  have m: "x \<in> set c \<Longrightarrow> stepMapOf ?rows (Ss_InstanceId x) = Some x" for x
    using stepMapOf_distinct[of ?rows x] ch set1 sub by (auto simp: chained_cluster_def)
  have "length c = length (saga_rows cid ?gid S)" using c(2) by (metis size_mset)
  also have "\<dots> \<le> length ?rows"
    unfolding saga_rows_def filter_filter[symmetric] by (metis (no_types) conj_commute filter_filter length_filter_le)
  finally have "walkChain (Suc (length ?rows)) (stepMapOf ?rows) (c ! 0) = Some (drop 0 c)"
    using walk_is_chain[OF c(1) m, of 0 "Suc (length ?rows)"] sc by (cases c) auto
  then have "OrderSagaStepsInSequence ?rows = Some c"
    using ne s \<open>s = c ! 0\<close> by (simp add: OrderSagaStepsInSequence_def orderWithFuel_def)
  then show ?thesis using c by blast
qed

text \<open>C13: The listing of steps with a saga id answers all its steps in execution order.  Without a saga id it is
  meant to list all steps of the cluster, and it answers the steps of a single saga.\<close>
theorem step_listing_shows_one_saga:
  assumes w: "w_tx w = None" "w_faults w = []" and cid: "Lss_ClusterId req \<noteq> ''''"
    and ch: "chained_cluster (Lss_ClusterId req) (db_steps (w_db w))"
  shows "\<exists>gid steps. (Lss_SagaInstanceId req \<noteq> '''' \<longrightarrow> gid = Lss_SagaInstanceId req) \<and>
    is_chain steps \<and> mset steps = mset (saga_rows (Lss_ClusterId req) gid (db_steps (w_db w))) \<and>
    postSagaStepInstances (Ok req) w =
      (Some (answer 200 (Value (Steps (map convertSagaStepInstanceToResponse steps)))), w)"
proof (cases "Lss_SagaInstanceId req = ''''")
  case False
  let ?cid = "Lss_ClusterId req" and ?gid = "Lss_SagaInstanceId req"
  obtain c where c: "is_chain c" "mset c = mset (saga_rows ?cid ?gid (db_steps (w_db w)))"
    using ch by (auto simp: chained_cluster_def)
  have "OrderSagaStepsInSequence (saga_steps ?cid ?gid (w_db w)) = Some c"
    using order_chain[OF c(1)] c(2) by (simp add: saga_steps_def saga_rows_def)
  then have "postSagaStepInstances (Ok req) w =
      (Some (answer 200 (Value (Steps (map convertSagaStepInstanceToResponse c)))), w)"
    using w cid False by (simp add: postSagaStepInstances_def ListSagaStepInstancesBySagaInstanceId_def
        db_query_def next_fault_def)
  then show ?thesis using c by blast
next
  case True
  let ?cid = "Lss_ClusterId req"
  let ?rows = "filter (\<lambda>r. Ss_ClusterId r = ?cid) (db_steps (w_db w))"
  obtain gid c where c: "is_chain c" "mset c = mset (saga_rows ?cid gid (db_steps (w_db w)))"
      "OrderSagaStepsInSequence ?rows = Some c"
  proof (cases "?rows = []")
    case True
    then have "saga_rows ?cid '''' (db_steps (w_db w)) = []" by (auto simp: saga_rows_def filter_empty_conv)
    with True show ?thesis by (intro that[of "[]" "''''"])
      (simp_all add: is_chain_def OrderSagaStepsInSequence_def orderWithFuel_def)
  next
    case False
    then show ?thesis using cluster_walk_is_one_chain[OF ch] that by blast
  qed
  have "postSagaStepInstances (Ok req) w =
      (Some (answer 200 (Value (Steps (map convertSagaStepInstanceToResponse c)))), w)"
    using w cid True c(3) by (simp add: postSagaStepInstances_def ListSagaStepInstances_def
        db_query_def next_fault_def)
  then show ?thesis using c True by blast
qed

section \<open>Annexes and errors\<close>

text \<open>C14: What is uploaded as an annex is what its saga serves: after an upload nothing disturbs, the reply
  describes the annex, the saga lists its iid once and last, and downloading it from the saga gives the bytes
  that were encoded.  The iid is unique in the cluster and the upload takes it over: every other saga answers
  404 for it, also one that listed the iid before and lists it still.\<close>
theorem annex_upload_roundtrip:
  assumes w: "psql_wf w" and ids: "gid \<noteq> ''''" "Car_Iid req \<noteq> ''''" "Car_ClusterId req \<noteq> ''''"
    and b: "Car_ContentDataBase64 req = base64Encode bytes"
    and g: "psql_view w (Car_ClusterId req, gid) = Some g"
  shows "\<exists>w1. postSagaAnnex gid (Ok req) w =
      (answer 200 (Value (AnnexDetails (annexResponse (requestedAnnex gid req bytes)))), w1) \<and>
    psql_view w1 = (psql_view w)((Car_ClusterId req, gid) \<mapsto>
      g\<lparr>Si_AnnexIids := removeAll (Car_Iid req) (Si_AnnexIids g) @ [Car_Iid req]\<rparr>) \<and>
    getSagaAnnexBytes gid (Car_Iid req) (Car_ClusterId req) w1 =
      (answer 200 (Value (AnnexBytes (if Car_ContentType req = '''' then ''application/octet-stream''
         else Car_ContentType req) bytes)), w1) \<and>
    (\<forall>other. other \<noteq> '''' \<and> other \<noteq> gid \<longrightarrow> getSagaAnnexBytes other (Car_Iid req) (Car_ClusterId req) w1 =
      (answer 404 (ErrorObject ''annex not found''), w1))"
proof -
  let ?a = "requestedAnnex gid req bytes"
  have a: "An_Iid ?a = Car_Iid req" "An_SagaInstanceId ?a = gid" "An_ClusterId ?a = Car_ClusterId req"
    "An_ContentType (storedAnnex ?a) = Car_ContentType req" "An_ContentData (storedAnnex ?a) = bytes"
    "An_SagaInstanceId (storedAnnex ?a) = gid"
    by (simp_all add: requestedAnnex_def storedAnnex_def)
  obtain w1 t where w1: "CreateSagaAnnex (Some ?a) w = (Ok (), w1)"
      "psql_view w1 = (psql_view w)((Car_ClusterId req, gid) \<mapsto>
        g\<lparr>Si_AnnexIids := removeAll (Car_Iid req) (Si_AnnexIids g) @ [Car_Iid req]\<rparr>)"
      "GetSagaAnnexBytes (Car_ClusterId req) (Car_Iid req) w1 =
        (Ok ((storedAnnex ?a)\<lparr>An_CreatedAt := t, An_UpdatedAt := w_dbtime w\<rparr>), w1)"
    using create_annex_ok[OF w, of ?a g] ids g unfolding a by blast
  show ?thesis
    using ids w1 a by (intro exI[of _ w1])
      (simp add: postSagaAnnex_def getSagaAnnexBytes_def b base64_roundtrip Let_def)
qed

lemma contains_infix: "strings_Contains (xs @ p @ ys) p"
proof (induction xs)
  case Nil
  have "startsWith p (p @ ys)" by (simp add: startsWith_def)
  then show ?case by (cases "p @ ys") auto
qed auto

lemma force_never_404:
  assumes "w_tx w = None"
  shows "rp_status (fst (putForceMarkSagaCompensated gid body w)) \<noteq> 404"
proof -
  have c: "strings_Contains (''saga instance '' @ gid @ '' is not in BLOCKED state, cannot force-mark compensated'')
      ''not in BLOCKED state''"
    using contains_infix[of "''saga instance '' @ gid @ '' is ''" "''not in BLOCKED state''" "'', cannot force-mark compensated''"]
    by simp
  have n: "\<not> strings_Contains (''failed to force-mark saga compensated: '' @ sql_error) ''not found''" by code_simp
  have t: "strings_TrimSpace r \<noteq> '''' \<Longrightarrow> r \<noteq> ''''" for r by (auto simp: strings_TrimSpace_def)
  have e: "db_exec f w = (Err x, v) \<Longrightarrow> x = sql_error" for f x v
    using assms by (auto simp: db_exec_def next_fault_def split: list.splits fault.splits)
  have f: "fst (ForceMarkSagaCompensated cid gid r w) \<in> {Ok (), Err (''failed to force-mark saga compensated: '' @ sql_error),
      Err (''saga instance '' @ gid @ '' is not in BLOCKED state, cannot force-mark compensated'')}" if "r \<noteq> ''''" for cid r
    using that by (auto simp: ForceMarkSagaCompensated_def Let_def split: sum.splits prod.splits if_splits dest: e)
  show ?thesis
  proof (cases body)
    case (Inr req)
    show ?thesis
    proof (cases "gid = '''' \<or> strings_TrimSpace (Fmr_Reason req) = ''''")
      case False
      obtain x v where x: "ForceMarkSagaCompensated (Fmr_ClusterId req) gid (Fmr_Reason req) w = (x, v)" by fastforce
      have s: "rp_status (fst (putForceMarkSagaCompensated gid body w)) = (case x of Inr _ \<Rightarrow> 200
          | Inl e \<Rightarrow> if strings_Contains e ''not in BLOCKED state'' then 400
                   else if strings_Contains e ''not found'' then 404 else 500)"
        using Inr False x by (simp add: putForceMarkSagaCompensated_def split: sum.split)
      from x have "x \<in> {Ok (), Err (''failed to force-mark saga compensated: '' @ sql_error),
          Err (''saga instance '' @ gid @ '' is not in BLOCKED state, cannot force-mark compensated'')}"
        using f[of "Fmr_Reason req" "Fmr_ClusterId req"] t False by auto
      then consider "x = Ok ()" | "x = Err (''failed to force-mark saga compensated: '' @ sql_error)"
        | "x = Err (''saga instance '' @ gid @ '' is not in BLOCKED state, cannot force-mark compensated'')"
        by blast
      then show ?thesis unfolding s
        by cases (simp_all only: sum.case n c if_True if_False split: if_split, simp_all)
    qed (use Inr in \<open>auto simp: putForceMarkSagaCompensated_def\<close>)
  qed (simp add: putForceMarkSagaCompensated_def)
qed

lemma annex_never_404:
  assumes "w_tx w = None"
  shows "rp_status (fst (postSagaAnnex gid body w)) \<noteq> 404"
proof -
  have "fst (CreateSagaAnnex (Some a) w) \<noteq> Err ErrSagaInstanceNotFound" for a
    using assms
    by (auto simp: CreateSagaAnnex_def db_insert_def db_exec_def next_fault_def Let_def ErrSagaInstanceNotFound_def
        split: list.splits fault.splits sum.splits prod.splits if_splits)
  then show ?thesis
    by (auto simp: postSagaAnnex_def Let_def split: sum.split prod.split) (metis fst_conv)+
qed


section \<open>Examples\<close>

definition exLibrary :: control_library where
  "exLibrary = \<lparr>lib_unmarshal = (\<lambda>_. Err ''invalid''), lib_count = (\<lambda>_ _ d. int (length (db_sagas d))),
     lib_select = (\<lambda>_ _ d. db_sagas d)\<rparr>"

definition exForce :: control_request where
  "exForce = PUT_saga_instances_force_compensated ''g'' (Ok \<lparr>Fmr_ClusterId = ''c'', Fmr_Reason = ''stuck''\<rparr>)"


definition exTwoSagas :: world where
  "exTwoSagas = goroutine (exEnv 0) (exDb\<lparr>db_steps :=
     [zeroStepInstance\<lparr>Ss_ClusterId := ''c'', Ss_SagaInstanceId := ''g1'', Ss_InstanceId := ''a''\<rparr>,
      zeroStepInstance\<lparr>Ss_ClusterId := ''c'', Ss_SagaInstanceId := ''g2'', Ss_InstanceId := ''b''\<rparr>]\<rparr>)"

lemma exTwoSagas_chained: "chained_cluster ''c'' (db_steps (w_db exTwoSagas))"
  unfolding chained_cluster_def
proof (intro conjI allI)
  show "distinct (map Ss_InstanceId (filter (\<lambda>r. Ss_ClusterId r = ''c'') (db_steps (w_db exTwoSagas))))"
    by (simp add: exTwoSagas_def goroutine_def zeroStepInstance_def)
  fix gid
  have "is_chain (saga_rows ''c'' gid (db_steps (w_db exTwoSagas)))"
    by (auto simp: exTwoSagas_def goroutine_def zeroStepInstance_def saga_rows_def is_chain_def)
  then show "\<exists>c. is_chain c \<and> mset c = mset (saga_rows ''c'' gid (db_steps (w_db exTwoSagas)))" by blast
qed

theorem step_listing_shows_one_saga_witness:
  "\<exists>s. postSagaStepInstances (Ok \<lparr>Lss_ClusterId = ''c'', Lss_SagaInstanceId = ''''\<rparr>) exTwoSagas =
     (Some (answer 200 (Value (Steps [s]))), exTwoSagas) \<and> length (db_steps (w_db exTwoSagas)) = 2"
proof -
  let ?req = "\<lparr>Lss_ClusterId = ''c'', Lss_SagaInstanceId = ''''\<rparr>"
  have w: "w_tx exTwoSagas = None" "w_faults exTwoSagas = []" "Lss_ClusterId ?req \<noteq> ''''"
    "chained_cluster (Lss_ClusterId ?req) (db_steps (w_db exTwoSagas))"
    using exTwoSagas_chained by (simp_all add: exTwoSagas_def goroutine_def exEnv_def)
  obtain gid steps where s: "mset steps = mset (saga_rows ''c'' gid (db_steps (w_db exTwoSagas)))"
      "postSagaStepInstances (Ok ?req) exTwoSagas =
        (Some (answer 200 (Value (Steps (map convertSagaStepInstanceToResponse steps)))), exTwoSagas)"
    using step_listing_shows_one_saga[OF w] by auto
  have "(case fst (postSagaStepInstances (Ok ?req) exTwoSagas) of
       Some r \<Rightarrow> (case rp_body r of Value (Steps xs) \<Rightarrow> length xs | _ \<Rightarrow> 0) | None \<Rightarrow> 0) = 1"
    by code_simp
  then have "length steps = 1" using s(2) by simp
  then obtain x where "steps = [x]" by (cases steps) auto
  then show ?thesis using s(2) by (simp add: exTwoSagas_def goroutine_def)
qed

definition exUpload :: createSagaAnnexRequest where
  "exUpload = \<lparr>Car_ClusterId = ''c1'', Car_Iid = ''a1'', Car_ContentType = '''', Car_ContentDataBase64 = ''aGk='', Car_Notes = ''''\<rparr>"

theorem annex_upload_roundtrip_witness:
  "\<exists>w1. fst (getSagaAnnexBytes ''i1'' ''a1'' ''c1'' w1) =
     answer 200 (Value (AnnexBytes ''application/octet-stream'' ''hi'')) \<and>
   snd (postSagaAnnex ''i1'' (Ok exUpload) (exAnnexWorld [])) = w1"
proof -
  have e: "Car_ContentDataBase64 exUpload = base64Encode ''hi''" by code_simp
  have i: "Car_Iid exUpload = ''a1''" "Car_ClusterId exUpload = ''c1''" "Car_ContentType exUpload = ''''"
    by (simp_all add: exUpload_def)
  show ?thesis
    using annex_upload_roundtrip[OF exAnnex_saga(1) _ _ _ e, of "''i1''"] exAnnex_saga(2) by (fastforce simp: i)
qed


end
