(* ===== verification/Watched_Saga.thy ===== *)
theory Watched_Saga
  imports Saga_Watch Saga_Guarantees Control_Guarantees
begin

text \<open>
  A saga watched through the control daemon (\<open>GetSagaStatus\<close>, \<open>GetSagaStepStatuses\<close> and \<open>WatchSaga\<close> of the
  end-to-end framework): each turn asks for the saga and then for its steps, at two moments, and what the
  watcher concludes is compared with what the database holds.
\<close>

section \<open>The fetcher (framework/saga.go)\<close>

text \<open>The JSON encoder as far as texts are concerned: of a reply's body and of a result.\<close>
record json_library =
  js_body :: "reply_body \<Rightarrow> string"
  js_map :: "smap \<Rightarrow> string"

definition GetSagaStatus ::
    "json_library \<Rightarrow> string option \<Rightarrow> string \<Rightarrow> string \<Rightarrow> world \<Rightarrow> (string \<times> string \<times> string) result" where
  "GetSagaStatus js link sagaInstanceID clusterID w =
     (case link of
        Some e \<Rightarrow> Err (''failed to query saga status: '' @ e)
      | None \<Rightarrow>
          let resp = fst (postSagaInstance sagaInstanceID (Ok clusterID) w)
          in if rp_status resp \<noteq> 200
             then Err (''query saga status returned '' @ itoa (rp_status resp) @ '': '' @ js_body js (rp_body resp))
             else case rp_body resp of
                    Value (InstanceDetails g) \<Rightarrow> Ok (Ir_State g, Ir_SagaTemplateId g, Ir_CompensationReason g)
                  | _ \<Rightarrow> Err ''failed to parse response'')"

definition stepStatusOf :: "json_library \<Rightarrow> sagaStepInstanceResponse \<Rightarrow> StepStatus" where
  "stepStatusOf js s =
     \<lparr>Sts_StepInstanceID = Ssr_InstanceId s, Sts_StepTemplateID = Ssr_SagaStepTemplateId s, Sts_Status = Ssr_State s,
      Sts_Result = js_map js (Ssr_Result s), Sts_CompensationResult = js_map js (Ssr_CompensationResult s),
      Sts_ExecutionError = Ssr_ExecutionError s\<rparr>"

text \<open>\<open>None\<close>: the daemon does not answer.\<close>
definition GetSagaStepStatuses ::
    "json_library \<Rightarrow> string option \<Rightarrow> string \<Rightarrow> string \<Rightarrow> world \<Rightarrow> StepStatus list result option" where
  "GetSagaStepStatuses js link sagaInstanceID clusterID w =
     (case link of
        Some e \<Rightarrow> Some (Err (''failed to query saga steps: '' @ e))
      | None \<Rightarrow>
          (case fst (postSagaStepInstances (Ok \<lparr>Lss_ClusterId = clusterID, Lss_SagaInstanceId = sagaInstanceID\<rparr>) w) of
             None \<Rightarrow> None
           | Some resp \<Rightarrow> Some
               (if rp_status resp \<noteq> 200
                then Err (''query saga steps returned '' @ itoa (rp_status resp) @ '': '' @ js_body js (rp_body resp))
                else case rp_body resp of
                       Value (Steps ss) \<Rightarrow> Ok (map (stepStatusOf js) ss)
                     | _ \<Rightarrow> Err ''failed to parse response'')))"

text \<open>One turn: the clock, the database and the environment at each of the two requests, the transport errors,
  and what the children's requests gave.\<close>
record saga_poll =
  po_head :: int
  po_seen :: int
  po_since :: int
  po_db :: db
  po_env :: env
  po_link :: "string option"
  po_stepDb :: db
  po_stepEnv :: env
  po_stepLink :: "string option"
  po_children :: "ChildSagaInfo list result"

text \<open>The fetcher drops the error of the second request: the steps are then empty.\<close>
definition fetchSaga :: "json_library \<Rightarrow> string \<Rightarrow> string \<Rightarrow> saga_poll \<Rightarrow> fetched result option" where
  "fetchSaga js sagaInstanceID clusterID p =
     (case GetSagaStatus js (po_link p) sagaInstanceID clusterID (goroutine (po_env p) (po_db p)) of
        Inl e \<Rightarrow> Some (Err e)
      | Inr (status, templateID, reason) \<Rightarrow>
          map_option (\<lambda>steps. Ok \<lparr>Ft_Status = status, Ft_TemplateID = templateID,
              Ft_Steps = (case steps of Inl _ \<Rightarrow> [] | Inr ss \<Rightarrow> ss), Ft_CompensationReason = reason\<rparr>)
            (GetSagaStepStatuses js (po_stepLink p) sagaInstanceID clusterID (goroutine (po_stepEnv p) (po_stepDb p))))"

definition pollTurnOf :: "json_library \<Rightarrow> string \<Rightarrow> string \<Rightarrow> saga_poll \<Rightarrow> watch_turn option" where
  "pollTurnOf js sagaInstanceID clusterID p =
     map_option (\<lambda>a. \<lparr>tn_head = po_head p, tn_fetch = a, tn_seen = po_seen p, tn_since = po_since p,
         tn_children = po_children p\<rparr>)
       (fetchSaga js sagaInstanceID clusterID p)"

definition sagaWatcherConfig :: "int \<Rightarrow> WatcherConfig" where
  "sagaWatcherConfig timeout = \<lparr>Wc_Timeout = timeout, Wc_PollInterval = 2 * 1000000000,
     Wc_NotFoundTimeout = 60 * 1000000000, Wc_HeartbeatInterval = 10 * 1000000000,
     Wc_DisplayConfig = DefaultConfig, Wc_ChildSagaFetcher = True\<rparr>"

text \<open>\<open>Inl\<close> is the panic on an empty cluster id; \<open>None\<close> a watch that has not returned after these polls.\<close>
definition WatchSaga ::
    "json_library \<Rightarrow> string \<Rightarrow> string \<Rightarrow> int \<Rightarrow> int \<Rightarrow> saga_poll list \<Rightarrow> string + (WatchResult \<times> watch_state) option" where
  "WatchSaga js sagaInstanceID clusterID timeout now polls =
     (if clusterID = '''' then Inl ''WatchSaga: clusterID must not be empty''
      else Inr (case those (map (pollTurnOf js sagaInstanceID clusterID) polls) of
                  None \<Rightarrow> None
                | Some turns \<Rightarrow> Watch (sagaWatcherConfig timeout) sagaInstanceID (NewTiming now) now turns))"

definition WatchSagaUntil ::
    "json_library \<Rightarrow> string \<Rightarrow> string \<Rightarrow> string \<Rightarrow> int \<Rightarrow> int \<Rightarrow> saga_poll list \<Rightarrow> string + (WatchResult \<times> watch_state) option" where
  "WatchSagaUntil js sagaInstanceID clusterID expectedStatus timeout now polls =
     (if clusterID = '''' then Inl ''WatchSagaUntil: clusterID must not be empty''
      else Inr (case those (map (pollTurnOf js sagaInstanceID clusterID) polls) of
                  None \<Rightarrow> None
                | Some turns \<Rightarrow> WatchUntil (sagaWatcherConfig timeout) sagaInstanceID (NewTiming now) expectedStatus now turns))"

section \<open>What an answer says of the database\<close>

lemma status_is_the_row:
  assumes "GetSagaStatus js link gid cid (goroutine e d) = Ok (st, tid, reason)"
  obtains g where "find_saga cid gid d = Some g" "st = sagaStateString (Si_State g)" "tid = Si_SagaTemplateId g"
    "reason = Si_CompensationReason g"
proof -
  have "\<exists>g. find_saga cid gid d = Some g \<and> st = sagaStateString (Si_State g) \<and> tid = Si_SagaTemplateId g
    \<and> reason = Si_CompensationReason g"
    using assms
    by (auto simp: GetSagaStatus_def postSagaInstance_def GetSagaInstance_def db_query_def next_fault_def Let_def
        goroutine_def convertSagaInstanceToResponse_def
        split: option.splits if_splits sum.splits prod.splits list.splits fault.splits)
  then show ?thesis using that by blast
qed

lemma those_member: "those xs = Some ys \<Longrightarrow> y \<in> set ys \<Longrightarrow> Some y \<in> set xs"
  by (induction xs arbitrary: ys) (auto split: option.splits)

lemma answered_status:
  assumes "those (map (pollTurnOf js gid cid) polls) = Some turns" "t \<in> set turns" "tn_fetch t = Inr f"
  obtains p g where "p \<in> set polls" "find_saga cid gid (po_db p) = Some g" "Ft_Status f = sagaStateString (Si_State g)"
    "tn_head t = po_head p"
proof -
  obtain p where p: "p \<in> set polls" "pollTurnOf js gid cid p = Some t"
    using those_member[OF assms(1,2)] by (metis (no_types, lifting) imageE list.set_map)
  obtain st tid reason where st: "GetSagaStatus js (po_link p) gid cid (goroutine (po_env p) (po_db p)) = Ok (st, tid, reason)"
      "Ft_Status f = st" "tn_head t = po_head p"
    using p(2) assms(3) by (auto simp: pollTurnOf_def fetchSaga_def split: sum.splits)
  show ?thesis using status_is_the_row[OF st(1)] st(2,3) p(1) that by metis
qed

lemma find_saga_mem: "find_saga cid gid d = Some g \<Longrightarrow> g \<in> set (db_sagas d) \<and> Si_ClusterId g = cid \<and> Si_InstanceId g = gid"
  by (auto simp: find_saga_def find_Some_iff)

lemma reached_saga:
  assumes "reachable d" "find_saga cid gid d = Some g"
  obtains os where "base d g os" "set (saga_steps cid gid d) = set os"
proof -
  note g = find_saga_mem[OF assms(2)]
  obtain os where os: "base d g os" by (rule reachable_base[OF assms(1)]) (use g in blast)
  have "set (saga_steps cid gid d) = set os"
    using mset_eq_setD[OF base_facts(3)[OF os]] g by (simp add: saga_rows_def saga_steps_def)
  with os that show ?thesis by blast
qed

lemma committed_steps_done:
  assumes "reachable d" "find_saga cid gid d = Some g" "Si_State g = SagaStateEnum_Committed"
  shows "\<forall>x \<in> set (saga_steps cid gid d). Ss_State x = SagaStepStateEnum_ExecutionDone"
proof -
  obtain os where os: "base d g os" "set (saga_steps cid gid d) = set os" by (rule reached_saga[OF assms(1,2)])
  have "all_done (map Ss_State os)" using base_facts(4)[OF os(1)] assms(3) by auto
  then show ?thesis by (auto simp: os(2) all_done_def list_all_iff all_set_conv_all_nth)
qed

lemma backward_not_done: "backward_at ss i \<Longrightarrow> SagaStepStateEnum_ExecutionDone \<notin> set ss"
proof
  assume b: "backward_at ss i" and "SagaStepStateEnum_ExecutionDone \<in> set ss"
  then obtain k where "k < length ss" "ss ! k = SagaStepStateEnum_ExecutionDone" by (metis in_set_conv_nth)
  then show False using b settled_nth[of ss "Suc i" k]
    by (cases k i rule: linorder_cases) (auto simp: backward_at_def cmp_active_def)
qed

lemma compensated_steps_undone:
  assumes "reachable d" "find_saga cid gid d = Some g" "Si_State g = SagaStateEnum_Compensated"
  shows "\<forall>x \<in> set (saga_steps cid gid d). Ss_State x \<noteq> SagaStepStateEnum_ExecutionDone"
proof -
  obtain os where os: "base d g os" "set (saga_steps cid gid d) = set os" by (rule reached_saga[OF assms(1,2)])
  have "compensated (map Ss_State os) \<or> (\<exists>i. backward_at (map Ss_State os) i)"
    using base_facts(4)[OF os(1)] assms(3) by simp
  then have "SagaStepStateEnum_ExecutionDone \<notin> set (map Ss_State os)"
  proof
    assume c: "compensated (map Ss_State os)"
    then show ?thesis using settled_nth[of "map Ss_State os" 0]
      by (force simp: compensated_def in_set_conv_nth)
  qed (auto dest: backward_not_done)
  then show ?thesis by (auto simp: os(2) image_iff)
qed

lemma short_states:
  "ShortenSagaState (sagaStateString s) = ''COMPENSATED'' \<longleftrightarrow> s = SagaStateEnum_Compensated"
  "ShortenSagaState (sagaStateString s) \<in> {''BLOCKED'', ''INVALID_STATE''} \<longleftrightarrow>
     s \<in> {SagaStateEnum_Blocked, SagaStateEnum_InvalidState}"
  by (cases s; simp add: ShortenSagaState_def stripPrefix_def)+

lemma watched:
  assumes "WatchSaga js gid cid timeout now polls = Inr (Some (r, s))"
  obtains turns where "those (map (pollTurnOf js gid cid) polls) = Some turns"
    "Watch (sagaWatcherConfig timeout) gid (NewTiming now) now turns = Some (r, s)"
  using assms by (auto simp: WatchSaga_def split: if_splits option.splits)

section \<open>Properties\<close>

text \<open>C26: the result of a watch is true of the system. When the watch of a saga through the control daemon reports
  success, the saga was COMMITTED in the database one of its requests met and every step of it was done there; when
  it reports a compensated saga, the saga was COMPENSATED and no step of it counted as done; when it reports
  a failed one, the saga was blocked or in the invalid state.  What the coordinators, operators and
  submitters do between the requests does not matter.\<close>
theorem watched_result_is_true:
  assumes "\<forall>p \<in> set polls. reachable (po_db p)"
    and "WatchSaga js gid cid timeout now polls = Inr (Some (r, s))"
  shows "(Wr_Success r \<longrightarrow> (\<exists>p \<in> set polls. \<exists>g. find_saga cid gid (po_db p) = Some g \<and> Si_State g = SagaStateEnum_Committed
      \<and> (\<forall>x \<in> set (saga_steps cid gid (po_db p)). Ss_State x = SagaStepStateEnum_ExecutionDone)))
    \<and> (Wr_Error r = Some WasCompensated \<longrightarrow> (\<exists>p \<in> set polls. \<exists>g. find_saga cid gid (po_db p) = Some g
      \<and> Si_State g = SagaStateEnum_Compensated
      \<and> (\<forall>x \<in> set (saga_steps cid gid (po_db p)). Ss_State x \<noteq> SagaStepStateEnum_ExecutionDone)))
    \<and> (\<forall>st. Wr_Error r = Some (HasFailed st) \<longrightarrow> (\<exists>p \<in> set polls. \<exists>g. find_saga cid gid (po_db p) = Some g
      \<and> Si_State g \<in> {SagaStateEnum_Blocked, SagaStateEnum_InvalidState}))"
proof -
  obtain turns where t: "those (map (pollTurnOf js gid cid) polls) = Some turns"
      "Watch (sagaWatcherConfig timeout) gid (NewTiming now) now turns = Some (r, s)"
    by (rule watched[OF assms(2)])
  have row: "\<exists>p \<in> set polls. \<exists>g. find_saga cid gid (po_db p) = Some g \<and> P (sagaStateString (Si_State g))"
    if "answered turns r P" for P
    using that unfolding answered_def by (metis answered_status[OF t(1)])
  note sound = watch_result_sound[OF t(2)]
  show ?thesis
  proof (intro conjI impI allI)
    assume "Wr_Success r"
    with sound row[of IsSuccessState] obtain p g where p: "p \<in> set polls" "find_saga cid gid (po_db p) = Some g"
        "Si_State g = SagaStateEnum_Committed"
      by (auto simp: success_states)
    with committed_steps_done[OF _ p(2,3)] assms(1) show "\<exists>p \<in> set polls. \<exists>g. find_saga cid gid (po_db p) = Some g
        \<and> Si_State g = SagaStateEnum_Committed
        \<and> (\<forall>x \<in> set (saga_steps cid gid (po_db p)). Ss_State x = SagaStepStateEnum_ExecutionDone)"
      by blast
  next
    assume "Wr_Error r = Some WasCompensated"
    with sound row[of "\<lambda>st. ShortenSagaState st = ''COMPENSATED''"] obtain p g where p: "p \<in> set polls"
        "find_saga cid gid (po_db p) = Some g" "Si_State g = SagaStateEnum_Compensated"
      by (auto simp: short_states)
    with compensated_steps_undone[OF _ p(2,3)] assms(1) show "\<exists>p \<in> set polls. \<exists>g. find_saga cid gid (po_db p) = Some g
        \<and> Si_State g = SagaStateEnum_Compensated
        \<and> (\<forall>x \<in> set (saga_steps cid gid (po_db p)). Ss_State x \<noteq> SagaStepStateEnum_ExecutionDone)"
      by blast
  next
    fix st assume "Wr_Error r = Some (HasFailed st)"
    with sound have "answered turns r (\<lambda>st. ShortenSagaState st \<in> {''BLOCKED'', ''INVALID_STATE''})" by blast
    from row[OF this] show "\<exists>p \<in> set polls. \<exists>g. find_saga cid gid (po_db p) = Some g
        \<and> Si_State g \<in> {SagaStateEnum_Blocked, SagaStateEnum_InvalidState}"
      unfolding short_states .
  qed
qed

definition broken :: "env \<Rightarrow> bool" where
  "broken e = (case env_faults e of f # _ \<Rightarrow> f \<noteq> Works | [] \<Rightarrow> False)"

lemma broken_status:
  assumes "broken e" "gid \<noteq> ''''" "cid \<noteq> ''''"
  shows "\<exists>b. GetSagaStatus js None gid cid (goroutine e d) = Err (''query saga status returned 404: '' @ b)"
proof -
  have i: "itoa 404 = ''404''" by code_simp
  show ?thesis using assms
    by (auto simp: broken_def GetSagaStatus_def postSagaInstance_def GetSagaInstance_def db_query_def next_fault_def
        goroutine_def Let_def i split: list.splits fault.splits)
qed

lemma is_404: "isNotFoundError (''query saga status returned 404: '' @ b)"
proof -
  have "strings_Contains (''query saga status returned '' @ ''404'' @ ('': '' @ b)) ''404''" by (rule contains_infix)
  then show ?thesis by (simp add: isNotFoundError_def watch_contains_eq)
qed

lemma those_mapped: "(\<And>x. x \<in> set xs \<Longrightarrow> f x = Some (g x)) \<Longrightarrow> those (map f xs) = Some (map g xs)"
  by (induction xs) auto

text \<open>C30: a database the daemon cannot read is reported as a saga that does not exist.  The daemon answers 404 to every
  error of the store, and the watcher reads every text with ``404'' as not found: when the status requests
  of the polls meet a failing database for longer than the sixty seconds tolerated, the watch ends with
  NOT\_FOUND long before its timeout, whatever the saga's state is.\<close>
theorem outage_reads_not_found:
  assumes "gid \<noteq> ''''" "cid \<noteq> ''''"
    and "\<forall>p \<in> set (p0 # polls). po_link p = None \<and> broken (po_env p) \<and> po_head p < now + timeout"
    and "\<exists>p \<in> set (p0 # polls). po_since p - po_seen p0 > 60 * 1000000000"
  shows "\<exists>s. WatchSaga js gid cid timeout now (p0 # polls) =
    Inr (Some (emptyWatchResult\<lparr>Wr_FinalStatus := ''NOT_FOUND'', Wr_Error := Some (NotFoundFor (60 * 1000000000))\<rparr>, s))"
proof -
  let ?cfg = "sagaWatcherConfig timeout"
  have "\<exists>b. pollTurnOf js gid cid p = Some \<lparr>tn_head = po_head p, tn_fetch = Err (''query saga status returned 404: '' @ b),
      tn_seen = po_seen p, tn_since = po_since p, tn_children = po_children p\<rparr>" if "p \<in> set (p0 # polls)" for p
    using broken_status[of "po_env p" gid cid js "po_db p"] assms(1-3) that by (auto simp: pollTurnOf_def fetchSaga_def)
  then obtain b where b: "\<And>p. p \<in> set (p0 # polls) \<Longrightarrow> pollTurnOf js gid cid p = Some \<lparr>tn_head = po_head p,
      tn_fetch = Err (''query saga status returned 404: '' @ b p), tn_seen = po_seen p, tn_since = po_since p,
      tn_children = po_children p\<rparr>"
    by metis
  define turn where "turn p = \<lparr>tn_head = po_head p, tn_fetch = Err (''query saga status returned 404: '' @ b p),
      tn_seen = po_seen p, tn_since = po_since p, tn_children = po_children p\<rparr>" for p
  have turns: "those (map (pollTurnOf js gid cid) (p0 # polls)) = Some (map turn (p0 # polls))"
    by (rule those_mapped) (simp add: b turn_def)
  have "\<exists>s. watchLoop ?cfg gid (now + timeout) (turn p0 # map turn polls) (newWatch (NewTiming now)) = Some (notFoundResult ?cfg, s)"
    by (rule watch_loop.loop_missing_first)
      (use assms(3,4) in \<open>auto simp: turn_def missed_def is_404[simplified] newWatch_def sagaWatcherConfig_def\<close>)
  then show ?thesis
    using assms(2) turns by (simp add: WatchSaga_def Watch_def notFoundResult_def sagaWatcherConfig_def)
qed

section \<open>Examples\<close>

definition exJson :: json_library where
  "exJson = \<lparr>js_body = (\<lambda>_. ''{}''), js_map = (\<lambda>_. ''{}'')\<rparr>"

definition exPollAt :: "int \<Rightarrow> fault list \<Rightarrow> db \<Rightarrow> saga_poll" where
  "exPollAt n fs d = \<lparr>po_head = n, po_seen = n, po_since = n, po_db = d, po_env = (exEnv 0)\<lparr>env_faults := fs\<rparr>, po_link = None,
     po_stepDb = d, po_stepEnv = exEnv 0, po_stepLink = None, po_children = Inr []\<rparr>"

theorem outage_reads_not_found_witness:
  "\<exists>s. WatchSaga exJson ''g'' ''c'' (600 * 1000000000) 0
     [exPollAt 1 [Fails] exCommitted, exPollAt (61 * 1000000000 + 1) [Fails] exCommitted] =
    Inr (Some (emptyWatchResult\<lparr>Wr_FinalStatus := ''NOT_FOUND'', Wr_Error := Some (NotFoundFor (60 * 1000000000))\<rparr>, s))"
  by (rule outage_reads_not_found) (simp_all add: exPollAt_def broken_def)


definition exWatched :: "(WatchResult \<times> watch_state) option" where
  "exWatched = (case WatchSaga exJson ''g'' ''c'' 100 0 [exPollAt 1 [] exCommitted] of Inr x \<Rightarrow> x | Inl _ \<Rightarrow> None)"

lemma exWatched_success: "map_option (Wr_Success \<circ> fst) exWatched = Some True"
  unfolding exWatched_def exCommitted_def by code_simp

theorem watched_result_is_true_witness:
  "\<exists>g. find_saga ''c'' ''g'' exCommitted = Some g \<and> Si_State g = SagaStateEnum_Committed"
proof -
  obtain r s where rs: "exWatched = Some (r, s)" "Wr_Success r" using exWatched_success by auto
  then have "WatchSaga exJson ''g'' ''c'' 100 0 [exPollAt 1 [] exCommitted] = Inr (Some (r, s))"
    by (auto simp: exWatched_def split: sum.splits)
  from watched_result_is_true[OF _ this] rs(2) ex_reachable(2) show ?thesis by (simp add: exPollAt_def) blast
qed

end
