(* ===== verification/Spec2Isabelle.thy ===== *)
theory Spec2Isabelle
  imports Saga_Guarantees Saga_Liveness_Guarantees Step_Executor Saga_Listing Inmem_Listing Keyed_Lock Redis_Lock Cache_Read Coordinator_Runtime
    Exclusive_Consumer Message_Builders Watched_Saga
begin

text \<open>
  \<^bold>\<open>trax\<close> runs sagas: a saga is a sequence of steps, each executed by a remote executor and compensated in
  reverse order when a later one fails.  A \<^emph>\<open>coordinator\<close> (\<open>pkg/trax/coordinator.go\<close>) keeps the sagas in a
  PostgreSQL store (\<open>store_psql.go\<close>), polls it for steps to advance, sends requests to the executors
  (\<open>executor.go\<close>) over RabbitMQ and consumes their results; a \<^emph>\<open>submitter\<close> (\<open>submitter.go\<close>) announces itself
  to the coordinators and sends them submissions; a step may spawn a sub-saga (\<open>sub_saga_executor.go\<close>).
  Several coordinators share one database; the work on one saga runs under a distributed mutex
  (\<open>pkg/cache\<close>).  A control daemon (\<open>pkg/daemons/traxctrl\<close>) serves operators over HTTP from the same database, and
  a watcher (\<open>pkg/trax/watch\<close>) follows a saga through it.

  \<^bold>\<open>Theories and code.\<close>
  \<^item> \<open>Prelude\<close>, \<open>Go_Strings\<close>: results, the outcome of a remote call (\<open>fault\<close>: it works, it fails, or it works
    and its acknowledgement is lost), list lemmas; the functions of Go's \<open>strings\<close> and \<open>strconv\<close> the code uses.
  \<^item> \<open>Trax_Types\<close>, \<open>Trax_Naming\<close>, \<open>Trax_Messages\<close>, \<open>Common_Random\<close>: \<open>types.go\<close>, \<open>const.go\<close>, \<open>common.go\<close>, \<open>mq.go\<close>,
    \<open>messages.go\<close>, \<open>pkg/common/random.go\<close>.  \<open>Message_Builders\<close>: the builders of \<open>messages.go\<close>, those of a
    message over an explicit store, since they update a map and slices in place, and \<open>Clone\<close>, which shares neither.
  \<^item> \<open>Store_Psql\<close>, \<open>Store_Templates\<close>, \<open>Store_Listing\<close>: the PostgreSQL store.  A \<open>world\<close> is what one goroutine sees:
    the rows, its transaction (the rows a rollback returns to, and whether PostgreSQL has aborted it), the
    script of faults, the clock, the random strings, and what it published and spawned.
  \<^item> \<open>Query_Clauses\<close>, \<open>Saga_Listing\<close>: the SQL text of a paginated listing (\<open>pkg/common/query_helpers.go\<close>) and the
    request of the control daemon it comes from.
  \<^item> \<open>Saga_Registry\<close>: the interface of a store of sagas as a locale; \<open>Store_Psql\<close> provides it there and the
    in-memory store (\<open>store_inmem.go\<close>) in \<open>Store_Inmem\<close>; \<open>Inmem_Listing\<close> is its paginated listing.
  \<^item> \<open>Step_Order\<close>, \<open>Saga_Validation\<close>: the walk along the chain of steps and the two validators of a saga's states.
  \<^item> \<open>Handler_Monad\<close>, \<open>Coordinator_Transit\<close>, \<open>Coordinator_Steps\<close>, \<open>Coordinator_Results\<close>, \<open>Coordinator_Poll\<close>,
    \<open>Coordinator_Submission\<close>: the coordinator.  A handler is a state transformer on the saga, the step and the
    world with early exits: \<open>return\<close>, a panic, or leaving the body of a function with a deferred rollback.
  \<^item> \<open>Coordinator_Loop\<close>, \<open>Coordinator_Runtime\<close>: the polling loop of a cluster with its backoff and circuit breaker;
    start, stop and restart, template reload, notifications, control messages and the announcement of
    submitters, on a state that lists the loops and consumers that run.
  \<^item> \<open>Saga_Invariant\<close>, \<open>Saga_Rules\<close>, \<open>Saga_View\<close>, \<open>Handler_Safety\<close>, \<open>Saga_Safety\<close>, \<open>Submission_Safety\<close>: the pattern the
    step states of a saga follow in each of its states, the rules by which it moves, and the proof that every
    handler, whatever fails in it, leaves durable rows that follow it.
  \<^item> \<open>Saga_System\<close>, \<open>Saga_Example\<close>, \<open>Saga_Guarantees\<close>: the reachable databases, a concrete run, the guarantees.
  \<^item> \<open>Quiet_Rules\<close>, \<open>Saga_Progress\<close>, \<open>Saga_Children\<close>, \<open>Saga_Liveness\<close>, \<open>Result_Progress\<close>, \<open>Saga_Completion\<close>,
    \<open>Saga_Liveness_Guarantees\<close>: total correctness.  On a goroutine nothing disturbs every call goes through;
    what each handler, poll and result then does to the states of the steps, and the schedules that bring a
    saga to its end.
  \<^item> \<open>Step_Executor\<close>, \<open>Saga_Submitter\<close>: the executor, the submitter and the sub-saga executor.
  \<^item> \<open>Lease_Lock\<close>: a lock with a lease as a locale; \<open>Keyed_Lock\<close> (\<open>pgsql_keyed_lock.go\<close>) and \<open>Redis_Lock\<close>
    (\<open>redis_impl.go\<close>) interpret it; \<open>Cache_Read\<close> is the read-through cache.
  \<^item> \<open>Mq_Delivery\<close>, \<open>Publisher_Confirms\<close>, \<open>Channel_Pool\<close>, \<open>Channel_Publishing\<close>, \<open>Queue_Consumer\<close>,
    \<open>Exclusive_Consumer\<close>: the client of the message broker (\<open>pkg/mq/common\<close>, \<open>pkg/mq/init.go\<close>): what happens to a
    delivered message, confirmations and their sequence numbers, the pool of channels, the attempts of a
    publish, the consumer of a queue, declarations, and the consumer of an exclusive queue.
  \<^item> \<open>Go_Base64\<close>, \<open>Control_Api\<close>, \<open>Control_Guarantees\<close>: the HTTP API of the control daemon (\<open>api/v1\<close>): one function per
    handler, the replies, the route table as \<open>serve\<close>, and each request as an event of \<open>Saga_System\<close>.
  \<^item> \<open>Watch_Status\<close>, \<open>Saga_Watch\<close>, \<open>Watched_Saga\<close>: the watcher: what it computes of a saga's steps, its two loops,
    which interpret the locale \<open>watching\<close>, on a list of turns, and a watch through the handlers of \<open>Control_Api\<close>.

  \<^bold>\<open>What is shown.\<close>  For the coordinator: in every reachable database each saga's steps form one chain and
  their states a pattern its state allows, at most one step is in progress, a committed saga is all done
  and a compensated one has nothing done, no event panics but one, histories fit states
  (\<open>Saga_Guarantees\<close>); a saga whose steps succeed is committed, one whose step has failed is compensated, no running
  saga is stuck, and a lost request is never noticed (\<open>Saga_Liveness_Guarantees\<close>); the step order and both validators against declarative descriptions; submission,
  execution and routing end to end; the polling loop starts workers exactly for the eligible steps, a
  reload declares every queue, starting and stopping are inverse, an announced submitter is followed.  For
  the broker client: exclusive checkout and accounting of channels, whose confirmation a publish
  reports, the fate of a message that always fails.  For the stores: idempotent saving through one locale for both, annex
  retries and their lack of atomicity, listings.  For the locks: mutual exclusion while a lease lives,
  stealing after it, no deadlock and all-or-nothing for several keys.  For the control daemon: every
  request is an event or leaves the rows alone, so the guarantees hold with operators at work; no
  request touches a step, and none but a forced end changes a saga's state; what is uploaded as an annex is what its saga serves.  For the watcher: it
  returns within the requests that fit into its timeout, what it prints is properly nested, the window of
  steps is in range, and what it reports of a saga watched through the daemon is true of a database on the
  way.  Several theorems state what the code does where it does not do what it means to (a lost
  placeholder, a refused annex, a lost cache update, a mutex freed by a former owner, a channel pool
  exhausted by failed publishes, readers that pile up on a queue, a listing of all steps that shows one
  saga, documented statuses that are never sent, an outage reported as a missing saga).

  \<^bold>\<open>Atomicity.\<close>  An event of \<open>Saga_System\<close> is the whole work of one goroutine on one saga.  The poll and the
  immediate processing of a step run under the saga's mutex; the consumer of results takes none, so its
  being atomic against the others is an assumption of the model, and so is that a saga's mutex does not
  expire while it is worked on.  Failures inside an event are not limited: every call on the store or the
  broker may fail or lose its acknowledgement, and what an event leaves behind is what is durable then.

  \<^bold>\<open>Bounds and fuel.\<close>  The chain walk takes as fuel one more than the number of steps, and \<open>order_fuel_sufficient\<close>
  shows that running out of it means the Go loop does not end.  The follow-up loop is bounded in the code
  itself.  The waiting loops (locks, \<open>WaitForSagaCompletion\<close>, \<open>pollForCompletion\<close>) run on a script of turns and
  answer \<open>None\<close> when it ends first; the termination theorems say which scripts end them.  The loops of the
  watcher run on a list of turns in the same way.

  \<^bold>\<open>Parameters.\<close>  Random bytes, clocks, faults and what PostgreSQL answers to the text of a listing query are
  arguments; JSON is the identity on the payloads the code itself builds and an argument where it decodes
  foreign text; a user's service and the HTTP answers to the sub-saga executor come with the events.  The text of
  an error keeps its wording; durations and repeated identifiers in it are left out.

  \<^bold>\<open>Not modelled.\<close>  Logging, schema creation and the notification listener of the store, the AMQP library itself
  (its answers are inputs), the remaining Redis commands, the start-up of the daemons and the HTTP handler of
  the coordinator, command line tools, the text the watcher prints, FIX session helpers and the end-to-end
  tests but for the watcher's fetcher.
\<close>

end
